(* ===== verification/Prelude.thy ===== *)
theory Prelude
  imports Main "HOL-Library.Word" "HOL-Library.AList" "HOL-Library.Multiset"
    "HOL-Library.Monad_Syntax"
begin

text \<open>
  Shared vocabulary of the development: Go's fixed-width integers, times and durations, errors,
  string maps, pointers into a store, and \<^verbatim>\<open>sort.Slice\<close>.

  Conventions used by every other theory:
  \<^item> a Go panic (a nil dereference, a failed assertion, a call of a nil function) is the value
    \<open>None\<close> of an \<open>option\<close>, and code that may panic is written with the option monad's
    \<open>do\<close> notation;
  \<^item> a Go error is a value of type \<open>goerror\<close>, returned as \<open>goerror option\<close> (\<open>None\<close> is
    \<^verbatim>\<open>nil\<close>) or as \<open>goerror + 'a\<close>;
  \<^item> \<^verbatim>\<open>uint32\<close> is \<open>32 word\<close>; \<^verbatim>\<open>int32\<close> and \<^verbatim>\<open>int64\<close> are \<open>int\<close>, with
    \<open>wrap32\<close> and \<open>wrap64\<close> written after each operation that can overflow;
  \<^item> a \<^verbatim>\<open>time.Time\<close> is the number of nanoseconds since Go's zero time (so the zero time is 0),
    and a \<^verbatim>\<open>*metav1.Time\<close> is a \<open>time option\<close>.
\<close>

named_theorems go_simps \<open>unfolding rules of the small helpers of the model\<close>

section \<open>Integers\<close>

type_synonym u32 = "32 word"
type_synonym int32 = int
type_synonym int64 = int

definition wrap32 :: "int \<Rightarrow> int32" where
  "wrap32 x = (x + 2 ^ 31) mod 2 ^ 32 - 2 ^ 31"

definition wrap64 :: "int \<Rightarrow> int64" where
  "wrap64 x = (x + 2 ^ 63) mod 2 ^ 64 - 2 ^ 63"

text \<open>The conversions \<^verbatim>\<open>int32(u)\<close> and \<^verbatim>\<open>uint32(n)\<close>.\<close>

definition i32_of_u32 :: "u32 \<Rightarrow> int32" where
  "i32_of_u32 u = sint u"

definition u32_of_int :: "int \<Rightarrow> u32" where
  "u32_of_int n = word_of_int n"

lemma wrap32_id [simp]: "- (2 ^ 31) \<le> x \<Longrightarrow> x < 2 ^ 31 \<Longrightarrow> wrap32 x = x"
  by (simp add: wrap32_def)

lemma wrap64_id [simp]: "- (2 ^ 63) \<le> x \<Longrightarrow> x < 2 ^ 63 \<Longrightarrow> wrap64 x = x"
  by (simp add: wrap64_def)

lemma wrap32_range: "- (2 ^ 31) \<le> wrap32 x \<and> wrap32 x < 2 ^ 31"
proof -
  have "0 \<le> (x + 2 ^ 31) mod 2 ^ 32" "(x + 2 ^ 31) mod 2 ^ 32 < (2::int) ^ 32"
    by (simp_all only: pos_mod_sign pos_mod_bound zero_less_power zero_less_numeral)
  then show ?thesis by (simp add: wrap32_def)
qed

lemma i32_of_u32_small: "unat u < 2 ^ 31 \<Longrightarrow> i32_of_u32 u = int (unat u)"
proof -
  assume "unat u < 2 ^ 31"
  then have "int (unat u) < int (2 ^ 31)" by (simp only: of_nat_less_iff)
  then have u: "uint u < 2 ^ 31" by simp
  have "sint u = signed_take_bit 31 (uint u)" by (simp add: sint_uint)
  also have "\<dots> = uint u" using u uint_ge_0 [of u] by (intro signed_take_bit_int_eq_self) (auto intro: order_trans [of _ 0])
  finally show ?thesis by (simp add: i32_of_u32_def)
qed

section \<open>Times, durations, errors\<close>

type_synonym time = int
type_synonym duration = int64

abbreviation (input) zero_time :: time where
  "zero_time \<equiv> 0"

definition nanosecond :: int where "nanosecond = 1"
definition second :: int where "second = 10 ^ 9"
definition minute :: int where "minute = 60 * 10 ^ 9"
definition hour :: int where "hour = 3600 * 10 ^ 9"

text \<open>\<^verbatim>\<open>t.Sub(u)\<close>, and so \<^verbatim>\<open>time.Since\<close>: the difference, at the nearest \<^verbatim>\<open>int64\<close>.\<close>

definition time_Sub :: "time \<Rightarrow> time \<Rightarrow> duration" where
  "time_Sub t u = max (- (2 ^ 63)) (min (2 ^ 63 - 1) (t - u))"

text \<open>
  What the code can tell about an error: whether it is Kubernetes' ``not found'', a missing kind
  (\<^verbatim>\<open>meta.NoKindMatchError\<close>), or anything else, with its message; \<open>Wrapf\<close> is an error wrapped by
  \<^verbatim>\<open>fmt.Errorf\<close> with \<^verbatim>\<open>%w\<close>.
\<close>

datatype goerror = NotFound | NoKindMatch | Errorf string | Wrapf string goerror

text \<open>Error-returning calls in sequence: \<^verbatim>\<open>if err := f(); err != nil { return err }\<close>.\<close>

definition andThen :: "('w \<Rightarrow> goerror option \<times> 'w) \<Rightarrow> ('w \<Rightarrow> goerror option \<times> 'w) \<Rightarrow>
    'w \<Rightarrow> goerror option \<times> 'w" where
  "andThen f g w = (case f w of (Some e, w') \<Rightarrow> (Some e, w') | (None, w') \<Rightarrow> g w')"

lemma andThen_ok: "fst (f w) = None \<Longrightarrow> andThen f g w = g (snd (f w))"
  by (auto simp: andThen_def split: prod.splits)

lemma andThen_err: "fst (f w) = Some e \<Longrightarrow> andThen f g w = (Some e, snd (f w))"
  by (auto simp: andThen_def split: prod.splits)

section \<open>String maps\<close>

text \<open>
  A Go map is an association list with distinct keys (the order is the iteration order); a map that
  may be nil is an option of one. Reading a nil map gives no entry, writing one panics.
\<close>

type_synonym strmap = "(string \<times> string) list"

fun mlookup :: "strmap option \<Rightarrow> string \<Rightarrow> string option" where
  "mlookup None k = None"
| "mlookup (Some m) k = map_of m k"

fun mwrite :: "strmap option \<Rightarrow> string \<Rightarrow> string \<Rightarrow> strmap option option" where
  "mwrite None k v = None"
| "mwrite (Some m) k v = Some (Some (AList.update k v m))"

text \<open>\<^verbatim>\<open>m[k]\<close> in an expression: the value, or the empty string.\<close>

definition mget :: "strmap option \<Rightarrow> string \<Rightarrow> string" where
  "mget m k = (case mlookup m k of None \<Rightarrow> [] | Some v \<Rightarrow> v)"

text \<open>\<^verbatim>\<open>for k, v := range src { dst[k] = v }\<close>\<close>

definition copy_into :: "('k \<times> 'v) list \<Rightarrow> ('k \<times> 'v) list \<Rightarrow> ('k \<times> 'v) list" where
  "copy_into src dst = fold (\<lambda>(k, v). AList.update k v) src dst"

lemma map_of_update [simp]: "map_of (AList.update k v m) = (map_of m)(k \<mapsto> v)"
  by (rule ext) (simp add: update_conv')

lemma distinct_update [simp]:
  "distinct (map fst m) \<Longrightarrow> distinct (map fst (AList.update k v m))"
  by (rule AList.distinct_update)

lemma update_set_subset: "set (AList.update k v m) \<subseteq> insert (k, v) (set m)"
  by (induction m) auto

lemma fst_set_update [simp]: "fst ` set (AList.update k v m) = insert k (fst ` set m)"
  by (induction m) auto

lemma map_of_copy_into:
  "distinct (map fst src) \<Longrightarrow>
   map_of (copy_into src dst) k = (case map_of src k of None \<Rightarrow> map_of dst k | Some v \<Rightarrow> Some v)"
proof (induction src arbitrary: dst)
  case Nil
  then show ?case by (simp add: copy_into_def)
next
  case (Cons kv src)
  obtain k' v' where [simp]: "kv = (k', v')" by force
  from Cons.prems have "k' \<notin> dom (map_of src)" by (simp add: dom_map_of_conv_image_fst)
  then have "map_of src k' = None" by blast
  then show ?case
    using Cons.IH [of "AList.update k' v' dst"] Cons.prems
    by (auto simp: copy_into_def split: option.splits)
qed

section \<open>sort.Slice\<close>

text \<open>
  \<^verbatim>\<open>sort.Slice(xs, lt)\<close>: some permutation of \<open>xs\<close> in which no later element is less than an
  earlier one. Go leaves the order of equivalent elements open; the model keeps the order they come
  in, and since the slices sorted here are built from a Go map (an arbitrary iteration order) or from
  a list the theorems quantify over, every order of equivalent elements arises from some input.
\<close>

fun insort_by :: "('a \<Rightarrow> 'a \<Rightarrow> bool) \<Rightarrow> 'a \<Rightarrow> 'a list \<Rightarrow> 'a list" where
  "insort_by lt x [] = [x]"
| "insort_by lt x (y # ys) = (if lt y x then y # insort_by lt x ys else x # y # ys)"

fun sort_Slice :: "('a \<Rightarrow> 'a \<Rightarrow> bool) \<Rightarrow> 'a list \<Rightarrow> 'a list" where
  "sort_Slice lt [] = []"
| "sort_Slice lt (x # xs) = insort_by lt x (sort_Slice lt xs)"

lemma mset_insort_by [simp]: "mset (insort_by lt x xs) = add_mset x (mset xs)"
  by (induction xs) auto

lemma mset_sort_Slice [simp]: "mset (sort_Slice lt xs) = mset xs"
  by (induction xs) auto

lemma set_insort_by [simp]: "set (insort_by lt x xs) = insert x (set xs)"
  by (induction xs) auto

lemma set_sort_Slice [simp]: "set (sort_Slice lt xs) = set xs"
  by (induction xs) auto

lemma length_sort_Slice [simp]: "length (sort_Slice lt xs) = length xs"
  by (metis mset_sort_Slice size_mset)

lemma sort_Slice_Nil_iff [simp]: "sort_Slice lt xs = [] \<longleftrightarrow> xs = []"
  by (metis length_0_conv length_sort_Slice)

lemma distinct_map_mset_eq:
  "mset xs = mset ys \<Longrightarrow> distinct (map f xs) \<longleftrightarrow> distinct (map f ys)"
  by (metis mset_eq_imp_distinct_iff mset_map)

lemma distinct_map_sort_Slice [simp]:
  "distinct (map f (sort_Slice lt xs)) \<longleftrightarrow> distinct (map f xs)"
  by (rule distinct_map_mset_eq) simp

lemma filter_insort_by_drop: "\<not> P x \<Longrightarrow> filter P (insort_by lt x xs) = filter P xs"
  by (induction xs) auto

lemma insort_by_hd: "\<forall>y \<in> set xs. \<not> lt y x \<Longrightarrow> insort_by lt x xs = x # xs"
  by (cases xs) auto

text \<open>
  The contract \<^verbatim>\<open>sort.Slice\<close> asks of its comparison: a strict weak order. Each comparison the
  program passes is an interpretation of this locale.
\<close>

locale strict_weak_order =
  fixes lt :: "'a \<Rightarrow> 'a \<Rightarrow> bool"
  assumes asym: "lt x y \<Longrightarrow> \<not> lt y x"
    and negtrans: "\<not> lt x y \<Longrightarrow> \<not> lt y z \<Longrightarrow> \<not> lt x z"
begin

lemma irrefl: "\<not> lt x x"
  using asym by blast

lemma less_trans: "lt x y \<Longrightarrow> lt y z \<Longrightarrow> lt x z"
  using asym negtrans by blast

lemma insort_by_sorted:
  "sorted_wrt (\<lambda>x y. \<not> lt y x) xs \<Longrightarrow> sorted_wrt (\<lambda>x y. \<not> lt y x) (insort_by lt x xs)"
proof (induction xs)
  case Nil
  then show ?case by simp
next
  case (Cons y ys)
  show ?case
  proof (cases "lt y x")
    case True
    with Cons show ?thesis by (auto dest: asym)
  next
    case False
    with Cons.prems show ?thesis using negtrans by fastforce
  qed
qed

lemma sort_Slice_sorted: "sorted_wrt (\<lambda>x y. \<not> lt y x) (sort_Slice lt xs)"
  by (induction xs) (auto intro: insort_by_sorted)

text \<open>The first element is not beaten by any other.\<close>

lemma sort_Slice_hd: "sort_Slice lt xs = y # ys \<Longrightarrow> x \<in> set xs \<Longrightarrow> \<not> lt x y"
proof -
  assume eq: "sort_Slice lt xs = y # ys" and "x \<in> set xs"
  then have "x \<in> set (y # ys)" by (metis set_sort_Slice)
  then show ?thesis using sort_Slice_sorted [of xs] irrefl by (auto simp: eq)
qed

lemma insort_by_id: "(\<And>y. y \<in> set xs \<Longrightarrow> \<not> lt y x) \<Longrightarrow> insort_by lt x xs = x # xs"
  by (cases xs) auto

lemma sort_Slice_sorted_id:
  "sorted_wrt (\<lambda>x y. \<not> lt y x) xs \<Longrightarrow> sort_Slice lt xs = xs"
  by (induction xs) (auto intro: insort_by_id)

lemma sort_Slice_idem: "sort_Slice lt (sort_Slice lt xs) = sort_Slice lt xs"
  by (rule sort_Slice_sorted_id) (rule sort_Slice_sorted)

end

text \<open>Comparing by a key: Go's \<open>a.After(b)\<close> on times, \<open><\<close> on ports and on names.\<close>

lemma strict_weak_order_key:
  fixes key :: "'a \<Rightarrow> 'b::linorder"
  shows "strict_weak_order (\<lambda>x y. key x < key y)"
  by unfold_locales auto

lemma strict_weak_order_key_rev:
  fixes key :: "'a \<Rightarrow> 'b::linorder"
  shows "strict_weak_order (\<lambda>x y. key y < key x)"
  by unfold_locales auto

lemma sort_Slice_map:
  "(\<And>x y. lt' (f x) (f y) = lt x y) \<Longrightarrow> sort_Slice lt' (map f xs) = map f (sort_Slice lt xs)"
proof (induction xs)
  case Nil
  then show ?case by simp
next
  case (Cons x xs)
  have "insort_by lt' (f x) (map f ys) = map f (insort_by lt x ys)" for ys
    by (induction ys) (auto simp: Cons.prems)
  with Cons show ?case by simp
qed

section \<open>Lists\<close>

lemma sum_list_update_add:
  fixes f :: "'a \<Rightarrow> nat"
  assumes "i < length xs" and "f x = f (xs ! i) + k"
  shows "sum_list (map f (xs[i := x])) = sum_list (map f xs) + k"
  using assms by (induction xs arbitrary: i) (auto split: nat.splits)

lemma mset_filter_disj:
  "(\<And>x. x \<in> set xs \<Longrightarrow> \<not> (P x \<and> Q x)) \<Longrightarrow>
   mset (filter P xs @ filter Q xs) = mset (filter (\<lambda>x. P x \<or> Q x) xs)"
  by (induction xs) auto

end
