(* ===== verification/Float64.thy ===== *)
theory Float64
  imports Prelude "HOL-Library.Log_Nat"
begin

text \<open>
  Go's \<^verbatim>\<open>float64\<close>: finite IEEE 754 binary64 values as rationals, each arithmetic operation the exact
  result rounded to 53 significant bits, ties to even. The exponent range is not bounded: overflow to
  infinity (beyond \<open>2 ^ 1024\<close>) and gradual underflow (below \<open>2 ^ (-1022)\<close>) are outside the model,
  and replica counts, percentages and scaling factors stay far inside it. Rounding matters here: the
  replica arithmetic takes ceilings of rounded products.
\<close>

type_synonym float64 = rat

section \<open>Rounding\<close>

text \<open>The binary exponent of a positive rational: \<open>2 powi e \<le> x < 2 powi (e + 1)\<close>.\<close>

definition float_exp :: "rat \<Rightarrow> int" where
  "float_exp x = (case quotient_of x of (p, q) \<Rightarrow>
     let e = bitlen p - bitlen q in if 2 powi e \<le> x then e else e - 1)"

text \<open>Round to the nearest integer, ties to even.\<close>

definition rne :: "rat \<Rightarrow> int" where
  "rne x = (let n = \<lfloor>x\<rfloor>; d = x - of_int n in
     if d < 1 / 2 \<or> (d = 1 / 2 \<and> even n) then n else n + 1)"

definition fl_pos :: "rat \<Rightarrow> float64" where
  "fl_pos x = (let e = float_exp x in of_int (rne (x * 2 powi (52 - e))) * 2 powi (e - 52))"

definition fl :: "rat \<Rightarrow> float64" where
  "fl x = (if x = 0 then 0 else if 0 < x then fl_pos x else - fl_pos (- x))"

section \<open>Operations\<close>

definition float_of_int :: "int \<Rightarrow> float64" where
  "float_of_int n = fl (of_int n)"

definition fmul :: "float64 \<Rightarrow> float64 \<Rightarrow> float64" where
  "fmul x y = fl (x * y)"

definition fdiv :: "float64 \<Rightarrow> float64 \<Rightarrow> float64" where
  "fdiv x y = fl (x / y)"

text \<open>\<^verbatim>\<open>math.Ceil\<close> and \<^verbatim>\<open>math.Floor\<close>, with the integer they denote.\<close>

definition math_Ceil :: "float64 \<Rightarrow> int" where
  "math_Ceil x = \<lceil>x\<rceil>"

definition math_Floor :: "float64 \<Rightarrow> int" where
  "math_Floor x = \<lfloor>x\<rfloor>"

section \<open>Facts about rounding\<close>

lemma rne_bounds: "\<lfloor>x\<rfloor> \<le> rne x \<and> rne x \<le> \<lfloor>x\<rfloor> + 1"
  by (simp add: rne_def Let_def)

lemma rne_of_int [simp]: "rne (of_int n) = n"
  by (simp add: rne_def)

lemma rne_mono: "x \<le> y \<Longrightarrow> rne x \<le> rne y"
proof -
  assume le: "x \<le> y"
  then have "\<lfloor>x\<rfloor> \<le> \<lfloor>y\<rfloor>" by (rule floor_mono)
  then consider "\<lfloor>x\<rfloor> = \<lfloor>y\<rfloor>" | "\<lfloor>x\<rfloor> + 1 \<le> \<lfloor>y\<rfloor>" by linarith
  then show ?thesis
  proof cases
    case 1
    with le show ?thesis by (auto simp: rne_def Let_def)
  next
    case 2
    with rne_bounds [of x] rne_bounds [of y] show ?thesis by linarith
  qed
qed

lemma rne_err: "\<bar>of_int (rne x) - x\<bar> \<le> 1 / 2"
proof -
  have "of_int \<lfloor>x\<rfloor> \<le> x" "x < of_int \<lfloor>x\<rfloor> + 1" by linarith+
  then show ?thesis by (auto simp: rne_def Let_def abs_le_iff)
qed

lemma powi_nat_diff:
  "0 \<le> a \<Longrightarrow> 0 \<le> b \<Longrightarrow> (2::rat) powi (a - b) = 2 ^ nat a / 2 ^ nat b"
  using power_int_diff [of "2::rat" a b] by (simp add: power_int_nonneg_exp)

lemma of_int_power_le_rat: "(2::rat) ^ n \<le> of_int p \<longleftrightarrow> 2 ^ n \<le> p"
  by (metis of_int_le_iff of_int_numeral of_int_power)

lemma of_int_power_less_rat: "of_int p < (2::rat) ^ n \<longleftrightarrow> p < 2 ^ n"
  by (metis of_int_less_iff of_int_numeral of_int_power)

lemma of_int_le_power_rat: "of_int p \<le> (2::rat) ^ n \<longleftrightarrow> p \<le> 2 ^ n"
  by (metis of_int_le_iff of_int_numeral of_int_power)

lemma float_exp_bounds:
  assumes "0 < x"
  shows "2 powi float_exp x \<le> x" and "x < 2 powi (float_exp x + 1)"
proof -
  obtain p q where pq: "quotient_of x = (p, q)" by force
  then have q0: "0 < q" by (rule quotient_of_denom_pos)
  from pq have x: "x = of_int p / of_int q" by (rule quotient_of_div)
  with assms q0 have p0: "0 < p"
    by (simp add: zero_less_divide_iff)
  let ?a = "bitlen p" and ?b = "bitlen q"
  have a1: "1 \<le> ?a" and b1: "1 \<le> ?b"
    using p0 q0 bitlen_eq_zero_iff [of p] bitlen_eq_zero_iff [of q] bitlen_nonneg [of p]
      bitlen_nonneg [of q] by linarith+
  have pb: "2 ^ nat (?a - 1) \<le> p" "p < 2 ^ nat ?a"
    using bitlen_bounds [OF p0] by auto
  have qb: "2 ^ nat (?b - 1) \<le> q" "q < 2 ^ nat ?b"
    using bitlen_bounds [OF q0] by auto
  have pr: "(2::rat) ^ nat (?a - 1) \<le> of_int p" "of_int p < (2::rat) ^ nat ?a"
    using pb by (simp_all only: of_int_power_le_rat of_int_power_less_rat)
  have qr: "(2::rat) ^ nat (?b - 1) \<le> of_int q" "of_int q < (2::rat) ^ nat ?b"
    using qb by (simp_all only: of_int_power_le_rat of_int_power_less_rat)
  have q0': "(0::rat) < of_int q" using q0 by simp
  have lo: "2 powi (?a - ?b - 1) \<le> x"
  proof -
    have "(2::rat) powi (?a - ?b - 1) = 2 powi ((?a - 1) - ?b)"
      by (simp add: algebra_simps)
    also have "\<dots> = 2 ^ nat (?a - 1) / 2 ^ nat ?b"
      using a1 b1 by (intro powi_nat_diff) auto
    also have "\<dots> \<le> of_int p / of_int q"
      using pr qr q0' p0 by (intro frac_le) auto
    finally show ?thesis by (simp add: x)
  qed
  have hi: "x < 2 powi (?a - ?b + 1)"
  proof -
    have "of_int p / of_int q < (2::rat) ^ nat ?a / 2 ^ nat (?b - 1)"
      using pr qr q0' p0 by (intro frac_less) auto
    also have "\<dots> = 2 powi (?a - (?b - 1))"
      using a1 b1 by (intro powi_nat_diff [symmetric]) auto
    finally show ?thesis by (simp add: x algebra_simps)
  qed
  have "2 powi float_exp x \<le> x \<and> x < 2 powi (float_exp x + 1)"
    using lo hi by (auto simp: float_exp_def pq Let_def)
  then show "2 powi float_exp x \<le> x" and "x < 2 powi (float_exp x + 1)" by auto
qed

text \<open>The scaled significand lies between \<open>2 ^ 52\<close> and \<open>2 ^ 53\<close>.\<close>

lemma significand_bounds:
  assumes "0 < x"
  shows "2 ^ 52 \<le> x * 2 powi (52 - float_exp x)" and "x * 2 powi (52 - float_exp x) < 2 ^ 53"
proof -
  let ?e = "float_exp x"
  have pos: "(0::rat) < 2 powi (52 - ?e)" by simp
  have "(2::rat) ^ 52 = 2 powi ?e * 2 powi (52 - ?e)"
    using power_int_add [of "2::rat" ?e "52 - ?e"] by simp
  also have "\<dots> \<le> x * 2 powi (52 - ?e)"
    using float_exp_bounds(1) [OF assms] pos by (intro mult_right_mono) auto
  finally show "2 ^ 52 \<le> x * 2 powi (52 - ?e)" .
  have "x * 2 powi (52 - ?e) < 2 powi (?e + 1) * 2 powi (52 - ?e)"
    using float_exp_bounds(2) [OF assms] pos by (intro mult_strict_right_mono) auto
  also have "\<dots> = 2 ^ 53"
    using power_int_add [of "2::rat" "?e + 1" "52 - ?e"] by simp
  finally show "x * 2 powi (52 - ?e) < 2 ^ 53" .
qed

lemma fl_pos_bounds:
  assumes "0 < x"
  shows "2 powi float_exp x \<le> fl_pos x" and "fl_pos x \<le> 2 powi (float_exp x + 1)"
proof -
  let ?e = "float_exp x" and ?s = "x * 2 powi (52 - float_exp x)"
  have "rne (of_int (2 ^ 52)) \<le> rne ?s"
    using significand_bounds(1) [OF assms] by (intro rne_mono) simp
  then have lo: "2 ^ 52 \<le> rne ?s" by (simp only: rne_of_int)
  have "rne ?s \<le> rne (of_int (2 ^ 53))"
    using significand_bounds(2) [OF assms] by (intro rne_mono) simp
  then have hi: "rne ?s \<le> 2 ^ 53" by (simp only: rne_of_int)
  have pos: "(0::rat) < 2 powi (?e - 52)" by simp
  have "(2::rat) powi ?e = 2 ^ 52 * 2 powi (?e - 52)"
    using power_int_add [of "2::rat" 52 "?e - 52"] by simp
  also have "\<dots> \<le> of_int (rne ?s) * 2 powi (?e - 52)"
    using lo pos by (intro mult_right_mono) (simp_all only: of_int_power_le_rat less_imp_le)
  finally show "2 powi ?e \<le> fl_pos x" by (simp add: fl_pos_def Let_def)
  have "of_int (rne ?s) * 2 powi (?e - 52) \<le> (2::rat) ^ 53 * 2 powi (?e - 52)"
    using hi pos by (intro mult_right_mono) (simp_all only: of_int_le_power_rat less_imp_le)
  also have "\<dots> = 2 powi (?e + 1)"
    using power_int_add [of "2::rat" 53 "?e - 52"] by (simp add: add.commute)
  finally show "fl_pos x \<le> 2 powi (?e + 1)" by (simp add: fl_pos_def Let_def)
qed

lemma fl_pos_mono:
  assumes "0 < x" and "x \<le> y"
  shows "fl_pos x \<le> fl_pos y"
proof -
  let ?e = "float_exp x" and ?f = "float_exp y"
  from assms have "0 < y" by linarith
  consider "?e = ?f" | "?e + 1 \<le> ?f" | "?f + 1 \<le> ?e" by linarith
  then show ?thesis
  proof cases
    case 1
    have "rne (x * 2 powi (52 - ?f)) \<le> rne (y * 2 powi (52 - ?f))"
      using assms by (intro rne_mono mult_right_mono) auto
    then show ?thesis
      by (simp add: fl_pos_def Let_def 1)
  next
    case 2
    have "fl_pos x \<le> 2 powi (?e + 1)" using \<open>0 < x\<close> by (rule fl_pos_bounds)
    also have "\<dots> \<le> 2 powi ?f" using 2 by (intro power_int_increasing) auto
    also have "\<dots> \<le> fl_pos y" using \<open>0 < y\<close> by (rule fl_pos_bounds)
    finally show ?thesis .
  next
    case 3
    have "y < 2 powi (?f + 1)" using \<open>0 < y\<close> by (rule float_exp_bounds)
    also have "\<dots> \<le> 2 powi ?e" using 3 by (intro power_int_increasing) auto
    also have "\<dots> \<le> x" using \<open>0 < x\<close> by (rule float_exp_bounds)
    finally show ?thesis using assms by simp
  qed
qed

lemma fl_pos_nonneg: "0 < x \<Longrightarrow> 0 < fl_pos x"
  using fl_pos_bounds(1) [of x] by (metis less_le_trans zero_less_numeral zero_less_power_int)

lemma fl_0 [simp]: "fl 0 = 0"
  by (simp add: fl_def)

lemma fl_minus: "fl (- x) = - fl x"
  by (simp add: fl_def)

lemma fl_mono: "x \<le> y \<Longrightarrow> fl x \<le> fl y"
proof -
  assume le: "x \<le> y"
  consider "0 < x" | "x \<le> 0" "0 \<le> y" | "y < 0" by linarith
  then show ?thesis
  proof cases
    case 1
    with le show ?thesis by (simp add: fl_def fl_pos_mono)
  next
    case 2
    then show ?thesis
      using fl_pos_nonneg [of y] fl_pos_nonneg [of "- x"] by (auto simp: fl_def)
  next
    case 3
    with le show ?thesis by (simp add: fl_def fl_pos_mono)
  qed
qed

lemma fl_nonneg: "0 \<le> x \<Longrightarrow> 0 \<le> fl x"
  using fl_mono [of 0 x] by simp

lemma fl_pos_of_int:
  assumes "0 < n" and "n \<le> 2 ^ 53"
  shows "fl_pos (of_int n) = of_int n"
proof -
  let ?x = "of_int n :: rat" let ?e = "float_exp ?x"
  have x0: "0 < ?x" using assms by simp
  have x53: "?x \<le> 2 ^ 53"
    using assms(2) by (metis of_int_le_iff of_int_numeral of_int_power)
  have "2 powi ?e \<le> (2::rat) powi 53"
    using float_exp_bounds(1) [OF x0] x53 by simp
  then have "?e \<le> 53"
    by (metis not_less one_less_numeral_iff power_int_strict_increasing semiring_norm(76))
  have "0 \<le> ?e"
  proof (rule ccontr)
    assume "\<not> 0 \<le> ?e"
    then have "(2::rat) powi (?e + 1) \<le> 2 powi 0" by (intro power_int_increasing) auto
    with float_exp_bounds(2) [OF x0] assms show False by simp
  qed
  have "\<exists>m. ?x * 2 powi (52 - ?e) = of_int m"
  proof (cases "?e = 53")
    case True
    then have "(2::rat) ^ 53 \<le> ?x" using float_exp_bounds(1) [OF x0] by simp
    with x53 have "?x = 2 ^ 53" by simp
    moreover have "(2::rat) powi (52 - ?e) = inverse 2" unfolding True by (simp add: power_int_def)
    ultimately have "?x * 2 powi (52 - ?e) = of_int (2 ^ 52)" by (simp only: of_int_power) simp
    then show ?thesis ..
  next
    case False
    with \<open>?e \<le> 53\<close> have "(2::rat) powi (52 - ?e) = of_int (2 ^ nat (52 - ?e))"
      by (simp add: power_int_def)
    then have "?x * 2 powi (52 - ?e) = of_int (n * 2 ^ nat (52 - ?e))" by simp
    then show ?thesis ..
  qed
  then obtain m where m: "?x * 2 powi (52 - ?e) = of_int m" ..
  have "fl_pos ?x = of_int m * 2 powi (?e - 52)"
    by (simp add: fl_pos_def Let_def m)
  also have "\<dots> = ?x * (2 powi (52 - ?e) * 2 powi (?e - 52))"
    by (simp add: m [symmetric])
  also have "\<dots> = ?x" by (simp flip: power_int_add)
  finally show ?thesis .
qed

lemma fl_of_int [simp]: "\<bar>n\<bar> \<le> 2 ^ 53 \<Longrightarrow> fl (of_int n) = of_int n"
  using fl_pos_of_int [of n] fl_pos_of_int [of "- n"] by (auto simp: fl_def)

text \<open>The relative error of one rounding is at most half a unit in the last place.\<close>

lemma fl_pos_err:
  assumes "0 < x"
  shows "\<bar>fl_pos x - x\<bar> \<le> x / 2 ^ 53"
proof -
  let ?e = "float_exp x" let ?u = "2 powi (?e - 52) :: rat" let ?s = "x * 2 powi (52 - ?e)"
  have x: "x = ?s * ?u" by (simp add: mult.assoc flip: power_int_add)
  have "fl_pos x - x = (of_int (rne ?s) - ?s) * ?u"
    by (subst (2) x) (simp add: fl_pos_def Let_def left_diff_distrib)
  then have "\<bar>fl_pos x - x\<bar> = \<bar>of_int (rne ?s) - ?s\<bar> * ?u"
    by (simp add: abs_mult)
  also have "\<dots> \<le> 1 / 2 * ?u"
    using rne_err [of ?s] by (intro mult_right_mono) auto
  also have "\<dots> = 2 powi ?e / 2 ^ 53"
    by (simp add: power_int_diff)
  also have "\<dots> \<le> x / 2 ^ 53"
    using float_exp_bounds(1) [OF assms] by (intro divide_right_mono) auto
  finally show ?thesis .
qed

lemma fl_err: "\<bar>fl x - x\<bar> \<le> \<bar>x\<bar> / 2 ^ 53"
proof -
  consider "x = 0" | "0 < x" | "0 < - x" by linarith
  then show ?thesis
  proof cases
    case 2
    then show ?thesis using fl_pos_err [of x] by (simp add: fl_def)
  next
    case 3
    then have "\<bar>fl x - x\<bar> = \<bar>fl_pos (- x) - (- x)\<bar>" by (simp add: fl_def)
    also have "\<dots> \<le> - x / 2 ^ 53" using 3 by (rule fl_pos_err)
    finally show ?thesis using 3 by simp
  qed simp
qed

lemma float_of_int_id [simp]: "\<bar>n\<bar> \<le> 2 ^ 53 \<Longrightarrow> float_of_int n = of_int n"
  by (simp add: float_of_int_def)

lemma fmul_1 [simp]: "\<bar>n\<bar> \<le> 2 ^ 53 \<Longrightarrow> fmul 1 (of_int n) = of_int n"
  by (simp add: fmul_def)

lemma fmul_mono: "0 \<le> a \<Longrightarrow> a \<le> b \<Longrightarrow> 0 \<le> x \<Longrightarrow> x \<le> y \<Longrightarrow> fmul a x \<le> fmul b y"
  unfolding fmul_def by (intro fl_mono mult_mono) auto

lemma fmul_nonneg: "0 \<le> a \<Longrightarrow> 0 \<le> x \<Longrightarrow> 0 \<le> fmul a x"
  by (simp add: fmul_def fl_nonneg)

lemma fdiv_mono: "0 < d \<Longrightarrow> x \<le> y \<Longrightarrow> fdiv x d \<le> fdiv y d"
  unfolding fdiv_def by (intro fl_mono divide_right_mono) auto

lemma fdiv_nonneg: "0 \<le> x \<Longrightarrow> 0 \<le> d \<Longrightarrow> 0 \<le> fdiv x d"
  by (simp add: fdiv_def fl_nonneg)

lemma math_Ceil_mono: "x \<le> y \<Longrightarrow> math_Ceil x \<le> math_Ceil y"
  by (simp add: math_Ceil_def ceiling_mono)

lemma math_Ceil_of_int [simp]: "math_Ceil (of_int n) = n"
  by (simp add: math_Ceil_def)

lemma math_Ceil_nonneg: "0 \<le> x \<Longrightarrow> 0 \<le> math_Ceil x"
  unfolding math_Ceil_def by linarith

text \<open>Rounding a rounded number changes nothing.\<close>

lemma float_exp_unique:
  assumes "2 powi e \<le> x" "x < 2 powi (e + 1)"
  shows "float_exp x = e"
proof -
  have "(0::rat) < 2 powi e" by simp
  then have x: "0 < x" using assms(1) by linarith
  note b = float_exp_bounds [OF x]
  have "\<not> float_exp x + 1 \<le> e"
  proof
    assume "float_exp x + 1 \<le> e"
    then have "(2::rat) powi (float_exp x + 1) \<le> 2 powi e" by (intro power_int_increasing) auto
    with b(2) assms(1) show False by linarith
  qed
  moreover have "\<not> e + 1 \<le> float_exp x"
  proof
    assume "e + 1 \<le> float_exp x"
    then have "(2::rat) powi (e + 1) \<le> 2 powi float_exp x" by (intro power_int_increasing) auto
    with b(1) assms(2) show False by linarith
  qed
  ultimately show ?thesis by linarith
qed

lemma fl_pos_fixed:
  assumes "2 powi e \<le> y" "y < 2 powi (e + 1)" "y = of_int m * 2 powi (e - 52)"
  shows "fl_pos y = y"
proof -
  have "y * 2 powi (52 - e) = of_int m * (2 powi (e - 52) * 2 powi (52 - e))"
    by (simp add: assms(3) mult.assoc)
  also have "\<dots> = of_int m" using power_int_add [of "2::rat" "e - 52" "52 - e"] by simp
  finally have "fl_pos y = of_int (rne (of_int m)) * 2 powi (e - 52)"
    by (simp only: fl_pos_def float_exp_unique [OF assms(1,2)] Let_def)
  then show ?thesis by (simp only: rne_of_int assms(3))
qed

lemma fl_pos_idem: assumes "0 < x" shows "fl_pos (fl_pos x) = fl_pos x"
proof (cases "fl_pos x < 2 powi (float_exp x + 1)")
  case True
  show ?thesis
    by (rule fl_pos_fixed [OF fl_pos_bounds(1) [OF assms] True]) (simp add: fl_pos_def Let_def)
next
  case False
  with fl_pos_bounds(2) [OF assms] have y: "fl_pos x = 2 powi (float_exp x + 1)" by simp
  have "(2::rat) powi (float_exp x + 1) = of_int (2 ^ 52) * 2 powi (float_exp x + 1 - 52)"
    using power_int_add [of "2::rat" 52 "float_exp x + 1 - 52"] by (simp add: add.commute)
  moreover have "(2::rat) powi (float_exp x + 1) < 2 powi (float_exp x + 1 + 1)"
    by (intro power_int_strict_increasing) auto
  ultimately show ?thesis using y by (metis fl_pos_fixed order_refl)
qed

lemma fl_idem [simp]: "fl (fl x) = fl x"
  using fl_pos_idem [of x] fl_pos_idem [of "- x"] fl_pos_nonneg [of x] fl_pos_nonneg [of "- x"]
  by (auto simp: fl_def)

section \<open>Evaluation\<close>

text \<open>
  Code equations over numerators and denominators, so that concrete floats evaluate in the kernel with few
  cancellations. \<open>rne_div a b\<close> is the quotient rounded to the nearest integer, ties to even.
\<close>

definition rne_div :: "int \<Rightarrow> int \<Rightarrow> int" where
  "rne_div a b = (let n = a div b; r = a mod b in
     if 2 * r < b \<or> 2 * r = b \<and> n mod 2 = 0 then n else n + 1)"

lemma rne_div:
  assumes "0 < b"
  shows "rne (of_int a / of_int b) = rne_div a b"
proof -
  have "of_int a = of_int (a div b) * of_int b + (of_int (a mod b) :: rat)"
    by (metis of_int_add of_int_mult div_mult_mod_eq)
  then have d: "of_int a / of_int b - of_int (a div b) = (of_int (a mod b) / of_int b :: rat)"
    using assms by (simp add: field_simps)
  have l: "(of_int (a mod b) / of_int b :: rat) < 1 / 2 \<longleftrightarrow> 2 * (a mod b) < b"
  proof -
    have "(of_int (a mod b) / of_int b :: rat) < 1 / 2 \<longleftrightarrow> of_int (2 * (a mod b)) < (of_int b :: rat)"
      using assms by (simp add: field_simps)
    then show ?thesis by (simp only: of_int_less_iff)
  qed
  have e: "(of_int (a mod b) / of_int b :: rat) = 1 / 2 \<longleftrightarrow> 2 * (a mod b) = b"
  proof -
    have "(of_int (a mod b) / of_int b :: rat) = 1 / 2 \<longleftrightarrow> of_int (2 * (a mod b)) = (of_int b :: rat)"
      using assms by (auto simp: field_simps)
    then show ?thesis by (simp only: of_int_eq_iff)
  qed
  show ?thesis
    unfolding rne_def rne_div_def Let_def floor_divide_of_int_eq d l e even_iff_mod_2_eq_zero ..
qed

lemma quotient_of_cases: "quotient_of x = (p, q) \<Longrightarrow> x = of_int p / of_int q \<and> 0 < q"
  using quotient_of_div quotient_of_denom_pos by blast

lemma rne_code [code]: "rne x = (case quotient_of x of (p, q) \<Rightarrow> rne_div p q)"
  using rne_div quotient_of_cases [of x] by (cases "quotient_of x") simp

lemma math_Ceil_code [code]: "math_Ceil x = (case quotient_of x of (p, q) \<Rightarrow> - ((- p) div q))"
proof -
  obtain p q where pq: "quotient_of x = (p, q)" by fastforce
  then have x: "x = of_int p / of_int q" using quotient_of_cases by blast
  show ?thesis by (simp add: pq) (simp add: x math_Ceil_def ceiling_divide_eq_div)
qed

lemma math_Floor_code [code]: "math_Floor x = (case quotient_of x of (p, q) \<Rightarrow> p div q)"
proof -
  obtain p q where pq: "quotient_of x = (p, q)" by fastforce
  then have x: "x = of_int p / of_int q" using quotient_of_cases by blast
  show ?thesis by (simp add: pq) (simp add: x math_Floor_def floor_divide_of_int_eq)
qed

lemma float_exp_code [code]: "float_exp x = (case quotient_of x of (p, q) \<Rightarrow>
    let e = bitlen p - bitlen q in
    if (if 0 \<le> e then 2 ^ nat e * q \<le> p else q \<le> p * 2 ^ nat (- e)) then e else e - 1)"
proof -
  obtain p q where pq: "quotient_of x = (p, q)" by fastforce
  then have x: "x = of_int p / of_int q" and q: "0 < q" using quotient_of_cases by blast+
  have "2 powi e \<le> x \<longleftrightarrow> (if 0 \<le> e then 2 ^ nat e * q \<le> p else q \<le> p * 2 ^ nat (- e))" for e
  proof (cases "0 \<le> e")
    case True
    then have "2 powi e \<le> x \<longleftrightarrow> (of_int (2 ^ nat e * q) :: rat) \<le> of_int p"
      using q by (simp add: x power_int_def field_simps)
    with True show ?thesis by (simp only: of_int_le_iff if_True)
  next
    case False
    then have "2 powi e \<le> x \<longleftrightarrow> (of_int q :: rat) \<le> of_int (p * 2 ^ nat (- e))"
      using q by (simp add: x power_int_def field_simps)
    with False show ?thesis by (simp only: of_int_le_iff if_False)
  qed
  then show ?thesis by (simp add: float_exp_def pq Let_def)
qed

lemma fl_pos_code [code]: "fl_pos x = (case quotient_of x of (p, q) \<Rightarrow>
    let k = 52 - float_exp x in
    if 0 \<le> k then of_int (rne_div (p * 2 ^ nat k) q) / of_int (2 ^ nat k)
    else of_int (rne_div p (q * 2 ^ nat (- k)) * 2 ^ nat (- k)))"
proof -
  obtain p q where pq: "quotient_of x = (p, q)" by fastforce
  then have x: "x = of_int p / of_int q" and q: "0 < q" using quotient_of_cases by blast+
  define k where "k = 52 - float_exp x"
  have e: "float_exp x - 52 = - k" "52 - float_exp x = k" by (simp_all add: k_def)
  have "rne (x * 2 powi k) = (if 0 \<le> k then rne_div (p * 2 ^ nat k) q else rne_div p (q * 2 ^ nat (- k)))"
    using rne_div [OF q, of "p * 2 ^ nat k"] rne_div [of "q * 2 ^ nat (- k)" p] q
    by (auto simp: x power_int_def field_simps)
  then show ?thesis unfolding fl_pos_def pq Let_def e
    by (auto simp: power_int_def field_simps)
qed

lemma fl_code [code]:
  "fl x = (if snd (quotient_of x) = 1 \<and> \<bar>fst (quotient_of x)\<bar> \<le> 9007199254740992 then x
     else if x = 0 then 0 else if 0 < x then fl_pos x else - fl_pos (- x))"
proof (cases "snd (quotient_of x) = 1 \<and> \<bar>fst (quotient_of x)\<bar> \<le> 9007199254740992")
  case True
  then have "quotient_of x = (fst (quotient_of x), 1)" by (metis prod.collapse)
  from quotient_of_div [OF this] have x: "x = of_int (fst (quotient_of x))" by simp
  have "fl (of_int (fst (quotient_of x))) = of_int (fst (quotient_of x))" using True by (intro fl_of_int) simp
  with True x show ?thesis by simp
next
  case False
  then show ?thesis by (simp only: fl_def False if_False)
qed

end
