(* ===== verification/Go_Std.thy ===== *)
theory Go_Std
  imports Float64 "HOL-Library.Char_ord"
begin

text \<open>
  The parts of Go's standard library the program relies on: the civil calendar,
  \<^verbatim>\<open>time.Parse(time.RFC3339, _)\<close>, \<^verbatim>\<open>time.ParseDuration\<close> and the \<^verbatim>\<open>strings\<close> predicates. They are
  executable, so the theorems about the program can be evaluated on concrete inputs.
\<close>

section \<open>Digits\<close>

definition digit :: "char \<Rightarrow> bool" where
  "digit c \<longleftrightarrow> 48 \<le> (of_char c :: nat) \<and> (of_char c :: nat) \<le> 57"

definition digit_val :: "char \<Rightarrow> int" where
  "digit_val c = of_char c - 48"

text \<open>\<^verbatim>\<open>getnum(s, fixed)\<close>: one or two leading digits (two when \<open>fixed\<close>), and the rest.\<close>

definition getnum :: "string \<Rightarrow> bool \<Rightarrow> (int \<times> string) option" where
  "getnum s fixed = (case s of
     [] \<Rightarrow> None
   | c # s' \<Rightarrow>
       if \<not> digit c then None
       else (case s' of
               d # s'' \<Rightarrow>
                 if digit d then Some (digit_val c * 10 + digit_val d, s'')
                 else if fixed then None else Some (digit_val c, s')
             | [] \<Rightarrow> if fixed then None else Some (digit_val c, s')))"

text \<open>The literal text of a layout.\<close>

definition skip :: "char \<Rightarrow> string \<Rightarrow> string option" where
  "skip c s = (case s of d # s' \<Rightarrow> if c = d then Some s' else None | [] \<Rightarrow> None)"

definition guard :: "bool \<Rightarrow> unit option" where
  "guard b = (if b then Some () else None)"

lemma guard_simps [simp]: "guard True = Some ()" "guard False = None"
  by (simp_all add: guard_def)

section \<open>The civil calendar\<close>

text \<open>
  A day is its distance from 0001-01-01, the day of Go's zero time (a Monday), in the proleptic
  Gregorian calendar.
\<close>

type_synonym day = int

definition leap :: "int \<Rightarrow> bool" where
  "leap y \<longleftrightarrow> y mod 4 = 0 \<and> (y mod 100 \<noteq> 0 \<or> y mod 400 = 0)"

definition days_before_year :: "int \<Rightarrow> day" where
  "days_before_year y = 365 * (y - 1) + (y - 1) div 4 - (y - 1) div 100 + (y - 1) div 400"

definition month_lengths :: "int list" where
  "month_lengths = [31, 28, 31, 30, 31, 30, 31, 31, 30, 31, 30, 31]"

definition days_in :: "int \<Rightarrow> int \<Rightarrow> int" where
  "days_in m y = (if m = 2 \<and> leap y then 29 else month_lengths ! nat (m - 1))"

definition days_before_month :: "int \<Rightarrow> int \<Rightarrow> int" where
  "days_before_month m y =
     sum_list (take (nat (m - 1)) month_lengths) + (if 2 < m \<and> leap y then 1 else 0)"

definition civil_day :: "int \<Rightarrow> int \<Rightarrow> int \<Rightarrow> day" where
  "civil_day y m d = days_before_year y + days_before_month m y + (d - 1)"

datatype weekday = Sunday | Monday | Tuesday | Wednesday | Thursday | Friday | Saturday

definition weekday_of :: "day \<Rightarrow> weekday" where
  "weekday_of d = [Monday, Tuesday, Wednesday, Thursday, Friday, Saturday, Sunday] ! nat (d mod 7)"

section \<open>RFC 3339 time stamps\<close>

text \<open>
  \<^verbatim>\<open>time.Parse(time.RFC3339, s)\<close>: the layout is \<^verbatim>\<open>2006-01-02T15:04:05Z07:00\<close>. As in Go, the hour may
  be a single digit, a fraction of a second (after a dot or a comma) is accepted although the layout has
  none, and only its first nine digits count.
\<close>

definition parse_year :: "string \<Rightarrow> (int \<times> string) option" where
  "parse_year s = (case s of
     a # b # c # d # s' \<Rightarrow>
       if digit a \<and> digit b \<and> digit c \<and> digit d
       then Some (((digit_val a * 10 + digit_val b) * 10 + digit_val c) * 10 + digit_val d, s')
       else None
   | _ \<Rightarrow> None)"

definition parse_nanos :: "string \<Rightarrow> int" where
  "parse_nanos ds = (let d9 = take 9 ds in
     fold (\<lambda>c n. n * 10 + digit_val c) d9 0 * 10 ^ (9 - length d9))"

definition parse_fraction :: "string \<Rightarrow> int \<times> string" where
  "parse_fraction s = (case s of
     c # d # s' \<Rightarrow>
       if (c = CHR ''.'' \<or> c = CHR '','') \<and> digit d
       then (parse_nanos (takeWhile digit (d # s')), dropWhile digit (d # s'))
       else (0, s)
   | _ \<Rightarrow> (0, s))"

text \<open>The zone offset in seconds: \<^verbatim>\<open>Z\<close>, or a sign, two digits, a colon and two digits.\<close>

definition parse_zone :: "string \<Rightarrow> (int \<times> string) option" where
  "parse_zone s = (case s of
     [] \<Rightarrow> None
   | c # s' \<Rightarrow>
       if c = CHR ''Z'' then Some (0, s')
       else do {
         (h, r) \<leftarrow> getnum s' True;
         r \<leftarrow> skip CHR '':'' r;
         (m, r) \<leftarrow> getnum r True;
         guard (h \<le> 24 \<and> m \<le> 60);
         if c = CHR ''+'' then Some ((h * 60 + m) * 60, r)
         else if c = CHR ''-'' then Some (- ((h * 60 + m) * 60), r)
         else None
       })"

definition parse_RFC3339 :: "string \<Rightarrow> time option" where
  "parse_RFC3339 s = do {
     (y, s) \<leftarrow> parse_year s;
     s \<leftarrow> skip CHR ''-'' s;
     (mo, s) \<leftarrow> getnum s True;
     guard (1 \<le> mo \<and> mo \<le> 12);
     s \<leftarrow> skip CHR ''-'' s;
     (d, s) \<leftarrow> getnum s True;
     s \<leftarrow> skip CHR ''T'' s;
     (h, s) \<leftarrow> getnum s False;
     guard (h < 24);
     s \<leftarrow> skip CHR '':'' s;
     (mi, s) \<leftarrow> getnum s True;
     guard (mi < 60);
     s \<leftarrow> skip CHR '':'' s;
     (se, s) \<leftarrow> getnum s True;
     guard (se < 60);
     let (ns, s) = parse_fraction s;
     (off, s) \<leftarrow> parse_zone s;
     guard (s = []);
     guard (1 \<le> d \<and> d \<le> days_in mo y);
     Some ((civil_day y mo d * 86400 + h * 3600 + mi * 60 + se - off) * second + ns)
   }"

section \<open>Durations\<close>

text \<open>\<^verbatim>\<open>leadingInt\<close>: the leading digits as a number (\<open>None\<close> past \<open>2 ^ 63\<close>), and the rest.\<close>

fun leading_int :: "int \<Rightarrow> string \<Rightarrow> (int \<times> string) option" where
  "leading_int x [] = Some (x, [])"
| "leading_int x (c # s) =
     (if \<not> digit c then Some (x, c # s)
      else if x > 2 ^ 63 div 10 then None
      else let x' = x * 10 + digit_val c in if x' > 2 ^ 63 then None else leading_int x' s)"

text \<open>\<^verbatim>\<open>leadingFraction\<close>: the digits after the point and their scale; digits that overflow are ignored.\<close>

fun leading_fraction :: "int \<Rightarrow> float64 \<Rightarrow> bool \<Rightarrow> string \<Rightarrow> int \<times> float64 \<times> string" where
  "leading_fraction x scale ovf [] = (x, scale, [])"
| "leading_fraction x scale ovf (c # s) =
     (if \<not> digit c then (x, scale, c # s)
      else if ovf then leading_fraction x scale True s
      else if x > (2 ^ 63 - 1) div 10 then leading_fraction x scale True s
      else let y = x * 10 + digit_val c in
        if y > 2 ^ 63 then leading_fraction x scale True s
        else leading_fraction y (fmul scale 10) False s)"

text \<open>\<^verbatim>\<open>unitMap\<close>; the two spellings of the microsecond are U+00B5 and U+03BC followed by \<^verbatim>\<open>s\<close>, in UTF-8.\<close>

definition unit_map :: "(string \<times> int) list" where
  "unit_map = [(''ns'', 1), (''us'', 1000),
     ([CHR 0xC2, CHR 0xB5, CHR ''s''], 1000), ([CHR 0xCE, CHR 0xBC, CHR ''s''], 1000),
     (''ms'', 10 ^ 6), (''s'', second), (''m'', minute), (''h'', hour)]"

definition unit_char :: "char \<Rightarrow> bool" where
  "unit_char c \<longleftrightarrow> \<not> (c = CHR ''.'' \<or> digit c)"

lemma leading_int_length: "leading_int x s = Some (v, r) \<Longrightarrow> length r \<le> length s"
  by (induction x s rule: leading_int.induct) (auto simp: Let_def split: if_splits)

lemma leading_fraction_length: "leading_fraction x sc ovf s = (f, sc', r) \<Longrightarrow> length r \<le> length s"
  by (induction x sc ovf s rule: leading_fraction.induct) (auto simp: Let_def split: if_splits)

text \<open>The optional point and fraction: value, scale, rest, and whether any digit was read.\<close>

definition fraction_part :: "string \<Rightarrow> int \<times> float64 \<times> string \<times> bool" where
  "fraction_part s = (case s of
     c # s' \<Rightarrow>
       if c = CHR ''.''
       then (case leading_fraction 0 1 False s' of
               (f, scale, r) \<Rightarrow> (f, scale, r, length r \<noteq> length s'))
       else (0, 1, s, False)
   | [] \<Rightarrow> (0, 1, s, False))"

lemma fraction_part_length: "fraction_part s = (f, sc, r, post) \<Longrightarrow> length r \<le> length s"
  by (auto simp: fraction_part_def split: list.splits if_splits prod.splits
      dest!: leading_fraction_length)

text \<open>One turn of the loop: a number with its unit, in nanoseconds.\<close>

definition parse_component :: "string \<Rightarrow> (int \<times> string) option" where
  "parse_component s = do {
     guard (s \<noteq> [] \<and> (hd s = CHR ''.'' \<or> digit (hd s)));
     (v, s1) \<leftarrow> leading_int 0 s;
     let pre = (length s1 \<noteq> length s);
     let (f, scale, s2, post) = fraction_part s1;
     guard (pre \<or> post);
     let u = takeWhile unit_char s2;
     guard (u \<noteq> []);
     unit \<leftarrow> map_of unit_map u;
     guard (v \<le> 2 ^ 63 div unit);
     let v' = v * unit;
     let v'' = (if f > 0
       then v' + math_Floor (fmul (float_of_int f) (fdiv (float_of_int unit) scale)) else v');
     guard (v'' \<le> 2 ^ 63);
     Some (v'', dropWhile unit_char s2)
   }"

lemma guard_Some [simp]: "guard b = Some u \<longleftrightarrow> b"
  by (simp add: guard_def)

lemma length_dropWhile_unit:
  "takeWhile P s \<noteq> [] \<Longrightarrow> length (dropWhile P s) < length s"
  by (cases s) (auto simp: length_dropWhile_le le_imp_less_Suc split: if_splits)

lemma parse_component_length:
  assumes "parse_component s = Some (v, r)"
  shows "length r < length s"
proof -
  obtain w s1 where s1: "leading_int 0 s = Some (w, s1)"
    using assms by (auto simp: parse_component_def bind_eq_Some_conv)
  obtain f sc s2 post where s2: "fraction_part s1 = (f, sc, s2, post)" by (cases "fraction_part s1")
  have "takeWhile unit_char s2 \<noteq> []" and "r = dropWhile unit_char s2"
    using assms by (auto simp: parse_component_def bind_eq_Some_conv Let_def s1 s2)
  then show ?thesis
    using leading_int_length [OF s1] fraction_part_length [OF s2] length_dropWhile_unit by fastforce
qed

function parse_components :: "int \<Rightarrow> string \<Rightarrow> int option" where
  "parse_components d s =
     (if s = [] then Some d
      else case parse_component s of
        None \<Rightarrow> None
      | Some (v, r) \<Rightarrow> if d + v > 2 ^ 63 then None else parse_components (d + v) r)"
  by pat_completeness auto
termination
  by (relation "measure (\<lambda>(d, s). length s)") (auto dest: parse_component_length)

declare parse_components.simps [simp del]

definition time_ParseDuration :: "string \<Rightarrow> duration option" where
  "time_ParseDuration orig = (
     let (neg, s) = (case orig of
        c # s' \<Rightarrow> if c = CHR ''-'' \<or> c = CHR ''+'' then (c = CHR ''-'', s') else (False, orig)
      | [] \<Rightarrow> (False, orig))
     in if s = ''0'' then Some 0
        else if s = [] then None
        else case parse_components 0 s of
          None \<Rightarrow> None
        | Some d \<Rightarrow> if neg then Some (- d) else if d > 2 ^ 63 - 1 then None else Some d)"

section \<open>Strings\<close>

fun strings_HasPrefix :: "string \<Rightarrow> string \<Rightarrow> bool" where
  "strings_HasPrefix s [] = True"
| "strings_HasPrefix [] (p # ps) = False"
| "strings_HasPrefix (c # s) (p # ps) = (c = p \<and> strings_HasPrefix s ps)"

fun strings_Contains :: "string \<Rightarrow> string \<Rightarrow> bool" where
  "strings_Contains [] p = (p = [])"
| "strings_Contains (c # s) p = (strings_HasPrefix (c # s) p \<or> strings_Contains s p)"

definition strings_HasSuffix :: "string \<Rightarrow> string \<Rightarrow> bool" where
  "strings_HasSuffix s p = strings_HasPrefix (rev s) (rev p)"

definition strings_TrimSuffix :: "string \<Rightarrow> string \<Rightarrow> string" where
  "strings_TrimSuffix s p =
     (if strings_HasSuffix s p then take (length s - length p) s else s)"

lemma strings_HasPrefix_append: "strings_HasPrefix s p \<longleftrightarrow> (\<exists>r. s = p @ r)"
  by (induction s p rule: strings_HasPrefix.induct) auto

lemma strings_Contains_append: "strings_Contains s p \<longleftrightarrow> (\<exists>a b. s = a @ p @ b)"
proof (induction s p rule: strings_Contains.induct)
  case (1 p)
  show ?case by simp
next
  case (2 c s p)
  show ?case
    unfolding strings_Contains.simps 2 strings_HasPrefix_append
    by (metis append_Cons append_Nil list.exhaust list.inject)
qed

lemma strings_HasSuffix_append: "strings_HasSuffix s p \<longleftrightarrow> (\<exists>r. s = r @ p)"
  unfolding strings_HasSuffix_def strings_HasPrefix_append
  by (metis rev_append rev_rev_ident)

lemma strings_TrimSuffix_append [simp]: "strings_TrimSuffix (r @ p) p = r"
  by (auto simp: strings_TrimSuffix_def strings_HasSuffix_append)

end
