(* ===== verification/Api_Types.thy ===== *)
theory Api_Types
  imports Go_Std
begin

text \<open>
  The API types of \<^verbatim>\<open>src/api/v1alpha1\<close> (\<^verbatim>\<open>common.go\<close>, \<^verbatim>\<open>revision_types.go\<close>,
  \<^verbatim>\<open>releasemanager_types.go\<close>, \<^verbatim>\<open>cluster_types.go\<close>, \<^verbatim>\<open>faultinjector_types.go\<close>,
  \<^verbatim>\<open>mirror_types.go\<close>) and the methods the package gives them.

  Every struct is a record with the source's fields, prefixed by the struct's initials. A pointer field
  that may be nil is an \<open>option\<close>, a slice a list, a map an association list (an option of one where
  the code tells nil from empty). A field whose type comes from a third-party package and that the code
  only copies has type \<open>opaque\<close>: any value, written as its serialisation.
\<close>

type_synonym opaque = string

section \<open>Deployment states\<close>

text \<open>
  A state is a Go string. The eighteen states \<^verbatim>\<open>controllers/state.go\<close> names are constructors, any other
  string is an \<open>OtherState\<close>; \<open>State_of_string\<close> and \<open>string_of_State\<close> translate, so comparing
  states is comparing the strings.
\<close>

datatype State =
    created | deploying | deployed | pendingrelease | releasing | released | retiring | retired
  | deleting | deleted | failing | failed | pendingtest | testing | tested | canarying | canaried
  | timingout | OtherState string

definition state_names :: "(string \<times> State) list" where
  "state_names =
     [(''created'', created), (''deploying'', deploying), (''deployed'', deployed),
      (''pendingrelease'', pendingrelease), (''releasing'', releasing), (''released'', released),
      (''retiring'', retiring), (''retired'', retired), (''deleting'', deleting),
      (''deleted'', deleted), (''failing'', failing), (''failed'', failed),
      (''pendingtest'', pendingtest), (''testing'', testing), (''tested'', tested),
      (''canarying'', canarying), (''canaried'', canaried), (''timingout'', timingout)]"

definition State_of_string :: "string \<Rightarrow> State" where
  "State_of_string s = (case map_of state_names s of None \<Rightarrow> OtherState s | Some t \<Rightarrow> t)"

definition string_of_State :: "State \<Rightarrow> string" where
  "string_of_State t = (case t of OtherState s \<Rightarrow> s
     | _ \<Rightarrow> (case find (\<lambda>(n, u). u = t) state_names of Some (n, u) \<Rightarrow> n | None \<Rightarrow> []))"

lemma state_names_back: "list_all (\<lambda>(n, t). string_of_State t = n) state_names"
  by code_simp

lemma string_of_State_of_string: "string_of_State (State_of_string s) = s"
proof (cases "map_of state_names s")
  case None
  then show ?thesis by (simp add: State_of_string_def string_of_State_def)
next
  case (Some t)
  then have "(s, t) \<in> set state_names" by (rule map_of_SomeD)
  with state_names_back have "string_of_State t = s" by (auto simp: list_all_iff)
  with Some show ?thesis by (simp add: State_of_string_def)
qed

section \<open>Constants\<close>

datatype PortMode = PortPublic | PortPrivate | PortLocal | OtherMode string

definition ScalingStrategyNone :: string where "ScalingStrategyNone = ''none''"
definition ScalingStrategyLinear :: string where "ScalingStrategyLinear = ''linear''"
definition ScalingStrategyGeometric :: string where "ScalingStrategyGeometric = ''geometric''"

definition ScalingStrategies :: "string list" where
  "ScalingStrategies = [ScalingStrategyLinear, ScalingStrategyGeometric]"

definition HumaneSchedule :: string where "HumaneSchedule = ''humane''"
definition InhumaneSchedule :: string where "InhumaneSchedule = ''inhumane''"
definition AlwaysSchedule :: string where "AlwaysSchedule = ''always''"

definition LabelApp :: string where "LabelApp = ''picchu.medium.engineering/app''"
definition LabelTag :: string where "LabelTag = ''picchu.medium.engineering/tag''"
definition LabelFleet :: string where "LabelFleet = ''picchu.medium.engineering/fleet''"
definition LabelTarget :: string where "LabelTarget = ''picchu.medium.engineering/target''"
definition LabelOwnerName :: string where "LabelOwnerName = ''picchu.medium.engineering/ownerName''"
definition LabelOwnerType :: string where "LabelOwnerType = ''picchu.medium.engineering/ownerType''"
definition LabelIstioApp :: string where "LabelIstioApp = ''app''"
definition LabelIstioVersion :: string where "LabelIstioVersion = ''version''"
definition LabelK8sName :: string where "LabelK8sName = ''app.kubernetes.io/name''"
definition LabelK8sVersion :: string where "LabelK8sVersion = ''app.kubernetes.io/version''"
definition LabelRuleType :: string where "LabelRuleType = ''picchu.medium.engineering/ruleType''"
definition LabelFleetPrefix :: string where "LabelFleetPrefix = ''fleet.picchu.medium.engineering/''"
definition LabelIgnore :: string where "LabelIgnore = ''picchu.medium.engineering/ignore''"
definition LabelTargetDeletablePrefix :: string where
  "LabelTargetDeletablePrefix = ''target-deletable.picchu.medium.engineering/''"
definition FinalizerReleaseManager :: string where
  "FinalizerReleaseManager = ''picchu.medium.engineering/releasemanager''"
definition FinalizerCluster :: string where
  "FinalizerCluster = ''picchu.medium.engineering/cluster''"
definition OwnerReleaseManager :: string where "OwnerReleaseManager = ''releasemanager''"
definition AnnotationGitCommitterTimestamp :: string where
  "AnnotationGitCommitterTimestamp = ''git-scm.com/committer-timestamp''"
definition AnnotationIAMRole :: string where "AnnotationIAMRole = ''iam.amazonaws.com/role''"
definition AnnotationFailedAt :: string where
  "AnnotationFailedAt = ''picchu.medium.engineering/failed-at-timestamp''"
definition AnnotationAutoscaler :: string where
  "AnnotationAutoscaler = ''picchu.medium.engineering/autoscaler''"
definition AnnotationKarpenterDoNotDisrupt :: string where
  "AnnotationKarpenterDoNotDisrupt = ''karpenter.sh/do-not-disrupt''"

section \<open>Object metadata\<close>

text \<open>The part of Kubernetes' \<^verbatim>\<open>metav1.ObjectMeta\<close> the program reads or writes.\<close>

record ObjectMeta =
  om_Name :: string
  om_Namespace :: string
  om_Labels :: "strmap option"
  om_Annotations :: "strmap option"
  om_Finalizers :: "string list"
  om_DeletionTimestamp :: "time option"
  om_CreationTimestamp :: time

definition zero_ObjectMeta :: ObjectMeta where
  "zero_ObjectMeta = \<lparr>om_Name = [], om_Namespace = [], om_Labels = None, om_Annotations = None,
     om_Finalizers = [], om_DeletionTimestamp = None, om_CreationTimestamp = zero_time\<rparr>"

text \<open>\<^verbatim>\<open>!DeletionTimestamp.IsZero()\<close>: nil and the zero time both count as not deleted.\<close>

definition deletion_set :: "ObjectMeta \<Rightarrow> bool" where
  "deletion_set m \<longleftrightarrow> (case om_DeletionTimestamp m of None \<Rightarrow> False | Some t \<Rightarrow> t \<noteq> zero_time)"

section \<open>Ports, scaling and release strategy (common.go)\<close>

record Retries =
  re_Attempts :: int32
  re_PerTryTimeout :: "duration option"
  re_RetryOn :: "string option"

record IstioHTTPPortConfig =
  ih_Retries :: "Retries option"
  ih_Timeout :: "duration option"

record IstioPortConfig =
  ipc_HTTP :: IstioHTTPPortConfig

record PortInfo =
  pi_Name :: string
  pi_Hosts :: "string list"
  pi_IngressPort :: int32
  pi_Port :: int32
  pi_ContainerPort :: int32
  pi_Protocol :: string
  pi_Mode :: PortMode
  pi_Default :: bool
  pi_Ingresses :: "string list option"
  pi_Istio :: IstioPortConfig

record WorkerScaleInfo =
  wsi_QueueURI :: string
  wsi_TargetMessagesPerWorker :: "int32 option"
  wsi_SecondsToProcessOneJobString :: "string option"
  wsi_MaxDisruption :: "string option"

text \<open>KEDA's \<^verbatim>\<open>ScaleTriggers\<close>, as far as the code looks into them.\<close>

record ScaleTriggers =
  str_Type :: string
  str_Metadata :: "strmap option"
  str_AuthenticationRef :: "string option"
  str_rest :: opaque

record KedaScaleInfo =
  ks_CooldownPeriod :: "int32 option"
  ks_IdleReplicaCount :: "int32 option"
  ks_MinReplicaCount :: "int32 option"
  ks_MaxReplicaCount :: "int32 option"
  ks_Advanced :: "opaque option"
  ks_Triggers :: "ScaleTriggers list"
  ks_Fallback :: "opaque option"
  ks_AwsEksAuth :: bool

record ScaleInfo =
  si_Min :: "int32 option"
  si_Default :: int32
  si_Max :: int32
  si_MinReadySeconds :: int32
  si_TargetCPUUtilizationPercentage :: "int32 option"
  si_TargetMemoryUtilizationPercentage :: "int32 option"
  si_TargetRequestsRate :: "string option"
  si_RequestsRateMetric :: string
  si_Worker :: "WorkerScaleInfo option"
  si_KedaWorker :: "KedaScaleInfo option"

text \<open>
  A Kubernetes \<^verbatim>\<open>resource.Quantity\<close>: its value in thousandths and its format. Parsing one is
  third-party code, a parameter \<open>parseQuantity\<close> of the definitions that need it.
\<close>

record Quantity =
  q_MilliValue :: int64
  q_Format :: string

definition TargetRequestsRateQuantity ::
  "(string \<Rightarrow> goerror + Quantity) \<Rightarrow> ScaleInfo \<Rightarrow> goerror + Quantity option" where
  "TargetRequestsRateQuantity parseQuantity s =
     (case si_TargetRequestsRate s of
        None \<Rightarrow> Inr None
      | Some str \<Rightarrow> (case parseQuantity str of Inl e \<Rightarrow> Inl e | Inr r \<Rightarrow> Inr (Some r)))"

definition HasAutoscaler :: "ScaleInfo \<Rightarrow> bool" where
  "HasAutoscaler s \<longleftrightarrow>
     si_TargetCPUUtilizationPercentage s \<noteq> None \<or>
     si_TargetRequestsRate s \<noteq> None \<or>
     si_TargetMemoryUtilizationPercentage s \<noteq> None \<or>
     si_Worker s \<noteq> None \<or>
     si_KedaWorker s \<noteq> None"

record GeometricScaling =
  gs_Start :: u32
  gs_Factor :: u32
  gs_Delay :: "duration option"

record LinearScaling =
  ls_Increment :: u32
  ls_Delay :: "duration option"

record ReleaseInfo =
  ri_Eligible :: bool
  ri_Max :: u32
  ri_ScalingStrategy :: string
  ri_GeometricScaling :: GeometricScaling
  ri_LinearScaling :: LinearScaling
  ri_Schedule :: string
  ri_TTL :: int64

record SentryInfo =
  se_Release :: bool

record IAMInfo =
  iam_RoleARN :: string

record AWSInfo =
  aws_IAM :: IAMInfo

section \<open>Revisions (revision\_types.go)\<close>

record IstioSidecar =
  is_EgressHosts :: "string list"

record Istio =
  ist_TrafficPolicy :: "opaque option"
  ist_Sidecar :: "IstioSidecar option"

record RevisionApp =
  ra_Name :: string
  ra_Ref :: string
  ra_Tag :: string
  ra_Image :: string

record DatadogMonitoring =
  dm_Enabled :: bool

record WaypointHPASpec =
  wh_MinReplicas :: int32
  wh_MaxReplicas :: int32
  wh_TargetCPUUtilizationPercentage :: int32

record ExternalTest =
  et_Enabled :: bool
  et_Started :: bool
  et_Completed :: bool
  et_Succeeded :: bool
  et_Timeout :: "duration option"
  et_LastUpdated :: "time option"

record Canary =
  ca_Percent :: u32
  ca_TTL :: int64

record ServiceLevelObjectiveLabels =
  sl_AlertLabels :: strmap
  sl_RuleLabels :: strmap
  sl_ServiceLevelLabels :: strmap

record SLICanaryConfig =
  sc_Enabled :: bool
  sc_AllowancePercentString :: string
  sc_AllowancePercent :: float64
  sc_FailAfter :: string

record ServiceLevelIndicator =
  sli_Canary :: SLICanaryConfig
  sli_TagKey :: string
  sli_AlertAfter :: string
  sli_TotalQuery :: string
  sli_ErrorQuery :: string

record AlertMeta =
  am_Disable :: bool
  am_Labels :: strmap
  am_Annotations :: strmap

record Alerting =
  al_Name :: string
  al_Labels :: strmap
  al_Annotations :: strmap
  al_PageAlert :: AlertMeta
  al_TicketAlert :: AlertMeta

record SlothServiceLevelObjective =
  slo_Name :: string
  slo_Description :: string
  slo_Enabled :: bool
  slo_Objective :: string
  slo_ServiceLevelIndicator :: ServiceLevelIndicator
  slo_ServiceLevelObjectiveLabels :: ServiceLevelObjectiveLabels
  slo_Alerting :: Alerting

text \<open>
  Third-party structs of which the code reads or writes some fields: Prometheus' service monitors and
  rules; containers, probes, resource requirements, topology constraints and pod disruption budgets of
  Kubernetes. What the code leaves alone is in a field \<open>rest\<close>.
\<close>

record RelabelConfig =
  rc_Regex :: string
  rc_rest :: opaque

record Endpoint =
  ep_MetricRelabelConfigs :: "RelabelConfig list"
  ep_rest :: opaque

record ServiceMonitorSpec =
  sms_Endpoints :: "Endpoint list"
  sms_NamespaceSelector :: "string list"
  sms_rest :: opaque

record ServiceMonitor =
  sm_Name :: string
  sm_SLORegex :: bool
  sm_Annotations :: strmap
  sm_Labels :: strmap
  sm_Spec :: ServiceMonitorSpec

record Rule =
  ru_Record :: string
  ru_Alert :: string
  ru_Expr :: string
  ru_For :: string
  ru_Labels :: strmap
  ru_Annotations :: strmap

datatype IntOrString = FromInt int | FromString string

datatype EnvFromSource = SecretRef string | ConfigMapRef string

record HTTPGetProbe =
  hp_Path :: string
  hp_Port :: IntOrString
  hp_InitialDelaySeconds :: int32
  hp_PeriodSeconds :: int32
  hp_TimeoutSeconds :: int32
  hp_SuccessThreshold :: int32
  hp_FailureThreshold :: int32

datatype Probe = HTTPGet HTTPGetProbe | OtherProbe opaque

record ResourceRequirements =
  rr_Requests :: strmap
  rr_Limits :: strmap

record ContainerPort =
  cp_Name :: string
  cp_Protocol :: string
  cp_ContainerPort :: int32

record Container =
  co_Name :: string
  co_Image :: string
  co_Ports :: "ContainerPort list"
  co_EnvFrom :: "EnvFromSource list"
  co_Env :: "opaque list"
  co_Resources :: ResourceRequirements
  co_LivenessProbe :: "Probe option"
  co_ReadinessProbe :: "Probe option"
  co_Lifecycle :: "opaque option"
  co_VolumeMounts :: "opaque list"
  co_rest :: opaque

record TopologySpreadConstraint =
  tsc_WhenUnsatisfiable :: string
  tsc_rest :: opaque

record PodDisruptionBudgetSpec =
  pd_MinAvailable :: "IntOrString option"
  pd_MaxUnavailable :: "IntOrString option"
  pd_Selector :: "strmap option"
  pd_rest :: opaque

record RevisionTarget =
  rt_Name :: string
  rt_Fleet :: string
  rt_Scale :: ScaleInfo
  rt_Release :: ReleaseInfo
  rt_DatadogMonitoring :: DatadogMonitoring
  rt_ServiceMonitors :: "ServiceMonitor list"
  rt_SlothServiceLevelObjectives :: "SlothServiceLevelObjective list"
  rt_ServiceLevelObjectiveLabels :: ServiceLevelObjectiveLabels
  rt_AcceptanceTarget :: bool
  rt_ConfigSelector :: "opaque option"
  rt_AWS :: AWSInfo
  rt_AlertRules :: "Rule list"
  rt_Sidecars :: "Container list"
  rt_VolumeMounts :: "opaque list"
  rt_Volumes :: "opaque list"
  rt_PodAnnotations :: strmap
  rt_KarpenterDoNotDisrupt :: string
  rt_ServiceAccountName :: string
  rt_Resources :: ResourceRequirements
  rt_LivenessProbe :: "Probe option"
  rt_ReadinessProbe :: "Probe option"
  rt_Lifecycle :: "opaque option"
  rt_Affinity :: "opaque option"
  rt_PriorityClassName :: string
  rt_Tolerations :: "opaque list"
  rt_ExternalTest :: ExternalTest
  rt_Canary :: Canary
  rt_DefaultIngressPorts :: "strmap option"
  rt_Ports :: "PortInfo list"
  rt_Env :: "opaque list"
  rt_Istio :: "Istio option"
  rt_PodDisruptionBudget :: "PodDisruptionBudgetSpec option"
  rt_TopologySpreadConstraint :: "TopologySpreadConstraint option"
  rt_AmbientMesh :: bool
  rt_WaypointHPA :: "WaypointHPASpec option"
  rt_WaypointResources :: ResourceRequirements
  rt_SchedulerName :: string

record RevisionSpec =
  rsp_App :: RevisionApp
  rsp_Targets :: "RevisionTarget list"
  rsp_Failed :: bool
  rsp_IgnoreSLOs :: bool
  rsp_CanaryWithSLIRules :: bool
  rsp_Sentry :: SentryInfo
  rsp_TagRoutingHeader :: string
  rsp_DisableMirroring :: bool
  rsp_EventDriven :: bool

record RevisionScaleStatus =
  rss_Current :: u32
  rss_Desired :: u32
  rss_Peak :: u32

record RevisionReleaseStatus =
  rrs_CurrentPercent :: u32
  rrs_PeakPercent :: u32

record RevisionTargetStatus =
  rts_Name :: string
  rts_Scale :: RevisionScaleStatus
  rts_Release :: RevisionReleaseStatus
  rts_State :: State

record RevisionStatus =
  rst_Sentry :: SentryInfo
  rst_Targets :: "RevisionTargetStatus list"

record Revision =
  rev_Meta :: ObjectMeta
  rev_Spec :: RevisionSpec
  rev_Status :: RevisionStatus

section \<open>Release managers (releasemanager\_types.go)\<close>

record Variant =
  va_Name :: string
  va_Enabled :: bool

record ReleaseManagerSpec =
  rmsp_Fleet :: string
  rmsp_App :: string
  rmsp_Target :: string
  rmsp_Variants :: "Variant list"

record ReleaseManagerRevisionMetricsStatus =
  me_GitCreateSecondsInt :: "int option"
  me_GitDeploySecondsInt :: "int option"
  me_GitCanarySecondsInt :: "int option"
  me_GitPendingReleaseSecondsInt :: "int option"
  me_GitReleaseSecondsInt :: "int option"
  me_RevisionDeploySecondsInt :: "int option"
  me_RevisionCanarySecondsInt :: "int option"
  me_RevisionReleaseSecondsInt :: "int option"
  me_ReivisonPendingReleaseSecondsInt :: "int option"
  me_RevisionRollbackSecondsInt :: "int option"
  me_DeploySecondsInt :: "int option"
  me_CanarySecondsInt :: "int option"
  me_ReleaseSecondsInt :: "int option"

record ReleaseManagerRevisionStateStatus =
  st_Current :: State
  st_Target :: State
  st_LastUpdated :: "time option"

record ReleaseManagerRevisionScaleStatus =
  rsc_Current :: int32
  rsc_Desired :: int32
  rsc_Peak :: int32

record ReleaseManagerRevisionStatus =
  rs_Tag :: string
  rs_State :: ReleaseManagerRevisionStateStatus
  rs_CurrentPercent :: u32
  rs_PeakPercent :: u32
  rs_ReleaseEligible :: bool
  rs_TriggeredAlarms :: "string list"
  rs_LastUpdated :: "time option"
  rs_GitTimestamp :: "time option"
  rs_RevisionTimestamp :: "time option"
  rs_DeployingStartTimestamp :: "time option"
  rs_CanaryStartTimestamp :: "time option"
  rs_PendingReleaseStartTimestamp :: "time option"
  rs_ReleaseStartTimestamp :: "time option"
  rs_TTL :: int64
  rs_Metrics :: ReleaseManagerRevisionMetricsStatus
  rs_Scale :: ReleaseManagerRevisionScaleStatus
  rs_Deleted :: bool

record ReleaseManagerStatus =
  rmst_Revisions :: "ReleaseManagerRevisionStatus list"
  rmst_LastUpdated :: "time option"

record ReleaseManager =
  rm_Meta :: ObjectMeta
  rm_Spec :: ReleaseManagerSpec
  rm_Status :: ReleaseManagerStatus

section \<open>Clusters (cluster\_types.go)\<close>

record ClusterConfig =
  cc_Server :: string
  cc_CertificateAuthorityData :: string

record IngressInfo =
  ii_DNSName :: string
  ii_Gateway :: string
  ii_DefaultDomains :: "string list"

record ClusterIngresses =
  ci_Public :: IngressInfo
  ci_Private :: IngressInfo

record ClusterSpec =
  cs_Enabled :: bool
  cs_HotStandby :: bool
  cs_Config :: "ClusterConfig option"
  cs_ScalingFactorString :: "string option"
  cs_Ingresses :: ClusterIngresses
  cs_EnableDevRoutes :: bool
  cs_DevRouteTagTemplate :: string
  cs_DisableEventDriven :: bool

record ClusterKubernetesStatus =
  cks_Version :: string
  cks_Ready :: bool

record ClusterStatus =
  cst_Kubernetes :: ClusterKubernetesStatus

record Cluster =
  cl_Meta :: ObjectMeta
  cl_Spec :: ClusterSpec
  cl_Status :: ClusterStatus

section \<open>Fault injectors (faultinjector\_types.go)\<close>

record HTTPPortFault =
  hf_PortSelector :: "u32 option"
  hf_HTTPFault :: "opaque option"

end
