(* ===== verification/Api_Methods.thy ===== *)
theory Api_Methods
  imports Api_Types
begin

text \<open>
  The methods of the API types: \<^verbatim>\<open>revision_types.go\<close>, \<^verbatim>\<open>releasemanager_types.go\<close> and the
  finalizer methods of \<^verbatim>\<open>cluster_types.go\<close>. A method with a pointer receiver that changes its receiver
  returns the new value; \<^verbatim>\<open>time.Now()\<close> is the argument \<open>now\<close>.
\<close>

section \<open>Revision status\<close>

definition AddTarget :: "RevisionStatus \<Rightarrow> RevisionTargetStatus \<Rightarrow> RevisionStatus" where
  "AddTarget r ts = r\<lparr>rst_Targets := rst_Targets r @ [ts]\<rparr>"

definition GetTarget :: "RevisionStatus \<Rightarrow> string \<Rightarrow> RevisionTargetStatus option" where
  "GetTarget r name = find (\<lambda>ts. rts_Name ts = name) (rst_Targets r)"

definition AddReleaseManagerStatus ::
  "RevisionTargetStatus \<Rightarrow> ReleaseManagerRevisionStatus \<Rightarrow> RevisionTargetStatus" where
  "AddReleaseManagerStatus r status =
     r\<lparr>rts_Release := \<lparr>rrs_CurrentPercent = rs_CurrentPercent status,
                         rrs_PeakPercent = rs_PeakPercent status\<rparr>,
       rts_Scale := \<lparr>rss_Current = u32_of_int (rsc_Current (rs_Scale status)),
                       rss_Desired = u32_of_int (rsc_Desired (rs_Scale status)),
                       rss_Peak = u32_of_int (rsc_Peak (rs_Scale status))\<rparr>,
       rts_State := st_Current (rs_State status)\<rparr>"

section \<open>Revisions\<close>

text \<open>
  \<^verbatim>\<open>Fail\<close> stamps the revision with the time of the failure, once; \<open>fmt\<close> is
  \<^verbatim>\<open>Format(time.RFC3339)\<close>, which depends on the machine's time zone.
\<close>

definition Fail :: "(time \<Rightarrow> string) \<Rightarrow> time \<Rightarrow> Revision \<Rightarrow> Revision" where
  "Fail fmt now r =
     (if \<not> rsp_Failed (rev_Spec r)
      then r\<lparr>rev_Spec := (rev_Spec r)\<lparr>rsp_Failed := True\<rparr>,
             rev_Meta := (rev_Meta r)\<lparr>om_Annotations :=
               (case om_Annotations (rev_Meta r) of
                  None \<Rightarrow> Some [(AnnotationFailedAt, fmt now)]
                | Some m \<Rightarrow> Some (AList.update AnnotationFailedAt (fmt now) m))\<rparr>\<rparr>
      else r)"

definition SinceFailed :: "time \<Rightarrow> Revision \<Rightarrow> duration" where
  "SinceFailed now r =
     (case mlookup (om_Annotations (rev_Meta r)) AnnotationFailedAt of
        None \<Rightarrow> 0
      | Some ft \<Rightarrow> (case parse_RFC3339 ft of None \<Rightarrow> 0 | Some t \<Rightarrow> time_Sub now t))"

text \<open>\<^verbatim>\<open>Failed()\<close>: the annotation is set, whatever \<^verbatim>\<open>Spec.Failed\<close> says.\<close>

definition Revision_Failed :: "Revision \<Rightarrow> bool" where
  "Revision_Failed r \<longleftrightarrow> om_Annotations (rev_Meta r) \<noteq> None \<and>
     mget (om_Annotations (rev_Meta r)) AnnotationFailedAt \<noteq> []"

definition GitTimestamp :: "Revision \<Rightarrow> time" where
  "GitTimestamp r =
     (case mlookup (om_Annotations (rev_Meta r)) AnnotationGitCommitterTimestamp of
        None \<Rightarrow> zero_time
      | Some gt \<Rightarrow> (case parse_RFC3339 gt of None \<Rightarrow> zero_time | Some t \<Rightarrow> t))"

definition HasTarget :: "Revision \<Rightarrow> string \<Rightarrow> bool" where
  "HasTarget r name \<longleftrightarrow> list_ex (\<lambda>target. rt_Name target = name) (rsp_Targets (rev_Spec r))"

section \<open>Revision targets\<close>

definition IsExternalTestPending :: "RevisionTarget \<Rightarrow> bool" where
  "IsExternalTestPending r \<longleftrightarrow>
     et_Enabled (rt_ExternalTest r) \<and> \<not> et_Completed (rt_ExternalTest r)"

definition IsExternalTestSuccessful :: "RevisionTarget \<Rightarrow> bool" where
  "IsExternalTestSuccessful r \<longleftrightarrow> (let t = rt_ExternalTest r in
     et_Enabled t \<and> et_Completed t \<and> et_Succeeded t)"

text \<open>The product \<^verbatim>\<open>time.Duration(TTL) * time.Second\<close> is an \<^verbatim>\<open>int64\<close> product and wraps.\<close>

definition IsCanaryPending :: "time \<Rightarrow> RevisionTarget \<Rightarrow> time option \<Rightarrow> bool" where
  "IsCanaryPending now r startTime =
     (if ca_Percent (rt_Canary r) = 0 \<or> ca_TTL (rt_Canary r) = 0 \<or>
         rt_SlothServiceLevelObjectives r = []
      then False
      else case startTime of
          None \<Rightarrow> True
        | Some t \<Rightarrow> t + wrap64 (ca_TTL (rt_Canary r) * second) > now)"

definition ValidateKarpenterDoNotDisrupt :: "string \<Rightarrow> goerror option" where
  "ValidateKarpenterDoNotDisrupt value =
     (if value = [] \<or> value = ''true'' then None
      else if time_ParseDuration value = None
        then Some (Errorf ''must be \"true\" or a valid Go duration (e.g. \"30m\")'')
        else None)"

section \<open>Release managers\<close>

definition EqualTo ::
  "ReleaseManagerRevisionStateStatus \<Rightarrow> ReleaseManagerRevisionStateStatus \<Rightarrow> bool" where
  "EqualTo r other \<longleftrightarrow> st_Target r = st_Target other \<and> st_Current r = st_Current other"

definition zero_Metrics :: ReleaseManagerRevisionMetricsStatus where
  "zero_Metrics = \<lparr>me_GitCreateSecondsInt = None, me_GitDeploySecondsInt = None,
     me_GitCanarySecondsInt = None, me_GitPendingReleaseSecondsInt = None,
     me_GitReleaseSecondsInt = None, me_RevisionDeploySecondsInt = None,
     me_RevisionCanarySecondsInt = None, me_RevisionReleaseSecondsInt = None,
     me_ReivisonPendingReleaseSecondsInt = None, me_RevisionRollbackSecondsInt = None,
     me_DeploySecondsInt = None, me_CanarySecondsInt = None, me_ReleaseSecondsInt = None\<rparr>"

text \<open>The status \<^verbatim>\<open>RevisionStatus\<close> makes up for a tag it does not know.\<close>

definition new_RevisionStatus :: "time \<Rightarrow> string \<Rightarrow> ReleaseManagerRevisionStatus" where
  "new_RevisionStatus now tag =
     \<lparr>rs_Tag = tag,
      rs_State = \<lparr>st_Current = created, st_Target = created, st_LastUpdated = None\<rparr>,
      rs_CurrentPercent = 0, rs_PeakPercent = 0, rs_ReleaseEligible = False,
      rs_TriggeredAlarms = [], rs_LastUpdated = Some now, rs_GitTimestamp = None,
      rs_RevisionTimestamp = None, rs_DeployingStartTimestamp = None,
      rs_CanaryStartTimestamp = None, rs_PendingReleaseStartTimestamp = None,
      rs_ReleaseStartTimestamp = None, rs_TTL = 0, rs_Metrics = zero_Metrics,
      rs_Scale = \<lparr>rsc_Current = 0, rsc_Desired = 0, rsc_Peak = 0\<rparr>, rs_Deleted = False\<rparr>"

text \<open>
  The result points to a copy of the entry, so the caller's changes do not reach the list; an unknown
  tag is appended to it.
\<close>

definition RevisionStatus ::
  "time \<Rightarrow> ReleaseManager \<Rightarrow> string \<Rightarrow> ReleaseManagerRevisionStatus \<times> ReleaseManager" where
  "RevisionStatus now r tag =
     (case find (\<lambda>s. rs_Tag s = tag) (rmst_Revisions (rm_Status r)) of
        Some s \<Rightarrow> (s, r)
      | None \<Rightarrow> (let s = new_RevisionStatus now tag in
          (s, r\<lparr>rm_Status := (rm_Status r)\<lparr>rmst_Revisions := rmst_Revisions (rm_Status r) @ [s]\<rparr>\<rparr>)))"

definition UpdateRevisionStatus ::
  "ReleaseManager \<Rightarrow> ReleaseManagerRevisionStatus \<Rightarrow> ReleaseManager" where
  "UpdateRevisionStatus r u =
     r\<lparr>rm_Status := (rm_Status r)\<lparr>rmst_Revisions :=
         map (\<lambda>s. if rs_Tag s = rs_Tag u then u else s) (rmst_Revisions (rm_Status r))\<rparr>\<rparr>"

definition TargetNamespace :: "ReleaseManager \<Rightarrow> string" where
  "TargetNamespace r = rmsp_App (rm_Spec r) @ ''-'' @ rmsp_Target (rm_Spec r)"

section \<open>Deletion and finalizers\<close>

definition IsDeleted :: "ReleaseManager \<Rightarrow> bool" where
  "IsDeleted r \<longleftrightarrow> deletion_set (rm_Meta r)"

definition IsFinalized :: "ReleaseManager \<Rightarrow> bool" where
  "IsFinalized r \<longleftrightarrow> \<not> list_ex (\<lambda>item. item = FinalizerReleaseManager) (om_Finalizers (rm_Meta r))"

definition Finalize :: "ReleaseManager \<Rightarrow> ReleaseManager" where
  "Finalize r = r\<lparr>rm_Meta := (rm_Meta r)\<lparr>om_Finalizers :=
     filter (\<lambda>item. item \<noteq> FinalizerReleaseManager) (om_Finalizers (rm_Meta r))\<rparr>\<rparr>"

definition Cluster_IsDeleted :: "Cluster \<Rightarrow> bool" where
  "Cluster_IsDeleted c \<longleftrightarrow> deletion_set (cl_Meta c)"

definition Cluster_IsFinalized :: "Cluster \<Rightarrow> bool" where
  "Cluster_IsFinalized c \<longleftrightarrow> \<not> list_ex (\<lambda>item. item = FinalizerCluster) (om_Finalizers (cl_Meta c))"

definition Cluster_Finalize :: "Cluster \<Rightarrow> Cluster" where
  "Cluster_Finalize c = c\<lparr>cl_Meta := (cl_Meta c)\<lparr>om_Finalizers :=
     filter (\<lambda>item. item \<noteq> FinalizerCluster) (om_Finalizers (cl_Meta c))\<rparr>\<rparr>"

definition Cluster_AddFinalizer :: "Cluster \<Rightarrow> Cluster" where
  "Cluster_AddFinalizer c = c\<lparr>cl_Meta := (cl_Meta c)\<lparr>om_Finalizers :=
     om_Finalizers (cl_Meta c) @ [FinalizerCluster]\<rparr>\<rparr>"

definition Cluster_Fleet :: "Cluster \<Rightarrow> string" where
  "Cluster_Fleet c = mget (om_Labels (cl_Meta c)) LabelFleet"

text \<open>
  The finalizer protocol both kinds of object follow, and what it promises: finalizing reaches the
  finalized state, and it takes nothing away but the one finalizer.
\<close>

locale finalizer_protocol =
  fixes finalizers :: "'o \<Rightarrow> string list"
    and mark :: string
    and isFinalized :: "'o \<Rightarrow> bool"
    and finalize :: "'o \<Rightarrow> 'o"
  assumes isFinalized_iff: "isFinalized x \<longleftrightarrow> mark \<notin> set (finalizers x)"
    and finalizers_finalize: "finalizers (finalize x) = filter (\<lambda>i. i \<noteq> mark) (finalizers x)"
begin

lemma finalized_finalize: "isFinalized (finalize x)"
  by (simp add: isFinalized_iff finalizers_finalize)

lemma finalize_keeps_others: "f \<noteq> mark \<Longrightarrow> f \<in> set (finalizers (finalize x)) \<longleftrightarrow> f \<in> set (finalizers x)"
  by (simp add: finalizers_finalize)

lemma finalize_id: "isFinalized x \<Longrightarrow> finalizers (finalize x) = finalizers x"
  by (auto simp: isFinalized_iff finalizers_finalize intro: filter_True)

end

interpretation rmf: finalizer_protocol "\<lambda>r. om_Finalizers (rm_Meta r)" FinalizerReleaseManager
    IsFinalized Finalize
  by unfold_locales (auto simp: IsFinalized_def Finalize_def list_ex_iff)

interpretation clf: finalizer_protocol "\<lambda>c. om_Finalizers (cl_Meta c)" FinalizerCluster
    Cluster_IsFinalized Cluster_Finalize
  by unfold_locales (auto simp: Cluster_IsFinalized_def Cluster_Finalize_def list_ex_iff)

section \<open>Facts\<close>

lemma rs_Tag_new [simp]: "rs_Tag (new_RevisionStatus now tag) = tag"
  by (simp add: new_RevisionStatus_def)

lemma RevisionStatus_tag: "rs_Tag (fst (RevisionStatus now r tag)) = tag"
  by (auto simp: RevisionStatus_def Let_def find_Some_iff split: option.split)

lemma HasTarget_iff: "HasTarget r name \<longleftrightarrow> name \<in> rt_Name ` set (rsp_Targets (rev_Spec r))"
  by (auto simp: HasTarget_def list_ex_iff)

lemma find_None_map_tag:
  "find (\<lambda>s. rs_Tag s = tag) xs = None \<longleftrightarrow> tag \<notin> rs_Tag ` set xs"
  by (auto simp: find_None_iff)

lemma find_snoc: "find P xs = None \<Longrightarrow> P y \<Longrightarrow> find P (xs @ [y]) = Some y"
  by (induction xs) (auto split: if_splits)

text \<open>Looking a tag up twice gives the same status: the first call registers it.\<close>

lemma RevisionStatus_stable:
  "RevisionStatus now' (snd (RevisionStatus now r tag)) tag =
     (fst (RevisionStatus now r tag), snd (RevisionStatus now r tag))"
proof (cases "find (\<lambda>s. rs_Tag s = tag) (rmst_Revisions (rm_Status r))")
  case None
  then have "find (\<lambda>s. rs_Tag s = tag) (rmst_Revisions (rm_Status r) @ [new_RevisionStatus now tag])
      = Some (new_RevisionStatus now tag)"
    by (rule find_snoc) simp
  with None show ?thesis by (simp add: RevisionStatus_def Let_def)
next
  case (Some s)
  then show ?thesis by (simp add: RevisionStatus_def)
qed

text \<open>What is written under a tag is what the next lookup of the tag reads.\<close>

lemma find_map_update:
  "tag \<in> rs_Tag ` set xs \<Longrightarrow> rs_Tag u = tag \<Longrightarrow>
   find (\<lambda>s. rs_Tag s = tag) (map (\<lambda>s. if rs_Tag s = tag then u else s) xs) = Some u"
  by (induction xs) auto

lemma RevisionStatus_Update:
  assumes "rs_Tag u \<in> rs_Tag ` set (rmst_Revisions (rm_Status r))"
  shows "fst (RevisionStatus now (UpdateRevisionStatus r u) (rs_Tag u)) = u"
  using find_map_update [OF assms refl] by (simp add: RevisionStatus_def UpdateRevisionStatus_def)

end
