(* ===== verification/Plan_Types.thy ===== *)
theory Plan_Types
  imports Api_Methods
begin

text \<open>
  The plans the controllers hand to an applier: one record per struct of
  \<^verbatim>\<open>src/controllers/plan\<close>, and the interface \<^verbatim>\<open>plan.Plan\<close> of \<^verbatim>\<open>src/plan\<close> as a datatype over
  them, closed under the composite plan. A plan that holds nothing but a namespace is a constructor of its
  own.
\<close>

section \<open>Objects a plan carries\<close>

text \<open>
  The Kubernetes secrets, config maps and external secrets the plans copy to the target clusters, by the
  fields the code sets; \<open>xs_TargetName\<close> is the external secret's \<^verbatim>\<open>Spec.Target.Name\<close>, part of \<open>xs_Spec\<close>.
\<close>

datatype ConfigKind = SecretKind string | ConfigMapKind

record ConfigObject =
  cfg_Kind :: ConfigKind
  cfg_Name :: string
  cfg_Namespace :: string
  cfg_Labels :: "strmap option"
  cfg_Data :: opaque

record ExternalSecret =
  xs_Name :: string
  xs_Namespace :: string
  xs_Labels :: "strmap option"
  xs_TargetName :: string
  xs_Spec :: opaque

section \<open>The plans\<close>

record DeleteApp =
  dap_Namespace :: string

record DeleteCanaryRules =
  dcr_App :: string
  dcr_Namespace :: string
  dcr_Tag :: string

record DeleteRevision =
  drv_Labels :: strmap
  drv_Namespace :: string

record DeleteSLORules =
  dsr_App :: string
  dsr_Namespace :: string

record DeleteServiceLevels =
  dsl_App :: string
  dsl_Target :: string
  dsl_Namespace :: string

record DeleteServiceMonitors =
  dsm_App :: string
  dsm_Namespace :: string

record DeleteTaggedServiceLevels =
  dts_App :: string
  dts_Target :: string
  dts_Namespace :: string
  dts_Tag :: string

record EnsureNamespace =
  ens_Name :: string
  ens_OwnerName :: string
  ens_OwnerType :: string
  ens_AmbientMesh :: bool
  ens_TransitionToSidecar :: bool

record EnsureServiceAccount =
  esa_Name :: string
  esa_OwnerName :: string
  esa_OwnerType :: string
  esa_Namespace :: string

record EnsureWaypointOptions =
  ewo_Namespace :: string
  ewo_App :: string
  ewo_Env :: string
  ewo_Resources :: "ResourceRequirements option"

record EnsureWaypointHPA =
  ewh_Namespace :: string
  ewh_HPA :: "WaypointHPASpec option"

record EnsureWaypointPDB =
  ewp_Namespace :: string
  ewp_MinReplicas :: int32

record EnsureRBAC =
  erb_Name :: string
  erb_OwnerName :: string
  erb_OwnerType :: string
  erb_Namespace :: string
  erb_ServiceAccountName :: string

record RetireRevision =
  rrv_Tag :: string
  rrv_Namespace :: string

record ScaleRevision =
  scr_Tag :: string
  scr_Namespace :: string
  scr_Min :: int32
  scr_Max :: int32
  scr_Labels :: strmap
  scr_CPUTarget :: "int32 option"
  scr_MemoryTarget :: "int32 option"
  scr_RequestsRateMetric :: string
  scr_RequestsRateTarget :: "Quantity option"
  scr_Worker :: "WorkerScaleInfo option"
  scr_KedaWorker :: "KedaScaleInfo option"
  scr_EventDriven :: bool
  scr_ServiceAccountName :: string
  scr_AmbientMesh :: bool
  scr_PrometheusAddress :: string

record PlanRevision =
  prv_Tag :: string
  prv_Weight :: u32
  prv_TagRoutingHeader :: string
  prv_TrafficPolicy :: "opaque option"

record SyncApp =
  sap_App :: string
  sap_Target :: string
  sap_Fleet :: string
  sap_Namespace :: string
  sap_Labels :: strmap
  sap_DeployedRevisions :: "PlanRevision list"
  sap_AlertRules :: "Rule list"
  sap_Ports :: "PortInfo list"
  sap_HTTPPortFaults :: "HTTPPortFault list"
  sap_IstioSidecarConfig :: "IstioSidecar option"
  sap_DefaultIngressPorts :: "strmap option"
  sap_DevRoutesServiceHost :: string
  sap_DevRoutesServicePort :: int

record SyncCanaryRules =
  scn_App :: string
  scn_Namespace :: string
  scn_Tag :: string
  scn_Labels :: strmap
  scn_ServiceLevelObjectiveLabels :: ServiceLevelObjectiveLabels
  scn_ServiceLevelObjectives :: "SlothServiceLevelObjective list"

record SyncRevision =
  srv_App :: string
  srv_Tag :: string
  srv_Namespace :: string
  srv_Labels :: strmap
  srv_Configs :: "ConfigObject list"
  srv_Ports :: "PortInfo list"
  srv_Replicas :: int32
  srv_Image :: string
  srv_Resources :: ResourceRequirements
  srv_IAMRole :: string
  srv_PodAnnotations :: strmap
  srv_KarpenterDoNotDisrupt :: string
  srv_ServiceAccountName :: string
  srv_LivenessProbe :: "Probe option"
  srv_ReadinessProbe :: "Probe option"
  srv_MinReadySeconds :: int32
  srv_Worker :: "WorkerScaleInfo option"
  srv_KedaWorker :: "KedaScaleInfo option"
  srv_Lifecycle :: "opaque option"
  srv_PriorityClassName :: string
  srv_Affinity :: "opaque option"
  srv_Tolerations :: "opaque list"
  srv_EnvVars :: "opaque list"
  srv_Sidecars :: "Container list"
  srv_VolumeMounts :: "opaque list"
  srv_Volumes :: "opaque list"
  srv_PodDisruptionBudget :: "PodDisruptionBudgetSpec option"
  srv_TopologySpreadConstraint :: "TopologySpreadConstraint option"
  srv_ExternalSecrets :: "ExternalSecret list"
  srv_SchedulerName :: string
  srv_EventDriven :: bool

record SyncSLORules =
  ssr_App :: string
  ssr_Namespace :: string
  ssr_Labels :: strmap
  ssr_ServiceLevelObjectiveLabels :: ServiceLevelObjectiveLabels
  ssr_ServiceLevelObjectives :: "SlothServiceLevelObjective list"

record SyncServiceLevels =
  ssl_App :: string
  ssl_Target :: string
  ssl_Namespace :: string
  ssl_Labels :: strmap
  ssl_ServiceLevelObjectiveLabels :: ServiceLevelObjectiveLabels
  ssl_ServiceLevelObjectives :: "SlothServiceLevelObjective list"

record SyncServiceMonitors =
  ssm_App :: string
  ssm_Namespace :: string
  ssm_Labels :: strmap
  ssm_ServiceMonitors :: "ServiceMonitor list"
  ssm_ServiceLevelObjectives :: "SlothServiceLevelObjective list"

datatype Plan =
    PlanDeleteApp DeleteApp
  | PlanDeleteCanaryRules DeleteCanaryRules
  | PlanDeleteRevision DeleteRevision
  | PlanDeleteSLORules DeleteSLORules
  | PlanDeleteServiceLevels DeleteServiceLevels
  | PlanDeleteServiceMonitors DeleteServiceMonitors
  | PlanDeleteTaggedServiceLevels DeleteTaggedServiceLevels
  | PlanEnsureNamespace EnsureNamespace
  | PlanEnsureServiceAccount EnsureServiceAccount
  | PlanEnsureWaypointOptions EnsureWaypointOptions
  | PlanEnsureWaypointHPA EnsureWaypointHPA
  | PlanEnsureWaypointPDB EnsureWaypointPDB
  | PlanEnsureRBAC EnsureRBAC
  | PlanRetireRevision RetireRevision
  | PlanScaleRevision ScaleRevision
  | PlanSyncApp SyncApp
  | PlanSyncCanaryRules SyncCanaryRules
  | PlanSyncRevision SyncRevision
  | PlanSyncSLORules SyncSLORules
  | PlanSyncServiceLevels SyncServiceLevels
  | PlanSyncServiceMonitors SyncServiceMonitors
  | PlanEnsureWaypoint string
  | PlanDeleteWaypoint string
  | PlanDeleteWaypointOptions string
  | PlanDeleteWaypointPDB string
  | PlanDeleteWaypointHPA string
  | All "Plan list"

section \<open>Applying plans\<close>

text \<open>
  \<^verbatim>\<open>compositePlan.Apply\<close> over the plans it holds: they run in order up to the first error. \<open>apply\<close>
  applies one plan to one cluster, whose state is \<open>'c\<close>.
\<close>

fun apply_all :: "('p \<Rightarrow> 'c \<Rightarrow> goerror option \<times> 'c) \<Rightarrow> 'p list \<Rightarrow> 'c \<Rightarrow> goerror option \<times> 'c" where
  "apply_all apply [] c = (None, c)"
| "apply_all apply (p # ps) c =
     (case apply p c of
        (Some err, c) \<Rightarrow> (Some err, c)
      | (None, c) \<Rightarrow> apply_all apply ps c)"

text \<open>
  \<^verbatim>\<open>ConcurrentApplier.Apply\<close>: the plan runs against every cluster, each with its own state, whatever
  happens in the others; the error returned is that of the first applier to fail, in the order
  \<open>finish\<close> in which they finish.
\<close>

definition concurrent_apply ::
  "('p \<Rightarrow> 'c \<Rightarrow> goerror option \<times> 'c) list \<Rightarrow> nat list \<Rightarrow> 'p \<Rightarrow> 'c list \<Rightarrow> goerror option \<times> 'c list" where
  "concurrent_apply appliers finish p cs =
     (let results = map (\<lambda>(a, c). a p c) (zip appliers cs) in
      (case find (\<lambda>i. fst (results ! i) \<noteq> None) finish of
         None \<Rightarrow> None
       | Some i \<Rightarrow> fst (results ! i),
       map snd results))"

text \<open>A composite plan stops at the first error, and succeeds exactly when all its parts do.\<close>

lemma apply_all_append:
  "apply_all apply (ps @ qs) c =
     (case apply_all apply ps c of
        (Some err, c) \<Rightarrow> (Some err, c)
      | (None, c) \<Rightarrow> apply_all apply qs c)"
  by (induction ps arbitrary: c) (auto split: prod.splits option.splits)

lemma concurrent_apply_ok:
  assumes "length appliers = length cs" "set finish = {..<length cs}"
  shows "fst (concurrent_apply appliers finish p cs) = None \<longleftrightarrow>
    (\<forall>i < length cs. fst ((appliers ! i) p (cs ! i)) = None)"
  using assms nth_mem [of _ finish]
  by (fastforce simp: concurrent_apply_def Let_def find_None_iff find_Some_iff split: option.splits)

lemma concurrent_apply_each:
  assumes "length appliers = length cs" "i < length cs"
  shows "snd (concurrent_apply appliers finish p cs) ! i = snd ((appliers ! i) p (cs ! i))"
  using assms by (simp add: concurrent_apply_def Let_def)

end
