(* ===== verification/Cluster_Info.thy ===== *)
theory Cluster_Info
  imports Float64 Api_Methods
begin

text \<open>
  Replica arithmetic over the target clusters, \<^verbatim>\<open>src/controllers/incarnation\_controller.go\<close>: how many
  replicas of a revision each cluster runs, and how many the fleet runs in total. Floating point
  conversions that are out of range have the value amd64 gives them.
\<close>

section \<open>Conversions and integer helpers\<close>

text \<open>\<^verbatim>\<open>int32(x)\<close> and \<^verbatim>\<open>int(x)\<close> of a float with an integral value.\<close>

definition int32_of_float :: "int \<Rightarrow> int32" where
  "int32_of_float n = (if - (2 ^ 31) \<le> n \<and> n < 2 ^ 31 then n else - (2 ^ 31))"

definition int64_of_float :: "int \<Rightarrow> int64" where
  "int64_of_float n = (if - (2 ^ 63) \<le> n \<and> n < 2 ^ 63 then n else - (2 ^ 63))"

definition utils_Max :: "int32 \<Rightarrow> int32 \<Rightarrow> int32" where
  "utils_Max a b = (if a > b then a else b)"

definition utils_Min :: "int32 \<Rightarrow> int32 \<Rightarrow> int32" where
  "utils_Min a b = (if a < b then a else b)"

section \<open>Clusters\<close>

record ClusterInfo =
  inf_Name :: string
  inf_Live :: bool
  inf_ScalingFactor :: float64

type_synonym ClusterInfoList = "ClusterInfo list"

definition ClusterCount :: "ClusterInfoList \<Rightarrow> bool \<Rightarrow> int" where
  "ClusterCount c liveness =
     fold (\<lambda>i cnt. if inf_Live i = liveness then cnt + 1 else cnt) c 0"

text \<open>
  Without a live cluster \<^verbatim>\<open>perCluster\<close> is infinite (or NaN), and each cluster counted then adds what the
  conversion of that gives.
\<close>

definition ExpectedReplicaCount :: "ClusterInfoList \<Rightarrow> bool \<Rightarrow> int64 \<Rightarrow> int64" where
  "ExpectedReplicaCount c liveness n =
     (let perCluster = math_Ceil (fdiv (float_of_int n) (float_of_int (ClusterCount c True))) in
      fold (\<lambda>cluster total. if inf_Live cluster = liveness
        then wrap64 (total + (if ClusterCount c True = 0 then - (2 ^ 63)
          else int64_of_float (math_Ceil (fmul (of_int perCluster) (inf_ScalingFactor cluster)))))
        else total) c 0)"

definition divideReplicas :: "ClusterInfoList \<Rightarrow> int32 \<Rightarrow> int32 \<Rightarrow> int32" where
  "divideReplicas clusterInfo n percent =
     (let denominator = utils_Max (wrap32 (ClusterCount clusterInfo True)) 1;
          factor = fdiv (float_of_int (utils_Min 100 percent)) 100;
          answer = int32_of_float
            (math_Ceil (fmul factor (fdiv (float_of_int n) (float_of_int denominator))))
      in utils_Max answer 1)"

definition expectedTotalReplicas :: "ClusterInfoList \<Rightarrow> int32 \<Rightarrow> int32 \<Rightarrow> int32" where
  "expectedTotalReplicas clusterInfo n percent =
     (let factor = fdiv (float_of_int (utils_Min 100 percent)) 100;
          answer = int64_of_float (math_Ceil (fmul factor (float_of_int n)))
      in wrap32 (ExpectedReplicaCount clusterInfo True answer))"

definition liveCount :: "ClusterInfoList \<Rightarrow> int" where
  "liveCount clusterInfo = ClusterCount clusterInfo True"

text \<open>\<open>rm = None\<close> is a nil release manager.\<close>

definition getTotalCurrentCapacity :: "ReleaseManager option \<Rightarrow> string \<Rightarrow> int32" where
  "getTotalCurrentCapacity rm excludeTag =
     (case rm of
        None \<Rightarrow> 0
      | Some rm \<Rightarrow> fold (\<lambda>rev total.
          if rs_Tag rev = excludeTag then total
          else if rs_CurrentPercent rev > 0 \<and> rsc_Current (rs_Scale rev) > 0
            then wrap32 (total + rsc_Current (rs_Scale rev))
          else total) (rmst_Revisions (rm_Status rm)) 0)"

section \<open>Facts\<close>

definition live_clusters :: "ClusterInfoList \<Rightarrow> nat" where
  "live_clusters c = length (filter inf_Live c)"

lemma ClusterCount_live: "ClusterCount c True = int (live_clusters c)"
proof -
  have "fold (\<lambda>i cnt. if inf_Live i = True then cnt + 1 else cnt) c n = n + int (length (filter inf_Live c))"
    for n
    by (induction c arbitrary: n) auto
  then show ?thesis by (simp add: ClusterCount_def live_clusters_def)
qed

text \<open>A quotient of small integers is never rounded across an integer, so its ceiling is exact.\<close>

lemma ceil_fdiv_exact:
  assumes a: "0 \<le> a" "a < 2 ^ 53" and n: "0 < n" "n \<le> 2 ^ 53"
  shows "math_Ceil (fdiv (of_int a) (of_int n)) = \<lceil>(of_int a :: rat) / of_int n\<rceil>"
proof -
  define q where "q = (of_int a :: rat) / of_int n"
  define m where "m = \<lceil>q\<rceil>"
  have npos: "(0::rat) < of_int n" using n by simp
  have q0: "0 \<le> q" using a npos by (simp add: q_def)
  have qa: "q \<le> of_int a"
  proof -
    have "(of_int a :: rat) * 1 \<le> of_int a * of_int n" using a n by (intro mult_left_mono) auto
    then show ?thesis using npos by (simp add: q_def divide_le_eq)
  qed
  have m: "q \<le> of_int m" "of_int m - 1 < q" unfolding m_def by linarith+
  have m0: "0 \<le> m" unfolding m_def using q0 by simp
  have "of_int m < (of_int a :: rat) + 1" using m(2) qa by linarith
  then have mle: "m \<le> a" by linarith
  have "fl q \<le> fl (of_int m)" using m(1) by (rule fl_mono)
  then have up: "fl q \<le> of_int m" using m0 mle a by simp
  have low: "of_int m - 1 < fl q"
  proof -
    have "(m - 1) * n < a"
    proof -
      have "(of_int (m - 1) :: rat) * of_int n < of_int a"
        using m(2) npos by (simp add: q_def less_divide_eq)
      then have "(of_int ((m - 1) * n) :: rat) < of_int a" by simp
      then show ?thesis by (simp only: of_int_less_iff)
    qed
    then have "(m - 1) * n + 1 \<le> a" by simp
    then have "(of_int ((m - 1) * n + 1) :: rat) \<le> of_int a" by (simp only: of_int_le_iff)
    then have gap: "of_int m - 1 + 1 / of_int n \<le> q"
      using npos by (simp add: q_def le_divide_eq distrib_right)
    have "\<bar>fl q - q\<bar> \<le> q / 2 ^ 53" using fl_err [of q] q0 by simp
    then have "q - q / 2 ^ 53 \<le> fl q" by linarith
    moreover have "q / 2 ^ 53 < 1 / of_int n"
    proof -
      have "(of_int a :: rat) < 2 ^ 53" using a by (metis of_int_less_iff of_int_numeral of_int_power)
      then have "(of_int a :: rat) / of_int n / 2 ^ 53 < 2 ^ 53 / of_int n / 2 ^ 53"
        using npos by (intro divide_strict_right_mono) simp_all
      then show ?thesis by (simp add: q_def)
    qed
    ultimately show ?thesis using gap by linarith
  qed
  have "math_Ceil (fl q) = m" unfolding math_Ceil_def using up low by (simp add: ceiling_eq_iff)
  then show ?thesis by (simp add: fdiv_def q_def m_def)
qed

lemma divideReplicas_pos: "1 \<le> divideReplicas c n p"
  by (simp add: divideReplicas_def Let_def utils_Max_def)

lemma denominator:
  "live_clusters c < 2 ^ 31 \<Longrightarrow> utils_Max (wrap32 (ClusterCount c True)) 1 = max 1 (int (live_clusters c))"
  by (simp add: ClusterCount_live utils_Max_def max_def)

text \<open>The argument of the ceiling: \<open>percent / 100 * (count / clusters)\<close>, in floating point.\<close>

definition share :: "int32 \<Rightarrow> int32 \<Rightarrow> int \<Rightarrow> float64" where
  "share n p d = fmul (fdiv (float_of_int (utils_Min 100 p)) 100)
     (fdiv (float_of_int n) (float_of_int d))"

lemma divideReplicas_share:
  "live_clusters c < 2 ^ 31 \<Longrightarrow>
   divideReplicas c n p = utils_Max (int32_of_float (math_Ceil (share n p (max 1 (int (live_clusters c)))))) 1"
  by (simp only: divideReplicas_def Let_def denominator share_def)

lemma share_mono:
  assumes "0 \<le> n" "n \<le> n'" "n' < 2 ^ 31" "0 \<le> p" "p \<le> p'" "p' < 2 ^ 31" "1 \<le> d" "d < 2 ^ 31"
  shows "share n p d \<le> share n' p' d"
proof -
  have "float_of_int (utils_Min 100 p) \<le> float_of_int (utils_Min 100 p')"
    using assms by (simp add: utils_Min_def)
  moreover have "0 \<le> float_of_int (utils_Min 100 p)"
    using assms by (simp add: utils_Min_def)
  ultimately show ?thesis unfolding share_def
    using assms by (intro fmul_mono fdiv_mono fdiv_nonneg) simp_all
qed

lemma share_full:
  assumes "0 \<le> n" "n < 2 ^ 31" "100 \<le> p" "1 \<le> d" "d < 2 ^ 31"
  shows "math_Ceil (share n p d) = \<lceil>(of_int n :: rat) / of_int d\<rceil>"
proof -
  have "fdiv (float_of_int (utils_Min 100 p)) 100 = 1"
    using assms fl_of_int [of 1] by (simp add: utils_Min_def fdiv_def)
  moreover have "fmul 1 (fdiv x y) = fdiv x y" for x y
    by (simp add: fmul_def fdiv_def fl_idem)
  ultimately have "share n p d = fdiv (of_int n) (of_int d)"
    using assms by (simp add: share_def)
  then show ?thesis using assms by (simp add: ceil_fdiv_exact)
qed

lemma share_range:
  assumes "0 \<le> n" "n < 2 ^ 31" "0 \<le> p" "p < 2 ^ 31" "1 \<le> d" "d < 2 ^ 31"
  shows "0 \<le> math_Ceil (share n p d) \<and> math_Ceil (share n p d) \<le> n"
proof
  have "0 \<le> share n p d" using assms share_mono [of 0 n 0 p d]
    by (simp add: share_def fdiv_def fmul_def utils_Min_def)
  then show "0 \<le> math_Ceil (share n p d)" by (rule math_Ceil_nonneg)
  have "math_Ceil (share n p d) \<le> math_Ceil (share n (max 100 p) d)"
    using assms by (intro math_Ceil_mono share_mono) (simp_all add: max_def)
  also have "\<dots> = \<lceil>(of_int n :: rat) / of_int d\<rceil>" using assms by (intro share_full) simp_all
  also have "\<dots> \<le> \<lceil>(of_int n :: rat)\<rceil>"
  proof (rule ceiling_mono)
    have "(of_int n :: rat) * 1 \<le> of_int n * of_int d" using assms by (intro mult_left_mono) auto
    then show "(of_int n :: rat) / of_int d \<le> of_int n" using assms by (simp add: divide_le_eq)
  qed
  finally show "math_Ceil (share n p d) \<le> n" by simp
qed

text \<open>At full traffic each cluster runs its share of the replicas, rounded up, and at least one.\<close>

lemma divideReplicas_full:
  assumes "0 \<le> n" "n < 2 ^ 31" "100 \<le> p" "p < 2 ^ 31" "live_clusters c < 2 ^ 31"
  shows "divideReplicas c n p = max 1 \<lceil>(of_int n :: rat) / of_int (max 1 (int (live_clusters c)))\<rceil>"
proof -
  let ?d = "max 1 (int (live_clusters c))"
  have d: "1 \<le> ?d" "?d < 2 ^ 31" using assms(5) by simp_all
  have "int32_of_float (math_Ceil (share n p ?d)) = math_Ceil (share n p ?d)"
    using share_range [of n p ?d] assms d unfolding int32_of_float_def by auto
  moreover have "utils_Max x 1 = max 1 x" for x by (simp add: utils_Max_def max_def)
  ultimately show ?thesis
    using share_full [of n p ?d] assms d by (simp only: divideReplicas_share [OF assms(5)])
qed

text \<open>So the clusters together run all the replicas asked for.\<close>

lemma divideReplicas_covers:
  assumes "0 \<le> n" "n < 2 ^ 31" "live_clusters c < 2 ^ 31"
  shows "n \<le> max 1 (int (live_clusters c)) * divideReplicas c n 100"
proof -
  let ?d = "max 1 (int (live_clusters c))"
  have "(of_int n :: rat) / of_int ?d \<le> of_int \<lceil>(of_int n :: rat) / of_int ?d\<rceil>"
    by (rule le_of_int_ceiling)
  also have "\<dots> \<le> of_int (divideReplicas c n 100)"
    using divideReplicas_full [of n 100 c] assms by simp
  finally have "(of_int n :: rat) \<le> of_int (?d * divideReplicas c n 100)"
    by (simp add: pos_divide_le_eq mult.commute)
  then show ?thesis by (simp only: of_int_le_iff)
qed

text \<open>More replicas or more traffic never lowers a cluster's share.\<close>

lemma divideReplicas_mono:
  assumes "0 \<le> n" "n \<le> n'" "n' < 2 ^ 31" "0 \<le> p" "p \<le> p'" "p' < 2 ^ 31" "live_clusters c < 2 ^ 31"
  shows "divideReplicas c n p \<le> divideReplicas c n' p'"
proof -
  let ?d = "max 1 (int (live_clusters c))"
  have d: "1 \<le> ?d" "?d < 2 ^ 31" using assms(7) by simp_all
  have "math_Ceil (share n p ?d) \<le> math_Ceil (share n' p' ?d)"
    using assms d by (intro math_Ceil_mono share_mono) simp_all
  moreover have "int32_of_float (math_Ceil (share n p ?d)) = math_Ceil (share n p ?d)"
    using share_range [of n p ?d] assms d unfolding int32_of_float_def by auto
  moreover have "int32_of_float (math_Ceil (share n' p' ?d)) = math_Ceil (share n' p' ?d)"
    using share_range [of n' p' ?d] assms d unfolding int32_of_float_def by auto
  ultimately show ?thesis
    by (simp add: divideReplicas_share [OF assms(7)] utils_Max_def)
qed

text \<open>Without a live cluster the fleet runs nothing.\<close>

lemma ExpectedReplicaCount_no_live: "live_clusters c = 0 \<Longrightarrow> ExpectedReplicaCount c True n = 0"
proof -
  have "filter inf_Live c = [] \<Longrightarrow> fold (\<lambda>cluster total. if inf_Live cluster = True
      then f cluster total else total) c (t :: int) = t" for f t
    by (induction c arbitrary: t) (auto split: if_splits)
  then show "live_clusters c = 0 \<Longrightarrow> ?thesis"
    by (simp add: ExpectedReplicaCount_def live_clusters_def)
qed

end
