(* ===== verification/Defaults.thy ===== *)
theory Defaults
  imports Api_Methods
begin

text \<open>
  Defaulting of the API objects: \<^verbatim>\<open>source_defaults.go\<close> and the functions generated from it in
  \<^verbatim>\<open>zz_generated.defaults.go\<close>. Each setter fills the fields that are unset and nothing else, so
  defaulting twice is defaulting once.
\<close>

section \<open>The setters\<close>

definition defaultReleaseMax :: u32 where "defaultReleaseMax = 100"
definition defaultReleaseSchedule :: string where "defaultReleaseSchedule = InhumaneSchedule"
definition defaultReleaseGcTTLSeconds :: int64 where
  "defaultReleaseGcTTLSeconds = 5 * 24 * 60 * 60"
definition defaultScaleDefault :: int32 where "defaultScaleDefault = 1"
definition defaultScaleMax :: int32 where "defaultScaleMax = 1"
definition defaultRequestsRateMetric :: string where
  "defaultRequestsRateMetric = ''istio_requests_rate''"
definition defaultReleaseScalingStrategy :: string where
  "defaultReleaseScalingStrategy = ScalingStrategyGeometric"
definition defaultReleaseGeometricScalingStart :: u32 where
  "defaultReleaseGeometricScalingStart = 10"
definition defaultReleaseGeometricScalingFactor :: u32 where
  "defaultReleaseGeometricScalingFactor = 2"
definition defaultReleaseLinearScalingIncrement :: u32 where
  "defaultReleaseLinearScalingIncrement = 5"
definition defaultPortIngressPort :: int32 where "defaultPortIngressPort = 443"
definition defaultPortContainerPort :: int32 where "defaultPortContainerPort = 80"
definition defaultPortPort :: int32 where "defaultPortPort = 80"
definition defaultPortProtocol :: string where "defaultPortProtocol = ''TCP''"
definition defaultPortMode :: PortMode where "defaultPortMode = PortPrivate"
definition defaultExternalTestTimeout :: duration where "defaultExternalTestTimeout = 2 * hour"
definition defaultReleaseGeometricScalingDelay :: duration where
  "defaultReleaseGeometricScalingDelay = 10 * second"
definition defaultReleaseLinearScalingDelay :: duration where
  "defaultReleaseLinearScalingDelay = 10 * second"

text \<open>\<^verbatim>\<open>if x == zero { x = default }\<close> and \<^verbatim>\<open>if p == nil { p = &default }\<close>.\<close>

definition or_default :: "'a \<Rightarrow> 'a \<Rightarrow> 'a \<Rightarrow> 'a" where
  "or_default zero d x = (if x = zero then d else x)"

definition or_set :: "'a \<Rightarrow> 'a option \<Rightarrow> 'a option" where
  "or_set d x = (case x of None \<Rightarrow> Some d | Some y \<Rightarrow> Some y)"

definition SetDefaults_ClusterSpec :: "ClusterSpec \<Rightarrow> ClusterSpec" where
  "SetDefaults_ClusterSpec spec =
     spec\<lparr>cs_ScalingFactorString := or_set ''1.0'' (cs_ScalingFactorString spec)\<rparr>"

definition SetExternalTestDefaults :: "ExternalTest \<Rightarrow> ExternalTest" where
  "SetExternalTestDefaults t =
     t\<lparr>et_Timeout := or_set defaultExternalTestTimeout (et_Timeout t)\<rparr>"

definition SetReleaseDefaults :: "ReleaseInfo \<Rightarrow> ReleaseInfo" where
  "SetReleaseDefaults release = (let g = ri_GeometricScaling release; l = ri_LinearScaling release in
     release\<lparr>
       ri_Max := or_default 0 defaultReleaseMax (ri_Max release),
       ri_Schedule := or_default [] defaultReleaseSchedule (ri_Schedule release),
       ri_ScalingStrategy := or_default [] defaultReleaseScalingStrategy (ri_ScalingStrategy release),
       ri_TTL := or_default 0 defaultReleaseGcTTLSeconds (ri_TTL release),
       ri_GeometricScaling := g\<lparr>
         gs_Factor := or_default 0 defaultReleaseGeometricScalingFactor (gs_Factor g),
         gs_Start := or_default 0 defaultReleaseGeometricScalingStart (gs_Start g),
         gs_Delay := or_set defaultReleaseGeometricScalingDelay (gs_Delay g)\<rparr>,
       ri_LinearScaling := l\<lparr>
         ls_Increment := or_default 0 defaultReleaseLinearScalingIncrement (ls_Increment l),
         ls_Delay := or_set defaultReleaseLinearScalingDelay (ls_Delay l)\<rparr>\<rparr>)"

definition SetPortDefaults :: "PortInfo \<Rightarrow> PortInfo" where
  "SetPortDefaults port =
     port\<lparr>pi_IngressPort := or_default 0 defaultPortIngressPort (pi_IngressPort port),
          pi_ContainerPort := or_default 0 defaultPortContainerPort (pi_ContainerPort port),
          pi_Port := or_default 0 defaultPortPort (pi_Port port),
          pi_Protocol := or_default [] defaultPortProtocol (pi_Protocol port),
          pi_Mode := or_default (OtherMode []) defaultPortMode (pi_Mode port)\<rparr>"

definition SetScaleDefaults :: "ScaleInfo \<Rightarrow> ScaleInfo" where
  "SetScaleDefaults scale =
     scale\<lparr>si_Default := or_default 0 defaultScaleDefault (si_Default scale),
           si_Max := or_default 0 defaultScaleMax (si_Max scale),
           si_RequestsRateMetric := or_default [] defaultRequestsRateMetric (si_RequestsRateMetric scale)\<rparr>"

definition SetDefaults_Target :: "RevisionTarget \<Rightarrow> RevisionTarget" where
  "SetDefaults_Target t =
     t\<lparr>rt_Release := SetReleaseDefaults (rt_Release t),
       rt_Scale := SetScaleDefaults (rt_Scale t),
       rt_Ports := map SetPortDefaults (rt_Ports t),
       rt_ExternalTest := SetExternalTestDefaults (rt_ExternalTest t)\<rparr>"

definition SetDefaults_RevisionSpec :: "RevisionSpec \<Rightarrow> RevisionSpec" where
  "SetDefaults_RevisionSpec spec = spec\<lparr>rsp_Targets := map SetDefaults_Target (rsp_Targets spec)\<rparr>"

section \<open>The generated functions\<close>

definition SetObjectDefaults_Cluster :: "Cluster \<Rightarrow> Cluster" where
  "SetObjectDefaults_Cluster c = c\<lparr>cl_Spec := SetDefaults_ClusterSpec (cl_Spec c)\<rparr>"

definition SetObjectDefaults_ClusterList :: "Cluster list \<Rightarrow> Cluster list" where
  "SetObjectDefaults_ClusterList items = map SetObjectDefaults_Cluster items"

definition SetSidecarPortDefaults :: "ContainerPort \<Rightarrow> ContainerPort" where
  "SetSidecarPortDefaults c = c\<lparr>cp_Protocol := or_default [] ''TCP'' (cp_Protocol c)\<rparr>"

definition SetSidecarDefaults :: "RevisionTarget \<Rightarrow> RevisionTarget" where
  "SetSidecarDefaults a = a\<lparr>rt_Sidecars :=
     map (\<lambda>b. b\<lparr>co_Ports := map SetSidecarPortDefaults (co_Ports b)\<rparr>) (rt_Sidecars a)\<rparr>"

definition SetObjectDefaults_Revision :: "Revision \<Rightarrow> Revision" where
  "SetObjectDefaults_Revision r = (let spec = SetDefaults_RevisionSpec (rev_Spec r) in
     r\<lparr>rev_Spec := spec\<lparr>rsp_Targets := map SetSidecarDefaults (rsp_Targets spec)\<rparr>\<rparr>)"

definition SetObjectDefaults_RevisionList :: "Revision list \<Rightarrow> Revision list" where
  "SetObjectDefaults_RevisionList items = map SetObjectDefaults_Revision items"

section \<open>What a defaulter promises\<close>

text \<open>
  A defaulter is idempotent: the objects it returns are its fixed points. The contract lifts from the
  elements of a slice to the slice.
\<close>

locale defaulter =
  fixes d :: "'a \<Rightarrow> 'a"
  assumes idem: "d (d x) = d x"
begin

lemma fixed_iff: "d x = x \<longleftrightarrow> (\<exists>y. x = d y)"
  using idem by metis

lemma map_idem: "map d (map d xs) = map d xs"
  by (simp add: idem)

lemma defaulter_map: "defaulter (map d)"
  by unfold_locales (rule map_idem)

end

lemma or_default_idem [simp]: "or_default z d (or_default z d x) = or_default z d x"
  by (simp add: or_default_def)

lemma or_set_idem [simp]: "or_set d (or_set e x) = or_set e x"
  by (cases x) (simp_all add: or_set_def)

lemma or_set_Some [simp]: "\<exists>y. or_set d x = Some y"
  by (cases x) (simp_all add: or_set_def)

lemma or_default_nonzero: "d \<noteq> z \<Longrightarrow> or_default z d x \<noteq> z"
  by (simp add: or_default_def)

lemma or_default_keep: "x \<noteq> z \<Longrightarrow> or_default z d x = x"
  by (simp add: or_default_def)

lemmas setter_defs = SetDefaults_ClusterSpec_def SetExternalTestDefaults_def SetReleaseDefaults_def
  SetPortDefaults_def SetScaleDefaults_def SetSidecarPortDefaults_def

interpretation release_defaults: defaulter SetReleaseDefaults
  by unfold_locales (simp add: setter_defs Let_def)

interpretation scale_defaults: defaulter SetScaleDefaults
  by unfold_locales (simp add: setter_defs)

interpretation port_defaults: defaulter SetPortDefaults
  by unfold_locales (simp add: setter_defs)

interpretation test_defaults: defaulter SetExternalTestDefaults
  by unfold_locales (simp add: setter_defs)

interpretation cluster_defaults: defaulter SetObjectDefaults_Cluster
  by unfold_locales (simp add: setter_defs SetObjectDefaults_Cluster_def)

interpretation target_defaults: defaulter SetDefaults_Target
  by unfold_locales
    (simp add: SetDefaults_Target_def release_defaults.idem scale_defaults.idem port_defaults.idem
      test_defaults.idem)

interpretation sidecar_port_defaults: defaulter SetSidecarPortDefaults
  by unfold_locales (simp add: setter_defs)

interpretation sidecar_defaults: defaulter SetSidecarDefaults
  by unfold_locales (simp add: SetSidecarDefaults_def sidecar_port_defaults.idem o_def)

lemma defaults_commute:
  "SetDefaults_Target (SetSidecarDefaults t) = SetSidecarDefaults (SetDefaults_Target t)"
  by (simp add: SetDefaults_Target_def SetSidecarDefaults_def)

interpretation revision_defaults: defaulter SetObjectDefaults_Revision
  by unfold_locales
    (simp add: SetObjectDefaults_Revision_def SetDefaults_RevisionSpec_def Let_def o_def
      defaults_commute target_defaults.idem sidecar_defaults.idem)

lemma SetObjectDefaults_Revision_targets:
  "rsp_Targets (rev_Spec (SetObjectDefaults_Revision r)) =
     map (\<lambda>t. SetSidecarDefaults (SetDefaults_Target t)) (rsp_Targets (rev_Spec r))"
  by (simp add: SetObjectDefaults_Revision_def SetDefaults_RevisionSpec_def Let_def)

lemma rt_Release_defaulted:
  "rt_Release (SetSidecarDefaults (SetDefaults_Target t)) = SetReleaseDefaults (rt_Release t)"
  by (simp add: SetSidecarDefaults_def SetDefaults_Target_def)

text \<open>
  What release defaults establish: a cap, a strategy, a positive increment, start and factor, and a
  delay for both strategies, which the scaling package dereferences.
\<close>

definition release_defaulted :: "ReleaseInfo \<Rightarrow> bool" where
  "release_defaulted r \<longleftrightarrow>
     ri_Max r \<noteq> 0 \<and> ri_Schedule r \<noteq> [] \<and> ri_ScalingStrategy r \<noteq> [] \<and> ri_TTL r \<noteq> 0 \<and>
     gs_Factor (ri_GeometricScaling r) \<noteq> 0 \<and> gs_Start (ri_GeometricScaling r) \<noteq> 0 \<and>
     gs_Delay (ri_GeometricScaling r) \<noteq> None \<and>
     ls_Increment (ri_LinearScaling r) \<noteq> 0 \<and> ls_Delay (ri_LinearScaling r) \<noteq> None"

lemma or_set_not_None [simp]: "or_set d x \<noteq> None"
  by (cases x) (simp_all add: or_set_def)

lemma release_defaulted_set: "release_defaulted (SetReleaseDefaults r)"
  by (simp add: release_defaulted_def SetReleaseDefaults_def Let_def or_default_def
      defaultReleaseMax_def defaultReleaseSchedule_def InhumaneSchedule_def
      defaultReleaseScalingStrategy_def ScalingStrategyGeometric_def defaultReleaseGcTTLSeconds_def
      defaultReleaseGeometricScalingFactor_def defaultReleaseGeometricScalingStart_def
      defaultReleaseLinearScalingIncrement_def)

lemma release_defaulted_fixed: "release_defaulted r \<longleftrightarrow> SetReleaseDefaults r = r"
proof
  assume r: "release_defaulted r"
  have "or_default 0 defaultReleaseMax (ri_Max r) = ri_Max r"
    "or_default [] defaultReleaseSchedule (ri_Schedule r) = ri_Schedule r"
    using r by (simp_all add: release_defaulted_def or_default_keep)
  with r show "SetReleaseDefaults r = r"
    by (auto simp: release_defaulted_def SetReleaseDefaults_def Let_def or_default_keep or_set_def)
next
  assume "SetReleaseDefaults r = r"
  then show "release_defaulted r" by (metis release_defaulted_set)
qed

end
