(* ===== verification/Scaling.thy ===== *)
theory Scaling
  imports Float64 Defaults
begin

text \<open>
  The scaling strategies, \<^verbatim>\<open>src/controllers/scaling\<close>: how much traffic a revision gets next. A
  \<^verbatim>\<open>ScalableTarget\<close> is the record of what its methods return; dereferencing a missing delay panics.
  Percentages are \<^verbatim>\<open>uint32\<close>, so the products and sums wrap.
\<close>

section \<open>Targets and strategies\<close>

record ScalableTarget =
  t_CanRampTo :: "u32 \<Rightarrow> bool"
  t_CurrentPercent :: u32
  t_PeakPercent :: u32
  t_LastUpdated :: time
  t_ReleaseInfo :: ReleaseInfo

definition GeometricNextIncrement :: "ScalableTarget \<Rightarrow> u32 \<Rightarrow> u32" where
  "GeometricNextIncrement st mx =
     (let current = t_CurrentPercent st; release = t_ReleaseInfo st in
      if mx \<le> 0 then 0
      else let mx = (if ri_Max release < mx then ri_Max release else mx) in
        if current > mx then mx
        else let next = current * gs_Factor (ri_GeometricScaling release);
                 next = (if current < gs_Start (ri_GeometricScaling release)
                         then gs_Start (ri_GeometricScaling release) else next);
                 next = (if next > mx then mx else next)
             in next)"

definition GeometricScale :: "ScalableTarget \<Rightarrow> u32 \<Rightarrow> time \<Rightarrow> u32 option" where
  "GeometricScale st mx t =
     (let desired = GeometricNextIncrement st mx; current = t_CurrentPercent st in
      if desired \<le> t_CurrentPercent st then Some desired
      else do {
        delay \<leftarrow> gs_Delay (ri_GeometricScaling (t_ReleaseInfo st));
        let deadline = t_LastUpdated st + delay;
        if deadline > t then Some current
        else if t_CanRampTo st desired then Some desired
        else Some current
      })"

text \<open>
  The loop of \<^verbatim>\<open>GeometricExpectedReleaseLatency\<close>; it has no bound of its own, so that it returns at
  all is a theorem below.
\<close>

partial_function (option) geometric_iterations :: "u32 \<Rightarrow> u32 \<Rightarrow> u32 \<Rightarrow> int \<Rightarrow> int option" where
  "geometric_iterations factor mx currentPercent iterations =
     (let currentPercent = currentPercent * factor; iterations = iterations + 1 in
      if currentPercent \<ge> mx then Some iterations
      else geometric_iterations factor mx currentPercent iterations)"

definition GeometricExpectedReleaseLatency :: "ScalableTarget \<Rightarrow> u32 \<Rightarrow> duration option" where
  "GeometricExpectedReleaseLatency st mx = (let g = ri_GeometricScaling (t_ReleaseInfo st) in do {
     iterations \<leftarrow> geometric_iterations (gs_Factor g) mx (gs_Start g) 1;
     delay \<leftarrow> gs_Delay g;
     Some (wrap64 (delay * iterations))
   })"

definition LinearNextIncrement :: "ScalableTarget \<Rightarrow> u32 \<Rightarrow> u32" where
  "LinearNextIncrement st mx =
     (let current = t_CurrentPercent st; release = t_ReleaseInfo st in
      if mx \<le> 0 then 0
      else let mx = (if ri_Max release < mx then ri_Max release else mx) in
        if current > mx then mx
        else let increment = ls_Increment (ri_LinearScaling release);
                 next = current + increment
             in if next > mx then mx else next)"

definition LinearScale :: "ScalableTarget \<Rightarrow> u32 \<Rightarrow> time \<Rightarrow> u32 option" where
  "LinearScale st mx t =
     (let desired = LinearNextIncrement st mx; current = t_CurrentPercent st in
      if desired \<le> t_CurrentPercent st then Some desired
      else do {
        duration \<leftarrow> ls_Delay (ri_LinearScaling (t_ReleaseInfo st));
        let deadline = t_LastUpdated st + duration;
        if deadline > t then Some current
        else if t_CanRampTo st desired then Some desired
        else Some (t_CurrentPercent st)
      })"

text \<open>
  \<^verbatim>\<open>math.Ceil(float64(max) / float64(increment))\<close> as an \<^verbatim>\<open>int64\<close>. A zero increment makes the
  quotient infinite or NaN, whose conversion Go leaves to the machine; the value is amd64's.
\<close>

definition linear_iterations :: "u32 \<Rightarrow> u32 \<Rightarrow> int64" where
  "linear_iterations mx increment =
     (if increment = 0 then - (2 ^ 63)
      else math_Ceil (fdiv (float_of_int (uint mx)) (float_of_int (uint increment))))"

definition LinearExpectedReleaseLatency :: "ScalableTarget \<Rightarrow> u32 \<Rightarrow> duration option" where
  "LinearExpectedReleaseLatency st mx = (let l = ri_LinearScaling (t_ReleaseInfo st) in do {
     duration \<leftarrow> ls_Delay l;
     Some (wrap64 (duration * linear_iterations mx (ls_Increment l)))
   })"

section \<open>The contract of a strategy\<close>

text \<open>
  What the callers of a strategy rely on. \<open>nxt\<close> is the next increment and \<open>scale\<close> the next percentage;
  the cap a caller passes is \<open>mx\<close>, the release's own cap is \<^verbatim>\<open>release.Max\<close>, and the strategy's
  wait is \<open>delay\<close>.
\<close>

definition cap :: "ReleaseInfo \<Rightarrow> u32 \<Rightarrow> u32" where
  "cap release mx = (if mx = 0 then 0 else if ri_Max release < mx then ri_Max release else mx)"

locale scaling_strategy =
  fixes nxt :: "ScalableTarget \<Rightarrow> u32 \<Rightarrow> u32"
    and scale :: "ScalableTarget \<Rightarrow> u32 \<Rightarrow> time \<Rightarrow> u32 option"
    and delay :: "ReleaseInfo \<Rightarrow> duration option"
  assumes nxt_le_cap: "nxt st mx \<le> cap (t_ReleaseInfo st) mx"
    and nxt_above_cap: "cap (t_ReleaseInfo st) mx \<le> t_CurrentPercent st \<Longrightarrow> nxt st mx \<le> t_CurrentPercent st"
    and nxt_shrink: "cap (t_ReleaseInfo st) mx < t_CurrentPercent st \<Longrightarrow>
      nxt st mx = cap (t_ReleaseInfo st) mx"
    and scale_unfold: "scale st mx t =
      (if nxt st mx \<le> t_CurrentPercent st then Some (nxt st mx)
       else case delay (t_ReleaseInfo st) of
           None \<Rightarrow> None
         | Some d \<Rightarrow> Some (if t_LastUpdated st + d \<le> t \<and> t_CanRampTo st (nxt st mx)
                           then nxt st mx else t_CurrentPercent st))"
begin

text \<open>The next percentage never passes the caller's cap or the release's own.\<close>

lemma scale_le_cap: "scale st mx t = Some p \<Longrightarrow> p \<le> cap (t_ReleaseInfo st) mx"
  using nxt_le_cap [of st mx] nxt_above_cap [of st mx]
  by (auto simp: scale_unfold split: if_splits option.splits)

lemma scale_le_max: "scale st mx t = Some p \<Longrightarrow> p \<le> mx"
  by (drule scale_le_cap) (auto simp: cap_def split: if_splits)

lemma scale_zero: "scale st 0 t = Some 0"
  using nxt_le_cap [of st 0] by (simp add: scale_unfold cap_def)

text \<open>Traffic is raised only past the deadline and only to a percentage the target can ramp to.\<close>

lemma scale_raise:
  "scale st mx t = Some p \<Longrightarrow> t_CurrentPercent st < p \<Longrightarrow>
   p = nxt st mx \<and> t_CanRampTo st p \<and>
   (\<exists>d. delay (t_ReleaseInfo st) = Some d \<and> t_LastUpdated st + d \<le> t)"
  by (auto simp: scale_unfold split: if_splits option.splits)

lemma scale_gated:
  "\<not> t_CanRampTo st (nxt st mx) \<Longrightarrow> t_CurrentPercent st \<le> cap (t_ReleaseInfo st) mx \<Longrightarrow>
   scale st mx t = Some p \<Longrightarrow> p \<le> t_CurrentPercent st"
  by (auto simp: scale_unfold split: if_splits option.splits)

text \<open>It is lowered at once, without any wait, when the cap falls below it.\<close>

lemma scale_down: "cap (t_ReleaseInfo st) mx < t_CurrentPercent st \<Longrightarrow>
   scale st mx t = Some (cap (t_ReleaseInfo st) mx)"
  using nxt_shrink [of st mx] by (simp add: scale_unfold order.strict_implies_order)

lemma scale_total: "delay (t_ReleaseInfo st) \<noteq> None \<Longrightarrow> scale st mx t \<noteq> None"
  by (auto simp: scale_unfold)

end

lemma word_le_0_iff: "(a::u32) \<le> 0 \<longleftrightarrow> a = 0"
  by simp

interpretation linear: scaling_strategy LinearNextIncrement LinearScale
    "\<lambda>r. ls_Delay (ri_LinearScaling r)"
proof (unfold_locales, goal_cases)
  case (1 st mx)
  then show ?case by (auto simp: LinearNextIncrement_def cap_def Let_def)
next
  case (2 st mx)
  then show ?case by (auto simp: LinearNextIncrement_def cap_def Let_def split: if_splits)
next
  case (3 st mx)
  then show ?case by (auto simp: LinearNextIncrement_def cap_def Let_def split: if_splits)
next
  case (4 st mx t)
  then show ?case by (auto simp: LinearScale_def Let_def split: option.splits)
qed

interpretation geometric: scaling_strategy GeometricNextIncrement GeometricScale
    "\<lambda>r. gs_Delay (ri_GeometricScaling r)"
proof (unfold_locales, goal_cases)
  case (1 st mx)
  then show ?case by (auto simp: GeometricNextIncrement_def cap_def Let_def)
next
  case (2 st mx)
  then show ?case by (auto simp: GeometricNextIncrement_def cap_def Let_def split: if_splits)
next
  case (3 st mx)
  then show ?case by (auto simp: GeometricNextIncrement_def cap_def Let_def split: if_splits)
next
  case (4 st mx t)
  then show ?case by (auto simp: GeometricScale_def Let_def split: option.splits)
qed

section \<open>Ramping up\<close>

text \<open>One reconciliation after another, each just past the deadline of the one before.\<close>

primrec ramp :: "(ScalableTarget \<Rightarrow> u32 \<Rightarrow> time \<Rightarrow> u32 option) \<Rightarrow> u32 \<Rightarrow> duration \<Rightarrow> nat \<Rightarrow>
    ScalableTarget \<Rightarrow> ScalableTarget option" where
  "ramp scale mx d 0 st = Some st"
| "ramp scale mx d (Suc n) st = do {
     st' \<leftarrow> ramp scale mx d n st;
     p \<leftarrow> scale st' mx (t_LastUpdated st' + d);
     Some (st'\<lparr>t_CurrentPercent := p, t_LastUpdated := t_LastUpdated st' + d\<rparr>)
   }"

text \<open>
  A strategy with a sane configuration makes progress: up to the cap the next increment is the cap or
  higher than the current percentage, so a target that can always ramp reaches the cap.
\<close>

locale ramping_strategy = scaling_strategy nxt scale delay
  for nxt :: "ScalableTarget \<Rightarrow> u32 \<Rightarrow> u32"
    and scale :: "ScalableTarget \<Rightarrow> u32 \<Rightarrow> time \<Rightarrow> u32 option"
    and delay :: "ReleaseInfo \<Rightarrow> duration option" +
  fixes sane :: "ReleaseInfo \<Rightarrow> bool"
  assumes progress: "sane (t_ReleaseInfo st) \<Longrightarrow> t_CurrentPercent st \<le> cap (t_ReleaseInfo st) mx \<Longrightarrow>
      nxt st mx = cap (t_ReleaseInfo st) mx \<or> t_CurrentPercent st < nxt st mx"
begin

lemma ramp_step:
  assumes "sane (t_ReleaseInfo st)" "delay (t_ReleaseInfo st) = Some d" "\<And>p. t_CanRampTo st p"
  shows "\<exists>p. scale st mx (t_LastUpdated st + d) = Some p \<and> p \<le> cap (t_ReleaseInfo st) mx \<and>
    (p = cap (t_ReleaseInfo st) mx \<or> t_CurrentPercent st < p)"
proof (cases "t_CurrentPercent st \<le> cap (t_ReleaseInfo st) mx")
  case True
  with assms progress [of st mx] nxt_le_cap [of st mx] show ?thesis
    by (auto simp: scale_unfold)
next
  case False
  then have "cap (t_ReleaseInfo st) mx < t_CurrentPercent st" by simp
  then show ?thesis by (simp add: scale_down)
qed

lemma ramp_reaches_aux:
  assumes "sane (t_ReleaseInfo st)" "delay (t_ReleaseInfo st) = Some d" "\<And>p. t_CanRampTo st p"
  shows "\<exists>p lu. ramp scale mx d (Suc n) st = Some (st\<lparr>t_CurrentPercent := p, t_LastUpdated := lu\<rparr>) \<and>
    p \<le> cap (t_ReleaseInfo st) mx \<and> (p = cap (t_ReleaseInfo st) mx \<or> n < unat p)"
proof (induction n)
  case 0
  obtain p where "scale st mx (t_LastUpdated st + d) = Some p" "p \<le> cap (t_ReleaseInfo st) mx"
    "p = cap (t_ReleaseInfo st) mx \<or> t_CurrentPercent st < p"
    using ramp_step [OF assms, of mx] by auto
  then show ?case by (auto simp: word_less_nat_alt)
next
  case (Suc n)
  then obtain p lu where p: "ramp scale mx d (Suc n) st = Some (st\<lparr>t_CurrentPercent := p, t_LastUpdated := lu\<rparr>)"
    "p \<le> cap (t_ReleaseInfo st) mx" "p = cap (t_ReleaseInfo st) mx \<or> n < unat p" by auto
  let ?st = "st\<lparr>t_CurrentPercent := p, t_LastUpdated := lu\<rparr>"
  obtain q where q: "scale ?st mx (lu + d) = Some q" "q \<le> cap (t_ReleaseInfo st) mx"
    "q = cap (t_ReleaseInfo st) mx \<or> p < q"
    using ramp_step [of ?st d mx] assms by auto
  have "p < q \<Longrightarrow> n < unat p \<Longrightarrow> Suc n < unat q" by (simp add: word_less_nat_alt)
  with p(2,3) q have "q = cap (t_ReleaseInfo st) mx \<or> Suc n < unat q" by auto
  moreover have "ramp scale mx d (Suc (Suc n)) st
      = Some (st\<lparr>t_CurrentPercent := q, t_LastUpdated := lu + d\<rparr>)"
    using p(1) q(1) by (simp del: ramp.simps(2) add: ramp.simps(2) [of _ _ _ "Suc n"])
  ultimately show ?case using q(2) by blast
qed

lemma ramp_reaches:
  assumes "sane (t_ReleaseInfo st)" "delay (t_ReleaseInfo st) = Some d" "\<And>p. t_CanRampTo st p"
    and n: "unat (cap (t_ReleaseInfo st) mx) \<le> n" "0 < n"
  shows "\<exists>st'. ramp scale mx d n st = Some st' \<and> t_CurrentPercent st' = cap (t_ReleaseInfo st) mx"
proof -
  obtain m where m: "n = Suc m" using n(2) gr0_implies_Suc by blast
  obtain p lu where "ramp scale mx d n st = Some (st\<lparr>t_CurrentPercent := p, t_LastUpdated := lu\<rparr>)"
    "p \<le> cap (t_ReleaseInfo st) mx" "p = cap (t_ReleaseInfo st) mx \<or> m < unat p"
    using ramp_reaches_aux [OF assms(1-3), of mx m] m by auto
  moreover from this n(1) m have "p = cap (t_ReleaseInfo st) mx"
    by (intro word_unat_eq_iff [THEN iffD2]) (auto simp: word_le_nat_alt)
  ultimately show ?thesis by simp
qed

end

text \<open>The increments over the integers, as long as nothing wraps.\<close>

lemma unat_add_small: "unat (a::u32) + unat b < 2 ^ 32 \<Longrightarrow> unat (a + b) = unat a + unat b"
  by (simp add: unat_word_ariths)

lemma unat_mult_small: "unat (a::u32) * unat b < 2 ^ 32 \<Longrightarrow> unat (a * b) = unat a * unat b"
  by (simp add: unat_word_ariths)

definition linear_sane :: "ReleaseInfo \<Rightarrow> bool" where
  "linear_sane r \<longleftrightarrow> 0 < ls_Increment (ri_LinearScaling r) \<and>
     unat (ri_Max r) + unat (ls_Increment (ri_LinearScaling r)) < 2 ^ 32"

definition geometric_sane :: "ReleaseInfo \<Rightarrow> bool" where
  "geometric_sane r \<longleftrightarrow> 0 < gs_Start (ri_GeometricScaling r) \<and>
     2 \<le> unat (gs_Factor (ri_GeometricScaling r)) \<and>
     unat (ri_Max r) * unat (gs_Factor (ri_GeometricScaling r)) < 2 ^ 32"

lemma cap_le: "cap r mx \<le> ri_Max r" "cap r mx \<le> mx"
  by (auto simp: cap_def)

lemma linear_progress:
  assumes sane: "linear_sane (t_ReleaseInfo st)"
    and le: "t_CurrentPercent st \<le> cap (t_ReleaseInfo st) mx"
  shows "LinearNextIncrement st mx = cap (t_ReleaseInfo st) mx \<or>
    t_CurrentPercent st < LinearNextIncrement st mx"
proof -
  let ?c = "t_CurrentPercent st" and ?i = "ls_Increment (ri_LinearScaling (t_ReleaseInfo st))"
  have "?c \<le> ri_Max (t_ReleaseInfo st)" using le cap_le(1) order.trans by blast
  then have "unat ?c + unat ?i < 2 ^ 32"
    using sane by (auto simp: linear_sane_def word_le_nat_alt)
  then have "unat (?c + ?i) = unat ?c + unat ?i" by (rule unat_add_small)
  moreover have "0 < unat ?i" using sane by (simp add: linear_sane_def unat_gt_0 word_gt_0)
  ultimately have "?c < ?c + ?i" by (simp add: word_less_nat_alt)
  moreover have "LinearNextIncrement st mx = cap (t_ReleaseInfo st) mx \<or>
      LinearNextIncrement st mx = ?c + ?i"
    using le by (auto simp: LinearNextIncrement_def cap_def Let_def)
  ultimately show ?thesis by auto
qed

lemma geometric_progress:
  assumes sane: "geometric_sane (t_ReleaseInfo st)"
    and le: "t_CurrentPercent st \<le> cap (t_ReleaseInfo st) mx"
  shows "GeometricNextIncrement st mx = cap (t_ReleaseInfo st) mx \<or>
    t_CurrentPercent st < GeometricNextIncrement st mx"
proof -
  let ?c = "t_CurrentPercent st" and ?g = "ri_GeometricScaling (t_ReleaseInfo st)"
  have "?c \<le> ri_Max (t_ReleaseInfo st)" using le cap_le(1) order.trans by blast
  then have "unat ?c * unat (gs_Factor ?g) \<le> unat (ri_Max (t_ReleaseInfo st)) * unat (gs_Factor ?g)"
    by (simp add: word_le_nat_alt)
  then have "unat ?c * unat (gs_Factor ?g) < 2 ^ 32"
    using sane unfolding geometric_sane_def by linarith
  then have m: "unat (?c * gs_Factor ?g) = unat ?c * unat (gs_Factor ?g)" by (rule unat_mult_small)
  have "?c < gs_Start ?g \<or> ?c < ?c * gs_Factor ?g"
  proof (cases "?c < gs_Start ?g")
    case False
    then have "0 < unat ?c" using sane by (simp add: geometric_sane_def unat_gt_0) auto
    then have "unat ?c < unat ?c * unat (gs_Factor ?g)"
      using sane by (simp add: geometric_sane_def)
    then show ?thesis by (simp add: word_less_nat_alt m)
  qed simp
  moreover have "GeometricNextIncrement st mx = cap (t_ReleaseInfo st) mx \<or>
      GeometricNextIncrement st mx = (if ?c < gs_Start ?g then gs_Start ?g else ?c * gs_Factor ?g)"
    using le by (auto simp: GeometricNextIncrement_def cap_def Let_def)
  ultimately show ?thesis by (auto split: if_splits)
qed

interpretation linear_ramp: ramping_strategy LinearNextIncrement LinearScale
    "\<lambda>r. ls_Delay (ri_LinearScaling r)" linear_sane
  by unfold_locales (rule linear_progress)

interpretation geometric_ramp: ramping_strategy GeometricNextIncrement GeometricScale
    "\<lambda>r. gs_Delay (ri_GeometricScaling r)" geometric_sane
  by unfold_locales (rule geometric_progress)

section \<open>The expected latency\<close>

text \<open>
  The loop of \<open>GeometricExpectedReleaseLatency\<close> counts the multiplications to reach the cap, as long
  as the product does not wrap on the way.
\<close>

lemma geometric_iterations_count:
  assumes "unat mx * unat factor < 2 ^ 32" "0 < n" "unat mx \<le> unat c * unat factor ^ n"
    "\<And>k. 0 < k \<Longrightarrow> k < n \<Longrightarrow> unat c * unat factor ^ k < unat mx" "unat c * unat factor < 2 ^ 32"
  shows "geometric_iterations factor mx c i = Some (i + int n)"
  using assms(2-)
proof (induction n arbitrary: c i rule: nat_induct_non_zero)
  case 1
  then show ?case
    using unat_mult_small [of c factor]
    by (subst geometric_iterations.simps) (simp add: Let_def word_le_nat_alt)
next
  case (Suc n)
  have m: "unat (c * factor) = unat c * unat factor" using Suc.prems(3) by (rule unat_mult_small)
  have lt: "unat c * unat factor < unat mx" using Suc.prems(2) [of 1] Suc.hyps by simp
  have "geometric_iterations factor mx (c * factor) (i + 1) = Some (i + 1 + int n)"
  proof (rule Suc.IH)
    show "unat mx \<le> unat (c * factor) * unat factor ^ n"
      using Suc.prems(1) by (simp add: m mult.assoc)
    show "unat (c * factor) * unat factor ^ k < unat mx" if "0 < k" "k < n" for k
      using Suc.prems(2) [of "Suc k"] that by (simp add: m mult.assoc)
    have "unat (c * factor) * unat factor \<le> unat mx * unat factor" using lt m by simp
    then show "unat (c * factor) * unat factor < 2 ^ 32" using assms(1) by linarith
  qed
  then show ?case
    using lt by (subst geometric_iterations.simps) (simp add: Let_def word_le_nat_alt m)
qed

lemma geometric_iterations_terminates:
  assumes "unat mx * unat factor < 2 ^ 32" "2 \<le> unat factor" "0 < c" "c \<le> mx"
  shows "\<exists>n. 0 < n \<and> n \<le> 32 \<and> geometric_iterations factor mx c i = Some (i + int n)"
proof -
  let ?P = "\<lambda>n. 0 < n \<and> unat mx \<le> unat c * unat factor ^ n"
  have "(2::nat) ^ 32 \<le> unat factor ^ 32" using assms(2) by (intro power_mono) simp_all
  also have "\<dots> \<le> unat c * unat factor ^ 32" using assms(3) by (simp add: unat_gt_0 Suc_leI)
  finally have P: "?P 32" using unsigned_less [of mx, where ?'a = nat] by simp
  define n where "n = (LEAST n. ?P n)"
  have n: "?P n" "n \<le> 32" unfolding n_def using P by (rule LeastI, intro Least_le)
  have "unat c * unat factor ^ k < unat mx" if "0 < k" "k < n" for k
    using not_less_Least [of k ?P] that n_def by auto
  moreover have "unat c * unat factor < 2 ^ 32"
  proof -
    have "unat c * unat factor \<le> unat mx * unat factor" using assms(4) by (simp add: word_le_nat_alt)
    then show ?thesis using assms(1) by linarith
  qed
  ultimately have "geometric_iterations factor mx c i = Some (i + int n)"
    using n assms(1) by (intro geometric_iterations_count) auto
  with n show ?thesis by blast
qed

text \<open>With factor 1 and a start below the cap the loop never ends.\<close>

lemma geometric_iterations_diverges:
  "c < mx \<Longrightarrow> geometric_iterations 1 mx c i = None"
proof -
  have "f = 1 \<longrightarrow> m \<le> c" if "geometric_iterations f m c i = Some y" for f m c i y
    using that
  proof (rule geometric_iterations.raw_induct [rotated])
    fix g and f m c :: u32 and i y :: int
    assume IH: "\<And>f m c i y. g f m c i = Some y \<Longrightarrow> f = 1 \<longrightarrow> m \<le> c"
      and step: "(let currentPercent = c * f; iterations = i + 1 in
        if m \<le> currentPercent then Some iterations else g f m currentPercent iterations) = Some y"
    show "f = 1 \<longrightarrow> m \<le> c"
      using step IH [of f m "c * f" "i + 1" y] by (auto simp: Let_def split: if_splits)
  qed
  then show "c < mx \<Longrightarrow> ?thesis" by fastforce
qed

end
