(* ===== verification/Schedule.thy ===== *)
theory Schedule
  imports Go_Std
begin

text \<open>
  The release schedules, \<^verbatim>\<open>src/controllers/schedule\<close>: at which times a revision may start releasing.
  The offset of America/Los\_Angeles from UTC comes from the time zone database, which is not part of the
  program: it is the parameter \<open>off\<close>, in nanoseconds, of every definition that uses the location.
\<close>

section \<open>Times with a zone, and dates in the schedule's location\<close>

text \<open>A \<^verbatim>\<open>time.Time\<close> whose calendar fields are read: the instant and its own zone's offset.\<close>

record ZonedTime =
  z_Instant :: time
  z_Offset :: int

definition day_ns :: int where "day_ns = 24 * hour"

text \<open>The calendar day of \<^verbatim>\<open>t.Year(), t.Month(), t.Day()\<close> as a day number, and the day of the week.\<close>

definition day_of :: "ZonedTime \<Rightarrow> day" where
  "day_of t = (z_Instant t + z_Offset t) div day_ns"

definition Weekday :: "ZonedTime \<Rightarrow> weekday" where
  "Weekday t = weekday_of (day_of t)"

text \<open>
  \<^verbatim>\<open>time.Date(year, month, day, 0, 0, 0, 0, loc)\<close>: midnight in the location. Go takes the offset at the
  local time read as UTC, and looks it up again at the instant that gives.
\<close>

definition date_of_day :: "(time \<Rightarrow> int) \<Rightarrow> day \<Rightarrow> time" where
  "date_of_day off d = (let local = d * day_ns in local - off (local - off local))"

definition date :: "(time \<Rightarrow> int) \<Rightarrow> int \<Rightarrow> int \<Rightarrow> int \<Rightarrow> time" where
  "date off y m d = date_of_day off (civil_day y m d)"

text \<open>\<^verbatim>\<open>t.In(scheduleLocation).Hour()\<close>\<close>

definition hour_in :: "(time \<Rightarrow> int) \<Rightarrow> time \<Rightarrow> int" where
  "hour_in off t = (t + off t) mod day_ns div hour"

section \<open>The schedules\<close>

definition defaultStartHour :: int where "defaultStartHour = 7"
definition defaultEndHour :: int where "defaultEndHour = 16"
definition earlyEndHour :: int where "earlyEndHour = 14"

definition holiday_dates :: "(int \<times> int \<times> int) list" where
  "holiday_dates =
     [(2020, 6, 19), (2020, 7, 3), (2020, 7, 4), (2020, 7, 5), (2020, 9, 7), (2020, 11, 26),
      (2020, 11, 27), (2020, 12, 17), (2020, 12, 18), (2020, 12, 21), (2020, 12, 22), (2020, 12, 23),
      (2020, 12, 24), (2020, 12, 25), (2020, 12, 26), (2020, 12, 27), (2020, 12, 28), (2020, 12, 29),
      (2020, 12, 30), (2020, 12, 31),
      (2021, 1, 1), (2021, 1, 18), (2021, 5, 31), (2021, 6, 19), (2021, 7, 4), (2021, 7, 5),
      (2021, 9, 6), (2021, 11, 25), (2021, 11, 26), (2021, 12, 24), (2021, 12, 25), (2021, 12, 26),
      (2021, 12, 31),
      (2023, 1, 1), (2023, 12, 20), (2023, 12, 21), (2023, 12, 22), (2023, 12, 23), (2023, 12, 24),
      (2023, 12, 25), (2023, 12, 26), (2023, 12, 27), (2023, 12, 28), (2023, 12, 29), (2023, 12, 30),
      (2023, 12, 31),
      (2024, 1, 1)]"

definition holidays :: "(time \<Rightarrow> int) \<Rightarrow> time list" where
  "holidays off = map (\<lambda>(y, m, d). date off y m d) holiday_dates"

text \<open>The loop over the holidays: \<open>Some b\<close> when it returns \<open>b\<close>, \<open>None\<close> when it runs to its end.\<close>

fun humane_holidays :: "time \<Rightarrow> time \<Rightarrow> weekday \<Rightarrow> int \<Rightarrow> time list \<Rightarrow> bool option" where
  "humane_holidays day tomorrow wd hr [] = None"
| "humane_holidays day tomorrow wd hr (holiday # hs) =
     (if holiday = day then Some False
      else if holiday = tomorrow \<and> wd \<noteq> Saturday \<and> wd \<noteq> Sunday
        then Some (hr \<ge> defaultStartHour \<and> hr < earlyEndHour)
      else humane_holidays day tomorrow wd hr hs)"

definition humanePermitsRelease :: "(time \<Rightarrow> int) \<Rightarrow> ZonedTime \<Rightarrow> bool" where
  "humanePermitsRelease off t =
     (let day = date_of_day off (day_of t);
          hr = hour_in off (z_Instant t);
          tomorrow = day + hour * 24
      in case humane_holidays day tomorrow (Weekday t) hr (holidays off) of
           Some b \<Rightarrow> b
         | None \<Rightarrow> (case Weekday t of
               Saturday \<Rightarrow> False
             | Sunday \<Rightarrow> False
             | Friday \<Rightarrow> hr \<ge> defaultStartHour \<and> hr < earlyEndHour
             | _ \<Rightarrow> hr \<ge> defaultStartHour \<and> hr < defaultEndHour))"

definition inhumanePermitsRelease :: "(time \<Rightarrow> int) \<Rightarrow> ZonedTime \<Rightarrow> bool" where
  "inhumanePermitsRelease off t =
     (let day = date_of_day off (day_of t) in
      if list_ex (\<lambda>holiday. holiday = day) (holidays off) then False
      else (case Weekday t of Saturday \<Rightarrow> False | Sunday \<Rightarrow> False | _ \<Rightarrow> True))"

definition alwaysPermitsRelease :: "ZonedTime \<Rightarrow> bool" where
  "alwaysPermitsRelease t = True"

definition PermitsRelease :: "(time \<Rightarrow> int) \<Rightarrow> ZonedTime \<Rightarrow> string \<Rightarrow> bool" where
  "PermitsRelease off t schedule =
     (if schedule = ''humane'' \<or> schedule = ''Humane'' then humanePermitsRelease off t
      else if schedule = ''inhumane'' \<or> schedule = ''Inhumane'' then inhumanePermitsRelease off t
      else alwaysPermitsRelease t)"

section \<open>Facts\<close>

text \<open>What the time zone database says of Los Angeles: seven or eight hours behind UTC.\<close>

definition pacific :: "(time \<Rightarrow> int) \<Rightarrow> bool" where
  "pacific off \<longleftrightarrow> (\<forall>t. off t = - 8 * hour \<or> off t = - 7 * hour)"

lemma date_of_day_mono:
  assumes "pacific off" "d < e"
  shows "date_of_day off d < date_of_day off e"
proof -
  have o: "off t = - 8 * hour \<or> off t = - 7 * hour" for t
    using assms(1) by (simp add: pacific_def)
  have "d + 1 \<le> e" using assms(2) by simp
  then have "(d + 1) * day_ns \<le> e * day_ns" by (simp add: day_ns_def hour_def)
  then have "d * day_ns + day_ns \<le> e * day_ns" by (simp add: distrib_right)
  then show ?thesis
    using o [of "d * day_ns - off (d * day_ns)"] o [of "e * day_ns - off (e * day_ns)"]
    by (auto simp: date_of_day_def Let_def day_ns_def hour_def)
qed

lemma date_of_day_eq: "pacific off \<Longrightarrow> date_of_day off d = date_of_day off e \<longleftrightarrow> d = e"
  using date_of_day_mono by (metis less_irrefl linorder_less_linear)

definition holiday_days :: "day list" where
  "holiday_days = map (\<lambda>(y, m, d). civil_day y m d) holiday_dates"

lemma holidays_days: "holidays off = map (date_of_day off) holiday_days"
  by (simp add: holidays_def holiday_days_def date_def case_prod_unfold)

lemma holiday_days_sorted: "sorted_wrt (<) holiday_days"
  by code_simp

lemma holidays_sorted: "pacific off \<Longrightarrow> sorted_wrt (<) (holidays off)"
  unfolding holidays_days sorted_wrt_map
  by (rule sorted_wrt_mono_rel [OF _ holiday_days_sorted]) (rule date_of_day_mono)

text \<open>
  Because the holidays are in order, a holiday is met before the day after it, so the first match of the
  loop is the holiday of the day itself.
\<close>

lemma humane_holidays_sorted:
  assumes "sorted_wrt (<) hs" "day < tomorrow"
  shows "humane_holidays day tomorrow wd hr hs =
    (if day \<in> set hs then Some False
     else if tomorrow \<in> set hs \<and> wd \<noteq> Saturday \<and> wd \<noteq> Sunday
       then Some (hr \<ge> defaultStartHour \<and> hr < earlyEndHour)
     else None)"
  using assms by (induction hs) auto

text \<open>What the humane schedule allows, in one condition.\<close>

lemma humane_iff:
  assumes "pacific off"
  defines "midnight \<equiv> \<lambda>t. date_of_day off (day_of t)"
  shows "humanePermitsRelease off t \<longleftrightarrow>
    midnight t \<notin> set (holidays off) \<and> Weekday t \<notin> {Saturday, Sunday} \<and>
    7 \<le> hour_in off (z_Instant t) \<and>
    hour_in off (z_Instant t) < (if Weekday t = Friday \<or> midnight t + 24 * hour \<in> set (holidays off)
                                then 14 else 16)"
proof -
  have "midnight t < midnight t + hour * 24" by (simp add: hour_def)
  from humane_holidays_sorted [OF holidays_sorted [OF assms(1)] this]
  show ?thesis
    by (auto simp: humanePermitsRelease_def Let_def midnight_def defaultStartHour_def
        earlyEndHour_def defaultEndHour_def mult.commute [of hour] split: weekday.split)
qed

lemma inhumane_iff:
  "inhumanePermitsRelease off t \<longleftrightarrow>
    date_of_day off (day_of t) \<notin> set (holidays off) \<and> Weekday t \<notin> {Saturday, Sunday}"
  by (auto simp: inhumanePermitsRelease_def Let_def list_ex_iff split: weekday.split)

lemma humane_imp_inhumane:
  "pacific off \<Longrightarrow> humanePermitsRelease off t \<Longrightarrow> inhumanePermitsRelease off t"
  by (simp add: humane_iff inhumane_iff)

end
