(* ===== verification/Observe.thy ===== *)
theory Observe
  imports Api_Methods
begin

text \<open>
  Observations of the target clusters, \<^verbatim>\<open>src/controllers/observe\<close>: the replica sets found in each
  cluster, and their statistics per tag for the live and the standby clusters. Listing the replica sets
  of a namespace is a call to the Kubernetes API, the parameter \<open>list\<close>.
\<close>

section \<open>Statistics\<close>

record IntStat =
  i_Min :: int32
  i_Max :: int32
  i_Sum :: int32
  i_Count :: int32

definition zero_IntStat :: IntStat where
  "zero_IntStat = \<lparr>i_Min = 0, i_Max = 0, i_Sum = 0, i_Count = 0\<rparr>"

definition Record :: "int32 \<Rightarrow> IntStat \<Rightarrow> IntStat" where
  "Record n s =
     (let s = (if i_Count s = 0 \<or> i_Min s > n then s\<lparr>i_Min := n\<rparr> else s);
          s = (if i_Max s < n then s\<lparr>i_Max := n\<rparr> else s);
          s = s\<lparr>i_Sum := wrap32 (i_Sum s + n)\<rparr>
      in s\<lparr>i_Count := wrap32 (i_Count s + 1)\<rparr>)"

record DeploymentInfo =
  di_Desired :: IntStat
  di_Current :: IntStat

record DeploymentInfoSet =
  dis_Live :: DeploymentInfo
  dis_Standby :: DeploymentInfo

definition NewDeploymentInfoSet :: DeploymentInfoSet where
  "NewDeploymentInfoSet =
     \<lparr>dis_Live = \<lparr>di_Desired = zero_IntStat, di_Current = zero_IntStat\<rparr>,
      dis_Standby = \<lparr>di_Desired = zero_IntStat, di_Current = zero_IntStat\<rparr>\<rparr>"

definition GetInfo :: "DeploymentInfoSet \<Rightarrow> bool \<Rightarrow> DeploymentInfo" where
  "GetInfo dis liveness = (if liveness then dis_Live dis else dis_Standby dis)"

text \<open>Writing through the pointer \<^verbatim>\<open>GetInfo\<close> returns.\<close>

definition SetInfo :: "DeploymentInfoSet \<Rightarrow> bool \<Rightarrow> DeploymentInfo \<Rightarrow> DeploymentInfoSet" where
  "SetInfo dis liveness di =
     (if liveness then dis\<lparr>dis_Live := di\<rparr> else dis\<lparr>dis_Standby := di\<rparr>)"

section \<open>Observations\<close>

record ObservedCluster =
  oc_Name :: string
  oc_Live :: bool

record replicaSet =
  rep_Desired :: int32
  rep_Current :: int32
  rep_Tag :: string
  rep_Cluster :: ObservedCluster

type_synonym Observation = "replicaSet list"

definition Count :: "Observation \<Rightarrow> bool \<Rightarrow> nat" where
  "Count os liveness =
     length (remdups (map (\<lambda>rs. oc_Name (rep_Cluster rs)) (filter (\<lambda>rs. oc_Live (rep_Cluster rs) = liveness) os)))"

definition Combine :: "Observation \<Rightarrow> Observation \<Rightarrow> Observation" where
  "Combine os other = os @ other"

definition record_replicaSet :: "replicaSet \<Rightarrow> DeploymentInfoSet \<Rightarrow> DeploymentInfoSet" where
  "record_replicaSet rs dis =
     (let live = oc_Live (rep_Cluster rs); di = GetInfo dis live;
          di = di\<lparr>di_Desired := Record (rep_Desired rs) (di_Desired di)\<rparr>;
          di = di\<lparr>di_Current := Record (rep_Current rs) (di_Current di)\<rparr>
      in SetInfo dis live di)"

definition InfoForTag :: "Observation \<Rightarrow> string \<Rightarrow> DeploymentInfoSet option" where
  "InfoForTag os tag = fold
     (\<lambda>rs dis. if rep_Tag rs \<noteq> tag then dis
        else Some (record_replicaSet rs (case dis of None \<Rightarrow> NewDeploymentInfoSet | Some d \<Rightarrow> d)))
     os None"

section \<open>Observers\<close>

text \<open>What the observer reads of a replica set: its labels, desired replicas and available replicas.\<close>

record ReplicaSet =
  ars_Labels :: "strmap option"
  ars_SpecReplicas :: "int32 option"
  ars_AvailableReplicas :: int32

text \<open>The loop body; \<^verbatim>\<open>*rs.Spec.Replicas\<close> panics when it is nil.\<close>

definition observe_replicaSet ::
  "ObservedCluster \<Rightarrow> ReplicaSet \<Rightarrow> replicaSet list \<Rightarrow> replicaSet list option" where
  "observe_replicaSet cluster rs acc =
     (case mlookup (ars_Labels rs) LabelTag of
        None \<Rightarrow> Some acc
      | Some tag \<Rightarrow> do {
          desired \<leftarrow> ars_SpecReplicas rs;
          Some (acc @ [\<lparr>rep_Desired = desired, rep_Current = ars_AvailableReplicas rs, rep_Tag = tag,
                       rep_Cluster = cluster\<rparr>])
        })"

fun observe_all :: "ObservedCluster \<Rightarrow> ReplicaSet list \<Rightarrow> replicaSet list \<Rightarrow> replicaSet list option" where
  "observe_all cluster [] acc = Some acc"
| "observe_all cluster (rs # rss) acc = do {
     acc \<leftarrow> observe_replicaSet cluster rs acc;
     observe_all cluster rss acc
   }"

definition ClusterObserver_Observe ::
  "ObservedCluster \<Rightarrow> (string \<Rightarrow> goerror + ReplicaSet list) \<Rightarrow> string \<Rightarrow> (goerror + Observation) option" where
  "ClusterObserver_Observe cluster list namespace =
     (case list namespace of
        Inl err \<Rightarrow> Some (Inl err)
      | Inr items \<Rightarrow> do { replicaSets \<leftarrow> observe_all cluster items []; Some (Inr replicaSets) })"

text \<open>
  The goroutines of \<^verbatim>\<open>ConcurrentObserver\<close> finish in some order \<open>finish\<close>, a permutation of the observers'
  positions; the first error in that order is the one \<^verbatim>\<open>g.Wait\<close> returns, and it cancels the others,
  whose results are then dropped. Without an error the observations are combined by position.
\<close>

definition ConcurrentObserver_Observe ::
  "(string \<Rightarrow> (goerror + Observation) option) list \<Rightarrow> nat list \<Rightarrow> string \<Rightarrow>
   (goerror + Observation) option" where
  "ConcurrentObserver_Observe observers finish namespace = do {
     results \<leftarrow> those (map (\<lambda>ob. ob namespace) observers);
     (case find (\<lambda>i. isl (results ! i)) finish of
        Some i \<Rightarrow> Some (Inl (projl (results ! i)))
      | None \<Rightarrow> Some (Inr (fold (\<lambda>ob acc. Combine acc ob) (map projr results) [])))
   }"

section \<open>Facts\<close>

text \<open>
  Recording a series of counts gives their minimum, maximum, sum and number, as long as neither the sum
  nor the number leaves \<^verbatim>\<open>int32\<close>.
\<close>

lemma Record_step:
  "c \<noteq> 0 \<Longrightarrow> Record n \<lparr>i_Min = mi, i_Max = ma, i_Sum = s, i_Count = c\<rparr> =
     \<lparr>i_Min = min n mi, i_Max = max n ma, i_Sum = wrap32 (s + n), i_Count = wrap32 (c + 1)\<rparr>"
  by (simp add: Record_def Let_def min_def max_def)

lemma Record_all:
  assumes "xs \<noteq> []" "\<forall>x \<in> set xs. 0 \<le> x" "sum_list xs < 2 ^ 31" "length xs < 2 ^ 31"
  shows "fold Record xs zero_IntStat =
    \<lparr>i_Min = Min (set xs), i_Max = Max (set xs), i_Sum = sum_list xs, i_Count = int (length xs)\<rparr>"
  using assms
proof (induction xs rule: rev_induct)
  case (snoc x xs)
  show ?case
  proof (cases "xs = []")
    case True
    then show ?thesis using snoc.prems by (simp add: Record_def zero_IntStat_def Let_def)
  next
    case False
    have nn: "0 \<le> sum_list xs" using snoc.prems(2) by (intro sum_list_nonneg) auto
    have x: "0 \<le> x" and sum: "sum_list xs + x < 2 ^ 31" and len: "int (length xs) + 1 < 2 ^ 31"
      using snoc.prems by simp_all
    have ws: "wrap32 (sum_list xs + x) = sum_list xs + x" using nn x sum by (intro wrap32_id) linarith+
    have wl: "wrap32 (int (length xs) + 1) = int (length xs) + 1" using len by (intro wrap32_id) linarith+
    have IH: "fold Record xs zero_IntStat =
      \<lparr>i_Min = Min (set xs), i_Max = Max (set xs), i_Sum = sum_list xs, i_Count = int (length xs)\<rparr>"
    proof (rule snoc.IH [OF False])
      show "\<forall>x \<in> set xs. 0 \<le> x" using snoc.prems(2) by simp
      show "sum_list xs < 2 ^ 31" using x sum by linarith
      show "length xs < 2 ^ 31" using snoc.prems(4) by simp
    qed
    have mm: "Min (set (xs @ [x])) = min x (Min (set xs))" "Max (set (xs @ [x])) = max x (Max (set xs))"
      "int (length xs) \<noteq> 0" using False by simp_all
    show ?thesis
      unfolding fold_append o_apply fold_simps IH Record_step [OF mm(3)] ws wl mm(1,2)
      by (simp only: sum_list_append length_append) simp
  qed
qed simp

text \<open>The replica sets of a tag in the live or standby clusters.\<close>

definition tag_live :: "string \<Rightarrow> bool \<Rightarrow> Observation \<Rightarrow> Observation" where
  "tag_live tag live os = filter (\<lambda>rs. rep_Tag rs = tag \<and> oc_Live (rep_Cluster rs) = live) os"

lemma GetInfo_record:
  "GetInfo (record_replicaSet rs dis) live =
     (if oc_Live (rep_Cluster rs) = live
      then \<lparr>di_Desired = Record (rep_Desired rs) (di_Desired (GetInfo dis live)),
            di_Current = Record (rep_Current rs) (di_Current (GetInfo dis live))\<rparr>
      else GetInfo dis live)"
  by (cases "GetInfo dis live") (auto simp: record_replicaSet_def GetInfo_def SetInfo_def Let_def)

lemma GetInfo_New: "GetInfo NewDeploymentInfoSet live = \<lparr>di_Desired = zero_IntStat, di_Current = zero_IntStat\<rparr>"
  by (simp add: GetInfo_def NewDeploymentInfoSet_def)

lemma InfoForTag_snoc:
  "InfoForTag (os @ [rs]) tag = (if rep_Tag rs \<noteq> tag then InfoForTag os tag
     else Some (record_replicaSet rs (case InfoForTag os tag of None \<Rightarrow> NewDeploymentInfoSet | Some d \<Rightarrow> d)))"
  by (simp add: InfoForTag_def)

lemma InfoForTag_None: "InfoForTag os tag = None \<longleftrightarrow> tag \<notin> rep_Tag ` set os"
  by (induction os rule: rev_induct) (auto simp: InfoForTag_snoc InfoForTag_def [of "[]"])

lemma InfoForTag_Some:
  "InfoForTag os tag = Some dis \<Longrightarrow>
   GetInfo dis live =
     \<lparr>di_Desired = fold Record (map rep_Desired (tag_live tag live os)) zero_IntStat,
      di_Current = fold Record (map rep_Current (tag_live tag live os)) zero_IntStat\<rparr>"
proof (induction os arbitrary: dis rule: rev_induct)
  case Nil
  then show ?case by (simp add: InfoForTag_def)
next
  case (snoc rs os)
  show ?case
  proof (cases "rep_Tag rs = tag")
    case False
    with snoc show ?thesis by (simp add: InfoForTag_snoc tag_live_def)
  next
    case True
    show ?thesis
    proof (cases "InfoForTag os tag")
      case None
      then have "tag_live tag live os = []"
        by (auto simp: InfoForTag_None tag_live_def filter_empty_conv)
      with True None snoc.prems show ?thesis
        by (auto simp: InfoForTag_snoc GetInfo_record GetInfo_New tag_live_def)
    next
      case (Some d)
      from snoc.IH [OF Some] True Some snoc.prems show ?thesis
        by (auto simp: InfoForTag_snoc GetInfo_record tag_live_def)
    qed
  qed
qed

lemma fold_Combine: "fold (\<lambda>ob acc. Combine acc ob) obs acc = acc @ List.concat obs"
  by (induction obs arbitrary: acc) (simp_all add: Combine_def)

end
