(* ===== verification/State_Machine.thy ===== *)
theory State_Machine
  imports Api_Methods "HOL-Library.Sublist"
begin

text \<open>
  The deployment state machine, \<^verbatim>\<open>src/controllers/state.go\<close>. The interface \<^verbatim>\<open>Deployment\<close> is a record of
  its methods over a world \<open>'w\<close> (the incarnation and the clusters); a method that may panic returns an
  option, one that calls the clusters returns its error and the new world. A handler returns the next
  state, the error and the world, and \<open>tick\<close> runs the handler of the current state.
\<close>

section \<open>The deployment interface\<close>

datatype ExternalTestStatus =
  ExternalTestUnknown | ExternalTestDisabled | ExternalTestPending | ExternalTestStarted
| ExternalTestFailed | ExternalTestSucceeded

record 'w Deployment =
  d_sync :: "'w \<Rightarrow> (goerror option \<times> 'w) option"
  d_retire :: "'w \<Rightarrow> (goerror option \<times> 'w) option"
  d_del :: "'w \<Rightarrow> (goerror option \<times> 'w) option"
  d_syncCanaryRules :: "'w \<Rightarrow> (goerror option \<times> 'w) option"
  d_deleteCanaryRules :: "'w \<Rightarrow> (goerror option \<times> 'w) option"
  d_deleteTaggedServiceLevels :: "'w \<Rightarrow> (goerror option \<times> 'w) option"
  d_hasRevision :: "'w \<Rightarrow> bool"
  d_schedulePermitsRelease :: "'w \<Rightarrow> bool option"
  d_markedAsFailed :: "'w \<Rightarrow> bool"
  d_isReleaseEligible :: "'w \<Rightarrow> bool"
  d_getStatus :: "'w \<Rightarrow> ReleaseManagerRevisionStatus"
  d_setState :: "State \<Rightarrow> 'w \<Rightarrow> 'w"
  d_isDeployed :: "'w \<Rightarrow> bool"
  d_getExternalTestStatus :: "'w \<Rightarrow> ExternalTestStatus"
  d_currentPercent :: "'w \<Rightarrow> u32"
  d_peakPercent :: "'w \<Rightarrow> u32"
  d_isCanaryPending :: "'w \<Rightarrow> bool"
  d_isTimingOut :: "'w \<Rightarrow> bool"
  d_isExpired :: "'w \<Rightarrow> bool option"

definition TargetExternalTestStatus :: "RevisionTarget \<Rightarrow> ExternalTestStatus" where
  "TargetExternalTestStatus target = (let t = rt_ExternalTest target in
     if et_Completed t \<and> et_Succeeded t then ExternalTestSucceeded
     else if et_Completed t then ExternalTestFailed
     else if et_Started t then ExternalTestStarted
     else if et_Enabled t then ExternalTestPending
     else ExternalTestDisabled)"

definition Enabled :: "ExternalTestStatus \<Rightarrow> bool" where
  "Enabled s = (case s of ExternalTestUnknown \<Rightarrow> False | ExternalTestDisabled \<Rightarrow> False | _ \<Rightarrow> True)"

definition Finished :: "ExternalTestStatus \<Rightarrow> bool" where
  "Finished s = (case s of ExternalTestSucceeded \<Rightarrow> True | ExternalTestFailed \<Rightarrow> True | _ \<Rightarrow> False)"

definition HasFailed :: "'w Deployment \<Rightarrow> 'w \<Rightarrow> bool" where
  "HasFailed d w \<longleftrightarrow> d_markedAsFailed d w \<or> d_getExternalTestStatus d w = ExternalTestFailed"

definition DeployingTimeout :: duration where "DeployingTimeout = minute * 15"
definition CreatedTimeout :: duration where "CreatedTimeout = hour"

text \<open>\<^verbatim>\<open>lastUpdated != nil && lastUpdated.Add(timeout).Before(time.Now())\<close>\<close>

definition past :: "time option \<Rightarrow> duration \<Rightarrow> time \<Rightarrow> bool" where
  "past lastUpdated timeout now =
     (case lastUpdated of None \<Rightarrow> False | Some t \<Rightarrow> t + timeout < now)"

section \<open>The handlers\<close>

type_synonym 'w outcome = "(State \<times> goerror option \<times> 'w) option"

type_synonym 'w StateHandler = "'w Deployment \<Rightarrow> time \<Rightarrow> time option \<Rightarrow> 'w \<Rightarrow> 'w outcome"

text \<open>\<^verbatim>\<open>if err := call(ctx); err != nil { return s, err }\<close>, then the rest of the handler.\<close>

definition call_or :: "('w \<Rightarrow> (goerror option \<times> 'w) option) \<Rightarrow> State \<Rightarrow> ('w \<Rightarrow> 'w outcome) \<Rightarrow> 'w \<Rightarrow>
    'w outcome" where
  "call_or f s rest w = do {
     (err, w) \<leftarrow> f w;
     (case err of Some e \<Rightarrow> Some (s, Some e, w) | None \<Rightarrow> rest w)
   }"

text \<open>\<^verbatim>\<open>return s, call(ctx)\<close>\<close>

definition return_call :: "State \<Rightarrow> ('w \<Rightarrow> (goerror option \<times> 'w) option) \<Rightarrow> 'w \<Rightarrow> 'w outcome" where
  "return_call s f w = do { (err, w) \<leftarrow> f w; Some (s, err, w) }"

definition Created :: "'w StateHandler" where
  "Created d now lastUpdated w =
     (if \<not> d_hasRevision d w then Some (deleting, None, w)
      else if past lastUpdated CreatedTimeout now then Some (timingout, None, w)
      else Some (deploying, None, w))"

definition Deploying :: "'w StateHandler" where
  "Deploying d now lastUpdated w =
     (if \<not> d_hasRevision d w then Some (deleting, None, w)
      else if HasFailed d w then Some (failing, None, w)
      else call_or (d_sync d) deploying (\<lambda>w.
        if d_isDeployed d w then Some (deployed, None, w)
        else if past lastUpdated DeployingTimeout now then Some (timingout, None, w)
        else Some (deploying, None, w)) w)"

definition Deployed :: "'w StateHandler" where
  "Deployed d now lastUpdated w =
     (if \<not> d_hasRevision d w then Some (deleting, None, w)
      else if HasFailed d w then Some (failing, None, w)
      else call_or (d_sync d) deployed (\<lambda>w.
        if \<not> d_isDeployed d w then Some (deploying, None, w)
        else case d_getExternalTestStatus d w of
            ExternalTestSucceeded \<Rightarrow> Some (tested, None, w)
          | ExternalTestStarted \<Rightarrow> Some (testing, None, w)
          | ExternalTestPending \<Rightarrow> Some (pendingtest, None, w)
          | _ \<Rightarrow>
              if d_isReleaseEligible d w then
                (if d_isCanaryPending d w then Some (canarying, None, w)
                 else Some (pendingrelease, None, w))
              else do {
                exp \<leftarrow> d_isExpired d w;
                (if exp then Some (retiring, None, w) else Some (deployed, None, w))
              }) w)"

definition PendingTest :: "'w StateHandler" where
  "PendingTest d now lastUpdated w =
     (if \<not> d_hasRevision d w then Some (deleting, None, w)
      else if HasFailed d w then Some (failing, None, w)
      else let externalTestStatus = d_getExternalTestStatus d w in
        if externalTestStatus = ExternalTestSucceeded then Some (tested, None, w)
        else if d_isTimingOut d w then Some (timingout, None, w)
        else if externalTestStatus = ExternalTestStarted then Some (testing, None, w)
        else call_or (d_sync d) pendingtest (\<lambda>w.
          if past lastUpdated DeployingTimeout now then Some (timingout, None, w)
          else Some (pendingtest, None, w)) w)"

text \<open>Only a failed external test fails a revision under test; other failures wait.\<close>

definition Testing :: "'w StateHandler" where
  "Testing d now lastUpdated w =
     (if \<not> d_hasRevision d w then Some (deleting, None, w)
      else if d_getExternalTestStatus d w = ExternalTestFailed then Some (failing, None, w)
      else let externalTestStatus = d_getExternalTestStatus d w in
        if externalTestStatus = ExternalTestSucceeded then Some (tested, None, w)
        else if d_isTimingOut d w then Some (timingout, None, w)
        else if externalTestStatus = ExternalTestPending then Some (pendingtest, None, w)
        else if \<not> Enabled externalTestStatus then Some (deploying, None, w)
        else call_or (d_sync d) testing (\<lambda>w.
          if past lastUpdated DeployingTimeout now then Some (timingout, None, w)
          else Some (testing, None, w)) w)"

definition Tested :: "'w StateHandler" where
  "Tested d now lastUpdated w =
     (if \<not> d_hasRevision d w then Some (deleting, None, w)
      else if HasFailed d w then Some (failing, None, w)
      else let externalTestStatus = d_getExternalTestStatus d w in
        if externalTestStatus = ExternalTestPending then Some (pendingtest, None, w)
        else if \<not> Finished externalTestStatus then Some (testing, None, w)
        else if d_isReleaseEligible d w then
          (if d_isCanaryPending d w then Some (canarying, None, w)
           else Some (pendingrelease, None, w))
        else if past lastUpdated DeployingTimeout now then Some (timingout, None, w)
        else Some (tested, None, w))"

definition PendingRelease :: "'w StateHandler" where
  "PendingRelease d now lastUpdated w =
     (if \<not> d_hasRevision d w then Some (deleting, None, w)
      else if d_markedAsFailed d w then Some (failing, None, w)
      else if \<not> d_isReleaseEligible d w then Some (retiring, None, w)
      else do {
        permitted \<leftarrow> d_schedulePermitsRelease d w;
        (if permitted then Some (releasing, None, w)
         else call_or (d_sync d) pendingrelease (\<lambda>w. Some (pendingrelease, None, w)) w)
      })"

definition Releasing :: "'w StateHandler" where
  "Releasing d now lastUpdated w =
     (if \<not> d_hasRevision d w then Some (deleting, None, w)
      else if d_markedAsFailed d w then Some (failing, None, w)
      else if \<not> d_isReleaseEligible d w then Some (retiring, None, w)
      else call_or (d_sync d) releasing (call_or (d_deleteTaggedServiceLevels d) releasing (\<lambda>w.
        if d_peakPercent d w \<ge> 100 then Some (released, None, w)
        else Some (releasing, None, w))) w)"

definition Released :: "'w StateHandler" where
  "Released d now lastUpdated w = Releasing d now lastUpdated w"

definition Retiring :: "'w StateHandler" where
  "Retiring d now lastUpdated w =
     (if d_currentPercent d w > 0 then Some (retiring, None, w)
      else if \<not> d_hasRevision d w then Some (deleting, None, w)
      else if d_markedAsFailed d w then Some (failing, None, w)
      else if d_isReleaseEligible d w then Some (deploying, None, w)
      else call_or (d_deleteTaggedServiceLevels d) retiring (\<lambda>w.
        if d_currentPercent d w \<le> 0 then return_call retired (d_retire d) w
        else Some (retiring, None, w)) w)"

definition Retired :: "'w StateHandler" where
  "Retired d now lastUpdated w =
     (if \<not> d_hasRevision d w then Some (deleting, None, w)
      else if d_markedAsFailed d w then Some (failing, None, w)
      else if d_isReleaseEligible d w then Some (deploying, None, w)
      else return_call retired (d_retire d) w)"

definition Deleting :: "'w StateHandler" where
  "Deleting d now lastUpdated w =
     (if d_currentPercent d w > 0 then Some (deleting, None, w)
      else if d_hasRevision d w then Some (deploying, None, w)
      else call_or (d_deleteCanaryRules d) deleting (call_or (d_deleteTaggedServiceLevels d) deleting (\<lambda>w.
        if d_currentPercent d w \<le> 0 then return_call deleted (d_del d) w
        else if past lastUpdated DeployingTimeout now then Some (timingout, None, w)
        else Some (deleting, None, w))) w)"

definition Deleted :: "'w StateHandler" where
  "Deleted d now lastUpdated w =
     (if d_hasRevision d w then Some (deploying, None, w) else Some (deleted, None, w))"

definition Failing :: "'w StateHandler" where
  "Failing d now lastUpdated w =
     (if d_currentPercent d w > 0 then Some (failing, None, w)
      else if \<not> d_hasRevision d w then Some (deleting, None, w)
      else if \<not> HasFailed d w then Some (deploying, None, w)
      else call_or (d_deleteCanaryRules d) failing (call_or (d_deleteTaggedServiceLevels d) failing (\<lambda>w.
        if d_currentPercent d w \<le> 0 then return_call failed (d_retire d) w
        else Some (failing, None, w))) w)"

definition Failed :: "'w StateHandler" where
  "Failed d now lastUpdated w =
     (if \<not> d_hasRevision d w then Some (deleting, None, w)
      else if \<not> HasFailed d w then Some (deploying, None, w)
      else return_call failed (d_retire d) w)"

definition Canarying :: "'w StateHandler" where
  "Canarying d now lastUpdated w =
     (if \<not> d_hasRevision d w then Some (deleting, None, w)
      else if d_markedAsFailed d w then Some (failing, None, w)
      else call_or (d_syncCanaryRules d) canarying (call_or (d_deleteTaggedServiceLevels d) canarying
        (call_or (d_sync d) canarying (\<lambda>w.
          if \<not> d_isCanaryPending d w then Some (canaried, None, w)
          else Some (canarying, None, w)))) w)"

definition Canaried :: "'w StateHandler" where
  "Canaried d now lastUpdated w =
     (if \<not> d_hasRevision d w then Some (deleting, None, w)
      else if d_markedAsFailed d w then Some (failing, None, w)
      else call_or (d_deleteCanaryRules d) canaried (call_or (d_sync d) canarying (\<lambda>w.
        if d_isReleaseEligible d w then Some (pendingrelease, None, w)
        else Some (canaried, None, w))) w)"

definition Timingout :: "'w StateHandler" where
  "Timingout d now lastUpdated w =
     (if \<not> d_hasRevision d w then Some (deleting, None, w)
      else if HasFailed d w then Some (failing, None, w)
      else Some (timingout, None, w))"

text \<open>The map \<^verbatim>\<open>handlers\<close>; a state it does not know gives a nil function.\<close>

fun handlers :: "State \<Rightarrow> 'w StateHandler option" where
  "handlers created = Some Created"
| "handlers deploying = Some Deploying"
| "handlers deployed = Some Deployed"
| "handlers pendingrelease = Some PendingRelease"
| "handlers releasing = Some Releasing"
| "handlers released = Some Released"
| "handlers retiring = Some Retiring"
| "handlers retired = Some Retired"
| "handlers deleting = Some Deleting"
| "handlers deleted = Some Deleted"
| "handlers failing = Some Failing"
| "handlers failed = Some Failed"
| "handlers pendingtest = Some PendingTest"
| "handlers testing = Some Testing"
| "handlers tested = Some Tested"
| "handlers canarying = Some Canarying"
| "handlers canaried = Some Canaried"
| "handlers timingout = Some Timingout"
| "handlers (OtherState s) = None"

definition AllStates :: "State list" where
  "AllStates = map snd state_names"

text \<open>\<^verbatim>\<open>tick\<close>: on an error the state stays; calling a nil handler panics.\<close>

definition current :: "'w Deployment \<Rightarrow> 'w \<Rightarrow> State" where
  "current d w = st_Current (rs_State (d_getStatus d w))"

definition tick :: "'w Deployment \<Rightarrow> time \<Rightarrow> time option \<Rightarrow> 'w \<Rightarrow> (goerror option \<times> 'w) option" where
  "tick d now lastUpdated w = do {
     handler \<leftarrow> handlers (current d w);
     (nextState, err, w) \<leftarrow> handler d now lastUpdated w;
     (case err of
        Some e \<Rightarrow> Some (Some e, w)
      | None \<Rightarrow> Some (None, d_setState d nextState w))
   }"

section \<open>Which transitions there are\<close>

lemmas handler_defs = Created_def Deploying_def Deployed_def PendingTest_def Testing_def Tested_def
  PendingRelease_def Releasing_def Released_def Retiring_def Retired_def Deleting_def Deleted_def
  Failing_def Failed_def Canarying_def Canaried_def Timingout_def

lemmas call_defs = call_or_def return_call_def

text \<open>The transition graph of a deployment whose calls do not change what the handlers ask of it.\<close>

fun successors :: "State \<Rightarrow> State list" where
  "successors created = [deleting, timingout, deploying]"
| "successors deploying = [deleting, failing, deployed, timingout, deploying]"
| "successors deployed = [deleting, failing, deploying, tested, testing, pendingtest, canarying,
     pendingrelease, retiring, deployed]"
| "successors pendingtest = [deleting, failing, tested, timingout, testing, pendingtest]"
| "successors testing = [deleting, failing, tested, timingout, pendingtest, deploying, testing]"
| "successors tested = [deleting, failing, pendingtest, testing, canarying, pendingrelease,
     timingout, tested]"
| "successors pendingrelease = [deleting, failing, retiring, releasing, pendingrelease]"
| "successors releasing = [deleting, failing, retiring, released, releasing]"
| "successors released = [deleting, failing, retiring, released, releasing]"
| "successors retiring = [retiring, deleting, failing, deploying, retired]"
| "successors retired = [deleting, failing, deploying, retired]"
| "successors deleting = [deleting, deploying, deleted]"
| "successors deleted = [deploying, deleted]"
| "successors failing = [failing, deleting, deploying, failed]"
| "successors failed = [deleting, deploying, failed]"
| "successors canarying = [deleting, failing, canaried, canarying]"
| "successors canaried = [deleting, failing, pendingrelease, canaried]"
| "successors timingout = [deleting, failing, timingout]"
| "successors (OtherState s) = []"

text \<open>The calls that delete the objects of a revision return, without an error.\<close>

definition deletions_succeed :: "'w Deployment \<Rightarrow> bool" where
  "deletions_succeed d \<longleftrightarrow> (\<forall>w. \<forall>f \<in> {d_del d, d_deleteCanaryRules d, d_deleteTaggedServiceLevels d}.
     \<exists>w'. f w = Some (None, w'))"

text \<open>A deployment that also logs the calls it makes to the clusters.\<close>

datatype Call = CSync | CRetire | CDel | CSyncCanaryRules | CDeleteCanaryRules
  | CDeleteTaggedServiceLevels

definition logged :: "Call \<Rightarrow> ('w \<Rightarrow> (goerror option \<times> 'w) option) \<Rightarrow>
    'w \<times> Call list \<Rightarrow> (goerror option \<times> 'w \<times> Call list) option" where
  "logged c f wl = do { (err, w) \<leftarrow> f (fst wl); Some (err, w, snd wl @ [c]) }"

definition traced :: "'w Deployment \<Rightarrow> ('w \<times> Call list) Deployment" where
  "traced d =
     \<lparr>d_sync = logged CSync (d_sync d), d_retire = logged CRetire (d_retire d),
      d_del = logged CDel (d_del d),
      d_syncCanaryRules = logged CSyncCanaryRules (d_syncCanaryRules d),
      d_deleteCanaryRules = logged CDeleteCanaryRules (d_deleteCanaryRules d),
      d_deleteTaggedServiceLevels = logged CDeleteTaggedServiceLevels (d_deleteTaggedServiceLevels d),
      d_hasRevision = \<lambda>wl. d_hasRevision d (fst wl),
      d_schedulePermitsRelease = \<lambda>wl. d_schedulePermitsRelease d (fst wl),
      d_markedAsFailed = \<lambda>wl. d_markedAsFailed d (fst wl),
      d_isReleaseEligible = \<lambda>wl. d_isReleaseEligible d (fst wl),
      d_getStatus = \<lambda>wl. d_getStatus d (fst wl),
      d_setState = \<lambda>s wl. (d_setState d s (fst wl), snd wl),
      d_isDeployed = \<lambda>wl. d_isDeployed d (fst wl),
      d_getExternalTestStatus = \<lambda>wl. d_getExternalTestStatus d (fst wl),
      d_currentPercent = \<lambda>wl. d_currentPercent d (fst wl),
      d_peakPercent = \<lambda>wl. d_peakPercent d (fst wl),
      d_isCanaryPending = \<lambda>wl. d_isCanaryPending d (fst wl),
      d_isTimingOut = \<lambda>wl. d_isTimingOut d (fst wl),
      d_isExpired = \<lambda>wl. d_isExpired d (fst wl)\<rparr>"

lemma snd_traced_setState: "snd (d_setState (traced d) s wl) = snd wl"
  by (simp add: traced_def)

text \<open>The states in which a revision gets live traffic, or is about to.\<close>

definition live_states :: "State set" where
  "live_states = {canarying, canaried, pendingrelease, releasing, released}"

text \<open>The calls each state may make, in order.\<close>

definition calls_of :: "State \<Rightarrow> Call list" where
  "calls_of s = (case s of
     deploying \<Rightarrow> [CSync] | deployed \<Rightarrow> [CSync] | pendingtest \<Rightarrow> [CSync] | testing \<Rightarrow> [CSync]
   | pendingrelease \<Rightarrow> [CSync]
   | releasing \<Rightarrow> [CSync, CDeleteTaggedServiceLevels] | released \<Rightarrow> [CSync, CDeleteTaggedServiceLevels]
   | retiring \<Rightarrow> [CDeleteTaggedServiceLevels, CRetire] | retired \<Rightarrow> [CRetire]
   | deleting \<Rightarrow> [CDeleteCanaryRules, CDeleteTaggedServiceLevels, CDel]
   | failing \<Rightarrow> [CDeleteCanaryRules, CDeleteTaggedServiceLevels, CRetire] | failed \<Rightarrow> [CRetire]
   | canarying \<Rightarrow> [CSyncCanaryRules, CDeleteTaggedServiceLevels, CSync]
   | canaried \<Rightarrow> [CDeleteCanaryRules, CSync]
   | _ \<Rightarrow> [])"

section \<open>The contract of a deployment\<close>

text \<open>What the handlers ask of a deployment, but for the questions only time answers.\<close>

definition observed :: "'w Deployment \<Rightarrow> 'w \<Rightarrow> bool \<times> bool \<times> bool \<times> u32 \<times> u32 \<times> ExternalTestStatus" where
  "observed d w = (d_hasRevision d w, d_markedAsFailed d w, d_isReleaseEligible d w,
     d_currentPercent d w, d_peakPercent d w, d_getExternalTestStatus d w)"

definition frames :: "'w Deployment \<Rightarrow> ('w \<Rightarrow> (goerror option \<times> 'w) option) \<Rightarrow> bool" where
  "frames d f \<longleftrightarrow> (\<forall>w e w'. f w = Some (e, w') \<longrightarrow>
     observed d w' = observed d w \<and> current d w' = current d w)"

text \<open>
  The calls to the clusters change none of it, and \<^verbatim>\<open>setState\<close> changes the state and none of the rest.
\<close>

locale deployment_contract =
  fixes d :: "'w Deployment"
  assumes current_setState: "current d (d_setState d s w) = s"
    and observed_setState: "observed d (d_setState d s w) = observed d w"
    and sync_frame: "frames d (d_sync d)"
    and retire_frame: "frames d (d_retire d)"
    and del_frame: "frames d (d_del d)"
    and syncCanaryRules_frame: "frames d (d_syncCanaryRules d)"
    and deleteCanaryRules_frame: "frames d (d_deleteCanaryRules d)"
    and deleteTaggedServiceLevels_frame: "frames d (d_deleteTaggedServiceLevels d)"
begin

lemma framesD:
  assumes "frames d f" "f w = Some (e, w')"
  shows "d_hasRevision d w' = d_hasRevision d w" "d_markedAsFailed d w' = d_markedAsFailed d w"
    "d_isReleaseEligible d w' = d_isReleaseEligible d w" "d_currentPercent d w' = d_currentPercent d w"
    "d_peakPercent d w' = d_peakPercent d w"
    "d_getExternalTestStatus d w' = d_getExternalTestStatus d w" "current d w' = current d w"
  using assms by (auto simp: frames_def observed_def)

lemmas calls_frame = framesD [OF sync_frame] framesD [OF retire_frame] framesD [OF del_frame]
  framesD [OF syncCanaryRules_frame] framesD [OF deleteCanaryRules_frame]
  framesD [OF deleteTaggedServiceLevels_frame]

text \<open>A call in a handler either ends it with the call's error, or the rest runs in a like world.\<close>

lemma call_orE:
  assumes "call_or f s rest w = Some (s', err, w')" "frames d f"
  obtains (err) e where "s' = s" "err = Some e" "f w = Some (Some e, w')"
        "observed d w' = observed d w" "current d w' = current d w"
    | (rest) w1 where "f w = Some (None, w1)" "rest w1 = Some (s', err, w')"
        "observed d w1 = observed d w" "current d w1 = current d w"
  using assms by (auto simp: call_or_def frames_def split: Option.bind_splits option.splits prod.splits)

lemma return_callE:
  assumes "return_call s f w = Some (s', err, w')" "frames d f"
  obtains "s' = s" "f w = Some (err, w')" "observed d w' = observed d w" "current d w' = current d w"
  using assms by (auto simp: return_call_def frames_def split: Option.bind_splits prod.splits)

lemmas callE = call_orE [OF _ sync_frame] call_orE [OF _ syncCanaryRules_frame]
  call_orE [OF _ deleteCanaryRules_frame] call_orE [OF _ deleteTaggedServiceLevels_frame]
  return_callE [OF _ retire_frame] return_callE [OF _ del_frame]

lemma handler_frame:
  assumes "handlers s = Some h" "h d now lu w = Some (s', err, w')"
  shows "observed d w' = observed d w \<and> current d w' = current d w"
  using assms
  by (cases s)
    (auto simp: handler_defs Let_def elim!: callE
      split: if_splits ExternalTestStatus.splits Option.bind_splits)

lemma handler_successor:
  assumes "handlers s = Some h" "h d now lu w = Some (s', None, w')"
  shows "s' \<in> set (successors s)"
  using assms
  by (cases s)
    (auto simp: handler_defs Let_def observed_def word_gt_0 elim!: callE
      split: if_splits ExternalTestStatus.splits Option.bind_splits)

text \<open>What one tick does: the handler's error and the state as it was, or the handler's next state.\<close>

lemma tickE:
  assumes "tick d now lu w = Some (err, w')"
  obtains (err) h e s' where "handlers (current d w) = Some h" "h d now lu w = Some (s', Some e, w')"
      "err = Some e" "observed d w' = observed d w" "current d w' = current d w"
    | (ok) h w1 where "handlers (current d w) = Some h" "h d now lu w = Some (current d w', None, w1)"
      "err = None" "w' = d_setState d (current d w') w1" "observed d w' = observed d w"
      "current d w' \<in> set (successors (current d w))"
proof -
  obtain h s' er w1 where h: "handlers (current d w) = Some h" "h d now lu w = Some (s', er, w1)"
    "(case er of Some e \<Rightarrow> (Some e, w1) | None \<Rightarrow> (None, d_setState d s' w1)) = (err, w')"
    using assms by (auto simp: tick_def split: Option.bind_splits option.splits)
  note fr = handler_frame [OF h(1,2)]
  show ?thesis
  proof (cases er)
    case None
    then have w': "err = None" "w' = d_setState d s' w1" using h(3) by simp_all
    then have "current d w' = s'" "observed d w' = observed d w"
      using fr by (simp_all add: current_setState observed_setState)
    moreover have "s' \<in> set (successors (current d w))"
      using h(1,2) None handler_successor by blast
    ultimately show ?thesis using ok h(1,2) w' None by blast
  next
    case (Some e)
    then show ?thesis using err h fr by auto
  qed
qed

lemma tick_observed: "tick d now lu w = Some (err, w') \<Longrightarrow> observed d w' = observed d w"
  by (erule tickE) simp_all

lemma tick_successor:
  "tick d now lu w = Some (None, w') \<Longrightarrow> current d w' \<in> set (successors (current d w))"
  by (erule tickE) simp_all

lemma tick_error:
  "tick d now lu w = Some (Some e, w') \<Longrightarrow> current d w' = current d w"
  by (erule tickE) simp_all

text \<open>No deployment is retired, failed or deleted while it gets traffic.\<close>

lemma drained_entry:
  assumes "tick d now lu w = Some (None, w')" "current d w' \<in> {retired, failed, deleted}"
    "current d w' \<noteq> current d w"
  shows "d_currentPercent d w' = 0 \<and> d_currentPercent d w = 0"
  using assms(1)
proof (cases rule: tickE)
  case (ok h w1)
  have "d_currentPercent d w = 0"
    using ok(1,2) assms(2,3)
    by (cases "current d w")
      (auto simp: handler_defs Let_def word_gt_0 elim!: callE
        split: if_splits ExternalTestStatus.splits Option.bind_splits)
  then show ?thesis using ok(5) by (simp add: observed_def)
qed simp

text \<open>A deployment counts as released only once it has had all the traffic.\<close>

lemma released_entry:
  assumes "tick d now lu w = Some (None, w')" "current d w' = released"
  shows "d_peakPercent d w' \<ge> 100 \<and> d_hasRevision d w' \<and> \<not> d_markedAsFailed d w' \<and>
    d_isReleaseEligible d w'"
  using assms(1)
proof (cases rule: tickE)
  case (ok h w1)
  have "d_peakPercent d w \<ge> 100 \<and> d_hasRevision d w \<and> \<not> d_markedAsFailed d w \<and>
    d_isReleaseEligible d w"
    using ok(1,2) assms(2)
    by (cases "current d w")
      (auto simp: handler_defs Let_def observed_def elim!: callE
        split: if_splits ExternalTestStatus.splits Option.bind_splits)
  then show ?thesis using ok(5) by (simp add: observed_def)
qed simp

text \<open>
  A drained deployment whose revision is gone is deleted in two ticks, from any state: the first tick
  leads to \<^verbatim>\<open>deleting\<close>, the second to \<^verbatim>\<open>deleted\<close>.
\<close>

lemma deletions_succeedE:
  assumes "deletions_succeed d"
  obtains w1 w2 w3 where "d_del d w = Some (None, w1)" "d_deleteCanaryRules d w = Some (None, w2)"
    "d_deleteTaggedServiceLevels d w = Some (None, w3)"
  using assms unfolding deletions_succeed_def by (metis insertI1 insertI2)

lemma Deleting_drained:
  assumes "deletions_succeed d" "\<not> d_hasRevision d w" "d_currentPercent d w = 0"
  shows "\<exists>w'. Deleting d now lu w = Some (deleted, None, w')"
proof -
  obtain w1 where w1: "d_deleteCanaryRules d w = Some (None, w1)"
    using assms(1) by (rule deletions_succeedE [of w])
  obtain w2 where w2: "d_deleteTaggedServiceLevels d w1 = Some (None, w2)"
    using assms(1) by (rule deletions_succeedE [of w1])
  obtain w3 where w3: "d_del d w2 = Some (None, w3)"
    using assms(1) by (rule deletions_succeedE [of w2])
  have "d_currentPercent d w2 = 0"
    using framesD(4) [OF deleteCanaryRules_frame w1] framesD(4) [OF deleteTaggedServiceLevels_frame w2]
      assms(3) by simp
  then show ?thesis using assms(2,3) w1 w2 w3 by (simp add: Deleting_def call_defs)
qed

lemma tick_gone:
  assumes "deletions_succeed d" "\<not> d_hasRevision d w" "d_currentPercent d w = 0"
    "current d w \<in> set AllStates"
  shows "\<exists>w'. tick d now lu w = Some (None, w') \<and>
    current d w' = (if current d w \<in> {deleting, deleted} then deleted else deleting) \<and>
    observed d w' = observed d w"
proof -
  have "\<exists>h w1. handlers (current d w) = Some h \<and>
    h d now lu w = Some (if current d w \<in> {deleting, deleted} then deleted else deleting, None, w1)"
  proof (cases "current d w = deleting")
    case True
    then show ?thesis using Deleting_drained [OF assms(1-3), of now lu] by simp
  next
    case False
    then show ?thesis using assms(2-4)
      by (cases "current d w") (simp_all add: handler_defs AllStates_def state_names_def)
  qed
  then obtain h w1 where "handlers (current d w) = Some h"
    "h d now lu w = Some (if current d w \<in> {deleting, deleted} then deleted else deleting, None, w1)"
    by blast
  moreover from this handler_frame have "observed d w1 = observed d w" by blast
  ultimately show ?thesis by (auto simp: tick_def current_setState observed_setState)
qed

text \<open>
  A revision marked as failed goes to \<^verbatim>\<open>failing\<close> at the next tick from every state past \<^verbatim>\<open>created\<close>
  that is not already on its way out, unless it is under test.
\<close>

lemma marked_failing:
  assumes "d_hasRevision d w" "d_markedAsFailed d w"
    "current d w \<in> {deploying, deployed, pendingtest, tested, pendingrelease, releasing, released,
      retired, canarying, canaried, timingout}"
  shows "\<exists>w'. tick d now lu w = Some (None, w') \<and> current d w' = failing"
proof -
  obtain h where "handlers (current d w) = Some h" "h d now lu w = Some (failing, None, w)"
    using assms by (auto simp: handler_defs HasFailed_def)
  then show ?thesis by (auto simp: tick_def current_setState)
qed

text \<open>A retired revision that is eligible again is deployed again.\<close>

lemma eligible_redeploys:
  assumes "d_hasRevision d w" "\<not> d_markedAsFailed d w" "d_isReleaseEligible d w" "current d w = retired"
  shows "\<exists>w'. tick d now lu w = Some (None, w') \<and> current d w' = deploying \<and> observed d w' = observed d w"
  using assms by (auto simp: tick_def Retired_def current_setState observed_setState)

text \<open>
  While the external test of a revision is pending or started, no tick enters a state in which it gets
  live traffic.
\<close>

lemma untested_tick:
  assumes "tick d now lu w = Some (err, w')" "current d w \<notin> live_states"
    "d_getExternalTestStatus d w \<in> {ExternalTestPending, ExternalTestStarted}"
  shows "current d w' \<notin> live_states"
  using assms(1)
proof (cases rule: tickE)
  case (ok h w1)
  consider "current d w = deployed" | "current d w = tested" | "current d w \<notin> {deployed, tested}"
    by blast
  then show ?thesis
  proof cases
    case 1
    then show ?thesis using ok(1,2) assms(3)
      by (auto simp: Deployed_def live_states_def observed_def elim!: callE
          split: if_splits ExternalTestStatus.splits)
  next
    case 2
    then show ?thesis using ok(1,2) assms(3)
      by (auto simp: Tested_def Let_def live_states_def Finished_def split: if_splits)
  next
    case 3
    then show ?thesis using ok(6) assms(2) by (cases "current d w") (auto simp: live_states_def)
  qed
qed (use assms(2) in simp)

text \<open>The calls a tick makes, by the log of the traced deployment.\<close>

lemma traced_call_orE:
  assumes "call_or (logged c f) s rest wl = Some (s', err, wl')" "frames d f"
  obtains (err) e where "err = Some e" "snd wl' = snd wl @ [c]"
    | (rest) w1 where "rest (w1, snd wl @ [c]) = Some (s', err, wl')" "f (fst wl) = Some (None, w1)"
        "observed d w1 = observed d (fst wl)"
  using assms
  by (auto simp: call_or_def frames_def logged_def split: Option.bind_splits option.splits prod.splits)

lemma traced_return_callE:
  assumes "return_call s (logged c f) wl = Some (s', err, wl')"
  obtains "snd wl' = snd wl @ [c]"
  using assms by (auto simp: return_call_def logged_def split: Option.bind_splits prod.splits)

lemmas traced_callE = traced_call_orE [OF _ sync_frame] traced_call_orE [OF _ syncCanaryRules_frame]
  traced_call_orE [OF _ deleteCanaryRules_frame] traced_call_orE [OF _ deleteTaggedServiceLevels_frame]
  traced_return_callE

lemma handler_calls:
  assumes "handlers s = Some h" "h (traced d) now lu (w, []) = Some (s', err, w', l)"
  shows "prefix l (calls_of s) \<and>
    (CDel \<in> set l \<longrightarrow> \<not> d_hasRevision d w \<and> d_currentPercent d w = 0) \<and>
    (CRetire \<in> set l \<longrightarrow> d_hasRevision d w \<and>
       (s \<in> {retired, failed} \<or> d_currentPercent d w = 0)) \<and>
    (CSync \<in> set l \<longrightarrow> d_hasRevision d w)"
  using assms
  by (cases s)
    (auto simp: handler_defs Let_def traced_def calls_of_def word_gt_0 elim!: traced_callE
      split: if_splits ExternalTestStatus.splits Option.bind_splits)

text \<open>
  A revision's objects are deleted only when the revision is gone and gets no traffic, and retired only
  when it gets none or is retired or failed already.
\<close>

lemma tick_calls:
  assumes "tick (traced d) now lu (w, []) = Some (err, w', l)"
  shows "prefix l (calls_of (current d w)) \<and>
    (CDel \<in> set l \<longrightarrow> \<not> d_hasRevision d w \<and> d_currentPercent d w = 0) \<and>
    (CRetire \<in> set l \<longrightarrow> d_hasRevision d w \<and>
       (current d w \<in> {retired, failed} \<or> d_currentPercent d w = 0)) \<and>
    (CSync \<in> set l \<longrightarrow> d_hasRevision d w)"
proof -
  have c: "current (traced d) (w, []) = current d w" by (simp add: current_def traced_def)
  obtain h s' e w1 l1 where h: "handlers (current d w) = Some h"
    "h (traced d) now lu (w, []) = Some (s', e, w1, l1)"
    using assms by (auto simp: tick_def c split: Option.bind_splits)
  moreover have "l = l1"
    using assms h snd_traced_setState [of d s' "(w1, l1)"]
    by (auto simp: tick_def c split: option.splits)
  ultimately show ?thesis using handler_calls [OF h] by simp
qed

end

section \<open>Every transition of the graph happens\<close>

text \<open>
  A deployment that is just its flags, whose calls do nothing: it keeps the contract, and runs of it
  take every edge of the graph.
\<close>

record Flags =
  fl_State :: State
  fl_Revision :: bool
  fl_Marked :: bool
  fl_Eligible :: bool
  fl_Permits :: bool
  fl_Deployed :: bool
  fl_Test :: ExternalTestStatus
  fl_Current :: u32
  fl_Peak :: u32
  fl_CanaryPending :: bool
  fl_TimingOut :: bool
  fl_Expired :: bool

definition flags_deployment :: "Flags Deployment" where
  "flags_deployment = (let call = (\<lambda>w. Some (None, w)) in
     \<lparr>d_sync = call, d_retire = call, d_del = call, d_syncCanaryRules = call,
      d_deleteCanaryRules = call, d_deleteTaggedServiceLevels = call,
      d_hasRevision = fl_Revision, d_schedulePermitsRelease = Some \<circ> fl_Permits,
      d_markedAsFailed = fl_Marked, d_isReleaseEligible = fl_Eligible,
      d_getStatus = \<lambda>w. (new_RevisionStatus 0 [])\<lparr>rs_State :=
        \<lparr>st_Current = fl_State w, st_Target = fl_State w, st_LastUpdated = None\<rparr>\<rparr>,
      d_setState = \<lambda>s w. w\<lparr>fl_State := s\<rparr>, d_isDeployed = fl_Deployed,
      d_getExternalTestStatus = fl_Test, d_currentPercent = fl_Current, d_peakPercent = fl_Peak,
      d_isCanaryPending = fl_CanaryPending, d_isTimingOut = fl_TimingOut,
      d_isExpired = Some \<circ> fl_Expired\<rparr>)"

interpretation flags: deployment_contract flags_deployment
  by unfold_locales
    (simp_all add: flags_deployment_def frames_def observed_def current_def Let_def)

definition flags :: "State \<Rightarrow> Flags" where
  "flags s = \<lparr>fl_State = s, fl_Revision = True, fl_Marked = False, fl_Eligible = True,
     fl_Permits = False, fl_Deployed = True, fl_Test = ExternalTestDisabled, fl_Current = 0,
     fl_Peak = 0, fl_CanaryPending = False, fl_TimingOut = False, fl_Expired = False\<rparr>"

text \<open>The worlds tried from a state: the base one, changed in one or two flags.\<close>

definition variants :: "State \<Rightarrow> Flags list" where
  "variants s = (let w = flags s in
     [w, w\<lparr>fl_Revision := False\<rparr>, w\<lparr>fl_Marked := True\<rparr>, w\<lparr>fl_Eligible := False\<rparr>,
      w\<lparr>fl_Eligible := False, fl_Expired := True\<rparr>, w\<lparr>fl_Permits := True\<rparr>, w\<lparr>fl_Deployed := False\<rparr>,
      w\<lparr>fl_Test := ExternalTestPending\<rparr>, w\<lparr>fl_Test := ExternalTestStarted\<rparr>,
      w\<lparr>fl_Test := ExternalTestFailed\<rparr>, w\<lparr>fl_Test := ExternalTestSucceeded\<rparr>,
      w\<lparr>fl_Test := ExternalTestSucceeded, fl_Eligible := False\<rparr>,
      w\<lparr>fl_Test := ExternalTestSucceeded, fl_CanaryPending := True\<rparr>,
      w\<lparr>fl_Test := ExternalTestStarted, fl_TimingOut := True\<rparr>, w\<lparr>fl_Current := 50\<rparr>,
      w\<lparr>fl_Peak := 100\<rparr>, w\<lparr>fl_CanaryPending := True\<rparr>])"

text \<open>The states a successful tick from a list of worlds reaches, early and long after the last update.\<close>

definition reached :: "Flags list \<Rightarrow> State list" where
  "reached ws = List.concat (map (\<lambda>w. List.concat (map (\<lambda>now.
     (case tick flags_deployment now (Some 0) w of Some (None, w') \<Rightarrow> [fl_State w'] | _ \<Rightarrow> []))
     [0, 2 * hour])) ws)"

lemma graph_reached:
  "list_all (\<lambda>s. list_all (\<lambda>s'. s' \<in> set (reached (variants s))) (successors s)) AllStates"
  by code_simp

lemma graph_complete:
  assumes "s \<in> set AllStates" "s' \<in> set (successors s)"
  shows "\<exists>w w' now. current flags_deployment w = s \<and> current flags_deployment w' = s' \<and>
    tick flags_deployment now (Some 0) w = Some (None, w')"
proof -
  have "s' \<in> set (reached (variants s))"
    using graph_reached assms by (auto simp: list_all_iff)
  then obtain w now w' where w: "w \<in> set (variants s)"
    "tick flags_deployment now (Some 0) w = Some (None, w')" "s' = fl_State w'"
    by (auto simp: reached_def eq_commute [of "Some _" "tick _ _ _ _"] split: option.splits prod.splits)
  moreover have "fl_State w = s" using w(1) by (auto simp: variants_def flags_def Let_def)
  ultimately show ?thesis
    by (intro exI [of _ w] exI [of _ w'] exI [of _ now])
      (simp add: current_def flags_deployment_def Let_def)
qed

end
