(* ===== verification/Incarnation.thy ===== *)
theory Incarnation
  imports Plan_Types Cluster_Info Scaling Schedule Observe State_Machine
begin

text \<open>
  Incarnations, \<^verbatim>\<open>src/controllers/incarnation.go\<close>: a revision applied to a target, with its status. This
  theory holds the record, the constructor and the operations that read or change an incarnation alone;
  what an incarnation does to the clusters is in the next theories.

  \<^verbatim>\<open>NewIncarnation\<close> always sets the status, so it is no option and the nil tests on it are true. The
  controller, the configuration and the third-party calls are the context \<open>'c Ctx\<close>, over the state \<open>'c\<close>
  of the clusters.
\<close>

section \<open>State\<close>

record Incarnation =
  inc_deployed :: bool
  inc_tag :: string
  inc_revision :: "Revision option"
  inc_status :: ReleaseManagerRevisionStatus
  inc_isRamping :: bool

text \<open>\<^verbatim>\<open>utils.Config\<close>\<close>

record Config =
  conf_HumaneReleasesEnabled :: bool
  conf_ManageRoute53 :: bool
  conf_RequeueAfter :: duration
  conf_PrometheusQueryAddress :: string
  conf_PrometheusQueryTTL :: duration
  conf_SlackQueryTTL :: duration
  conf_ServiceLevelsNamespace :: string
  conf_ServiceLevelsFleet :: string
  conf_ConcurrentRevisions :: int
  conf_ConcurrentReleaseManagers :: int
  conf_DevRoutesServiceHost :: string
  conf_DevRoutesServicePort :: int
  conf_useKedaClusterAuth :: bool
  conf_ClusterPrometheusAddress :: string

text \<open>
  The \<^verbatim>\<open>Controller\<close> of the incarnations: the release manager and the clusters of its fleet, and the
  calls that leave the program. \<open>x_off\<close> and \<open>x_local\<close> are the zone offsets of the schedule's location and
  of the machine, \<open>x_apply\<close> applies a plan to the clusters, \<open>x_selector\<close> is
  \<^verbatim>\<open>metav1.LabelSelectorAsSelector\<close>, the lists and the operations on revisions and release managers
  are calls of the delivery cluster's client, and \<open>x_observe\<close> is the observer of the target clusters.
\<close>

record 'c Ctx =
  x_rm :: ReleaseManager
  x_clusterInfo :: ClusterInfoList
  x_config :: Config
  x_off :: "time \<Rightarrow> int"
  x_local :: "time \<Rightarrow> int"
  x_apply :: "Plan \<Rightarrow> 'c \<Rightarrow> goerror option \<times> 'c"
  x_selector :: "opaque option \<Rightarrow> goerror + opaque"
  x_listSecrets :: "opaque \<Rightarrow> string \<Rightarrow> 'c \<Rightarrow> goerror + ConfigObject list"
  x_listExternalSecrets :: "opaque \<Rightarrow> string \<Rightarrow> 'c \<Rightarrow> goerror + ExternalSecret list"
  x_listConfigMaps :: "opaque \<Rightarrow> string \<Rightarrow> 'c \<Rightarrow> goerror + ConfigObject list"
  x_parseQuantity :: "string \<Rightarrow> goerror + Quantity"
  x_observe :: "string \<Rightarrow> 'c \<Rightarrow> goerror + Observation"
  x_getRevision :: "string \<Rightarrow> string \<Rightarrow> 'c \<Rightarrow> goerror + Revision"
  x_updateRevision :: "Revision \<Rightarrow> 'c \<Rightarrow> goerror option \<times> 'c"
  x_deleteReleaseManager :: "ReleaseManager \<Rightarrow> 'c \<Rightarrow> goerror option \<times> 'c"

section \<open>The target, and what is read off it\<close>

definition target :: "ReleaseManager \<Rightarrow> Incarnation \<Rightarrow> RevisionTarget option" where
  "target rm i = (case inc_revision i of
     None \<Rightarrow> None
   | Some r \<Rightarrow> find (\<lambda>t. rt_Name t = rmsp_Target (rm_Spec rm)) (rsp_Targets (rev_Spec r)))"

definition appName :: "ReleaseManager \<Rightarrow> string" where
  "appName rm = rmsp_App (rm_Spec rm)"

definition targetName :: "ReleaseManager \<Rightarrow> string" where
  "targetName rm = rmsp_Target (rm_Spec rm)"

definition targetNamespace :: "ReleaseManager \<Rightarrow> string" where
  "targetNamespace rm = TargetNamespace rm"

definition image_of :: "Incarnation \<Rightarrow> string option" where
  "image_of i = do { r \<leftarrow> inc_revision i; Some (ra_Image (rsp_App (rev_Spec r))) }"

definition defaultLabels :: "ReleaseManager \<Rightarrow> Incarnation \<Rightarrow> strmap" where
  "defaultLabels rm i =
     [(LabelApp, appName rm), (LabelTag, inc_tag i), (LabelTarget, targetName rm),
      (LabelK8sName, appName rm), (LabelK8sVersion, inc_tag i), (LabelIstioApp, appName rm),
      (LabelIstioVersion, inc_tag i)]"

definition ports :: "ReleaseManager \<Rightarrow> Incarnation \<Rightarrow> PortInfo list" where
  "ports rm i = (case target rm i of None \<Rightarrow> [] | Some t \<Rightarrow> rt_Ports t)"

definition hasRevision :: "Incarnation \<Rightarrow> bool" where
  "hasRevision i \<longleftrightarrow> inc_revision i \<noteq> None"

definition markedAsFailed :: "Incarnation \<Rightarrow> bool" where
  "markedAsFailed i \<longleftrightarrow>
     (case inc_revision i of None \<Rightarrow> False | Some r \<Rightarrow> rsp_Failed (rev_Spec r))"

definition isEventDriven :: "Incarnation \<Rightarrow> bool option" where
  "isEventDriven i = do { r \<leftarrow> inc_revision i; Some (rsp_EventDriven (rev_Spec r)) }"

definition getExternalTestStatus :: "ReleaseManager \<Rightarrow> Incarnation \<Rightarrow> ExternalTestStatus" where
  "getExternalTestStatus rm i =
     (case target rm i of None \<Rightarrow> ExternalTestUnknown | Some t \<Rightarrow> TargetExternalTestStatus t)"

definition isCanaryPending :: "ReleaseManager \<Rightarrow> time \<Rightarrow> Incarnation \<Rightarrow> bool" where
  "isCanaryPending rm now i = (case target rm i of
     None \<Rightarrow> False
   | Some t \<Rightarrow> IsCanaryPending now t (rs_CanaryStartTimestamp (inc_status i)))"

section \<open>The status\<close>

definition state_of :: "Incarnation \<Rightarrow> State" where
  "state_of i = st_Current (rs_State (inc_status i))"

definition currentPercent :: "Incarnation \<Rightarrow> u32" where
  "currentPercent i = rs_CurrentPercent (inc_status i)"

definition peakPercent :: "Incarnation \<Rightarrow> u32" where
  "peakPercent i = rs_PeakPercent (inc_status i)"

definition isReleaseEligible :: "Incarnation \<Rightarrow> bool" where
  "isReleaseEligible i = rs_ReleaseEligible (inc_status i)"

definition isDeployed :: "Incarnation \<Rightarrow> bool" where
  "isDeployed i \<longleftrightarrow> (let scale = rs_Scale (inc_status i) in
     rsc_Current scale \<ge> rsc_Desired scale \<and> inc_deployed i)"

definition isRoutable :: "Incarnation \<Rightarrow> bool" where
  "isRoutable i \<longleftrightarrow> state_of i \<noteq> canaried \<and> state_of i \<noteq> pendingrelease"

definition CreatedOn :: "Incarnation \<Rightarrow> time" where
  "CreatedOn i = (case inc_revision i of None \<Rightarrow> zero_time | Some r \<Rightarrow> GitTimestamp r)"

definition TTL :: "Incarnation \<Rightarrow> duration" where
  "TTL i = wrap64 (rs_TTL (inc_status i) * second)"

definition isExpired :: "time \<Rightarrow> Incarnation \<Rightarrow> bool option" where
  "isExpired now i = do {
     r \<leftarrow> inc_revision i;
     Some (om_CreationTimestamp (rev_Meta r) + TTL i < now)
   }"

definition isTimingOut :: "ReleaseManager \<Rightarrow> time \<Rightarrow> Incarnation \<Rightarrow> bool" where
  "isTimingOut rm now i = (case target rm i of
     None \<Rightarrow> False
   | Some t \<Rightarrow>
       let lastUpdated = (case st_LastUpdated (rs_State (inc_status i)) of None \<Rightarrow> zero_time | Some u \<Rightarrow> u);
           status = TargetExternalTestStatus t;
           (lastUpdated, timeout) =
             (if status = ExternalTestStarted \<or> status = ExternalTestPending
              then (case et_LastUpdated (rt_ExternalTest t) of None \<Rightarrow> lastUpdated | Some u \<Rightarrow> u,
                    case et_Timeout (rt_ExternalTest t) of None \<Rightarrow> 0 | Some d \<Rightarrow> d)
              else (lastUpdated, 0))
       in if lastUpdated = zero_time \<or> timeout = 0 then False
          else lastUpdated + timeout < now)"

text \<open>\<^verbatim>\<open>karpenterDoNotDisrupt\<close>: only until the revision is deployed.\<close>

definition karpenterDoNotDisrupt :: "ReleaseManager \<Rightarrow> Incarnation \<Rightarrow> string option" where
  "karpenterDoNotDisrupt rm i =
     (if state_of i = created \<or> state_of i = deploying
      then do { t \<leftarrow> target rm i; Some (rt_KarpenterDoNotDisrupt t) }
      else Some [])"

section \<open>Changes of the status\<close>

definition upd_status :: "(ReleaseManagerRevisionStatus \<Rightarrow> ReleaseManagerRevisionStatus) \<Rightarrow>
    Incarnation \<Rightarrow> Incarnation" where
  "upd_status f i = i\<lparr>inc_status := f (inc_status i)\<rparr>"

text \<open>
  \<^verbatim>\<open>setState\<close>. The third test is written with the code's string \<^verbatim>\<open>pendingRelease\<close>, which no state has.
\<close>

definition stamp :: "time \<Rightarrow> time option \<Rightarrow> time option" where
  "stamp now ts = (if ts = None then Some now else ts)"

definition setState :: "time \<Rightarrow> State \<Rightarrow> Incarnation \<Rightarrow> Incarnation" where
  "setState now state = upd_status (\<lambda>s.
     let s = (if state = deploying
          then s\<lparr>rs_DeployingStartTimestamp := stamp now (rs_DeployingStartTimestamp s)\<rparr> else s);
         s = (if state = canarying \<and> rs_CurrentPercent s > 0
          then s\<lparr>rs_CanaryStartTimestamp := stamp now (rs_CanaryStartTimestamp s)\<rparr> else s);
         s = (if state = OtherState ''pendingRelease''
          then s\<lparr>rs_PendingReleaseStartTimestamp := stamp now (rs_PendingReleaseStartTimestamp s)\<rparr> else s);
         s = (if state = releasing
          then s\<lparr>rs_ReleaseStartTimestamp := stamp now (rs_ReleaseStartTimestamp s)\<rparr> else s);
         s = (if st_Current (rs_State s) \<noteq> state
          then s\<lparr>rs_State := (rs_State s)\<lparr>st_LastUpdated := Some now\<rparr>\<rparr> else s)
     in s\<lparr>rs_State := (rs_State s)\<lparr>st_Current := state, st_Target := state\<rparr>\<rparr>)"

definition setReleaseEligible :: "bool \<Rightarrow> Incarnation \<Rightarrow> Incarnation" where
  "setReleaseEligible flag = upd_status (\<lambda>s. s\<lparr>rs_ReleaseEligible := flag\<rparr>)"

definition fastRelease :: "Incarnation \<Rightarrow> Incarnation" where
  "fastRelease = upd_status (\<lambda>s. s\<lparr>rs_ReleaseEligible := True, rs_PeakPercent := 100\<rparr>)"

definition updateCurrentPercent :: "time \<Rightarrow> u32 \<Rightarrow> Incarnation \<Rightarrow> Incarnation" where
  "updateCurrentPercent now cur = upd_status (\<lambda>s.
     let s = (if rs_CurrentPercent s \<noteq> cur
          then s\<lparr>rs_CurrentPercent := cur, rs_LastUpdated := Some now\<rparr> else s)
     in if cur > rs_PeakPercent s then s\<lparr>rs_PeakPercent := cur\<rparr> else s)"

text \<open>\<^verbatim>\<open>update\<close>: what was observed of the incarnation's replica sets in the live clusters.\<close>

definition inc_update :: "ClusterInfoList \<Rightarrow> time \<Rightarrow> DeploymentInfo option \<Rightarrow> Incarnation \<Rightarrow> Incarnation" where
  "inc_update clusterInfo now di i = (case di of
     None \<Rightarrow> upd_status (\<lambda>s.
       let s = (if rs_CurrentPercent s \<noteq> 0
            then s\<lparr>rs_LastUpdated := Some now, rs_CurrentPercent := 0\<rparr> else s)
       in s\<lparr>rs_Scale := (rs_Scale s)\<lparr>rsc_Current := 0, rsc_Desired := 0\<rparr>, rs_Deleted := True\<rparr>)
       (i\<lparr>inc_deployed := False\<rparr>)
   | Some di \<Rightarrow> upd_status (\<lambda>s.
       let sc = (rs_Scale s)\<lparr>rsc_Desired := i_Sum (di_Desired di), rsc_Current := i_Sum (di_Current di)\<rparr>;
           sc = (if rsc_Current sc > rsc_Peak sc then sc\<lparr>rsc_Peak := rsc_Current sc\<rparr> else sc)
       in s\<lparr>rs_Deleted := False, rs_Scale := sc\<rparr>)
       (i\<lparr>inc_deployed := (i_Count (di_Current di) \<ge> liveCount clusterInfo \<and> i_Min (di_Current di) > 0)\<rparr>))"

section \<open>Construction\<close>

text \<open>
  \<^verbatim>\<open>NewIncarnation\<close>: the release manager is returned too, since looking up the status may register the
  tag. The targets are searched to the end, so the last one of that name decides.
\<close>

definition init_from_target :: "ReleaseManager \<Rightarrow> RevisionTarget \<Rightarrow> ReleaseManagerRevisionStatus \<Rightarrow>
    ReleaseManagerRevisionStatus" where
  "init_from_target rm t s =
     (if rt_Name t = rmsp_Target (rm_Spec rm)
      then s\<lparr>rs_ReleaseEligible := ri_Eligible (rt_Release t), rs_TTL := ri_TTL (rt_Release t)\<rparr>
      else s)"

definition init_status :: "time \<Rightarrow> ReleaseManager \<Rightarrow> Revision option \<Rightarrow>
    ReleaseManagerRevisionStatus \<Rightarrow> ReleaseManagerRevisionStatus" where
  "init_status now rm revision s =
     (let s = (if st_Current (rs_State s) = OtherState []
          then s\<lparr>rs_State := (rs_State s)\<lparr>st_Current := created\<rparr>\<rparr> else s);
         s = (if st_Current (rs_State s) = created \<or> st_Current (rs_State s) = deploying
          then (case revision of
              Some r \<Rightarrow> fold (init_from_target rm) (rsp_Targets (rev_Spec r))
                (s\<lparr>rs_GitTimestamp := Some (GitTimestamp r)\<rparr>)
            | None \<Rightarrow> s\<lparr>rs_ReleaseEligible := False\<rparr>)
          else s);
         s = (if rs_GitTimestamp s = None then s\<lparr>rs_GitTimestamp := Some zero_time\<rparr> else s)
     in if rs_RevisionTimestamp s = None
        then s\<lparr>rs_RevisionTimestamp := Some (case revision of None \<Rightarrow> now
                | Some r \<Rightarrow> om_CreationTimestamp (rev_Meta r))\<rparr>
        else s)"

definition NewIncarnation :: "ClusterInfoList \<Rightarrow> time \<Rightarrow> ReleaseManager \<Rightarrow> string \<Rightarrow> Revision option \<Rightarrow>
    DeploymentInfo option \<Rightarrow> Incarnation \<times> ReleaseManager" where
  "NewIncarnation clusterInfo now rm tag revision di =
     (let (status, rm) = RevisionStatus now rm tag in
      (inc_update clusterInfo now di
         \<lparr>inc_deployed = False, inc_tag = tag, inc_revision = revision,
          inc_status = init_status now rm revision status, inc_isRamping = False\<rparr>, rm))"

section \<open>Metrics\<close>

text \<open>
  \<^verbatim>\<open>int(time.Since(t).Seconds())\<close>: \<^verbatim>\<open>Seconds\<close> adds the whole seconds and the rest as floats, and the
  conversion drops the fraction. The Prometheus histograms are not modelled; the stored values are.
\<close>

definition Seconds :: "duration \<Rightarrow> float64" where
  "Seconds d = (let sec = (if d \<ge> 0 then d div second else - ((- d) div second)); nsec = d - sec * second
     in fl (float_of_int sec + fdiv (float_of_int nsec) (10 ^ 9)))"

definition int_of_float :: "float64 \<Rightarrow> int" where
  "int_of_float x = (if x \<ge> 0 then math_Floor x else math_Ceil x)"

definition elapsedInt :: "time \<Rightarrow> time \<Rightarrow> int" where
  "elapsedInt now t = int_of_float (Seconds (time_Sub now t))"

text \<open>
  \<open>set_once now old t\<close>: \<^verbatim>\<open>if m == nil { m = &elapsedInt }\<close> since \<open>t\<close>, when there is such a time.
\<close>

definition set_once :: "time \<Rightarrow> int option \<Rightarrow> time option \<Rightarrow> int option" where
  "set_once now m t = (case m of
     Some x \<Rightarrow> Some x
   | None \<Rightarrow> (case t of None \<Rightarrow> None | Some t \<Rightarrow> Some (elapsedInt now t)))"

definition inc_reportMetrics :: "time \<Rightarrow> Incarnation \<Rightarrow> Incarnation" where
  "inc_reportMetrics now i = upd_status (\<lambda>s.
     let m = rs_Metrics s; cur = st_Current (rs_State s);
         m = (if cur = created
           then m\<lparr>me_GitCreateSecondsInt := set_once now (me_GitCreateSecondsInt m) (rs_GitTimestamp s)\<rparr>
           else m);
         m = (if cur = deployed
           then m\<lparr>me_GitDeploySecondsInt := set_once now (me_GitDeploySecondsInt m) (rs_GitTimestamp s),
                  me_RevisionDeploySecondsInt :=
                    set_once now (me_RevisionDeploySecondsInt m) (rs_RevisionTimestamp s),
                  me_DeploySecondsInt :=
                    set_once now (me_DeploySecondsInt m) (rs_DeployingStartTimestamp s)\<rparr>
           else m);
         m = (if cur = canaried
           then m\<lparr>me_GitCanarySecondsInt := set_once now (me_GitCanarySecondsInt m) (rs_GitTimestamp s),
                  me_RevisionCanarySecondsInt :=
                    set_once now (me_RevisionCanarySecondsInt m) (rs_RevisionTimestamp s),
                  me_CanarySecondsInt :=
                    set_once now (me_CanarySecondsInt m) (rs_CanaryStartTimestamp s)\<rparr>
           else m);
         m = (if cur = pendingrelease
           then m\<lparr>me_GitPendingReleaseSecondsInt :=
                    set_once now (me_GitPendingReleaseSecondsInt m) (rs_GitTimestamp s),
                  me_ReivisonPendingReleaseSecondsInt :=
                    set_once now (me_ReivisonPendingReleaseSecondsInt m) (rs_RevisionTimestamp s)\<rparr>
           else m);
         m = (if cur = released
           then m\<lparr>me_GitReleaseSecondsInt := set_once now (me_GitReleaseSecondsInt m) (rs_GitTimestamp s),
                  me_RevisionReleaseSecondsInt :=
                    set_once now (me_RevisionReleaseSecondsInt m) (rs_RevisionTimestamp s),
                  me_ReleaseSecondsInt :=
                    set_once now (me_ReleaseSecondsInt m) (rs_ReleaseStartTimestamp s)\<rparr>
           else m);
         m = (if cur = failed \<and> me_RevisionRollbackSecondsInt m = None
           then (case inc_revision i of
               None \<Rightarrow> m
             | Some r \<Rightarrow> m\<lparr>me_RevisionRollbackSecondsInt :=
                 Some (int_of_float (Seconds (SinceFailed now r)))\<rparr>)
           else m)
     in s\<lparr>rs_Metrics := m\<rparr>) i"

section \<open>The schedule\<close>

text \<open>
  \<^verbatim>\<open>schedulePermitsRelease\<close>. Every path of a revision dereferences the target, so without one it
  panics. Times are read in the machine's zone.
\<close>

definition schedulePermitsRelease :: "'c Ctx \<Rightarrow> time \<Rightarrow> Incarnation \<Rightarrow> bool option" where
  "schedulePermitsRelease x now i = (case inc_revision i of
     None \<Rightarrow> Some False
   | Some r \<Rightarrow> do {
       t \<leftarrow> target (x_rm x) i;
       Some (
         if peakPercent i > 0 \<and> peakPercent i > ca_Percent (rt_Canary t) then True
         else if \<not> conf_HumaneReleasesEnabled (x_config x) \<and> ri_Schedule (rt_Release t) \<noteq> ''always''
           then False
         else list_ex (\<lambda>tm. PermitsRelease (x_off x) \<lparr>z_Instant = tm, z_Offset = x_local x tm\<rparr>
             (ri_Schedule (rt_Release t)))
           [om_CreationTimestamp (rev_Meta r), now])
     })"

section \<open>Facts\<close>

lemma inc_status_upd [simp]: "inc_status (upd_status f i) = f (inc_status i)"
  by (simp add: upd_status_def)

lemma upd_status_other [simp]:
  "inc_tag (upd_status f i) = inc_tag i" "inc_revision (upd_status f i) = inc_revision i"
  "inc_deployed (upd_status f i) = inc_deployed i" "inc_isRamping (upd_status f i) = inc_isRamping i"
  by (simp_all add: upd_status_def)

lemma target_upd_status [simp]: "target rm (upd_status f i) = target rm i"
  by (simp add: target_def)

lemma target_name: "target rm i = Some t \<Longrightarrow> rt_Name t = rmsp_Target (rm_Spec rm)"
  by (auto simp: target_def find_Some_iff split: option.splits)

lemma setState_simps [simp]:
  "st_Current (rs_State (inc_status (setState now s i))) = s"
  "rs_CurrentPercent (inc_status (setState now s i)) = rs_CurrentPercent (inc_status i)"
  "rs_PeakPercent (inc_status (setState now s i)) = rs_PeakPercent (inc_status i)"
  "rs_ReleaseEligible (inc_status (setState now s i)) = rs_ReleaseEligible (inc_status i)"
  "rs_Scale (inc_status (setState now s i)) = rs_Scale (inc_status i)"
  "rs_Tag (inc_status (setState now s i)) = rs_Tag (inc_status i)"
  "inc_tag (setState now s i) = inc_tag i" "inc_revision (setState now s i) = inc_revision i"
  "inc_isRamping (setState now s i) = inc_isRamping i" "inc_deployed (setState now s i) = inc_deployed i"
  "target rm (setState now s i) = target rm i"
  by (simp_all add: setState_def Let_def)

text \<open>
  The time stamps of a state's start are set when it is entered and kept; that of \<^verbatim>\<open>pendingrelease\<close> is
  never set, because of the string it is compared with.
\<close>

lemma setState_pendingrelease_stamp:
  "s \<in> set AllStates \<Longrightarrow>
   rs_PendingReleaseStartTimestamp (inc_status (setState now s i)) =
     rs_PendingReleaseStartTimestamp (inc_status i)"
  by (auto simp: setState_def Let_def AllStates_def state_names_def)

lemma updateCurrentPercent_simps [simp]:
  "rs_CurrentPercent (inc_status (updateCurrentPercent now p i)) = p"
  "rs_PeakPercent (inc_status (updateCurrentPercent now p i)) = max p (rs_PeakPercent (inc_status i))"
  "rs_ReleaseEligible (inc_status (updateCurrentPercent now p i)) = rs_ReleaseEligible (inc_status i)"
  "rs_State (inc_status (updateCurrentPercent now p i)) = rs_State (inc_status i)"
  "rs_Scale (inc_status (updateCurrentPercent now p i)) = rs_Scale (inc_status i)"
  "rs_Tag (inc_status (updateCurrentPercent now p i)) = rs_Tag (inc_status i)"
  "inc_tag (updateCurrentPercent now p i) = inc_tag i"
  "inc_revision (updateCurrentPercent now p i) = inc_revision i"
  "inc_isRamping (updateCurrentPercent now p i) = inc_isRamping i"
  "target rm (updateCurrentPercent now p i) = target rm i"
  by (auto simp: updateCurrentPercent_def Let_def max_def)

lemma setReleaseEligible_simps [simp]:
  "rs_CurrentPercent (inc_status (setReleaseEligible b i)) = rs_CurrentPercent (inc_status i)"
  "rs_PeakPercent (inc_status (setReleaseEligible b i)) = rs_PeakPercent (inc_status i)"
  "rs_ReleaseEligible (inc_status (setReleaseEligible b i)) = b"
  "rs_State (inc_status (setReleaseEligible b i)) = rs_State (inc_status i)"
  "rs_Tag (inc_status (setReleaseEligible b i)) = rs_Tag (inc_status i)"
  "inc_tag (setReleaseEligible b i) = inc_tag i"
  "inc_revision (setReleaseEligible b i) = inc_revision i"
  "inc_isRamping (setReleaseEligible b i) = inc_isRamping i"
  "target rm (setReleaseEligible b i) = target rm i"
  by (simp_all add: setReleaseEligible_def)

lemma inc_update_simps [simp]:
  "rs_State (inc_status (inc_update ci now di i)) = rs_State (inc_status i)"
  "rs_ReleaseEligible (inc_status (inc_update ci now di i)) = rs_ReleaseEligible (inc_status i)"
  "rs_PeakPercent (inc_status (inc_update ci now di i)) = rs_PeakPercent (inc_status i)"
  "rs_GitTimestamp (inc_status (inc_update ci now di i)) = rs_GitTimestamp (inc_status i)"
  "rs_RevisionTimestamp (inc_status (inc_update ci now di i)) = rs_RevisionTimestamp (inc_status i)"
  "rs_Tag (inc_status (inc_update ci now di i)) = rs_Tag (inc_status i)"
  "inc_tag (inc_update ci now di i) = inc_tag i"
  "inc_revision (inc_update ci now di i) = inc_revision i"
  "inc_isRamping (inc_update ci now di i) = inc_isRamping i"
  by (auto simp: inc_update_def Let_def split: option.splits)

text \<open>An incarnation without replica sets in the live clusters has no traffic and is not deployed.\<close>

lemma inc_update_None:
  "currentPercent (inc_update ci now None i) = 0 \<and> \<not> inc_deployed (inc_update ci now None i) \<and>
   rs_Deleted (inc_status (inc_update ci now None i))"
  by (simp add: inc_update_def currentPercent_def Let_def)

text \<open>\<^verbatim>\<open>NewIncarnation\<close> sets the two time stamps the metrics dereference.\<close>

lemma NewIncarnation_timestamps:
  "NewIncarnation ci now rm tag revision di = (i, rm') \<Longrightarrow>
   rs_GitTimestamp (inc_status i) \<noteq> None \<and> rs_RevisionTimestamp (inc_status i) \<noteq> None \<and>
   inc_tag i = tag \<and> inc_revision i = revision \<and> \<not> inc_isRamping i"
  by (auto simp: NewIncarnation_def init_status_def Let_def split: prod.splits)

text \<open>
  An incarnation is deployed after an update exactly when replica sets of it are observed in at least
  as many live replica sets as there are live clusters, none of them with no replica available, and
  the replicas available add up to those desired.
\<close>

lemma isDeployed_update:
  "isDeployed (inc_update ci now (Some di) i) \<longleftrightarrow>
     i_Sum (di_Current di) \<ge> i_Sum (di_Desired di) \<and>
     i_Count (di_Current di) \<ge> int (live_clusters ci) \<and> i_Min (di_Current di) > 0"
  by (auto simp: isDeployed_def inc_update_def Let_def liveCount_def ClusterCount_live)

end
