(* ===== verification/Ramp.thy ===== *)
theory Ramp
  imports Incarnation
begin

text \<open>
  Incarnations as scaling targets, \<^verbatim>\<open>src/controllers/scaling.go\<close>, and the operations of
  \<^verbatim>\<open>incarnation.go\<close> that compute percentages and replicas with them: the replicas the fleet must have
  before traffic is raised, the next percentage, and the replicas and autoscaler targets per cluster.
\<close>

section \<open>The replicas a traffic step requires\<close>

definition Threshold :: float64 where "Threshold = fl (9 / 10)"

record rampReplicaComputation =
  rc_expectedReplicas :: int32
  rc_totalPods :: int32
  rc_totalTrafficPercent :: u32
  rc_hasUnscaledRevision :: bool
  rc_baseCapacity :: int32

text \<open>The loop over the other revisions' statuses: pods, traffic, and whether one is not fully scaled.\<close>

definition other_capacity :: "string \<Rightarrow> ReleaseManagerRevisionStatus \<Rightarrow> int32 \<times> u32 \<times> bool \<Rightarrow>
    int32 \<times> u32 \<times> bool" where
  "other_capacity currentTag st acc = (case acc of (totalPods, totalTrafficPercent, unscaled) \<Rightarrow>
     if rs_Tag st = currentTag then acc
     else if rs_CurrentPercent st > 0 \<and> rsc_Current (rs_Scale st) > 0
       then (wrap32 (totalPods + rsc_Current (rs_Scale st)),
             totalTrafficPercent + rs_CurrentPercent st,
             unscaled \<or> (rs_PeakPercent st = 100 \<and> rs_CurrentPercent st < 100))
     else acc)"

definition baseCapacity :: "ScaleInfo \<Rightarrow> int32 \<Rightarrow> int32 \<Rightarrow> u32 \<Rightarrow> bool \<Rightarrow> int32" where
  "baseCapacity scale mn totalPods totalTrafficPercent hasUnscaledRevision =
     (if totalPods = 0 \<or> totalTrafficPercent = 0 then mn
      else if hasUnscaledRevision then
        (if \<not> HasAutoscaler scale then (if mn = 0 then si_Max scale else mn) else totalPods)
      else
        int32_of_float (math_Ceil (fdiv (float_of_int totalPods)
          (fdiv (float_of_int (uint totalTrafficPercent)) 100))))"

text \<open>The result is \<open>None\<close> where the code returns \<^verbatim>\<open>nil, false\<close>.\<close>

definition computeFleetReplicasRequiredForRamp ::
  "'c Ctx \<Rightarrow> Incarnation \<Rightarrow> u32 \<Rightarrow> rampReplicaComputation option" where
  "computeFleetReplicasRequiredForRamp x i desiredPercent = do {
     t \<leftarrow> target (x_rm x) i;
     mn \<leftarrow> si_Min (rt_Scale t);
     let (totalPods, totalTrafficPercent, unscaled) =
       fold (other_capacity (inc_tag i)) (rmst_Revisions (rm_Status (x_rm x))) (0, 0, False);
     let base = baseCapacity (rt_Scale t) mn totalPods totalTrafficPercent unscaled;
     let totalReplicas = float_of_int
       (expectedTotalReplicas (x_clusterInfo x) base (i32_of_u32 desiredPercent));
     let expectedReplicas = int32_of_float (math_Ceil (fmul totalReplicas Threshold));
     let expectedReplicas =
       (if si_Max (rt_Scale t) > 0 then
          (let maxFleet = expectedTotalReplicas (x_clusterInfo x) (si_Max (rt_Scale t)) 100 in
           if expectedReplicas > maxFleet then maxFleet else expectedReplicas)
        else expectedReplicas);
     Some \<lparr>rc_expectedReplicas = expectedReplicas, rc_totalPods = totalPods,
           rc_totalTrafficPercent = totalTrafficPercent, rc_hasUnscaledRevision = unscaled,
           rc_baseCapacity = base\<rparr>
   }"

definition CanRampTo :: "'c Ctx \<Rightarrow> Incarnation \<Rightarrow> u32 \<Rightarrow> bool" where
  "CanRampTo x i desiredPercent =
     (case computeFleetReplicasRequiredForRamp x i desiredPercent of
        None \<Rightarrow> False
      | Some c \<Rightarrow> \<not> rsc_Current (rs_Scale (inc_status i)) < rc_expectedReplicas c)"

section \<open>The adapter and the strategies\<close>

text \<open>\<^verbatim>\<open>ReleaseInfo\<close> dereferences the target, so there is an adapter only for an incarnation with one.\<close>

definition ScalableTargetAdapter :: "'c Ctx \<Rightarrow> Incarnation \<Rightarrow> ScalableTarget option" where
  "ScalableTargetAdapter x i = map_option (\<lambda>t.
     \<lparr>t_CanRampTo = CanRampTo x i, t_CurrentPercent = rs_CurrentPercent (inc_status i),
      t_PeakPercent = rs_PeakPercent (inc_status i),
      t_LastUpdated = (case rs_LastUpdated (inc_status i) of Some lu \<Rightarrow> lu | None \<Rightarrow> zero_time),
      t_ReleaseInfo = rt_Release t\<rparr>) (target (x_rm x) i)"

definition Scale :: "'c Ctx \<Rightarrow> Incarnation \<Rightarrow> u32 \<Rightarrow> time \<Rightarrow> u32 option" where
  "Scale x i mx t = do {
     sta \<leftarrow> ScalableTargetAdapter x i;
     (if ri_ScalingStrategy (t_ReleaseInfo sta) = ScalingStrategyLinear then LinearScale sta mx t
      else if ri_ScalingStrategy (t_ReleaseInfo sta) = ScalingStrategyGeometric
        then GeometricScale sta mx t
      else Some (t_CurrentPercent sta))
   }"

definition NextIncrement :: "'c Ctx \<Rightarrow> Incarnation \<Rightarrow> u32 \<Rightarrow> u32 option" where
  "NextIncrement x i mx = do {
     sta \<leftarrow> ScalableTargetAdapter x i;
     Some (if ri_ScalingStrategy (t_ReleaseInfo sta) = ScalingStrategyLinear
           then LinearNextIncrement sta mx
           else if ri_ScalingStrategy (t_ReleaseInfo sta) = ScalingStrategyGeometric
             then GeometricNextIncrement sta mx
           else t_CurrentPercent sta)
   }"

definition ExpectedReleaseLatency :: "'c Ctx \<Rightarrow> Incarnation \<Rightarrow> u32 \<Rightarrow> duration option" where
  "ExpectedReleaseLatency x i mx = do {
     sta \<leftarrow> ScalableTargetAdapter x i;
     (if ri_ScalingStrategy (t_ReleaseInfo sta) = ScalingStrategyLinear
      then LinearExpectedReleaseLatency sta mx
      else if ri_ScalingStrategy (t_ReleaseInfo sta) = ScalingStrategyGeometric
        then GeometricExpectedReleaseLatency sta mx
      else Some 0)
   }"

definition secondsSinceRevision :: "'c Ctx \<Rightarrow> time \<Rightarrow> Incarnation \<Rightarrow> float64 option" where
  "secondsSinceRevision x now i = do {
     r \<leftarrow> inc_revision i;
     t \<leftarrow> target (x_rm x) i;
     expected \<leftarrow> ExpectedReleaseLatency x i (ri_Max (rt_Release t));
     Some (Seconds (wrap64 (time_Sub now (om_CreationTimestamp (rev_Meta r)) - expected)))
   }"

section \<open>Percentages and replicas\<close>

text \<open>The percentage an incarnation gets next, at most \<open>mx\<close>, and at most its canary share while canarying.\<close>

definition currentPercentTarget :: "'c Ctx \<Rightarrow> time \<Rightarrow> Incarnation \<Rightarrow> u32 \<Rightarrow> u32 option" where
  "currentPercentTarget x now i mx =
     (if inc_revision i = None then Some 0
      else do {
        mx \<leftarrow> (if state_of i = canarying
               then do {
                 t \<leftarrow> target (x_rm x) i;
                 Some (if mx > ca_Percent (rt_Canary t) then ca_Percent (rt_Canary t) else mx)
               }
               else Some mx);
        Scale x i mx now
      })"

definition inc_divideReplicas :: "'c Ctx \<Rightarrow> Incarnation \<Rightarrow> int32 \<Rightarrow> int32 option" where
  "inc_divideReplicas x i n =
     (if state_of i = deploying \<or> state_of i = deployed \<or> state_of i = pendingrelease then Some 1
      else do {
        perc \<leftarrow> (if state_of i = canarying
                 then do { t \<leftarrow> target (x_rm x) i; Some (ca_Percent (rt_Canary t)) }
                 else if inc_isRamping i
                   then do { t \<leftarrow> target (x_rm x) i; NextIncrement x i (ri_Max (rt_Release t)) }
                 else Some (currentPercent i));
        Some (divideReplicas (x_clusterInfo x) n (i32_of_u32 perc))
      })"

definition divideReplicasNoAutoscale :: "'c Ctx \<Rightarrow> int32 \<Rightarrow> int32" where
  "divideReplicasNoAutoscale x n = divideReplicas (x_clusterInfo x) n 100"

text \<open>
  \<^verbatim>\<open>targetScale\<close>: how much of the next traffic level the incarnation has now. The inner option is
  \<open>None\<close> when the quotient is infinite: a release capped at 0 that still has traffic.
\<close>

definition targetScale :: "'c Ctx \<Rightarrow> Incarnation \<Rightarrow> float64 option option" where
  "targetScale x i = do {
     next \<leftarrow> NextIncrement x i 100;
     let cur = currentPercent i;
     Some (if \<not> inc_isRamping i \<or> cur \<le> 0 \<or> cur \<ge> 100 then Some 1
           else if next = 0 then None
           else Some (fdiv (float_of_int (uint cur)) (float_of_int (uint next))))
   }"

text \<open>\<^verbatim>\<open>math.Floor(float64(n) * scale)\<close> as an \<^verbatim>\<open>int32\<close> or \<^verbatim>\<open>int64\<close>; infinity and NaN convert to the minimum.\<close>

definition scaled32 :: "int \<Rightarrow> float64 option \<Rightarrow> int32" where
  "scaled32 n s = (case s of None \<Rightarrow> - (2 ^ 31)
     | Some s \<Rightarrow> int32_of_float (math_Floor (fmul (float_of_int n) s)))"

definition scaled64 :: "int \<Rightarrow> float64 option \<Rightarrow> int64" where
  "scaled64 n s = (case s of None \<Rightarrow> - (2 ^ 63)
     | Some s \<Rightarrow> int64_of_float (math_Floor (fmul (float_of_int n) s)))"

definition proactiveRampMinReplicas :: "'c Ctx \<Rightarrow> Incarnation \<Rightarrow> int32 option" where
  "proactiveRampMinReplicas x i =
     (if \<not> inc_isRamping i then Some 0
      else if rs_CurrentPercent (inc_status i) = 0 then Some 0
      else if state_of i \<noteq> releasing then Some 0
      else (case target (x_rm x) i of
          None \<Rightarrow> Some 0
        | Some tgt \<Rightarrow>
            if si_Min (rt_Scale tgt) = None then Some 0
            else if si_Worker (rt_Scale tgt) \<noteq> None \<or> si_KedaWorker (rt_Scale tgt) \<noteq> None then Some 0
            else if \<not> HasAutoscaler (rt_Scale tgt) then Some 0
            else do {
              nextPct \<leftarrow> NextIncrement x i (ri_Max (rt_Release tgt));
              (if nextPct \<le> currentPercent i then Some 0
               else (case computeFleetReplicasRequiredForRamp x i nextPct of
                   None \<Rightarrow> Some 0
                 | Some c \<Rightarrow>
                     let perCluster = divideReplicas (x_clusterInfo x) (rc_expectedReplicas c) 100;
                         perClusterMax = divideReplicas (x_clusterInfo x) (si_Max (rt_Scale tgt)) 100
                     in Some (if perCluster > perClusterMax then perClusterMax else perCluster)))
            }))"

section \<open>Facts\<close>

lemma adapter_Some:
  assumes "target (x_rm x) i = Some t"
  obtains sta where "ScalableTargetAdapter x i = Some sta" "t_CanRampTo sta = CanRampTo x i"
    "t_CurrentPercent sta = currentPercent i" "t_PeakPercent sta = peakPercent i"
    "t_ReleaseInfo sta = rt_Release t"
  using assms by (simp add: ScalableTargetAdapter_def currentPercent_def peakPercent_def)

text \<open>A release whose strategy is one of the two the webhook admits, with its delay set.\<close>

definition scalable :: "ReleaseInfo \<Rightarrow> bool" where
  "scalable r \<longleftrightarrow>
     ri_ScalingStrategy r = ScalingStrategyLinear \<and> ls_Delay (ri_LinearScaling r) \<noteq> None \<or>
     ri_ScalingStrategy r = ScalingStrategyGeometric \<and> gs_Delay (ri_GeometricScaling r) \<noteq> None"

lemma strategies_differ: "ScalingStrategyLinear \<noteq> ScalingStrategyGeometric"
  by (simp add: ScalingStrategyLinear_def ScalingStrategyGeometric_def)

text \<open>\<^verbatim>\<open>Scale\<close> of such a release is the linear or the geometric strategy on the adapter.\<close>

lemma Scale_strategy:
  assumes "target (x_rm x) i = Some t" "scalable (rt_Release t)" "Scale x i mx now = Some p"
  obtains sta where "t_CanRampTo sta = CanRampTo x i" "t_CurrentPercent sta = currentPercent i"
    "t_ReleaseInfo sta = rt_Release t"
    "LinearScale sta mx now = Some p \<or> GeometricScale sta mx now = Some p"
proof -
  obtain sta where sta: "ScalableTargetAdapter x i = Some sta" "t_CanRampTo sta = CanRampTo x i"
    "t_CurrentPercent sta = currentPercent i" "t_ReleaseInfo sta = rt_Release t"
    using assms(1) by (rule adapter_Some)
  moreover have "LinearScale sta mx now = Some p \<or> GeometricScale sta mx now = Some p"
    using assms(2,3) sta strategies_differ
    by (auto simp: Scale_def scalable_def split: if_splits)
  ultimately show ?thesis using that by blast
qed

lemma Scale_le:
  assumes "target (x_rm x) i = Some t" "scalable (rt_Release t)" "Scale x i mx now = Some p"
  shows "p \<le> mx"
  using assms by (rule Scale_strategy) (auto dest: linear.scale_le_max geometric.scale_le_max)

lemma Scale_total:
  assumes "target (x_rm x) i = Some t" "scalable (rt_Release t)"
  shows "Scale x i mx now \<noteq> None"
proof -
  obtain sta where "ScalableTargetAdapter x i = Some sta" "t_ReleaseInfo sta = rt_Release t"
    using assms(1) by (rule adapter_Some)
  then show ?thesis
    using assms(2) strategies_differ linear.scale_total [of sta mx now]
      geometric.scale_total [of sta mx now]
    by (auto simp: Scale_def scalable_def)
qed

text \<open>The incarnations of a sound collection: one with a revision has its target, and that is scalable.\<close>

definition sound :: "ReleaseManager \<Rightarrow> Incarnation \<Rightarrow> bool" where
  "sound rm i \<longleftrightarrow>
     (inc_revision i = None \<or> (\<exists>t. target rm i = Some t \<and> scalable (rt_Release t)))"

lemma currentPercentTarget_le:
  assumes "sound (x_rm x) i" "currentPercentTarget x now i mx = Some p"
  shows "p \<le> mx"
proof (cases "inc_revision i")
  case None
  then show ?thesis using assms(2) by (simp add: currentPercentTarget_def)
next
  case (Some r)
  then obtain t where t: "target (x_rm x) i = Some t" "scalable (rt_Release t)"
    using assms(1) by (auto simp: sound_def)
  obtain m where m: "Scale x i m now = Some p" "m \<le> mx"
    using assms(2) Some t by (auto simp: currentPercentTarget_def split: if_splits)
  then show ?thesis using Scale_le [OF t m(1)] by simp
qed

lemma currentPercentTarget_total:
  assumes "sound (x_rm x) i"
  shows "currentPercentTarget x now i mx \<noteq> None"
proof (cases "inc_revision i")
  case None
  then show ?thesis by (simp add: currentPercentTarget_def)
next
  case (Some r)
  then obtain t where t: "target (x_rm x) i = Some t" "scalable (rt_Release t)"
    using assms by (auto simp: sound_def)
  then show ?thesis using Some Scale_total [OF t] by (auto simp: currentPercentTarget_def)
qed

text \<open>A canarying incarnation never gets more than its canary share.\<close>

lemma canary_share:
  assumes "sound (x_rm x) i" "state_of i = canarying" "target (x_rm x) i = Some t"
    "currentPercentTarget x now i mx = Some p"
  shows "p \<le> ca_Percent (rt_Canary t)"
proof -
  have "inc_revision i \<noteq> None" using assms(3) by (cases "inc_revision i") (simp_all add: target_def)
  then have "scalable (rt_Release t)" using assms(1,3) by (auto simp: sound_def)
  moreover have "Scale x i (if mx > ca_Percent (rt_Canary t) then ca_Percent (rt_Canary t) else mx) now = Some p"
    using assms(2-4) \<open>inc_revision i \<noteq> None\<close> by (simp add: currentPercentTarget_def)
  ultimately have "p \<le> (if mx > ca_Percent (rt_Canary t) then ca_Percent (rt_Canary t) else mx)"
    using Scale_le assms(3) by blast
  then show ?thesis by (auto split: if_splits)
qed

text \<open>A ramp is gated: without the replicas for the step, the percentage does not rise.\<close>

lemma CanRampTo_replicas:
  "CanRampTo x i p \<longleftrightarrow> (\<exists>c. computeFleetReplicasRequiredForRamp x i p = Some c \<and>
     rc_expectedReplicas c \<le> rsc_Current (rs_Scale (inc_status i)))"
  by (auto simp: CanRampTo_def split: option.splits)

lemma Scale_raise:
  assumes "target (x_rm x) i = Some t" "scalable (rt_Release t)" "Scale x i mx now = Some p"
    "currentPercent i < p"
  shows "CanRampTo x i p"
  using assms(1-3)
proof (rule Scale_strategy)
  fix sta assume "t_CanRampTo sta = CanRampTo x i" "t_CurrentPercent sta = currentPercent i"
    "LinearScale sta mx now = Some p \<or> GeometricScale sta mx now = Some p"
  then show ?thesis
    using linear.scale_raise [of sta mx now p] geometric.scale_raise [of sta mx now p] assms(4)
    by auto
qed

end
