(* ===== verification/Incarnation_Sync.thy ===== *)
theory Incarnation_Sync
  imports Ramp
begin

text \<open>
  What an incarnation does to the clusters, \<^verbatim>\<open>src/controllers/incarnation.go\<close> with the object lists of
  \<^verbatim>\<open>incarnation\_controller.go\<close>: the plans it builds and applies. An incarnation together with the
  clusters' state is a deployment of the state machine, and it keeps the deployment's contract.
\<close>

section \<open>Objects of the delivery cluster\<close>

text \<open>The copies keep name, labels and contents, and drop the namespace and the rest of the metadata.\<close>

definition getSecrets :: "'c Ctx \<Rightarrow> opaque \<Rightarrow> 'c \<Rightarrow> goerror + ConfigObject list" where
  "getSecrets x selector c =
     (case x_listSecrets x selector (om_Namespace (rm_Meta (x_rm x))) c of
        Inl err \<Rightarrow> Inl err
      | Inr items \<Rightarrow> Inr (map (\<lambda>item. item\<lparr>cfg_Namespace := []\<rparr>) items))"

definition getExternalSecrets :: "'c Ctx \<Rightarrow> opaque \<Rightarrow> 'c \<Rightarrow> goerror + ExternalSecret list" where
  "getExternalSecrets x selector c =
     (case x_listExternalSecrets x selector (om_Namespace (rm_Meta (x_rm x))) c of
        Inl err \<Rightarrow> Inl err
      | Inr items \<Rightarrow> Inr (map (\<lambda>item. item\<lparr>xs_Namespace := []\<rparr>) items))"

definition getConfigMaps :: "'c Ctx \<Rightarrow> opaque \<Rightarrow> 'c \<Rightarrow> goerror + ConfigObject list" where
  "getConfigMaps x selector c =
     (case x_listConfigMaps x selector (om_Namespace (rm_Meta (x_rm x))) c of
        Inl err \<Rightarrow> Inl err
      | Inr items \<Rightarrow> Inr (map (\<lambda>item. item\<lparr>cfg_Namespace := []\<rparr>) items))"

section \<open>The scale plan\<close>

text \<open>
  \<^verbatim>\<open>genScalePlan\<close> scales the CPU and memory targets through the pointers in the revision's target, so
  the incarnation's revision changes with the plan. The scale is worked out only when a target is set.
\<close>

fun upd_first :: "('a \<Rightarrow> bool) \<Rightarrow> ('a \<Rightarrow> 'a) \<Rightarrow> 'a list \<Rightarrow> 'a list" where
  "upd_first P f [] = []"
| "upd_first P f (y # ys) = (if P y then f y # ys else y # upd_first P f ys)"

definition upd_target :: "ReleaseManager \<Rightarrow> (RevisionTarget \<Rightarrow> RevisionTarget) \<Rightarrow> Incarnation \<Rightarrow>
    Incarnation" where
  "upd_target rm f i = i\<lparr>inc_revision := map_option (\<lambda>r. r\<lparr>rev_Spec := (rev_Spec r)\<lparr>rsp_Targets :=
     upd_first (\<lambda>t. rt_Name t = rmsp_Target (rm_Spec rm)) f (rsp_Targets (rev_Spec r))\<rparr>\<rparr>)
     (inc_revision i)\<rparr>"

definition set_utilization :: "int32 option \<Rightarrow> int32 option \<Rightarrow> RevisionTarget \<Rightarrow> RevisionTarget" where
  "set_utilization cpu mem t = t\<lparr>rt_Scale := (rt_Scale t)\<lparr>
     si_TargetCPUUtilizationPercentage := cpu, si_TargetMemoryUtilizationPercentage := mem\<rparr>\<rparr>"

text \<open>
  The minimum and maximum of the plan, from the divided minimum and maximum, the proactive minimum,
  and whether the target is a worker.
\<close>

definition scale_bounds :: "ScaleInfo \<Rightarrow> int32 \<Rightarrow> Incarnation \<Rightarrow> int32 \<Rightarrow> int32 \<Rightarrow> int32 \<Rightarrow> int32 \<times> int32" where
  "scale_bounds scale scaleMin i mn mx prm =
     (let mn = (if prm > mn then prm else mn);
          worker = (si_Worker scale \<noteq> None \<or> si_KedaWorker scale \<noteq> None)
      in if worker \<and> \<not> isRoutable i then (0, 0)
         else if rs_CurrentPercent (inc_status i) = 0 then (mx, mx)
         else if worker \<and> scaleMin = 0 then (0, mx)
         else (mn, mx))"

definition genScalePlan :: "'c Ctx \<Rightarrow> Incarnation \<Rightarrow> (ScaleRevision \<times> Incarnation) option" where
  "genScalePlan x i = do {
     t \<leftarrow> target (x_rm x) i;
     let requestsRateTarget = (case TargetRequestsRateQuantity (x_parseQuantity x) (rt_Scale t) of
         Inl err \<Rightarrow> None | Inr q \<Rightarrow> q);
     scale \<leftarrow> (if requestsRateTarget = None \<and> si_TargetCPUUtilizationPercentage (rt_Scale t) = None \<and>
                 si_TargetMemoryUtilizationPercentage (rt_Scale t) = None
               then Some None else targetScale x i);
     let requestsRateTarget = map_option
       (\<lambda>q. q\<lparr>q_MilliValue := scaled64 (q_MilliValue q) scale\<rparr>) requestsRateTarget;
     let cpuTarget = map_option (\<lambda>n. scaled32 n scale) (si_TargetCPUUtilizationPercentage (rt_Scale t));
     let memoryTarget =
       map_option (\<lambda>n. scaled32 n scale) (si_TargetMemoryUtilizationPercentage (rt_Scale t));
     let i = upd_target (x_rm x) (set_utilization cpuTarget memoryTarget) i;
     scaleMin \<leftarrow> si_Min (rt_Scale t);
     mn \<leftarrow> inc_divideReplicas x i scaleMin;
     mx \<leftarrow> inc_divideReplicas x i (si_Max (rt_Scale t));
     prm \<leftarrow> proactiveRampMinReplicas x i;
     let (mn, mx) = scale_bounds (rt_Scale t) scaleMin i mn mx prm;
     eventDriven \<leftarrow> isEventDriven i;
     Some (\<lparr>scr_Tag = inc_tag i, scr_Namespace = targetNamespace (x_rm x), scr_Min = mn, scr_Max = mx,
            scr_Labels = defaultLabels (x_rm x) i, scr_CPUTarget = cpuTarget,
            scr_MemoryTarget = memoryTarget, scr_RequestsRateMetric = si_RequestsRateMetric (rt_Scale t),
            scr_RequestsRateTarget = requestsRateTarget, scr_Worker = si_Worker (rt_Scale t),
            scr_KedaWorker = si_KedaWorker (rt_Scale t), scr_EventDriven = eventDriven,
            scr_ServiceAccountName = appName (x_rm x), scr_AmbientMesh = rt_AmbientMesh t,
            scr_PrometheusAddress = conf_ClusterPrometheusAddress (x_config x)\<rparr>, i)
   }"

section \<open>Syncing a revision\<close>

definition gen_syncPlan :: "'c Ctx \<Rightarrow> Incarnation \<Rightarrow> RevisionTarget \<Rightarrow> ConfigObject list \<Rightarrow>
    ExternalSecret list \<Rightarrow> SyncRevision option" where
  "gen_syncPlan x i t configs externalSecrets = do {
     replicas \<leftarrow> (if HasAutoscaler (rt_Scale t) then inc_divideReplicas x i (si_Default (rt_Scale t))
                  else Some (divideReplicasNoAutoscale x (si_Default (rt_Scale t))));
     image \<leftarrow> image_of i;
     karpenter \<leftarrow> karpenterDoNotDisrupt (x_rm x) i;
     eventDriven \<leftarrow> isEventDriven i;
     Some \<lparr>srv_App = appName (x_rm x), srv_Tag = inc_tag i, srv_Namespace = targetNamespace (x_rm x),
           srv_Labels = defaultLabels (x_rm x) i, srv_Configs = configs, srv_Ports = ports (x_rm x) i,
           srv_Replicas = (if \<not> isRoutable i then 0 else replicas), srv_Image = image,
           srv_Resources = rt_Resources t, srv_IAMRole = iam_RoleARN (aws_IAM (rt_AWS t)),
           srv_PodAnnotations = rt_PodAnnotations t, srv_KarpenterDoNotDisrupt = karpenter,
           srv_ServiceAccountName = rt_ServiceAccountName t, srv_LivenessProbe = rt_LivenessProbe t,
           srv_ReadinessProbe = rt_ReadinessProbe t,
           srv_MinReadySeconds = si_MinReadySeconds (rt_Scale t), srv_Worker = si_Worker (rt_Scale t),
           srv_KedaWorker = si_KedaWorker (rt_Scale t), srv_Lifecycle = rt_Lifecycle t,
           srv_PriorityClassName = rt_PriorityClassName t, srv_Affinity = rt_Affinity t,
           srv_Tolerations = rt_Tolerations t, srv_EnvVars = rt_Env t, srv_Sidecars = rt_Sidecars t,
           srv_VolumeMounts = rt_VolumeMounts t, srv_Volumes = rt_Volumes t,
           srv_PodDisruptionBudget = rt_PodDisruptionBudget t,
           srv_TopologySpreadConstraint = rt_TopologySpreadConstraint t,
           srv_ExternalSecrets = externalSecrets, srv_SchedulerName = rt_SchedulerName t,
           srv_EventDriven = eventDriven\<rparr>
   }"

type_synonym 'c inc_call = "Incarnation \<times> 'c \<Rightarrow> (goerror option \<times> Incarnation \<times> 'c) option"

definition sync :: "'c Ctx \<Rightarrow> 'c inc_call" where
  "sync x ic = (let (i, c) = ic in
     if \<not> hasRevision i then Some (None, i, c)
     else (case target (x_rm x) i of
       None \<Rightarrow> Some (None, i, c)
     | Some t \<Rightarrow>
       (case x_selector x (rt_ConfigSelector t) of
         Inl err \<Rightarrow> Some (Some err, i, c)
       | Inr selector \<Rightarrow>
         (case getSecrets x selector c of
           Inl err \<Rightarrow> Some (Some err, i, c)
         | Inr secrets \<Rightarrow>
           (case getExternalSecrets x selector c of
             Inl err \<Rightarrow> Some (Some err, i, c)
           | Inr externalSecrets \<Rightarrow>
             (case getConfigMaps x selector c of
               Inl err \<Rightarrow> Some (Some err, i, c)
             | Inr configMaps \<Rightarrow> do {
                 syncPlan \<leftarrow> gen_syncPlan x i t (secrets @ configMaps) externalSecrets;
                 (scalePlan, i) \<leftarrow> genScalePlan x i;
                 let (err, c) = x_apply x (All [PlanSyncRevision syncPlan, PlanScaleRevision scalePlan]) c;
                 Some (err, i, c)
               }))))))"

section \<open>The other calls\<close>

definition applyPlan :: "'c Ctx \<Rightarrow> Plan \<Rightarrow> 'c inc_call" where
  "applyPlan x p ic = (let (i, c) = ic; (err, c) = x_apply x p c in Some (err, i, c))"

definition inc_syncCanaryRules :: "'c Ctx \<Rightarrow> 'c inc_call" where
  "inc_syncCanaryRules x ic = do {
     t \<leftarrow> target (x_rm x) (fst ic);
     applyPlan x (PlanSyncCanaryRules
       \<lparr>scn_App = appName (x_rm x), scn_Namespace = targetNamespace (x_rm x), scn_Tag = inc_tag (fst ic),
        scn_Labels = defaultLabels (x_rm x) (fst ic),
        scn_ServiceLevelObjectiveLabels = rt_ServiceLevelObjectiveLabels t,
        scn_ServiceLevelObjectives = rt_SlothServiceLevelObjectives t\<rparr>) ic
   }"

definition inc_deleteCanaryRules :: "'c Ctx \<Rightarrow> 'c inc_call" where
  "inc_deleteCanaryRules x ic = applyPlan x (PlanDeleteCanaryRules
     \<lparr>dcr_App = appName (x_rm x), dcr_Namespace = targetNamespace (x_rm x),
      dcr_Tag = inc_tag (fst ic)\<rparr>) ic"

definition inc_deleteTaggedServiceLevels :: "'c Ctx \<Rightarrow> 'c inc_call" where
  "inc_deleteTaggedServiceLevels x ic =
     (if conf_ServiceLevelsNamespace (x_config x) \<noteq> [] then
        applyPlan x (PlanDeleteTaggedServiceLevels
          \<lparr>dts_App = appName (x_rm x), dts_Target = targetName (x_rm x),
           dts_Namespace = conf_ServiceLevelsNamespace (x_config x), dts_Tag = inc_tag (fst ic)\<rparr>) ic
      else Some (None, ic))"

definition retire :: "'c Ctx \<Rightarrow> 'c inc_call" where
  "retire x ic = applyPlan x (PlanRetireRevision
     \<lparr>rrv_Tag = inc_tag (fst ic), rrv_Namespace = targetNamespace (x_rm x)\<rparr>) ic"

definition del :: "'c Ctx \<Rightarrow> 'c inc_call" where
  "del x ic = applyPlan x (PlanDeleteRevision
     \<lparr>drv_Labels = defaultLabels (x_rm x) (fst ic), drv_Namespace = targetNamespace (x_rm x)\<rparr>) ic"

section \<open>The deployment\<close>

definition inc_deployment :: "'c Ctx \<Rightarrow> time \<Rightarrow> (Incarnation \<times> 'c) Deployment" where
  "inc_deployment x now =
     \<lparr>d_sync = sync x, d_retire = retire x, d_del = del x,
      d_syncCanaryRules = inc_syncCanaryRules x, d_deleteCanaryRules = inc_deleteCanaryRules x,
      d_deleteTaggedServiceLevels = inc_deleteTaggedServiceLevels x,
      d_hasRevision = \<lambda>ic. hasRevision (fst ic),
      d_schedulePermitsRelease = \<lambda>ic. schedulePermitsRelease x now (fst ic),
      d_markedAsFailed = \<lambda>ic. markedAsFailed (fst ic),
      d_isReleaseEligible = \<lambda>ic. isReleaseEligible (fst ic),
      d_getStatus = \<lambda>ic. inc_status (fst ic),
      d_setState = \<lambda>s ic. (setState now s (fst ic), snd ic),
      d_isDeployed = \<lambda>ic. isDeployed (fst ic),
      d_getExternalTestStatus = \<lambda>ic. getExternalTestStatus (x_rm x) (fst ic),
      d_currentPercent = \<lambda>ic. currentPercent (fst ic),
      d_peakPercent = \<lambda>ic. peakPercent (fst ic),
      d_isCanaryPending = \<lambda>ic. isCanaryPending (x_rm x) now (fst ic),
      d_isTimingOut = \<lambda>ic. isTimingOut (x_rm x) now (fst ic),
      d_isExpired = \<lambda>ic. isExpired now (fst ic)\<rparr>"

text \<open>One tick of the state manager on an incarnation, with the time of its last change of state.\<close>

definition inc_tick :: "'c Ctx \<Rightarrow> time \<Rightarrow> 'c inc_call" where
  "inc_tick x now ic =
     tick (inc_deployment x now) now (st_LastUpdated (rs_State (inc_status (fst ic)))) ic"

section \<open>Facts\<close>

text \<open>The scale plan changes nothing of the incarnation but the two utilization targets.\<close>

lemma find_upd_first:
  "(\<And>y. P (f y) = P y) \<Longrightarrow> find P (upd_first P f ys) = map_option f (find P ys)"
  by (induction ys) auto

lemma target_upd_target:
  assumes "\<And>t. rt_Name (f t) = rt_Name t"
  shows "target rm (upd_target rm f i) = map_option f (target rm i)"
  using assms by (cases "inc_revision i") (simp_all add: target_def upd_target_def find_upd_first)

lemma upd_target_simps [simp]:
  "inc_status (upd_target rm f i) = inc_status i" "inc_tag (upd_target rm f i) = inc_tag i"
  "inc_deployed (upd_target rm f i) = inc_deployed i"
  "inc_isRamping (upd_target rm f i) = inc_isRamping i"
  "hasRevision (upd_target rm f i) = hasRevision i"
  "markedAsFailed (upd_target rm f i) = markedAsFailed i"
  by (cases "inc_revision i"; simp add: upd_target_def hasRevision_def markedAsFailed_def)+

lemma target_set_utilization:
  "target rm (upd_target rm (set_utilization cpu mem) i) =
     map_option (set_utilization cpu mem) (target rm i)"
  by (rule target_upd_target) (simp add: set_utilization_def)

lemma test_set_utilization [simp]:
  "getExternalTestStatus rm (upd_target rm (set_utilization cpu mem) i) = getExternalTestStatus rm i"
  by (simp add: getExternalTestStatus_def target_set_utilization TargetExternalTestStatus_def
      set_utilization_def split: option.split)

lemma genScalePlan_inc:
  "genScalePlan x i = Some (p, i') \<Longrightarrow>
   \<exists>cpu mem. i' = upd_target (x_rm x) (set_utilization cpu mem) i"
  by (auto simp: genScalePlan_def Let_def split: Option.bind_splits prod.splits)

lemma sync_cases:
  assumes "sync x (i, c) = Some (err, i', c')"
  obtains "i' = i" "c' = c"
    | p q where "genScalePlan x i = Some (p, i')"
        "x_apply x (All [PlanSyncRevision q, PlanScaleRevision p]) c = (err, c')"
  using assms
  by (auto simp: sync_def Let_def split: if_splits option.splits sum.splits Option.bind_splits prod.splits)

lemma applyPlan_inc: "applyPlan x p ic = Some (err, ic') \<Longrightarrow> fst ic' = fst ic"
  by (auto simp: applyPlan_def split: prod.splits)

lemma observed_inc:
  "observed (inc_deployment x now) ic =
     (hasRevision (fst ic), markedAsFailed (fst ic), isReleaseEligible (fst ic),
      currentPercent (fst ic), peakPercent (fst ic), getExternalTestStatus (x_rm x) (fst ic))"
  by (simp add: observed_def inc_deployment_def)

lemma current_inc: "current (inc_deployment x now) ic = state_of (fst ic)"
  by (simp add: current_def inc_deployment_def state_of_def)

lemma status_defs:
  "inc_status i = inc_status i' \<Longrightarrow> state_of i = state_of i' \<and> currentPercent i = currentPercent i' \<and>
   peakPercent i = peakPercent i' \<and> isReleaseEligible i = isReleaseEligible i'"
  by (simp add: state_of_def currentPercent_def peakPercent_def isReleaseEligible_def)

lemma frames_same_inc:
  "(\<And>ic err ic'. f ic = Some (err, ic') \<Longrightarrow> fst ic' = fst ic) \<Longrightarrow> frames (inc_deployment x now) f"
  by (auto simp: frames_def observed_inc current_inc)

lemma sync_frame: "frames (inc_deployment x now) (sync x)"
proof -
  have "observed (inc_deployment x now) (i', c') = observed (inc_deployment x now) (i, c) \<and>
      current (inc_deployment x now) (i', c') = current (inc_deployment x now) (i, c)"
    if "sync x (i, c) = Some (err, i', c')" for i c err i' c'
    using that
  proof (cases rule: sync_cases)
    case (2 p q)
    then obtain cpu mem where i': "i' = upd_target (x_rm x) (set_utilization cpu mem) i"
      using genScalePlan_inc by blast
    then show ?thesis using status_defs [of i' i] by (simp add: observed_inc current_inc)
  qed simp
  then show ?thesis by (auto simp: frames_def)
qed

lemma applyPlan_frame:
  "frames (inc_deployment x now) (retire x)" "frames (inc_deployment x now) (del x)"
  "frames (inc_deployment x now) (inc_syncCanaryRules x)"
  "frames (inc_deployment x now) (inc_deleteCanaryRules x)"
  "frames (inc_deployment x now) (inc_deleteTaggedServiceLevels x)"
  by (rule frames_same_inc; auto simp: retire_def del_def inc_syncCanaryRules_def
      inc_deleteCanaryRules_def inc_deleteTaggedServiceLevels_def
      dest: applyPlan_inc split: Option.bind_splits if_splits)+

lemma inc_calls:
  "d_sync (inc_deployment x now) = sync x" "d_retire (inc_deployment x now) = retire x"
  "d_del (inc_deployment x now) = del x"
  "d_syncCanaryRules (inc_deployment x now) = inc_syncCanaryRules x"
  "d_deleteCanaryRules (inc_deployment x now) = inc_deleteCanaryRules x"
  "d_deleteTaggedServiceLevels (inc_deployment x now) = inc_deleteTaggedServiceLevels x"
  "d_setState (inc_deployment x now) s ic = (setState now s (fst ic), snd ic)"
  by (simp_all add: inc_deployment_def)

text \<open>An incarnation with the clusters keeps the contract of the state machine.\<close>

interpretation inc: deployment_contract "inc_deployment x now" for x now
proof (unfold_locales, goal_cases)
  case (1 s ic)
  then show ?case by (simp add: current_inc inc_calls state_of_def)
next
  case (2 s ic)
  then show ?case
    by (simp add: observed_inc inc_calls hasRevision_def markedAsFailed_def isReleaseEligible_def
        currentPercent_def peakPercent_def getExternalTestStatus_def)
qed (simp_all only: inc_calls sync_frame applyPlan_frame)


section \<open>Runs of an incarnation\<close>

text \<open>Ticks in a row, one per reconciliation.\<close>

fun inc_ticks :: "'c Ctx \<Rightarrow> time list \<Rightarrow> Incarnation \<times> 'c \<Rightarrow> (Incarnation \<times> 'c) option" where
  "inc_ticks x [] ic = Some ic"
| "inc_ticks x (now # ts) ic = do { (err, ic) \<leftarrow> inc_tick x now ic; inc_ticks x ts ic }"

text \<open>
  Histories of an incarnation whose external test is not over when it is ticked: the context of the
  controller may be another one at every tick, and between the ticks anything but the state may change.
\<close>

inductive untested_history :: "Incarnation \<times> 'c \<Rightarrow> Incarnation \<times> 'c \<Rightarrow> bool" where
  start: "untested_history ic ic"
| ticked: "untested_history ic ic1 \<Longrightarrow>
    getExternalTestStatus (x_rm x) (fst ic1) \<in> {ExternalTestPending, ExternalTestStarted} \<Longrightarrow>
    inc_tick x now ic1 = Some (err, ic2) \<Longrightarrow> untested_history ic ic2"
| changed: "untested_history ic ic1 \<Longrightarrow> state_of (fst ic2) = state_of (fst ic1) \<Longrightarrow> untested_history ic ic2"

lemma untested_history_not_live:
  "untested_history ic ic' \<Longrightarrow> state_of (fst ic) \<notin> live_states \<Longrightarrow> state_of (fst ic') \<notin> live_states"
proof (induction rule: untested_history.induct)
  case (ticked ic ic1 x now err ic2)
  have "getExternalTestStatus (x_rm x) (fst ic1) = d_getExternalTestStatus (inc_deployment x now) ic1"
    by (simp add: inc_deployment_def)
  then show ?case
    using inc.untested_tick [of x now now _ ic1 err ic2] ticked by (simp add: inc_tick_def current_inc)
qed simp_all

text \<open>When every plan can be applied, so can those that delete.\<close>

lemma applyPlan_ok: "\<forall>p c. fst (x_apply x p c) = None \<Longrightarrow> \<exists>ic'. applyPlan x p ic = Some (None, ic')"
  by (simp add: applyPlan_def split: prod.split) (metis fst_conv)

lemma inc_deletions_succeed:
  assumes "\<forall>p c. fst (x_apply x p c) = None"
  shows "deletions_succeed (inc_deployment x now)"
  using applyPlan_ok [OF assms]
  by (auto simp: deletions_succeed_def inc_calls del_def inc_deleteCanaryRules_def
      inc_deleteTaggedServiceLevels_def simp del: split_paired_Ex)

lemma gone_tick:
  assumes "\<forall>p c. fst (x_apply x p c) = None" "\<not> hasRevision (fst ic)" "currentPercent (fst ic) = 0"
    "state_of (fst ic) \<in> set AllStates"
  shows "\<exists>ic'. inc_tick x now ic = Some (None, ic') \<and>
    state_of (fst ic') = (if state_of (fst ic) \<in> {deleting, deleted} then deleted else deleting) \<and>
    \<not> hasRevision (fst ic') \<and> currentPercent (fst ic') = 0"
proof -
  have "\<not> d_hasRevision (inc_deployment x now) ic" "d_currentPercent (inc_deployment x now) ic = 0"
    "current (inc_deployment x now) ic \<in> set AllStates"
    using assms(2-4) by (simp_all only: current_inc) (simp_all add: inc_deployment_def)
  from inc.tick_gone [OF inc_deletions_succeed [OF assms(1)] this]
  obtain ic' where t: "inc_tick x now ic = Some (None, ic')"
    "state_of (fst ic') = (if state_of (fst ic) \<in> {deleting, deleted} then deleted else deleting)"
    "observed (inc_deployment x now) ic' = observed (inc_deployment x now) ic"
    unfolding inc_tick_def current_inc by blast
  moreover have "\<not> hasRevision (fst ic')" "currentPercent (fst ic') = 0"
    using t(3) assms(2,3) by (simp_all add: observed_inc)
  ultimately show ?thesis by blast
qed

lemma gone_deleted:
  assumes "\<forall>p c. fst (x_apply x p c) = None" "\<not> hasRevision (fst ic)" "currentPercent (fst ic) = 0"
    "state_of (fst ic) \<in> set AllStates"
  shows "\<exists>ic'. inc_ticks x [t1, t2] ic = Some ic' \<and> state_of (fst ic') = deleted"
proof -
  obtain ic1 where 1: "inc_tick x t1 ic = Some (None, ic1)"
    "state_of (fst ic1) = (if state_of (fst ic) \<in> {deleting, deleted} then deleted else deleting)"
    "\<not> hasRevision (fst ic1)" "currentPercent (fst ic1) = 0"
    using gone_tick [OF assms] by blast
  have "state_of (fst ic1) \<in> set AllStates" using 1(2) by (simp add: AllStates_def state_names_def)
  from gone_tick [OF assms(1) 1(3,4) this]
  obtain ic2 where "inc_tick x t2 ic1 = Some (None, ic2)" "state_of (fst ic2) = deleted"
    using 1(2) by (metis insertI1 insertI2)
  with 1(1) show ?thesis by simp
qed

end
