(* ===== verification/Garbage.thy ===== *)
theory Garbage
  imports Api_Types "HOL-Library.Sublist"
begin

text \<open>
  Garbage collection of revisions, \<^verbatim>\<open>src/controllers/garbagecollector\<close>: which revisions may be deleted.
  The interface \<^verbatim>\<open>Revision\<close> is a record of its three methods over a type \<open>'r\<close>; the interpretation on
  incarnations is in the theory of the incarnation collection.
\<close>

record 'r RevisionI =
  g_State :: "'r \<Rightarrow> State"
  g_TTL :: "'r \<Rightarrow> duration"
  g_CreatedOn :: "'r \<Rightarrow> time"

definition MinimumRetired :: nat where "MinimumRetired = 3"

text \<open>The constant is declared with \<^verbatim>\<open>iota\<close> on the second line of its block: it is 1.\<close>

definition DefaultStrategy :: int where "DefaultStrategy = 1"

definition created_after :: "'r RevisionI \<Rightarrow> 'r \<Rightarrow> 'r \<Rightarrow> bool" where
  "created_after I x y \<longleftrightarrow> g_CreatedOn I x > g_CreatedOn I y"

definition sortRevisions :: "'r RevisionI \<Rightarrow> 'r list \<Rightarrow> 'r list" where
  "sortRevisions I revisions = sort_Slice (created_after I) revisions"

text \<open>
  The loop of \<^verbatim>\<open>defaultStrategy\<close>: the remaining budget of retired revisions, and the revisions to delete.
\<close>

definition deletable_state :: "State \<Rightarrow> bool" where
  "deletable_state s \<longleftrightarrow> s = retired \<or> s = deleting \<or> s = deleted \<or> s = failed"

definition expired :: "'r RevisionI \<Rightarrow> time \<Rightarrow> 'r \<Rightarrow> bool" where
  "expired I now r \<longleftrightarrow> now > g_CreatedOn I r + g_TTL I r"

fun select_garbage :: "'r RevisionI \<Rightarrow> time \<Rightarrow> nat \<Rightarrow> 'r list \<Rightarrow> 'r list" where
  "select_garbage I now budget [] = []"
| "select_garbage I now budget (r # rs) =
     (if g_State I r = retired \<and> budget > 0 then select_garbage I now (budget - 1) rs
      else if expired I now r \<and> deletable_state (g_State I r)
        then r # select_garbage I now budget rs
        else select_garbage I now budget rs)"

text \<open>
  \<^verbatim>\<open>toDelete[:len(toDelete)-1]\<close> panics when there is nothing to slice, that is on an empty input.
\<close>

definition defaultStrategy :: "'r RevisionI \<Rightarrow> time \<Rightarrow> 'r list \<Rightarrow> 'r list option" where
  "defaultStrategy I now revisions =
     (let toDelete = select_garbage I now MinimumRetired (sortRevisions I revisions) in
      if length revisions = length toDelete
      then (if toDelete = [] then None else Some (butlast toDelete))
      else Some toDelete)"

definition FindGarbage :: "'r RevisionI \<Rightarrow> time \<Rightarrow> int \<Rightarrow> 'r list \<Rightarrow> (goerror + 'r list) option" where
  "FindGarbage I now strategy revisions =
     (if strategy = DefaultStrategy
      then map_option Inr (defaultStrategy I now revisions)
      else Some (Inl (Errorf ''Strategy not implemented'')))"

section \<open>Facts\<close>

lemma created_after_order: "strict_weak_order (created_after I)"
  unfolding created_after_def by (rule strict_weak_order_key_rev)

interpretation gc_order: strict_weak_order "created_after I" for I
  by (rule created_after_order)

lemma select_garbage_set:
  "r \<in> set (select_garbage I now b rs) \<Longrightarrow>
   r \<in> set rs \<and> expired I now r \<and> deletable_state (g_State I r)"
  by (induction rs arbitrary: b) (auto split: if_splits)

lemma select_garbage_length: "length (select_garbage I now b rs) \<le> length rs"
  by (induction rs arbitrary: b) (auto intro: le_SucI)

text \<open>
  The first \<open>b\<close> retired revisions survive: those selected are among the retired ones after them.
\<close>

lemma subseq_select_garbage: "subseq (select_garbage I now b rs) rs"
  by (induction rs arbitrary: b) auto

lemma select_garbage_retired:
  "subseq (filter (\<lambda>r. g_State I r = retired) (select_garbage I now b rs))
          (drop b (filter (\<lambda>r. g_State I r = retired) rs))"
proof (induction rs arbitrary: b)
  case (Cons r rs)
  show ?case
  proof (cases b)
    case 0
    then show ?thesis using Cons.IH [of 0] by auto
  next
    case (Suc n)
    then show ?thesis using Cons.IH [of n] Cons.IH [of b] by auto
  qed
qed simp

lemma select_garbage_complete:
  "r \<in> set rs \<Longrightarrow> g_State I r \<noteq> retired \<Longrightarrow> expired I now r \<Longrightarrow> deletable_state (g_State I r) \<Longrightarrow>
   r \<in> set (select_garbage I now b rs)"
  by (induction rs arbitrary: b) auto

lemma defaultStrategy_cases:
  assumes "defaultStrategy I now revisions = Some out"
  obtains sel where "sel = select_garbage I now MinimumRetired (sortRevisions I revisions)"
    "length revisions = length sel \<Longrightarrow> sel \<noteq> [] \<and> out = butlast sel"
    "length revisions \<noteq> length sel \<Longrightarrow> out = sel"
  using assms by (auto simp: defaultStrategy_def Let_def split: if_splits)

lemma subseq_butlast: "subseq (butlast xs) xs"
  by (metis append_butlast_last_id butlast.simps(1) subseq_order.order_refl subseq_rev_drop_many)

lemma defaultStrategy_subseq:
  assumes "defaultStrategy I now revisions = Some out"
  shows "subseq out (select_garbage I now MinimumRetired (sortRevisions I revisions))"
  using assms by (rule defaultStrategy_cases) (metis subseq_butlast subseq_order.order_refl)

lemma defaultStrategy_None: "defaultStrategy I now revisions = None \<longleftrightarrow> revisions = []"
  by (auto simp: defaultStrategy_def Let_def sortRevisions_def)

lemma defaultStrategy_less:
  assumes "defaultStrategy I now revisions = Some out"
  shows "length out < length revisions"
proof -
  have "length (select_garbage I now MinimumRetired (sortRevisions I revisions)) \<le> length revisions"
    by (metis select_garbage_length sortRevisions_def length_sort_Slice)
  with assms show ?thesis
    by (auto simp: defaultStrategy_def Let_def split: if_splits)
qed

text \<open>No selected retired revision is among the three newest retired ones.\<close>

lemma defaultStrategy_keeps:
  assumes "defaultStrategy I now revisions = Some out"
  shows "subseq (filter (\<lambda>r. g_State I r = retired) out)
    (drop MinimumRetired (filter (\<lambda>r. g_State I r = retired) (sortRevisions I revisions)))"
  using subseq_filter [OF defaultStrategy_subseq [OF assms]] select_garbage_retired
  by (rule subseq_order.order_trans)

end
