(* ===== verification/Collection.thy ===== *)
theory Collection
  imports Incarnation_Sync Garbage
begin

text \<open>
  The incarnation collection of \<^verbatim>\<open>src/controllers/incarnation.go\<close> and the marking of garbage in
  \<^verbatim>\<open>src/controllers/garbagecollector.go\<close>. The map \<^verbatim>\<open>itemSet\<close> of pointers is an association list from
  tags to incarnations: a tag is the pointer, and changing an incarnation is updating its entry. The
  order of the list is the order Go iterates the map in.
\<close>

type_synonym Collection = "(string \<times> Incarnation) list"

section \<open>Selections\<close>

text \<open>
  The comparison of \<^verbatim>\<open>sorted\<close>: the newest git time stamp first, and among equal ones the newest
  revision.
\<close>

definition newer :: "Incarnation \<Rightarrow> Incarnation \<Rightarrow> bool" where
  "newer x y = (
     let a = (case inc_revision x of None \<Rightarrow> zero_time | Some r \<Rightarrow> GitTimestamp r);
         b = (case inc_revision y of None \<Rightarrow> zero_time | Some r \<Rightarrow> GitTimestamp r);
         (a, b) = (if a = b
           then (case inc_revision x of None \<Rightarrow> a | Some r \<Rightarrow> om_CreationTimestamp (rev_Meta r),
                 case inc_revision y of None \<Rightarrow> b | Some r \<Rightarrow> om_CreationTimestamp (rev_Meta r))
           else (a, b))
     in a > b)"

definition sorted_incs :: "Collection \<Rightarrow> Incarnation list" where
  "sorted_incs ic = sort_Slice newer (map snd ic)"

definition deployed_incs :: "Collection \<Rightarrow> Incarnation list" where
  "deployed_incs ic = filter (\<lambda>i. state_of i \<in> {deployed, pendingtest, testing, tested, pendingrelease,
     releasing, released, canarying, canaried}) (sorted_incs ic)"

definition willRelease :: "Collection \<Rightarrow> Incarnation list" where
  "willRelease ic = filter (\<lambda>i. state_of i \<in> {deploying, deployed, OtherState ''precanary'', canarying,
     canaried, pendingrelease} \<and> isReleaseEligible i) (sorted_incs ic)"

definition releasable :: "Collection \<Rightarrow> Incarnation list" where
  "releasable ic =
     filter (\<lambda>i. state_of i = canarying) (sorted_incs ic) @
     filter (\<lambda>i. state_of i \<in> {releasing, released}) (sorted_incs ic) @
     filter (\<lambda>i. currentPercent i > 0 \<and> state_of i \<in> {retiring, deleting, failing}) (sorted_incs ic)"

definition unreleasable :: "Collection \<Rightarrow> Incarnation list" where
  "unreleasable ic = (let releasableTags = map inc_tag (releasable ic) in
     filter (\<lambda>i. inc_tag i \<notin> set releasableTags) (sorted_incs ic))"

definition revisioned :: "Collection \<Rightarrow> Incarnation list" where
  "revisioned ic = filter (\<lambda>i. inc_revision i \<noteq> None) (sorted_incs ic)"

definition alertable :: "Collection \<Rightarrow> Incarnation list" where
  "alertable ic =
     filter (\<lambda>i. state_of i \<in> {canarying, canaried, pendingrelease}) (revisioned ic) @
     filter (\<lambda>i. state_of i \<in> {releasing, released}) (revisioned ic)"

definition unretirable :: "ReleaseManager \<Rightarrow> Collection \<Rightarrow> Incarnation list" where
  "unretirable rm ic = filter (\<lambda>i.
     let cur = state_of i;
         elig = (case target rm i of None \<Rightarrow> False | Some t \<Rightarrow> ri_Eligible (rt_Release t));
         triggered = markedAsFailed i
     in cur = retired \<or> ((cur = released \<or> cur = releasing) \<and> \<not> elig \<and> \<not> triggered))
     (sorted_incs ic)"

section \<open>Construction and update\<close>

definition live_info :: "Observation \<Rightarrow> string \<Rightarrow> DeploymentInfo option" where
  "live_info observation tag = map_option dis_Live (InfoForTag observation tag)"

definition add :: "ClusterInfoList \<Rightarrow> time \<Rightarrow> Observation \<Rightarrow> string \<Rightarrow> Revision option \<Rightarrow>
    Collection \<times> ReleaseManager \<Rightarrow> Collection \<times> ReleaseManager" where
  "add clusterInfo now observation tag revision acc = (let (ic, rm) = acc in
     if revision = None \<and> map_of ic tag \<noteq> None then (ic, rm)
     else let (i, rm) = NewIncarnation clusterInfo now rm tag revision (live_info observation tag)
          in (AList.update tag i ic, rm))"

definition modify :: "string \<Rightarrow> (Incarnation \<Rightarrow> Incarnation) \<Rightarrow> Collection \<Rightarrow> Collection" where
  "modify tag f ic = map (\<lambda>(t, i). (t, if t = tag then f i else i)) ic"

definition mark_ramping :: "Collection \<Rightarrow> Collection" where
  "mark_ramping ic =
     (case find (\<lambda>i. state_of i \<noteq> canaried \<and> state_of i \<noteq> canarying) (releasable ic) of
        None \<Rightarrow> ic
      | Some i \<Rightarrow> modify (inc_tag i) (\<lambda>i. i\<lparr>inc_isRamping := True\<rparr>) ic)"

definition newIncarnationCollection :: "ClusterInfoList \<Rightarrow> time \<Rightarrow> ReleaseManager \<Rightarrow> Revision list \<Rightarrow>
    Observation \<Rightarrow> Collection \<times> ReleaseManager" where
  "newIncarnationCollection clusterInfo now rm revisionList observation = (let
     (ic, rm) = fold (\<lambda>r. add clusterInfo now observation (ra_Tag (rsp_App (rev_Spec r))) (Some r))
       revisionList ([], rm);
     (ic, rm) = fold (\<lambda>s. add clusterInfo now observation (rs_Tag s) None)
       (rmst_Revisions (rm_Status rm)) (ic, rm)
     in (mark_ramping ic, rm))"

definition collection_update :: "ClusterInfoList \<Rightarrow> time \<Rightarrow> Observation \<Rightarrow> Collection \<Rightarrow> Collection" where
  "collection_update clusterInfo now observation ic =
     map (\<lambda>(t, i). (t, inc_update clusterInfo now (live_info observation (inc_tag i)) i)) ic"

section \<open>Garbage\<close>

definition incarnation_gc :: "Incarnation RevisionI" where
  "incarnation_gc = \<lparr>g_State = state_of, g_TTL = TTL, g_CreatedOn = CreatedOn\<rparr>"

text \<open>
  \<^verbatim>\<open>markDeletable\<close>: the log line before the change reads the first target of the fresh revision, and
  the write to its labels panics when it has none.
\<close>

definition markDeletable :: "'c Ctx \<Rightarrow> Incarnation \<Rightarrow> 'c \<Rightarrow> (goerror option \<times> 'c) option" where
  "markDeletable x i c = (case inc_revision i of
     None \<Rightarrow> Some (None, c)
   | Some r \<Rightarrow>
       let ns = om_Namespace (rev_Meta r); name = om_Name (rev_Meta r) in
       if ns = [] \<and> name = [] then Some (Some (Errorf ''Empty NamespacedName''), c)
       else (case x_getRevision x ns name c of
           Inl err \<Rightarrow> Some (if err = NotFound then None else Some err, c)
         | Inr revision \<Rightarrow>
             let label = LabelTargetDeletablePrefix @ targetName (x_rm x) in
             if mget (om_Labels (rev_Meta revision)) label \<noteq> ''true'' then
               (if rsp_Targets (rev_Spec revision) = [] then None
                else do {
                  labels \<leftarrow> mwrite (om_Labels (rev_Meta revision)) label ''true'';
                  let revision = revision\<lparr>rev_Meta := (rev_Meta revision)\<lparr>om_Labels := labels\<rparr>\<rparr>;
                  let (err, c) = x_updateRevision x revision c;
                  Some (None, c)
                })
             else Some (None, c)))"

fun mark_all :: "'c Ctx \<Rightarrow> Incarnation list \<Rightarrow> 'c \<Rightarrow> (goerror option \<times> 'c) option" where
  "mark_all x [] c = Some (None, c)"
| "mark_all x (i # is) c = do {
     (err, c) \<leftarrow> markDeletable x i c;
     (case err of Some e \<Rightarrow> Some (Some e, c) | None \<Rightarrow> mark_all x is c)
   }"

definition markGarbage :: "'c Ctx \<Rightarrow> time \<Rightarrow> Incarnation list \<Rightarrow> 'c \<Rightarrow> (goerror option \<times> 'c) option" where
  "markGarbage x now incarnations c = do {
     r \<leftarrow> FindGarbage incarnation_gc now DefaultStrategy incarnations;
     (case r of Inl err \<Rightarrow> Some (Some err, c) | Inr toDelete \<Rightarrow> mark_all x toDelete c)
   }"

section \<open>Facts\<close>

text \<open>Newest first is a strict weak order: the lexicographic order of the two time stamps.\<close>

definition age_key :: "Incarnation \<Rightarrow> time \<times> time" where
  "age_key i = (CreatedOn i,
     case inc_revision i of None \<Rightarrow> zero_time | Some r \<Rightarrow> om_CreationTimestamp (rev_Meta r))"

lemma newer_key:
  "newer x y \<longleftrightarrow> fst (age_key x) > fst (age_key y) \<or>
     fst (age_key x) = fst (age_key y) \<and> snd (age_key x) > snd (age_key y)"
  by (auto simp: newer_def age_key_def CreatedOn_def Let_def split: option.splits)

interpretation newer: strict_weak_order newer
  by unfold_locales (auto simp: newer_key)

lemma set_sorted_incs [simp]: "set (sorted_incs ic) = snd ` set ic"
  by (simp add: sorted_incs_def)

lemma mset_sorted_incs [simp]: "mset (sorted_incs ic) = mset (map snd ic)"
  by (simp add: sorted_incs_def)

lemma sorted_incs_Nil [simp]: "sorted_incs ic = [] \<longleftrightarrow> ic = []"
  by (simp add: sorted_incs_def)

text \<open>Every selection lists its incarnations newest first.\<close>

abbreviation newest_first :: "Incarnation list \<Rightarrow> bool" where
  "newest_first \<equiv> sorted_wrt (\<lambda>x y. \<not> newer y x)"

lemma sorted_incs_order: "newest_first (sorted_incs ic)"
  unfolding sorted_incs_def by (rule newer.sort_Slice_sorted)

lemma sorted_wrt_filter': "sorted_wrt R xs \<Longrightarrow> sorted_wrt R (filter P xs)"
  by (rule sorted_wrt_filter)

text \<open>A collection is well formed when a tag points to one incarnation, which has it.\<close>

definition wf_collection :: "Collection \<Rightarrow> bool" where
  "wf_collection ic \<longleftrightarrow> distinct (map fst ic) \<and> (\<forall>(t, i) \<in> set ic. inc_tag i = t)"

lemma wf_tags: "wf_collection ic \<Longrightarrow> map inc_tag (map snd ic) = map fst ic"
  by (induction ic) (auto simp: wf_collection_def)

lemma wf_distinct: "wf_collection ic \<Longrightarrow> distinct (map inc_tag (sorted_incs ic))"
  unfolding sorted_incs_def distinct_map_sort_Slice
  by (simp only: wf_tags) (simp add: wf_collection_def)

lemma wf_distinct_incs: "wf_collection ic \<Longrightarrow> distinct (sorted_incs ic)"
  using wf_distinct [of ic] by (simp only: distinct_map)

lemma wf_mem: "wf_collection ic \<Longrightarrow> i \<in> snd ` set ic \<longleftrightarrow> map_of ic (inc_tag i) = Some i"
  by (force simp: wf_collection_def)

lemma wf_eq_tag:
  "wf_collection ic \<Longrightarrow> i \<in> snd ` set ic \<Longrightarrow> j \<in> snd ` set ic \<Longrightarrow> inc_tag i = inc_tag j \<Longrightarrow> i = j"
  by (simp add: wf_mem)

text \<open>The incarnations that get traffic are those canarying, releasing or released, or drained.\<close>

definition takes_traffic :: "Incarnation \<Rightarrow> bool" where
  "takes_traffic i \<longleftrightarrow> state_of i \<in> {canarying, releasing, released} \<or>
     currentPercent i > 0 \<and> state_of i \<in> {retiring, deleting, failing}"

lemma mset_filter3:
  assumes "\<And>x. \<not> (P x \<and> Q x)" "\<And>x. \<not> (P x \<and> R x)" "\<And>x. \<not> (Q x \<and> R x)"
  shows "mset (filter P xs @ filter Q xs @ filter R xs) = mset (filter (\<lambda>x. P x \<or> Q x \<or> R x) xs)"
proof (induction xs)
  case (Cons y ys)
  then show ?case using assms(1-3) [of y] by (cases "P y"; cases "Q y"; cases "R y") simp_all
qed simp

lemma mset_releasable: "mset (releasable ic) = mset (filter takes_traffic (sorted_incs ic))"
proof -
  have "mset (releasable ic) = mset (filter (\<lambda>i. state_of i = canarying \<or>
      state_of i \<in> {releasing, released} \<or>
      currentPercent i > 0 \<and> state_of i \<in> {retiring, deleting, failing}) (sorted_incs ic))"
    unfolding releasable_def by (rule mset_filter3) auto
  also have "\<dots> = mset (filter takes_traffic (sorted_incs ic))"
    by (intro arg_cong [where f = mset] filter_cong) (auto simp: takes_traffic_def)
  finally show ?thesis .
qed

lemma set_releasable: "set (releasable ic) = {i \<in> snd ` set ic. takes_traffic i}"
  using mset_eq_setD [OF mset_releasable [of ic]] by auto

lemma releasable_tags:
  assumes "wf_collection ic"
  shows "t \<in> inc_tag ` set (releasable ic) \<longleftrightarrow> (\<exists>j. map_of ic t = Some j \<and> takes_traffic j)"
proof -
  have "map_of ic t = Some j \<longleftrightarrow> (t, j) \<in> set ic" for j using assms by (simp add: wf_collection_def)
  moreover have "inc_tag j = u" if "(u, j) \<in> set ic" for u j using assms that by (auto simp: wf_collection_def)
  ultimately show ?thesis by (auto simp: set_releasable image_iff)
qed
lemma unreleasable_filter:
  assumes "wf_collection ic"
  shows "unreleasable ic = filter (\<lambda>i. \<not> takes_traffic i) (sorted_incs ic)"
proof -
  have "inc_tag i \<in> inc_tag ` set (releasable ic) \<longleftrightarrow> takes_traffic i" if "i \<in> set (sorted_incs ic)" for i
  proof
    assume "inc_tag i \<in> inc_tag ` set (releasable ic)"
    then obtain j where "j \<in> snd ` set ic" "takes_traffic j" "inc_tag i = inc_tag j"
      by (auto simp: set_releasable)
    moreover from this have "i = j" using that by (intro wf_eq_tag [OF assms]) simp_all
    ultimately show "takes_traffic i" by simp
  next
    assume "takes_traffic i"
    then show "inc_tag i \<in> inc_tag ` set (releasable ic)"
      using that by (intro imageI) (simp add: set_releasable)
  qed
  then show ?thesis unfolding unreleasable_def Let_def set_map by (intro filter_cong) blast+
qed

text \<open>Every incarnation is either releasable or unreleasable, and listed once.\<close>

lemma releasable_partition:
  assumes "wf_collection ic"
  shows "mset (releasable ic @ unreleasable ic) = mset (map snd ic)"
proof -
  have "mset (releasable ic @ unreleasable ic) =
      mset (filter takes_traffic (sorted_incs ic)) + mset (filter (\<lambda>i. \<not> takes_traffic i) (sorted_incs ic))"
    by (simp add: mset_releasable unreleasable_filter [OF assms])
  also have "\<dots> = mset (sorted_incs ic)"
    by (simp flip: multiset_partition)
  finally show ?thesis by simp
qed

lemma distinct_releasable: "wf_collection ic \<Longrightarrow> distinct (map inc_tag (releasable ic))"
proof -
  assume wf: "wf_collection ic"
  have "distinct (map inc_tag (filter takes_traffic (sorted_incs ic)))"
    using wf_distinct [OF wf] by (simp add: distinct_map_filter)
  then show ?thesis using distinct_map_mset_eq [OF mset_releasable] by blast
qed

text \<open>Changing an entry keeps the collection well formed as long as it keeps the tag.\<close>

lemma map_fst_modify [simp]: "map fst (modify tag f ic) = map fst ic"
  by (simp add: modify_def case_prod_unfold)

lemma wf_modify: "wf_collection ic \<Longrightarrow> (\<And>i. inc_tag (f i) = inc_tag i) \<Longrightarrow> wf_collection (modify tag f ic)"
  by (auto simp: wf_collection_def modify_def case_prod_unfold o_def)

lemma map_of_modify: "map_of (modify tag f ic) t = map_option (\<lambda>i. if t = tag then f i else i) (map_of ic t)"
  by (induction ic) (auto simp: modify_def)

lemma wf_update: "wf_collection ic \<Longrightarrow> inc_tag i = tag \<Longrightarrow> wf_collection (AList.update tag i ic)"
  using AList.distinct_update [of ic tag i]
  by (auto simp: wf_collection_def dest!: set_mp [OF update_set_subset])

lemma wf_collection_update: "wf_collection ic \<Longrightarrow> wf_collection (collection_update ci now ob ic)"
  by (auto simp: wf_collection_def collection_update_def case_prod_unfold o_def)

section \<open>What construction gives\<close>

lemma RevisionStatus_tags:
  "set (map rs_Tag (rmst_Revisions (rm_Status (snd (RevisionStatus now rm tag))))) =
     insert tag (set (map rs_Tag (rmst_Revisions (rm_Status rm))))"
proof (cases "find (\<lambda>s. rs_Tag s = tag) (rmst_Revisions (rm_Status rm))")
  case None
  then show ?thesis by (simp add: RevisionStatus_def Let_def)
next
  case (Some s)
  then have "tag \<in> set (map rs_Tag (rmst_Revisions (rm_Status rm)))"
    by (auto simp: find_Some_iff)
  with Some show ?thesis by (auto simp: RevisionStatus_def)
qed

lemma add_facts:
  assumes "add ci now ob tag revision (ic, rm) = (ic', rm')" "wf_collection ic"
    "\<forall>(t, i) \<in> set ic. \<not> inc_isRamping i"
  shows "wf_collection ic'" "fst ` set ic' = insert tag (fst ` set ic)"
    "\<forall>(t, i) \<in> set ic'. \<not> inc_isRamping i" "rm_Spec rm' = rm_Spec rm"
proof -
  show "wf_collection ic'"
    using assms(1,2) NewIncarnation_timestamps [of ci now rm tag revision]
    by (auto simp: add_def split: if_splits prod.splits intro!: wf_update)
  show "fst ` set ic' = insert tag (fst ` set ic)"
  proof (cases "revision = None \<and> map_of ic tag \<noteq> None")
    case True
    then have "tag \<in> fst ` set ic" by (simp add: map_of_eq_None_iff)
    moreover have "ic' = ic" using True assms(1) by (simp add: add_def)
    ultimately show ?thesis by (simp add: insert_absorb)
  next
    case False
    then obtain i where "ic' = AList.update tag i ic"
      using assms(1) unfolding add_def Let_def by (simp only: prod.case if_False split: prod.splits) blast
    then show ?thesis by simp
  qed
  show "\<forall>(t, i) \<in> set ic'. \<not> inc_isRamping i"
    using assms(1,3) NewIncarnation_timestamps [of ci now rm tag revision]
    by (auto simp: add_def split: if_splits prod.splits dest!: set_mp [OF update_set_subset])
  show "rm_Spec rm' = rm_Spec rm"
    using assms(1) by (auto simp: add_def NewIncarnation_def RevisionStatus_def Let_def
        split: if_splits prod.splits option.splits)
qed

lemma fold_add:
  assumes "fold (\<lambda>y. add ci now ob (tagf y) (revf y)) ys (ic, rm) = (ic', rm')" "wf_collection ic"
    "\<forall>(t, i) \<in> set ic. \<not> inc_isRamping i"
  shows "wf_collection ic' \<and> fst ` set ic' = tagf ` set ys \<union> fst ` set ic \<and>
    (\<forall>(t, i) \<in> set ic'. \<not> inc_isRamping i) \<and> rm_Spec rm' = rm_Spec rm"
  using assms
proof (induction ys arbitrary: ic rm)
  case (Cons y ys)
  obtain ic1 rm1 where a: "add ci now ob (tagf y) (revf y) (ic, rm) = (ic1, rm1)" by force
  note f = add_facts [OF a Cons.prems(2,3)]
  have "fold (\<lambda>y. add ci now ob (tagf y) (revf y)) ys (ic1, rm1) = (ic', rm')"
    using Cons.prems(1) a by simp
  from Cons.IH [OF this f(1,3)] f show ?case by auto
qed simp

text \<open>
  The collection has one incarnation for each tag of a revision or of a status of the release manager,
  and at most one of them is ramping: one that takes traffic and is not a canary.
\<close>

lemma mark_ramping_facts:
  assumes "wf_collection ic" "\<forall>(t, i) \<in> set ic. \<not> inc_isRamping i"
  shows "wf_collection (mark_ramping ic)" "map fst (mark_ramping ic) = map fst ic"
    "length (filter inc_isRamping (map snd (mark_ramping ic))) \<le> 1"
proof -
  show "wf_collection (mark_ramping ic)"
    using assms(1) by (auto simp: mark_ramping_def intro: wf_modify split: option.split)
  show "map fst (mark_ramping ic) = map fst ic"
    by (simp add: mark_ramping_def split: option.split)
  have one: "length (filter inc_isRamping (map snd (modify t f ic))) \<le> length (filter (\<lambda>(u, i). u = t) ic)"
    if "\<forall>(u, i) \<in> set ic. \<not> inc_isRamping i" for t f and ic :: Collection
    using that by (induction ic) (auto simp: modify_def)
  have tags: "length (filter (\<lambda>(u, i). u = t) ic) \<le> 1" if "distinct (map fst ic)" for t and ic :: Collection
    using that
  proof (induction ic)
    case (Cons p ic)
    obtain u i where [simp]: "p = (u, i)" by force
    show ?case
    proof (cases "u = t")
      case True
      then have "filter (\<lambda>(u, i). u = t) ic = []" using Cons.prems by (force simp: filter_empty_conv)
      with True show ?thesis by simp
    next
      case False
      with Cons show ?thesis by simp
    qed
  qed simp
  have zero: "filter inc_isRamping (map snd ic) = []"
    using assms(2) by (auto simp: filter_empty_conv)
  show "length (filter inc_isRamping (map snd (mark_ramping ic))) \<le> 1"
  proof (cases "find (\<lambda>i. state_of i \<noteq> canaried \<and> state_of i \<noteq> canarying) (releasable ic)")
    case None
    then show ?thesis using zero by (simp add: mark_ramping_def)
  next
    case (Some i)
    have "distinct (map fst ic)" using assms(1) by (simp add: wf_collection_def)
    with Some one [OF assms(2), of "inc_tag i"] tags [of ic "inc_tag i"] show ?thesis
      by (auto simp: mark_ramping_def intro: order.trans)
  qed
qed

lemma newIncarnationCollection_facts:
  assumes "newIncarnationCollection ci now rm revs ob = (ic, rm')"
  shows "wf_collection ic"
    "(\<lambda>r. ra_Tag (rsp_App (rev_Spec r))) ` set revs \<subseteq> fst ` set ic"
    "length (filter inc_isRamping (map snd ic)) \<le> 1" "rm_Spec rm' = rm_Spec rm"
proof -
  obtain ic1 rm1 where 1: "fold (\<lambda>r. add ci now ob (ra_Tag (rsp_App (rev_Spec r))) (Some r)) revs ([], rm)
      = (ic1, rm1)" by force
  obtain ic2 rm2 where 2: "fold (\<lambda>s. add ci now ob (rs_Tag s) None) (rmst_Revisions (rm_Status rm1)) (ic1, rm1)
      = (ic2, rm2)" by force
  have f1: "wf_collection ic1" "fst ` set ic1 = (\<lambda>r. ra_Tag (rsp_App (rev_Spec r))) ` set revs"
    "\<forall>(t, i) \<in> set ic1. \<not> inc_isRamping i" "rm_Spec rm1 = rm_Spec rm"
    using fold_add [OF 1] by (auto simp: wf_collection_def)
  have f2: "wf_collection ic2" "fst ` set ic1 \<subseteq> fst ` set ic2"
    "\<forall>(t, i) \<in> set ic2. \<not> inc_isRamping i" "rm_Spec rm2 = rm_Spec rm"
    using fold_add [OF 2 f1(1,3)] f1(4) by auto
  have ic: "ic = mark_ramping ic2" "rm' = rm2"
    using assms 1 2 by (simp_all add: newIncarnationCollection_def)
  note m = mark_ramping_facts [OF f2(1,3)]
  show "wf_collection ic" "length (filter inc_isRamping (map snd ic)) \<le> 1" "rm_Spec rm' = rm_Spec rm"
    using m f2(4) by (simp_all add: ic)
  show "(\<lambda>r. ra_Tag (rsp_App (rev_Spec r))) ` set revs \<subseteq> fst ` set ic"
    using f1(2) f2(2) m(2) by (metis ic(1) list.set_map)
qed

end
