(* ===== verification/Traffic.thy ===== *)
theory Traffic
  imports Collection
begin

text \<open>
  The division of the traffic, \<^verbatim>\<open>prepareRevisions\<close> of \<^verbatim>\<open>src/controllers/syncer.go\<close>: the weight of
  every deployed revision, from the newest to the oldest, until 100 percent are given. It changes the
  percentages in the statuses, and the eligibility of the revisions it drains.
\<close>

section \<open>The weights\<close>

type_synonym weights = "(string \<times> PlanRevision) list"

definition planRevision :: "'c Ctx \<Rightarrow> Incarnation \<Rightarrow> u32 \<Rightarrow> PlanRevision" where
  "planRevision x i weight =
     \<lparr>prv_Tag = inc_tag i, prv_Weight = weight,
      prv_TagRoutingHeader = (case inc_revision i of
          None \<Rightarrow> [] | Some r \<Rightarrow> if isRoutable i then rsp_TagRoutingHeader (rev_Spec r) else []),
      prv_TrafficPolicy = (case target (x_rm x) i of
          None \<Rightarrow> None | Some t \<Rightarrow> (case rt_Istio t of None \<Rightarrow> None | Some is \<Rightarrow> ist_TrafficPolicy is))\<rparr>"

definition deployed_weights :: "'c Ctx \<Rightarrow> Collection \<Rightarrow> weights" where
  "deployed_weights x ic =
     fold (\<lambda>i. AList.update (inc_tag i) (planRevision x i 0)) (deployed_incs ic) []"

definition add_weight :: "u32 \<Rightarrow> PlanRevision \<Rightarrow> PlanRevision" where
  "add_weight w pr = pr\<lparr>prv_Weight := prv_Weight pr + w\<rparr>"

section \<open>The loop\<close>

text \<open>
  The variables of the loop: the incarnations, \<^verbatim>\<open>revisionsMap\<close>, \<^verbatim>\<open>percRemaining\<close> and
  \<^verbatim>\<open>firstNonCanary\<close>. The assertion that fails panics.
\<close>

record LoopState =
  ls_ic :: Collection
  ls_map :: weights
  ls_perc :: u32
  ls_first :: "nat option"

text \<open>The cap of an incarnation: past the ramping one it may keep at most what it has.\<close>

definition loop_cap :: "nat option \<Rightarrow> nat \<Rightarrow> u32 \<Rightarrow> u32 \<Rightarrow> u32" where
  "loop_cap first idx cur perc =
     (case first of
        Some f \<Rightarrow> if idx > f then u32_of_int (utils_Min (i32_of_u32 cur) (i32_of_u32 perc)) else perc
      | None \<Rightarrow> perc)"

definition later :: "nat option \<Rightarrow> nat \<Rightarrow> bool" where
  "later first idx \<longleftrightarrow> (case first of None \<Rightarrow> False | Some f \<Rightarrow> idx > f)"

definition prepare_step :: "'c Ctx \<Rightarrow> time \<Rightarrow> nat \<Rightarrow> string \<Rightarrow> LoopState \<Rightarrow> LoopState option" where
  "prepare_step x now idx tag s = do {
     i \<leftarrow> map_of (ls_ic s) tag;
     let first = (if ls_first s = None \<and> inc_isRamping i then Some idx else ls_first s);
     let mx = loop_cap first idx (rs_CurrentPercent (inc_status i)) (ls_perc s);
     perc \<leftarrow> currentPercentTarget x now i mx;
     (if perc > ls_perc s then None
      else
        let i = updateCurrentPercent now perc i;
            percRemaining = ls_perc s - perc;
            i = (if perc \<le> 0 \<and> later first idx then setReleaseEligible False i else i)
        in Some \<lparr>ls_ic = modify tag (\<lambda>_. i) (ls_ic s),
                 ls_map = AList.update tag (planRevision x i perc) (ls_map s),
                 ls_perc = percRemaining, ls_first = first\<rparr>)
   }"

text \<open>In the last turn the ramping incarnation takes what remains.\<close>

definition prepare_last :: "time \<Rightarrow> string list \<Rightarrow> nat \<Rightarrow> LoopState \<Rightarrow> LoopState option" where
  "prepare_last now tags idx s =
     (case ls_first s of
        Some f \<Rightarrow>
          if idx + 1 = length tags \<and> ls_perc s > 0 then do {
            let tag = tags ! f;
            i \<leftarrow> map_of (ls_ic s) tag;
            pr \<leftarrow> map_of (ls_map s) tag;
            Some (s\<lparr>ls_map := AList.update tag (add_weight (ls_perc s) pr) (ls_map s),
                    ls_ic := modify tag
                      (\<lambda>_. updateCurrentPercent now (currentPercent i + ls_perc s) i) (ls_ic s),
                    ls_perc := 0\<rparr>)
          }
          else Some s
      | None \<Rightarrow> Some s)"

fun prepare_loop :: "'c Ctx \<Rightarrow> time \<Rightarrow> string list \<Rightarrow> nat \<Rightarrow> string list \<Rightarrow> LoopState \<Rightarrow> LoopState option" where
  "prepare_loop x now tags idx [] s = Some s"
| "prepare_loop x now tags idx (tag # rest) s = do {
     s \<leftarrow> prepare_step x now idx tag s;
     s \<leftarrow> prepare_last now tags idx s;
     prepare_loop x now tags (idx + 1) rest s
   }"

text \<open>The leftover goes to the first incarnation.\<close>

definition prepare_leftover :: "time \<Rightarrow> string list \<Rightarrow> LoopState \<Rightarrow> LoopState option" where
  "prepare_leftover now tags s =
     (case tags of
        tag # _ \<Rightarrow>
          if ls_perc s > 0 then do {
            i \<leftarrow> map_of (ls_ic s) tag;
            pr \<leftarrow> map_of (ls_map s) tag;
            let perc = currentPercent i + ls_perc s;
            Some (s\<lparr>ls_map := AList.update tag (pr\<lparr>prv_Weight := perc\<rparr>) (ls_map s),
                    ls_ic := modify tag (\<lambda>_. updateCurrentPercent now perc i) (ls_ic s)\<rparr>)
          }
          else Some s
      | [] \<Rightarrow> Some s)"

definition zero_unreleasable :: "time \<Rightarrow> Collection \<Rightarrow> Collection" where
  "zero_unreleasable now ic =
     fold (\<lambda>tag. modify tag (updateCurrentPercent now 0)) (map inc_tag (unreleasable ic)) ic"

definition prepareRevisions :: "'c Ctx \<Rightarrow> time \<Rightarrow> Collection \<Rightarrow> (PlanRevision list \<times> Collection) option" where
  "prepareRevisions x now ic =
     (if deployed_incs ic = [] then Some ([], ic)
      else do {
        let m = deployed_weights x ic;
        let ic = zero_unreleasable now ic;
        let tags = map inc_tag (releasable ic);
        s \<leftarrow> prepare_loop x now tags 0 tags \<lparr>ls_ic = ic, ls_map = m, ls_perc = 100, ls_first = None\<rparr>;
        s \<leftarrow> prepare_leftover now tags s;
        Some (map snd (ls_map s), ls_ic s)
      })"

section \<open>Totals\<close>

definition total_weight :: "weights \<Rightarrow> nat" where
  "total_weight m = sum_list (map (\<lambda>(t, pr). unat (prv_Weight pr)) m)"

definition weight_of :: "weights \<Rightarrow> string \<Rightarrow> nat" where
  "weight_of m t = (case map_of m t of None \<Rightarrow> 0 | Some pr \<Rightarrow> unat (prv_Weight pr))"

lemma weight_of_le: "weight_of m t \<le> total_weight m"
  by (induction m) (auto simp: weight_of_def total_weight_def)

lemma total_update: "total_weight (AList.update t pr m) + weight_of m t = total_weight m + unat (prv_Weight pr)"
  by (induction m) (auto simp: weight_of_def total_weight_def)

lemma weight_of_update:
  "weight_of (AList.update t pr m) u = (if u = t then unat (prv_Weight pr) else weight_of m u)"
  by (simp add: weight_of_def)

lemma total_map_snd: "sum_list (map (\<lambda>pr. unat (prv_Weight pr)) (map snd m)) = total_weight m"
  by (induction m) (auto simp: total_weight_def)

lemma deployed_weights_zero: "weight_of (deployed_weights x ic) t = 0 \<and> total_weight (deployed_weights x ic) = 0"
proof -
  have "(\<forall>t. weight_of m t = 0) \<and> total_weight m = 0 \<Longrightarrow>
    (\<forall>t. weight_of (fold (\<lambda>i. AList.update (inc_tag i) (planRevision x i 0)) is m) t = 0) \<and>
    total_weight (fold (\<lambda>i. AList.update (inc_tag i) (planRevision x i 0)) is m) = 0" for m "is"
  proof (induction "is" arbitrary: m)
    case (Cons i "is")
    have "total_weight (AList.update (inc_tag i) (planRevision x i 0) m) = 0"
      using total_update [of "inc_tag i" "planRevision x i 0" m] Cons.prems
      by (simp add: planRevision_def)
    then show ?case
      using Cons.IH [of "AList.update (inc_tag i) (planRevision x i 0) m"] Cons.prems
      by (simp add: weight_of_update planRevision_def)
  qed simp
  from this [of "[]" "deployed_incs ic"] show ?thesis
    unfolding deployed_weights_def by (simp add: weight_of_def [of "[]"] total_weight_def [of "[]"])
qed

section \<open>The invariant of the loop\<close>

definition pct :: "Collection \<Rightarrow> string \<Rightarrow> u32" where
  "pct ic t = (case map_of ic t of None \<Rightarrow> 0 | Some i \<Rightarrow> currentPercent i)"

definition elig :: "Collection \<Rightarrow> string \<Rightarrow> bool" where
  "elig ic t = (case map_of ic t of None \<Rightarrow> False | Some i \<Rightarrow> isReleaseEligible i)"

text \<open>An incarnation whose traffic and eligibility may have changed, and nothing else that matters.\<close>

definition alike :: "Incarnation \<Rightarrow> Incarnation \<Rightarrow> bool" where
  "alike i j \<longleftrightarrow> inc_tag i = inc_tag j \<and> inc_revision i = inc_revision j \<and> state_of i = state_of j \<and>
     inc_isRamping i = inc_isRamping j \<and> rs_Tag (inc_status i) = rs_Tag (inc_status j)"

definition all_alike :: "Collection \<Rightarrow> Collection \<Rightarrow> bool" where
  "all_alike ic jc \<longleftrightarrow> (\<forall>t. rel_option alike (map_of ic t) (map_of jc t))"

definition sound_collection :: "ReleaseManager \<Rightarrow> Collection \<Rightarrow> bool" where
  "sound_collection rm ic \<longleftrightarrow>
     wf_collection ic \<and> (\<forall>(t, i) \<in> set ic. sound rm i \<and> unat (currentPercent i) \<le> 100)"

lemma alike_refl [simp]: "alike i i"
  by (simp add: alike_def)

lemma alike_trans: "alike i j \<Longrightarrow> alike j k \<Longrightarrow> alike i k"
  by (simp add: alike_def)

lemma all_alike_refl [simp]: "all_alike ic ic"
  by (simp add: all_alike_def option.rel_refl)

lemma all_alike_trans: "all_alike a b \<Longrightarrow> all_alike b c \<Longrightarrow> all_alike a c"
  unfolding all_alike_def
proof
  fix t assume "\<forall>t. rel_option alike (map_of a t) (map_of b t)" "\<forall>t. rel_option alike (map_of b t) (map_of c t)"
  then have "rel_option alike (map_of a t) (map_of b t)" "rel_option alike (map_of b t) (map_of c t)" by blast+
  then show "rel_option alike (map_of a t) (map_of c t)"
    by (cases "map_of a t"; cases "map_of b t"; cases "map_of c t") (auto intro: alike_trans)
qed

lemma all_alike_modify:
  "map_of ic tag = Some i \<Longrightarrow> alike j i \<Longrightarrow> all_alike (modify tag (\<lambda>_. j) ic) ic"
  unfolding all_alike_def
proof
  fix t assume "map_of ic tag = Some i" "alike j i"
  then show "rel_option alike (map_of (modify tag (\<lambda>_. j) ic) t) (map_of ic t)"
    by (cases "map_of ic t"; cases "t = tag") (simp_all add: map_of_modify)
qed

lemma sound_alike: "alike i j \<Longrightarrow> sound rm i = sound rm j"
  by (simp add: alike_def sound_def target_def)

lemma wf_modify': "wf_collection ic \<Longrightarrow> inc_tag j = tag \<Longrightarrow> wf_collection (modify tag (\<lambda>_. j) ic)"
  by (auto simp: wf_collection_def modify_def case_prod_unfold o_def)

text \<open>
  After the incarnations \<open>ts\<close>: the weights given and what remains make 100; those done have the weight
  their status says; the others are untouched; past the ramping one nobody gained traffic, and only
  drained ones lost their eligibility.
\<close>

definition loop_inv :: "ReleaseManager \<Rightarrow> Collection \<Rightarrow> string list \<Rightarrow> LoopState \<Rightarrow> bool" where
  "loop_inv rm ic0 ts s \<longleftrightarrow>
     unat (ls_perc s) + total_weight (ls_map s) = 100 \<and>
     wf_collection (ls_ic s) \<and> all_alike (ls_ic s) ic0 \<and>
     (\<forall>t \<in> set ts. \<exists>pr i. map_of (ls_map s) t = Some pr \<and> map_of (ls_ic s) t = Some i \<and>
        prv_Weight pr = currentPercent i) \<and>
     (\<forall>t. t \<notin> set ts \<longrightarrow> weight_of (ls_map s) t = 0 \<and> map_of (ls_ic s) t = map_of ic0 t) \<and>
     (\<forall>f. ls_first s = Some f \<longrightarrow> f < length ts) \<and>
     (\<forall>k < length ts. later (ls_first s) k \<longrightarrow> pct (ls_ic s) (ts ! k) \<le> pct ic0 (ts ! k)) \<and>
     (\<forall>k < length ts. elig (ls_ic s) (ts ! k) \<noteq> elig ic0 (ts ! k) \<longrightarrow>
        later (ls_first s) k \<and> pct (ls_ic s) (ts ! k) = 0 \<and> \<not> elig (ls_ic s) (ts ! k))"

lemma loop_cap_bounds:
  assumes "unat cur < 2 ^ 31" "unat perc < 2 ^ 31"
  shows "loop_cap first idx cur perc \<le> perc"
    "later first idx \<Longrightarrow> loop_cap first idx cur perc \<le> cur"
proof -
  have m: "u32_of_int (utils_Min (i32_of_u32 cur) (i32_of_u32 perc)) = (if cur < perc then cur else perc)"
    using assms by (simp add: i32_of_u32_small utils_Min_def u32_of_int_def word_less_def)
  show "loop_cap first idx cur perc \<le> perc"
    by (auto simp: loop_cap_def m split: option.split)
  show "later first idx \<Longrightarrow> loop_cap first idx cur perc \<le> cur"
    by (auto simp: loop_cap_def later_def m split: option.splits)
qed

lemma map_of_modify_same: "map_of ic t = Some i \<Longrightarrow> map_of (modify t (\<lambda>_. j) ic) t = Some j"
  by (simp add: map_of_modify)

lemma map_of_modify_other: "u \<noteq> t \<Longrightarrow> map_of (modify t f ic) u = map_of ic u"
  by (simp add: map_of_modify option.map_ident)

lemma pct_elig_modify:
  "map_of ic t = Some i \<Longrightarrow> pct (modify t (\<lambda>_. j) ic) u = (if u = t then currentPercent j else pct ic u)"
  "map_of ic t = Some i \<Longrightarrow> elig (modify t (\<lambda>_. j) ic) u = (if u = t then isReleaseEligible j else elig ic u)"
  by (cases "u = t"; simp add: pct_def elig_def map_of_modify_same map_of_modify_other)+

lemma sound_collectionD:
  assumes "sound_collection rm ic" "map_of ic t = Some i"
  shows "sound rm i" "unat (currentPercent i) \<le> 100" "inc_tag i = t"
  using assms by (auto simp: sound_collection_def wf_collection_def dest!: map_of_SomeD)

lemma alike_updated:
  "alike (if b then setReleaseEligible False (updateCurrentPercent now p i)
          else updateCurrentPercent now p i) i"
  by (simp add: alike_def state_of_def)

text \<open>One turn keeps the invariant, and its assertion holds.\<close>

lemma prepare_step_inv:
  assumes inv: "loop_inv (x_rm x) ic0 ts s" and ic0: "sound_collection (x_rm x) ic0"
    and tag: "tag \<notin> set ts" "map_of ic0 tag \<noteq> None"
  shows "\<exists>s'. prepare_step x now (length ts) tag s = Some s' \<and> loop_inv (x_rm x) ic0 (ts @ [tag]) s'"
proof -
  obtain i where i0: "map_of ic0 tag = Some i" using tag(2) by blast
  then have i: "map_of (ls_ic s) tag = Some i" using inv tag(1) by (simp add: loop_inv_def)
  note i_ok = sound_collectionD [OF ic0 i0]
  define first where "first = (if ls_first s = None \<and> inc_isRamping i then Some (length ts) else ls_first s)"
  define mx where "mx = loop_cap first (length ts) (rs_CurrentPercent (inc_status i)) (ls_perc s)"
  obtain p where p: "currentPercentTarget x now i mx = Some p"
    using currentPercentTarget_total [OF i_ok(1)] by blast
  have perc: "unat (ls_perc s) \<le> 100" using inv by (simp add: loop_inv_def)
  have caps: "unat (rs_CurrentPercent (inc_status i)) < 2 ^ 31" "unat (ls_perc s) < 2 ^ 31"
    using i_ok(2) perc by (simp_all add: currentPercent_def)
  have "p \<le> mx" using currentPercentTarget_le [OF i_ok(1) p] .
  then have p_le: "p \<le> ls_perc s" and p_later: "later first (length ts) \<Longrightarrow> p \<le> currentPercent i"
    using loop_cap_bounds [OF caps, of first "length ts"] unfolding mx_def currentPercent_def by auto
  define j where "j = (if p \<le> 0 \<and> later first (length ts)
     then setReleaseEligible False (updateCurrentPercent now p i) else updateCurrentPercent now p i)"
  define s' where "s' = \<lparr>ls_ic = modify tag (\<lambda>_. j) (ls_ic s),
     ls_map = AList.update tag (planRevision x j p) (ls_map s), ls_perc = ls_perc s - p, ls_first = first\<rparr>"
  have step: "prepare_step x now (length ts) tag s = Some s'"
    using i p p_le by (simp add: prepare_step_def Let_def first_def [symmetric] mx_def [symmetric]
        j_def s'_def not_less)
  have alike: "alike j i" unfolding j_def by (rule alike_updated)
  have pj: "currentPercent j = p" by (simp add: j_def currentPercent_def)
  have first_le: "first = Some f \<Longrightarrow> f \<le> length ts" for f
    using inv by (auto simp: first_def loop_inv_def split: if_splits)
  have later_old: "later first k \<longleftrightarrow> later (ls_first s) k" if "k < length ts" for k
    using that inv by (auto simp: first_def later_def loop_inv_def)
  have nth: "(ts @ [tag]) ! k = (if k < length ts then ts ! k else tag)" if "k < Suc (length ts)" for k
    using that by (auto simp: nth_append less_Suc_eq)
  have tag_k: "ts ! k \<noteq> tag" if "k < length ts" for k using that tag(1) by auto
  have "loop_inv (x_rm x) ic0 (ts @ [tag]) s'"
    unfolding loop_inv_def
  proof (intro conjI allI impI ballI)
    have "total_weight (AList.update tag (planRevision x j p) (ls_map s)) = total_weight (ls_map s) + unat p"
      using total_update [of tag "planRevision x j p" "ls_map s"] inv tag(1)
      by (simp add: loop_inv_def planRevision_def)
    moreover have "unat (ls_perc s - p) = unat (ls_perc s) - unat p"
      using p_le by (simp add: unat_sub)
    ultimately show "unat (ls_perc s') + total_weight (ls_map s') = 100"
      using inv p_le by (simp add: s'_def loop_inv_def word_le_nat_alt)
    show "wf_collection (ls_ic s')"
      using inv alike i_ok(3) by (auto simp: s'_def loop_inv_def alike_def intro: wf_modify')
    show "all_alike (ls_ic s') ic0"
      using inv all_alike_modify [OF i alike] all_alike_trans by (auto simp: s'_def loop_inv_def)
  next
    fix t assume "t \<in> set (ts @ [tag])"
    then show "\<exists>pr i. map_of (ls_map s') t = Some pr \<and> map_of (ls_ic s') t = Some i \<and>
        prv_Weight pr = currentPercent i"
      using inv tag(1) i
      by (cases "t = tag")
        (auto simp: s'_def loop_inv_def map_of_modify_same map_of_modify_other planRevision_def pj)
  next
    fix t assume t: "t \<notin> set (ts @ [tag])"
    then show "weight_of (ls_map s') t = 0"
      using inv by (simp add: s'_def loop_inv_def weight_of_update)
    show "map_of (ls_ic s') t = map_of ic0 t"
      using t inv by (simp add: s'_def loop_inv_def map_of_modify_other)
  next
    fix f assume "ls_first s' = Some f"
    then show "f < length (ts @ [tag])" using first_le by (simp add: s'_def le_imp_less_Suc)
  next
    fix k assume k: "k < length (ts @ [tag])" and "later (ls_first s') k"
    then have l: "later first k" by (simp add: s'_def)
    show "pct (ls_ic s') ((ts @ [tag]) ! k) \<le> pct ic0 ((ts @ [tag]) ! k)"
    proof (cases "k < length ts")
      case True
      then show ?thesis using inv l later_old [OF True] tag_k [OF True]
        by (simp add: s'_def nth pct_elig_modify [OF i] loop_inv_def)
    next
      case False
      then have "k = length ts" using k by simp
      then show ?thesis using l p_later pj i0
        by (simp add: s'_def pct_elig_modify [OF i]) (simp add: pct_def)
    qed
  next
    fix k assume k: "k < length (ts @ [tag])"
      and ne: "elig (ls_ic s') ((ts @ [tag]) ! k) \<noteq> elig ic0 ((ts @ [tag]) ! k)"
    have "later first k \<and> pct (ls_ic s') ((ts @ [tag]) ! k) = 0 \<and> \<not> elig (ls_ic s') ((ts @ [tag]) ! k)"
    proof (cases "k < length ts")
      case True
      have "elig (ls_ic s) (ts ! k) \<noteq> elig ic0 (ts ! k)"
        using True ne tag_k [OF True] by (simp add: s'_def nth pct_elig_modify [OF i])
      then have "later (ls_first s) k \<and> pct (ls_ic s) (ts ! k) = 0 \<and> \<not> elig (ls_ic s) (ts ! k)"
        using inv True unfolding loop_inv_def by blast
      then show ?thesis using True later_old [OF True] tag_k [OF True]
        by (simp add: s'_def nth pct_elig_modify [OF i])
    next
      case False
      then have "k = length ts" using k by simp
      moreover have "elig ic0 tag = isReleaseEligible i" using i0 by (simp add: elig_def)
      ultimately show ?thesis using ne
        by (auto simp: s'_def pct_elig_modify [OF i] j_def isReleaseEligible_def currentPercent_def
            split: if_splits)
    qed
    then show "later (ls_first s') k" "pct (ls_ic s') ((ts @ [tag]) ! k) = 0"
      "\<not> elig (ls_ic s') ((ts @ [tag]) ! k)" by (simp_all add: s'_def)
  qed
  with step show ?thesis by blast
qed

text \<open>Giving all that remains to an incarnation that is not past the ramping one keeps the invariant.\<close>

lemma bump_inv:
  fixes now :: time
  assumes inv: "loop_inv rm ic0 ts s" and f: "f < length ts" "\<not> later (ls_first s) f" "distinct ts"
    and i: "map_of (ls_ic s) (ts ! f) = Some i" and pr: "map_of (ls_map s) (ts ! f) = Some pr"
    and pr': "prv_Weight pr' = currentPercent i + ls_perc s"
  defines "s' \<equiv> s\<lparr>ls_map := AList.update (ts ! f) pr' (ls_map s),
     ls_ic := modify (ts ! f) (\<lambda>_. updateCurrentPercent now (currentPercent i + ls_perc s) i) (ls_ic s),
     ls_perc := 0\<rparr>"
  shows "loop_inv rm ic0 ts s'"
proof -
  let ?j = "updateCurrentPercent now (currentPercent i + ls_perc s) i"
  have w: "prv_Weight pr = currentPercent i"
    using inv f(1) i pr nth_mem [OF f(1)] unfolding loop_inv_def by fastforce
  have alike: "alike ?j i" using alike_updated [of False] by simp
  have tag: "inc_tag i = ts ! f"
    using inv i by (auto simp: loop_inv_def wf_collection_def dest!: map_of_SomeD)
  have ne: "ts ! k = ts ! f \<longleftrightarrow> k = f" if "k < length ts" for k
    using that f(1,3) by (simp add: nth_eq_iff_index_eq)
  have pj: "currentPercent ?j = currentPercent i + ls_perc s" "isReleaseEligible ?j = isReleaseEligible i"
    by (simp_all add: currentPercent_def isReleaseEligible_def)
  have elig: "elig (ls_ic s') t = elig (ls_ic s) t" for t
    using i by (simp add: s'_def pct_elig_modify [OF i] pj) (simp add: elig_def)
  show ?thesis
    unfolding loop_inv_def
  proof (intro conjI allI impI ballI)
    have le: "unat (currentPercent i) + unat (ls_perc s) \<le> 100"
      using inv weight_of_le [of "ls_map s" "ts ! f"] pr w by (simp add: loop_inv_def weight_of_def)
    then have "unat (currentPercent i + ls_perc s) = unat (currentPercent i) + unat (ls_perc s)"
      by (intro unat_add_small) simp
    then show "unat (ls_perc s') + total_weight (ls_map s') = 100"
      using inv total_update [of "ts ! f" pr' "ls_map s"] pr pr' w
      by (simp add: s'_def loop_inv_def weight_of_def)
    show "wf_collection (ls_ic s')"
      using inv tag by (auto simp: s'_def loop_inv_def intro!: wf_modify')
    show "all_alike (ls_ic s') ic0"
      using inv all_alike_modify [OF i alike] all_alike_trans by (auto simp: s'_def loop_inv_def)
  next
    fix t assume "t \<in> set ts"
    then show "\<exists>pr i. map_of (ls_map s') t = Some pr \<and> map_of (ls_ic s') t = Some i \<and>
        prv_Weight pr = currentPercent i"
      using inv i pr'
      by (cases "t = ts ! f")
        (auto simp: s'_def loop_inv_def map_of_modify_same map_of_modify_other pj)
  next
    fix t assume t: "t \<notin> set ts"
    then have "t \<noteq> ts ! f" using f(1) by auto
    then show "weight_of (ls_map s') t = 0" "map_of (ls_ic s') t = map_of ic0 t"
      using t inv by (simp_all add: s'_def loop_inv_def weight_of_update map_of_modify_other)
  next
    fix g assume "ls_first s' = Some g"
    then show "g < length ts" using inv by (simp add: s'_def loop_inv_def)
  next
    fix k assume k: "k < length ts" and "later (ls_first s') k"
    then have l: "later (ls_first s) k" by (simp add: s'_def)
    then have "k \<noteq> f" using f(2) by blast
    then show "pct (ls_ic s') (ts ! k) \<le> pct ic0 (ts ! k)"
      using k l inv ne [OF k] by (simp add: s'_def pct_elig_modify [OF i] loop_inv_def)
  next
    fix k assume k: "k < length ts" and "elig (ls_ic s') (ts ! k) \<noteq> elig ic0 (ts ! k)"
    then have o: "later (ls_first s) k \<and> pct (ls_ic s) (ts ! k) = 0 \<and> \<not> elig (ls_ic s) (ts ! k)"
      using inv unfolding loop_inv_def elig by blast
    then have "k \<noteq> f" using f(2) by blast
    then show "later (ls_first s') k" "pct (ls_ic s') (ts ! k) = 0" "\<not> elig (ls_ic s') (ts ! k)"
      using o ne [OF k] elig [of "ts ! k"] by (simp_all add: s'_def pct_elig_modify [OF i])
  qed
qed

lemma loop_inv_entry:
  assumes "loop_inv rm ic0 ts s" "t \<in> set ts"
  obtains pr i where "map_of (ls_map s) t = Some pr" "map_of (ls_ic s) t = Some i"
    "prv_Weight pr = currentPercent i"
  using assms unfolding loop_inv_def by blast

lemma prepare_last_inv:
  assumes inv: "loop_inv rm ic0 ts s" and tags: "distinct tags" "ts = take (idx + 1) tags"
    "idx < length tags"
  shows "\<exists>s'. prepare_last now tags idx s = Some s' \<and> loop_inv rm ic0 ts s' \<and>
    (idx + 1 = length tags \<longrightarrow> ls_first s' \<noteq> None \<longrightarrow> ls_perc s' = 0) \<and> ls_first s' = ls_first s"
proof (cases "ls_first s")
  case None
  then show ?thesis using inv by (simp add: prepare_last_def)
next
  case (Some f)
  show ?thesis
  proof (cases "idx + 1 = length tags \<and> ls_perc s > 0")
    case True
    then have ts: "ts = tags" using tags(2) by simp
    have f: "f < length ts" using inv Some by (simp add: loop_inv_def)
    obtain pr i where e: "map_of (ls_map s) (ts ! f) = Some pr" "map_of (ls_ic s) (ts ! f) = Some i"
      "prv_Weight pr = currentPercent i"
      using inv nth_mem [OF f] by (rule loop_inv_entry)
    have "\<not> later (ls_first s) f" by (simp add: later_def Some)
    then have "loop_inv rm ic0 ts (s\<lparr>ls_map := AList.update (ts ! f) (add_weight (ls_perc s) pr) (ls_map s),
        ls_ic := modify (ts ! f) (\<lambda>_. updateCurrentPercent now (currentPercent i + ls_perc s) i) (ls_ic s),
        ls_perc := 0\<rparr>)"
      using e tags(1) ts by (intro bump_inv [OF inv f]) (simp_all add: add_weight_def)
    then show ?thesis using True Some e ts by (simp add: prepare_last_def Let_def)
  next
    case False
    then show ?thesis using inv Some by (auto simp: prepare_last_def word_gt_0)
  qed
qed

lemma prepare_loop_inv:
  assumes "loop_inv (x_rm x) ic0 (take idx tags) s" "sound_collection (x_rm x) ic0" "distinct tags"
    "\<forall>t \<in> set tags. map_of ic0 t \<noteq> None" "rest = drop idx tags" "idx \<le> length tags"
    "rest = [] \<longrightarrow> tags \<noteq> [] \<longrightarrow> ls_first s \<noteq> None \<longrightarrow> ls_perc s = 0"
  shows "\<exists>s'. prepare_loop x now tags idx rest s = Some s' \<and> loop_inv (x_rm x) ic0 tags s' \<and>
    (tags \<noteq> [] \<longrightarrow> ls_first s' \<noteq> None \<longrightarrow> ls_perc s' = 0)"
  using assms
proof (induction rest arbitrary: idx s)
  case Nil
  then show ?case by simp
next
  case (Cons tag rest)
  have idx: "idx < length tags" using Cons.prems(5,6) by (cases "idx = length tags") auto
  then have tag: "tag = tags ! idx" "rest = drop (idx + 1) tags"
    using Cons.prems(5) by (simp_all add: Cons_nth_drop_Suc [symmetric])
  have take: "take (idx + 1) tags = take idx tags @ [tag]"
    using idx tag(1) by (simp add: take_Suc_conv_app_nth)
  have "tag \<notin> set (take idx tags)"
    using Cons.prems(3) idx tag(1) by (metis distinct_take take distinct_append disjoint_insert(1) empty_set inf_commute list.simps(15))
  moreover have "map_of ic0 tag \<noteq> None" using Cons.prems(4) idx tag(1) by simp
  ultimately obtain s1 where s1: "prepare_step x now idx tag s = Some s1"
    "loop_inv (x_rm x) ic0 (take (idx + 1) tags) s1"
    using prepare_step_inv [OF Cons.prems(1,2)] idx take by auto
  obtain s2 where s2: "prepare_last now tags idx s1 = Some s2"
    "loop_inv (x_rm x) ic0 (take (idx + 1) tags) s2"
    "idx + 1 = length tags \<longrightarrow> ls_first s2 \<noteq> None \<longrightarrow> ls_perc s2 = 0"
    using prepare_last_inv [OF s1(2) Cons.prems(3) refl idx] by auto
  have "rest = [] \<longrightarrow> tags \<noteq> [] \<longrightarrow> ls_first s2 \<noteq> None \<longrightarrow> ls_perc s2 = 0"
    using s2(3) tag(2) idx by auto
  with Cons.IH [OF s2(2) Cons.prems(2-4) tag(2)] idx s1(1) s2(1) show ?case by auto
qed

lemma prepare_leftover_inv:
  assumes inv: "loop_inv rm ic0 tags s" and tags: "distinct tags"
    and first: "ls_first s \<noteq> None \<longrightarrow> ls_perc s = 0" and ne: "tags \<noteq> []"
  shows "\<exists>s'. prepare_leftover now tags s = Some s' \<and> loop_inv rm ic0 tags (s'\<lparr>ls_perc := 0\<rparr>)"
proof -
  obtain tag rest where Cons: "tags = tag # rest" using ne by (cases tags) simp_all
  show ?thesis
  proof (cases "ls_perc s > 0")
    case True
    then have none: "ls_first s = None" using first Cons by auto
    have f: "0 < length tags" "\<not> later (ls_first s) 0" using Cons none by (simp_all add: later_def)
    obtain pr i where e: "map_of (ls_map s) (tags ! 0) = Some pr" "map_of (ls_ic s) (tags ! 0) = Some i"
      "prv_Weight pr = currentPercent i"
      using inv nth_mem [OF f(1)] by (rule loop_inv_entry)
    have "loop_inv rm ic0 tags (s\<lparr>ls_map := AList.update (tags ! 0)
        (pr\<lparr>prv_Weight := currentPercent i + ls_perc s\<rparr>) (ls_map s),
        ls_ic := modify (tags ! 0) (\<lambda>_. updateCurrentPercent now (currentPercent i + ls_perc s) i) (ls_ic s),
        ls_perc := 0\<rparr>)"
      using e by (intro bump_inv [OF inv f tags]) simp_all
    then show ?thesis using Cons True e by (simp add: prepare_leftover_def Let_def)
  next
    case False
    then have "ls_perc s = 0" by (simp add: word_gt_0)
    then have "s\<lparr>ls_perc := 0\<rparr> = s" by simp
    then show ?thesis using Cons False inv by (simp add: prepare_leftover_def)
  qed
qed

text \<open>Setting the percentage of the rest to zero.\<close>

lemma map_of_zero:
  "map_of (fold (\<lambda>tag. modify tag (updateCurrentPercent now 0)) ts ic) t =
     map_option (\<lambda>i. ((updateCurrentPercent now 0) ^^ count_list ts t) i) (map_of ic t)"
proof (induction ts arbitrary: ic)
  case (Cons u ts)
  then show ?case
    by (cases "map_of ic t") (auto simp: map_of_modify funpow_swap1)
qed (simp add: option.map_id)

lemma wf_fold_modify:
  "wf_collection ic \<Longrightarrow> (\<And>i. inc_tag (f i) = inc_tag i) \<Longrightarrow>
   wf_collection (fold (\<lambda>tag. modify tag f) ts ic)"
  by (induction ts arbitrary: ic) (simp_all add: wf_modify)

lemma zero_funpow:
  "alike ((updateCurrentPercent now 0 ^^ n) i) i \<and>
   isReleaseEligible ((updateCurrentPercent now 0 ^^ n) i) = isReleaseEligible i \<and>
   (0 < n \<longrightarrow> currentPercent ((updateCurrentPercent now 0 ^^ n) i) = 0)"
  by (induction n) (auto simp: alike_def state_of_def currentPercent_def isReleaseEligible_def)

lemma zero_unreleasable_facts:
  assumes wf: "wf_collection ic"
  shows "wf_collection (zero_unreleasable now ic)" "all_alike (zero_unreleasable now ic) ic"
    "map_of ic t = Some i \<Longrightarrow> \<exists>j. map_of (zero_unreleasable now ic) t = Some j \<and>
       currentPercent j = (if takes_traffic i then currentPercent i else 0) \<and>
       isReleaseEligible j = isReleaseEligible i"
proof -
  show "wf_collection (zero_unreleasable now ic)"
    unfolding zero_unreleasable_def using wf by (rule wf_fold_modify) simp
  show "all_alike (zero_unreleasable now ic) ic"
    unfolding all_alike_def zero_unreleasable_def map_of_zero
    using zero_funpow by (auto simp: option.rel_map intro: option.rel_refl_strong)
  assume i: "map_of ic t = Some i"
  then have t: "inc_tag i = t" "i \<in> snd ` set ic"
    using wf by (force simp: wf_collection_def dest: map_of_SomeD)+
  have "t \<in> set (map inc_tag (unreleasable ic)) \<longleftrightarrow> \<not> takes_traffic i"
  proof
    assume "t \<in> set (map inc_tag (unreleasable ic))"
    then obtain j where j: "j \<in> snd ` set ic" "\<not> takes_traffic j" "inc_tag j = t"
      unfolding unreleasable_filter [OF wf] by auto
    then have "i = j" using t by (intro wf_eq_tag [OF wf]) simp_all
    then show "\<not> takes_traffic i" using j(2) by simp
  next
    assume "\<not> takes_traffic i"
    then have "i \<in> set (unreleasable ic)" using t(2) by (simp add: unreleasable_filter [OF wf])
    then show "t \<in> set (map inc_tag (unreleasable ic))" using t(1) by force
  qed
  then have "0 < count_list (map inc_tag (unreleasable ic)) t \<longleftrightarrow> \<not> takes_traffic i"
    by (metis count_list_0_iff neq0_conv)
  then show "\<exists>j. map_of (zero_unreleasable now ic) t = Some j \<and>
       currentPercent j = (if takes_traffic i then currentPercent i else 0) \<and>
       isReleaseEligible j = isReleaseEligible i"
    using i zero_funpow [where n = "count_list (map inc_tag (unreleasable ic)) t" and i = i and now = now]
    by (cases "takes_traffic i") (auto simp: zero_unreleasable_def map_of_zero)
qed

section \<open>Well-formed weights\<close>

text \<open>The entries of the map are under their own tag, once.\<close>

definition wf_weights :: "weights \<Rightarrow> bool" where
  "wf_weights m \<longleftrightarrow> distinct (map fst m) \<and> (\<forall>(t, pr) \<in> set m. prv_Tag pr = t)"

lemma wf_weights_update: "wf_weights m \<Longrightarrow> prv_Tag pr = t \<Longrightarrow> wf_weights (AList.update t pr m)"
  using AList.distinct_update [of m t pr]
  by (auto simp: wf_weights_def dest!: set_mp [OF update_set_subset])

lemma wf_weights_entry: "wf_weights m \<Longrightarrow> map_of m t = Some pr \<Longrightarrow> prv_Tag pr = t"
  by (auto simp: wf_weights_def dest!: map_of_SomeD)

lemma planRevision_Tag [simp]: "prv_Tag (planRevision x i w) = inc_tag i"
  by (simp add: planRevision_def)

lemma wf_deployed_weights: "wf_weights (deployed_weights x ic)"
proof -
  have "wf_weights m \<Longrightarrow> wf_weights (fold (\<lambda>i. AList.update (inc_tag i) (planRevision x i 0)) is m)"
    for m "is"
    by (induction "is" arbitrary: m) (simp_all add: wf_weights_update)
  from this [of "[]" "deployed_incs ic"] show ?thesis
    unfolding deployed_weights_def by (simp add: wf_weights_def [of "[]"])
qed

lemma prepare_step_weights:
  assumes "prepare_step x now idx tag s = Some s'" "wf_weights (ls_map s)" "wf_collection (ls_ic s)"
  shows "wf_weights (ls_map s')"
proof -
  have "map_of (ls_ic s) tag = Some i \<Longrightarrow> inc_tag i = tag" for i
    using assms(3) by (auto simp: wf_collection_def dest!: map_of_SomeD)
  with assms(1,2) show ?thesis
    by (auto simp: prepare_step_def Let_def split: Option.bind_splits if_splits intro!: wf_weights_update)
qed

lemma prepare_last_weights:
  "prepare_last now tags idx s = Some s' \<Longrightarrow> wf_weights (ls_map s) \<Longrightarrow> wf_weights (ls_map s')"
  using wf_weights_entry [of "ls_map s"]
  by (auto simp: prepare_last_def Let_def add_weight_def split: Option.bind_splits if_splits option.splits
      intro!: wf_weights_update)

lemma prepare_leftover_weights:
  "prepare_leftover now tags s = Some s' \<Longrightarrow> wf_weights (ls_map s) \<Longrightarrow> wf_weights (ls_map s')"
  using wf_weights_entry [of "ls_map s"]
  by (auto simp: prepare_leftover_def Let_def split: Option.bind_splits if_splits list.splits
      intro!: wf_weights_update)

lemma prepare_step_wf:
  assumes "prepare_step x now idx tag s = Some s'" "wf_collection (ls_ic s)"
  shows "wf_collection (ls_ic s')"
proof -
  have "map_of (ls_ic s) tag = Some i \<Longrightarrow> inc_tag i = tag" for i
    using assms(2) by (auto simp: wf_collection_def dest!: map_of_SomeD)
  with assms show ?thesis
    by (auto simp: prepare_step_def Let_def split: Option.bind_splits if_splits intro!: wf_modify')
qed

lemma prepare_last_wf:
  assumes "prepare_last now tags idx s = Some s'" "wf_collection (ls_ic s)"
  shows "wf_collection (ls_ic s')"
proof -
  have "map_of (ls_ic s) tag = Some i \<Longrightarrow> inc_tag i = tag" for i tag
    using assms(2) by (auto simp: wf_collection_def dest!: map_of_SomeD)
  with assms show ?thesis
    by (auto simp: prepare_last_def Let_def split: Option.bind_splits if_splits option.splits
        intro!: wf_modify')
qed

lemma prepare_loop_weights:
  "prepare_loop x now tags idx rest s = Some s' \<Longrightarrow> wf_weights (ls_map s) \<Longrightarrow> wf_collection (ls_ic s) \<Longrightarrow>
   wf_weights (ls_map s')"
proof (induction rest arbitrary: idx s)
  case (Cons tag rest)
  then show ?case
    by (auto split: Option.bind_splits
        dest: prepare_step_weights prepare_last_weights prepare_step_wf prepare_last_wf)
qed simp

text \<open>The traffic a list of revisions sends to a tag.\<close>

definition weight_to :: "PlanRevision list \<Rightarrow> string \<Rightarrow> nat" where
  "weight_to revs t = sum_list (map (\<lambda>pr. unat (prv_Weight pr)) (filter (\<lambda>pr. prv_Tag pr = t) revs))"

lemma weight_to_map: "wf_weights m \<Longrightarrow> weight_to (map snd m) t = weight_of m t"
proof (induction m)
  case (Cons p m)
  obtain u pr where [simp]: "p = (u, pr)" by force
  have wf: "wf_weights m" and u: "prv_Tag pr = u" "u \<notin> fst ` set m"
    using Cons.prems by (auto simp: wf_weights_def)
  have "map_of m u = None" using u(2) by (simp add: map_of_eq_None_iff)
  then have "t = u \<Longrightarrow> weight_of m t = 0" by (simp add: weight_of_def)
  moreover have "weight_of ((u, pr) # m) t = (if t = u then unat (prv_Weight pr) else weight_of m t)"
    by (simp add: weight_of_def)
  moreover have "weight_to (pr # rs) t = (if prv_Tag pr = t then unat (prv_Weight pr) else 0) + weight_to rs t"
    for rs by (simp add: weight_to_def)
  ultimately show ?case using Cons.IH [OF wf] u(1) by simp
qed (simp add: weight_to_def weight_of_def)

section \<open>The division of the traffic\<close>

text \<open>
  With a sound collection that has a deployed revision, the division never panics. All of the traffic is
  given as soon as some incarnation takes any, every revision gets the weight its status records, only those
  that take traffic are recorded with any, and only a drained incarnation loses its eligibility.
\<close>

lemma prepareRevisions_total:
  assumes ok: "sound_collection (x_rm x) ic" and dep: "deployed_incs ic \<noteq> []"
  shows "\<exists>revs ic'. prepareRevisions x now ic = Some (revs, ic') \<and>
    wf_collection ic' \<and> all_alike ic' ic \<and>
    sum_list (map (\<lambda>pr. unat (prv_Weight pr)) revs) = (if \<exists>i \<in> snd ` set ic. takes_traffic i then 100 else 0) \<and>
    (\<forall>t. weight_to revs t = unat (pct ic' t)) \<and>
    (\<forall>t. elig ic' t \<noteq> elig ic t \<longrightarrow> pct ic' t = 0 \<and> \<not> elig ic' t) \<and>
    (\<forall>t. pct ic' t \<noteq> 0 \<longrightarrow> (\<exists>i. map_of ic t = Some i \<and> takes_traffic i))"
proof -
  have wf: "wf_collection ic" using ok by (simp add: sound_collection_def)
  define ic1 where "ic1 = zero_unreleasable now ic"
  define tags where "tags = map inc_tag (releasable ic1)"
  note z = zero_unreleasable_facts [OF wf, where now = now, folded ic1_def]
  have entry: "\<exists>i. map_of ic t = Some i \<and> alike j i \<and>
      currentPercent j = (if takes_traffic i then currentPercent i else 0) \<and>
      isReleaseEligible j = isReleaseEligible i"
    if j: "map_of ic1 t = Some j" for t j
  proof -
    have "rel_option alike (map_of ic1 t) (map_of ic t)" using z(2) by (simp add: all_alike_def)
    then obtain i where "map_of ic t = Some i" "alike j i"
      using j by (cases "map_of ic t") simp_all
    moreover from z(3) [OF this(1)] j have
      "currentPercent j = (if takes_traffic i then currentPercent i else 0)"
      "isReleaseEligible j = isReleaseEligible i" by auto
    ultimately show ?thesis by blast
  qed
  have traffic: "takes_traffic j \<longleftrightarrow> takes_traffic i"
    if "map_of ic1 t = Some j" "map_of ic t = Some i" for t i j
    using entry [OF that(1)] that(2) by (auto simp: takes_traffic_def alike_def)
  have ok1: "sound_collection (x_rm x) ic1"
    unfolding sound_collection_def
  proof (intro conjI z(1) ballI)
    fix p assume p: "p \<in> set ic1"
    obtain t j where [simp]: "p = (t, j)" by force
    have "map_of ic1 t = Some j" using p z(1) by (simp add: wf_collection_def)
    from entry [OF this] obtain i where i: "map_of ic t = Some i" "alike j i"
      "currentPercent j = (if takes_traffic i then currentPercent i else 0)" by blast
    then show "case p of (t, i) \<Rightarrow> sound (x_rm x) i \<and> unat (currentPercent i) \<le> 100"
      using sound_collectionD [OF ok i(1)] sound_alike by auto
  qed
  have tags_mem: "t \<in> set tags \<longleftrightarrow> (\<exists>j. map_of ic1 t = Some j \<and> takes_traffic j)" for t
    using releasable_tags [OF z(1)] by (simp add: tags_def)
  have dist: "distinct tags" unfolding tags_def by (rule distinct_releasable [OF z(1)])
  define s0 where "s0 = \<lparr>ls_ic = ic1, ls_map = deployed_weights x ic, ls_perc = 100, ls_first = None\<rparr>"
  have inv0: "loop_inv (x_rm x) ic1 (take 0 tags) s0"
    using z(1) deployed_weights_zero [of x ic] by (simp add: loop_inv_def s0_def)
  have "\<exists>s1. prepare_loop x now tags 0 tags s0 = Some s1 \<and> loop_inv (x_rm x) ic1 tags s1 \<and>
      (tags \<noteq> [] \<longrightarrow> ls_first s1 \<noteq> None \<longrightarrow> ls_perc s1 = 0)"
    using tags_mem by (intro prepare_loop_inv [OF inv0 ok1 dist]) auto
  then obtain s1 where s1: "prepare_loop x now tags 0 tags s0 = Some s1" "loop_inv (x_rm x) ic1 tags s1"
    "tags \<noteq> [] \<longrightarrow> ls_first s1 \<noteq> None \<longrightarrow> ls_perc s1 = 0" by blast
  have w1: "wf_weights (ls_map s1)"
    using prepare_loop_weights [OF s1(1)] wf_deployed_weights [of x ic] z(1) by (simp add: s0_def)
  obtain s2 where s2: "prepare_leftover now tags s1 = Some s2"
    "\<exists>r. loop_inv (x_rm x) ic1 tags (s2\<lparr>ls_perc := r\<rparr>) \<and> (tags \<noteq> [] \<longrightarrow> r = 0)"
  proof (cases "tags = []")
    case True
    have "loop_inv (x_rm x) ic1 tags (s1\<lparr>ls_perc := ls_perc s1\<rparr>)" using s1(2) by simp
    moreover have "prepare_leftover now tags s1 = Some s1" using True by (simp add: prepare_leftover_def)
    ultimately show ?thesis using that True by blast
  next
    case False
    then show ?thesis using prepare_leftover_inv [OF s1(2) dist] s1(3) that by metis
  qed
  then obtain r where inv2: "loop_inv (x_rm x) ic1 tags (s2\<lparr>ls_perc := r\<rparr>)" "tags \<noteq> [] \<longrightarrow> r = 0" by blast
  have w2: "wf_weights (ls_map s2)" using prepare_leftover_weights [OF s2(1) w1] .
  have res: "prepareRevisions x now ic = Some (map snd (ls_map s2), ls_ic s2)"
    using dep s1(1) s2(1)
    by (simp add: prepareRevisions_def Let_def ic1_def [symmetric] tags_def [symmetric] s0_def)
  have wt: "weight_of (ls_map s2) t = unat (pct (ls_ic s2) t) \<and> (t \<notin> set tags \<longrightarrow> pct (ls_ic s2) t = 0)" for t
  proof (cases "t \<in> set tags")
    case True
    with inv2(1) show ?thesis by (auto simp: loop_inv_def weight_of_def pct_def)
  next
    case False
    then have "weight_of (ls_map s2) t = 0" "map_of (ls_ic s2) t = map_of ic1 t"
      using inv2(1) by (simp_all add: loop_inv_def)
    moreover have "pct ic1 t = 0"
      using False tags_mem [of t] entry [of t] traffic [of t]
      by (auto simp: pct_def split: option.split)
    ultimately show ?thesis by (simp add: pct_def)
  qed
  have given: "\<exists>i. map_of ic t = Some i \<and> takes_traffic i" if "pct (ls_ic s2) t \<noteq> 0" for t
    using that wt [of t] tags_mem [of t] entry [of t] traffic [of t] by blast
  show ?thesis
  proof (intro exI conjI)
    show "prepareRevisions x now ic = Some (map snd (ls_map s2), ls_ic s2)" by (rule res)
    show "wf_collection (ls_ic s2)" using inv2(1) by (simp add: loop_inv_def)
    show "all_alike (ls_ic s2) ic"
      using inv2(1) z(2) all_alike_trans by (auto simp: loop_inv_def)
    show "\<forall>t. weight_to (map snd (ls_map s2)) t = unat (pct (ls_ic s2) t)"
      using wt weight_to_map [OF w2] by simp
    show "\<forall>t. pct (ls_ic s2) t \<noteq> 0 \<longrightarrow> (\<exists>i. map_of ic t = Some i \<and> takes_traffic i)"
      using given by blast
  next
    have "(\<exists>i \<in> snd ` set ic. takes_traffic i) \<longleftrightarrow> tags \<noteq> []"
    proof
      assume "\<exists>i \<in> snd ` set ic. takes_traffic i"
      then obtain i where i: "map_of ic (inc_tag i) = Some i" "takes_traffic i"
        using wf_mem [OF wf] by blast
      then obtain j where "map_of ic1 (inc_tag i) = Some j" using z(3) by blast
      then have "inc_tag i \<in> set tags" using traffic i tags_mem by blast
      then show "tags \<noteq> []" by auto
    next
      assume "tags \<noteq> []"
      then obtain t where "t \<in> set tags" by (cases tags) auto
      then obtain j where j: "map_of ic1 t = Some j" "takes_traffic j" using tags_mem by blast
      then obtain i where "map_of ic t = Some i" using entry by blast
      then show "\<exists>i \<in> snd ` set ic. takes_traffic i"
        using traffic j by (force dest: map_of_SomeD)
    qed
    moreover have "tags = [] \<Longrightarrow> s2 = s0" using s2(1) s1(1) by (simp add: prepare_leftover_def)
    then have "tags = [] \<Longrightarrow> total_weight (ls_map s2) = 0"
      using deployed_weights_zero [of x ic] by (simp add: s0_def)
    ultimately show "sum_list (map (\<lambda>pr. unat (prv_Weight pr)) (map snd (ls_map s2))) =
        (if \<exists>i \<in> snd ` set ic. takes_traffic i then 100 else 0)"
      using inv2 unfolding total_map_snd by (auto simp: loop_inv_def)
  next
    show "\<forall>t. elig (ls_ic s2) t \<noteq> elig ic t \<longrightarrow> pct (ls_ic s2) t = 0 \<and> \<not> elig (ls_ic s2) t"
    proof (intro allI impI)
      fix t assume ne: "elig (ls_ic s2) t \<noteq> elig ic t"
      have same: "elig ic1 t = elig ic t"
      proof (cases "map_of ic1 t")
        case None
        moreover have "rel_option alike (map_of ic1 t) (map_of ic t)" using z(2) by (simp add: all_alike_def)
        ultimately have "map_of ic t = None" by simp
        with None show ?thesis by (simp add: elig_def)
      next
        case (Some j)
        from entry [OF this] show ?thesis using Some by (auto simp: elig_def)
      qed
      have "t \<in> set tags"
      proof (rule ccontr)
        assume "t \<notin> set tags"
        then have "map_of (ls_ic s2) t = map_of ic1 t" using inv2(1) by (simp add: loop_inv_def)
        then show False using ne same by (simp add: elig_def)
      qed
      then obtain k where k: "k < length tags" "t = tags ! k" by (auto simp: in_set_conv_nth)
      then show "pct (ls_ic s2) t = 0 \<and> \<not> elig (ls_ic s2) t"
        using inv2(1) ne same unfolding loop_inv_def by auto
    qed
  qed
qed

end
