(* ===== verification/Syncer.thy ===== *)
theory Syncer
  imports Traffic
begin

text \<open>
  The reconciliation of a release manager, \<^verbatim>\<open>src/controllers/syncer.go\<close>: the \<^verbatim>\<open>ResourceSyncer\<close> runs
  its steps in order, up to the first error, over the incarnations and the clusters. The Prometheus gauges
  are not modelled.
\<close>

section \<open>State and sequencing\<close>

text \<open>
  What a step changes: the incarnations, and the state \<open>'c\<close> of the clusters. A step returns its error,
  or panics.
\<close>

type_synonym 'c sync_state = "Collection \<times> 'c"
type_synonym 'c sync_step = "'c sync_state \<Rightarrow> (goerror option \<times> 'c sync_state) option"

text \<open>\<^verbatim>\<open>if err = f(); err != nil { return }\<close>\<close>

definition step_then :: "'c sync_step \<Rightarrow> 'c sync_step \<Rightarrow> 'c sync_step" where
  "step_then f g s = do {
     (err, s) \<leftarrow> f s;
     (case err of Some e \<Rightarrow> Some (Some e, s) | None \<Rightarrow> g s)
   }"

fun steps :: "'c sync_step list \<Rightarrow> 'c sync_step" where
  "steps [] s = Some (None, s)"
| "steps (f # fs) s = step_then f (steps fs) s"

definition apply_step :: "'c Ctx \<Rightarrow> Plan \<Rightarrow> 'c sync_step" where
  "apply_step x p s = (let (err, c) = x_apply x p (snd s) in Some (err, (fst s, c)))"

definition no_step :: "'c sync_step" where
  "no_step s = Some (None, s)"

section \<open>The namespace and its waypoint\<close>

definition hasReplicas :: "'c Ctx \<Rightarrow> bool \<Rightarrow> Collection \<Rightarrow> bool" where
  "hasReplicas x ambient ic = list_ex (\<lambda>i. hasRevision i \<and>
     (case target (x_rm x) i of
        None \<Rightarrow> False
      | Some t \<Rightarrow> rt_AmbientMesh t = ambient \<and> rsc_Desired (rs_Scale (inc_status i)) > 0))
     (sorted_incs ic)"

definition hasAmbientReplicas :: "'c Ctx \<Rightarrow> Collection \<Rightarrow> bool" where
  "hasAmbientReplicas x ic = hasReplicas x True ic"

definition hasSidecarReplicas :: "'c Ctx \<Rightarrow> Collection \<Rightarrow> bool" where
  "hasSidecarReplicas x ic = hasReplicas x False ic"

text \<open>The target of the newest incarnation.\<close>

definition newest_target :: "'c Ctx \<Rightarrow> Collection \<Rightarrow> RevisionTarget option" where
  "newest_target x ic = (case sorted_incs ic of [] \<Rightarrow> None | i # _ \<Rightarrow> target (x_rm x) i)"

definition effectiveWaypointResources :: "'c Ctx \<Rightarrow> Collection \<Rightarrow> ResourceRequirements option" where
  "effectiveWaypointResources x ic = (case newest_target x ic of
     None \<Rightarrow> None
   | Some t \<Rightarrow>
       if rr_Requests (rt_WaypointResources t) = [] \<and> rr_Limits (rt_WaypointResources t) = [] then None
       else Some (rt_WaypointResources t))"

definition default_WaypointHPA :: WaypointHPASpec where
  "default_WaypointHPA =
     \<lparr>wh_MinReplicas = 2, wh_MaxReplicas = 20, wh_TargetCPUUtilizationPercentage = 70\<rparr>"

definition effectiveWaypointHPA :: "'c Ctx \<Rightarrow> Collection \<Rightarrow> WaypointHPASpec option" where
  "effectiveWaypointHPA x ic = (case newest_target x ic of
     None \<Rightarrow> None
   | Some t \<Rightarrow> (case rt_WaypointHPA t of
       Some spec \<Rightarrow>
         if wh_MinReplicas spec \<ge> 2 then
           (let spec = (if wh_MaxReplicas spec < 1 then spec\<lparr>wh_MaxReplicas := 20\<rparr> else spec);
                spec = (if wh_TargetCPUUtilizationPercentage spec < 1
                        then spec\<lparr>wh_TargetCPUUtilizationPercentage := 70\<rparr> else spec)
            in Some spec)
         else Some default_WaypointHPA
     | None \<Rightarrow> Some default_WaypointHPA))"

definition effectiveAmbientMesh :: "'c Ctx \<Rightarrow> Collection \<Rightarrow> bool" where
  "effectiveAmbientMesh x ic =
     (case newest_target x ic of None \<Rightarrow> False | Some t \<Rightarrow> rt_AmbientMesh t)"

text \<open>The mode of the mesh: \<^verbatim>\<open>ambientMesh\<close> and \<^verbatim>\<open>transitionToSidecar\<close>.\<close>

definition mesh_mode :: "'c Ctx \<Rightarrow> Collection \<Rightarrow> bool \<times> bool" where
  "mesh_mode x ic = (let ambientReplicas = hasAmbientReplicas x ic;
       sidecarReplicas = hasSidecarReplicas x ic in
     if ambientReplicas \<and> sidecarReplicas then (False, True)
     else if ambientReplicas \<and> \<not> effectiveAmbientMesh x ic then (False, True)
     else if ambientReplicas then (True, False)
     else if sidecarReplicas then (False, False)
     else (effectiveAmbientMesh x ic, False))"

definition ensure_waypoint :: "'c Ctx \<Rightarrow> 'c sync_step" where
  "ensure_waypoint x s = (let ic = fst s; ns = TargetNamespace (x_rm x); hpa = effectiveWaypointHPA x ic;
       minReplicas = (case hpa of Some h \<Rightarrow> if wh_MinReplicas h \<ge> 2 then wh_MinReplicas h else 2 | None \<Rightarrow> 2);
       hpa = (case hpa of Some h \<Rightarrow> Some h | None \<Rightarrow> Some default_WaypointHPA) in
     steps [apply_step x (PlanEnsureWaypointOptions
         \<lparr>ewo_Namespace = ns, ewo_App = rmsp_App (rm_Spec (x_rm x)),
          ewo_Env = rmsp_Target (rm_Spec (x_rm x)), ewo_Resources = effectiveWaypointResources x ic\<rparr>),
       apply_step x (PlanEnsureWaypoint ns),
       apply_step x (PlanEnsureWaypointPDB \<lparr>ewp_Namespace = ns, ewp_MinReplicas = minReplicas\<rparr>),
       apply_step x (PlanEnsureWaypointHPA \<lparr>ewh_Namespace = ns, ewh_HPA = hpa\<rparr>)] s)"

definition delete_waypoint :: "'c Ctx \<Rightarrow> 'c sync_step" where
  "delete_waypoint x = (let ns = TargetNamespace (x_rm x) in
     steps [apply_step x (PlanDeleteWaypoint ns), apply_step x (PlanDeleteWaypointOptions ns),
       apply_step x (PlanDeleteWaypointPDB ns), apply_step x (PlanDeleteWaypointHPA ns)])"

definition syncNamespace :: "'c Ctx \<Rightarrow> 'c sync_step" where
  "syncNamespace x s = (let (ambientMesh, transitionToSidecar) = mesh_mode x (fst s) in
     step_then (apply_step x (PlanEnsureNamespace
         \<lparr>ens_Name = TargetNamespace (x_rm x), ens_OwnerName = om_Name (rm_Meta (x_rm x)),
          ens_OwnerType = OwnerReleaseManager, ens_AmbientMesh = ambientMesh,
          ens_TransitionToSidecar = transitionToSidecar\<rparr>))
       (if ambientMesh \<or> transitionToSidecar then ensure_waypoint x else delete_waypoint x) s)"

section \<open>Accounts, metrics, ticks and observation\<close>

definition syncServiceAccount :: "'c Ctx \<Rightarrow> 'c sync_step" where
  "syncServiceAccount x = apply_step x (PlanEnsureServiceAccount
     \<lparr>esa_Name = rmsp_App (rm_Spec (x_rm x)), esa_OwnerName = om_Name (rm_Meta (x_rm x)),
      esa_OwnerType = OwnerReleaseManager, esa_Namespace = TargetNamespace (x_rm x)\<rparr>)"

definition syncRBAC :: "'c Ctx \<Rightarrow> 'c sync_step" where
  "syncRBAC x = apply_step x (PlanEnsureRBAC
     \<lparr>erb_Name = rmsp_App (rm_Spec (x_rm x)), erb_OwnerName = om_Name (rm_Meta (x_rm x)),
      erb_OwnerType = OwnerReleaseManager, erb_Namespace = TargetNamespace (x_rm x),
      erb_ServiceAccountName = rmsp_App (rm_Spec (x_rm x))\<rparr>)"

definition reportMetrics :: "time \<Rightarrow> 'c sync_step" where
  "reportMetrics now s = Some (None, (map (\<lambda>(t, i). (t, inc_reportMetrics now i)) (fst s), snd s))"

text \<open>One incarnation's tick, through its pointer: the entry of its tag.\<close>

definition tick_tag :: "'c Ctx \<Rightarrow> time \<Rightarrow> string \<Rightarrow> 'c sync_step" where
  "tick_tag x now tag s = do {
     i \<leftarrow> map_of (fst s) tag;
     (err, i', c) \<leftarrow> inc_tick x now (i, snd s);
     Some (err, (modify tag (\<lambda>_. i') (fst s), c))
   }"

definition tickIncarnations :: "'c Ctx \<Rightarrow> time \<Rightarrow> 'c sync_step" where
  "tickIncarnations x now s =
     steps (map (\<lambda>i. tick_tag x now (inc_tag i)) (sorted_incs (fst s))) s"

definition sync_observe :: "'c Ctx \<Rightarrow> time \<Rightarrow> 'c sync_step" where
  "sync_observe x now s = (case x_observe x (TargetNamespace (x_rm x)) (snd s) of
     Inl err \<Rightarrow> Some (Some err, s)
   | Inr observation \<Rightarrow>
       Some (None, (collection_update (x_clusterInfo x) now observation (fst s), snd s)))"

section \<open>The application\<close>

definition app_labels :: "'c Ctx \<Rightarrow> strmap" where
  "app_labels x =
     [(LabelApp, rmsp_App (rm_Spec (x_rm x))), (LabelK8sName, rmsp_App (rm_Spec (x_rm x))),
      (LabelIstioApp, rmsp_App (rm_Spec (x_rm x))), (LabelOwnerType, OwnerReleaseManager),
      (LabelOwnerName, om_Name (rm_Meta (x_rm x)))]"

text \<open>The ports of the incarnations by name; the first incarnation with a name decides.\<close>

definition port_map :: "'c Ctx \<Rightarrow> Incarnation list \<Rightarrow> (string \<times> PortInfo) list" where
  "port_map x incs = fold (\<lambda>i m. fold (\<lambda>p m.
       if map_of m (pi_Name p) = None then AList.update (pi_Name p) p m else m)
     (ports (x_rm x) i) m) incs []"

text \<open>The alert rules and the service monitors are those of the first alertable incarnation with a target.\<close>

definition first_target :: "'c Ctx \<Rightarrow> Incarnation list \<Rightarrow> RevisionTarget option" where
  "first_target x incs = (case find (\<lambda>i. target (x_rm x) i \<noteq> None) incs of
     None \<Rightarrow> None | Some i \<Rightarrow> target (x_rm x) i)"

definition prepareAlertRules :: "'c Ctx \<Rightarrow> Collection \<Rightarrow> Rule list" where
  "prepareAlertRules x ic = (if deployed_incs ic \<noteq> [] then
     (case first_target x (alertable ic) of None \<Rightarrow> [] | Some t \<Rightarrow> rt_AlertRules t) else [])"

definition prepareServiceMonitors :: "'c Ctx \<Rightarrow> Collection \<Rightarrow> ServiceMonitor list" where
  "prepareServiceMonitors x ic = (if deployed_incs ic \<noteq> [] then
     (case first_target x (alertable ic) of None \<Rightarrow> [] | Some t \<Rightarrow> rt_ServiceMonitors t) else [])"

definition zero_SLOLabels :: ServiceLevelObjectiveLabels where
  "zero_SLOLabels = \<lparr>sl_AlertLabels = [], sl_RuleLabels = [], sl_ServiceLevelLabels = []\<rparr>"

definition prepareServiceLevelObjectives ::
  "'c Ctx \<Rightarrow> Collection \<Rightarrow> SlothServiceLevelObjective list \<times> ServiceLevelObjectiveLabels" where
  "prepareServiceLevelObjectives x ic =
     (case (if deployed_incs ic \<noteq> [] then first_target x (releasable ic) else None) of
        None \<Rightarrow> ([], zero_SLOLabels)
      | Some t \<Rightarrow> (filter slo_Enabled (rt_SlothServiceLevelObjectives t),
                   rt_ServiceLevelObjectiveLabels t))"

text \<open>
  \<^verbatim>\<open>syncApp\<close> divides the traffic, then applies the plan; the last of the incarnations decides the ingress
  ports and the sidecar, through a pointer that is not tested.
\<close>

definition syncApp :: "'c Ctx \<Rightarrow> HTTPPortFault list \<Rightarrow> time \<Rightarrow> 'c sync_step" where
  "syncApp x faults now s = (let ic = fst s;
       incarnations = deployed_incs ic @ filter (\<lambda>i. state_of i = deploying) (sorted_incs ic) in
     if incarnations = [] then Some (None, s)
     else do {
       let ports = map snd (port_map x incarnations);
       (revisions, ic) \<leftarrow> prepareRevisions x now ic;
       let alertRules = prepareAlertRules x ic;
       latestTarget \<leftarrow> target (x_rm x) (last incarnations);
       apply_step x (PlanSyncApp
         \<lparr>sap_App = rmsp_App (rm_Spec (x_rm x)), sap_Target = rmsp_Target (rm_Spec (x_rm x)),
          sap_Fleet = rmsp_Fleet (rm_Spec (x_rm x)), sap_Namespace = TargetNamespace (x_rm x),
          sap_Labels = app_labels x, sap_DeployedRevisions = revisions, sap_AlertRules = alertRules,
          sap_Ports = ports, sap_HTTPPortFaults = faults,
          sap_IstioSidecarConfig =
            (case rt_Istio latestTarget of None \<Rightarrow> None | Some is \<Rightarrow> ist_Sidecar is),
          sap_DefaultIngressPorts = rt_DefaultIngressPorts latestTarget,
          sap_DevRoutesServiceHost = conf_DevRoutesServiceHost (x_config x),
          sap_DevRoutesServicePort = conf_DevRoutesServicePort (x_config x)\<rparr>) (ic, snd s)
     })"


section \<open>Monitors, objectives and garbage\<close>

definition syncServiceMonitors :: "'c Ctx \<Rightarrow> 'c sync_step" where
  "syncServiceMonitors x s = (let ic = fst s; serviceMonitors = prepareServiceMonitors x ic;
       (slos, _) = prepareServiceLevelObjectives x ic in
     if serviceMonitors = [] then
       apply_step x (PlanDeleteServiceMonitors
         \<lparr>dsm_App = rmsp_App (rm_Spec (x_rm x)), dsm_Namespace = TargetNamespace (x_rm x)\<rparr>) s
     else
       apply_step x (PlanSyncServiceMonitors
         \<lparr>ssm_App = rmsp_App (rm_Spec (x_rm x)), ssm_Namespace = TargetNamespace (x_rm x),
          ssm_Labels = app_labels x, ssm_ServiceMonitors = serviceMonitors,
          ssm_ServiceLevelObjectives = slos\<rparr>) s)"

definition syncSLORules :: "'c Ctx \<Rightarrow> 'c sync_step" where
  "syncSLORules x s = (let (slos, labels) = prepareServiceLevelObjectives x (fst s) in
     if slos \<noteq> [] then
       apply_step x (PlanSyncSLORules
         \<lparr>ssr_App = rmsp_App (rm_Spec (x_rm x)), ssr_Namespace = TargetNamespace (x_rm x),
          ssr_Labels = app_labels x, ssr_ServiceLevelObjectiveLabels = labels,
          ssr_ServiceLevelObjectives = slos\<rparr>) s
     else
       apply_step x (PlanDeleteSLORules
         \<lparr>dsr_App = rmsp_App (rm_Spec (x_rm x)), dsr_Namespace = TargetNamespace (x_rm x)\<rparr>) s)"

definition syncServiceLevels :: "'c Ctx \<Rightarrow> 'c sync_step" where
  "syncServiceLevels x s = (
     let levels = conf_ServiceLevelsNamespace (x_config x);
         (slos, labels) = prepareServiceLevelObjectives x (fst s) in
     if levels = [] then Some (None, s)
     else if slos \<noteq> [] then
       steps [apply_step x (PlanEnsureNamespace
           \<lparr>ens_Name = levels, ens_OwnerName = [], ens_OwnerType = [], ens_AmbientMesh = False,
            ens_TransitionToSidecar = False\<rparr>),
         apply_step x (PlanSyncServiceLevels
           \<lparr>ssl_App = rmsp_App (rm_Spec (x_rm x)), ssl_Target = rmsp_Target (rm_Spec (x_rm x)),
            ssl_Namespace = levels,
            ssl_Labels = [(LabelApp, rmsp_App (rm_Spec (x_rm x))),
              (LabelTarget, rmsp_Target (rm_Spec (x_rm x)))],
            ssl_ServiceLevelObjectiveLabels = labels, ssl_ServiceLevelObjectives = slos\<rparr>)] s
     else
       apply_step x (PlanDeleteServiceLevels
         \<lparr>dsl_App = rmsp_App (rm_Spec (x_rm x)), dsl_Target = rmsp_Target (rm_Spec (x_rm x)),
          dsl_Namespace = levels\<rparr>) s)"

definition garbageCollection :: "'c Ctx \<Rightarrow> time \<Rightarrow> 'c sync_step" where
  "garbageCollection x now s = do {
     (err, c) \<leftarrow> markGarbage x now (sorted_incs (fst s)) (snd s);
     Some (err, (fst s, c))
   }"

section \<open>The whole reconciliation\<close>

text \<open>
  The statuses to write back, from the oldest incarnation to the newest: an incarnation that is deleted
  and has no revision is left out. \<open>good\<close> is \<^verbatim>\<open>foundGoodRelease\<close>, \<open>latest\<close> is
  \<^verbatim>\<open>latestRetiredStatus\<close> with \<open>None\<close> for -1. \<^verbatim>\<open>revision.Failed()\<close> panics on a
  missing revision.
\<close>

fun collect_statuses :: "Incarnation list \<Rightarrow> ReleaseManagerRevisionStatus list \<Rightarrow> bool \<Rightarrow> nat option \<Rightarrow>
    (ReleaseManagerRevisionStatus list \<times> bool \<times> nat option) option" where
  "collect_statuses [] rs good latest = Some (rs, good, latest)"
| "collect_statuses (i # is) rs good latest = (let status = inc_status i; state = state_of i in
     if state = deleted then
       (if inc_revision i = None then collect_statuses is rs good latest
        else collect_statuses is (rs @ [status]) good latest)
     else if state \<in> {retired, retiring} then
       collect_statuses is (rs @ [status]) good (Some (length rs))
     else if state \<in> {deploying, deployed, pendingrelease, releasing, released} then
       (case inc_revision i of
          None \<Rightarrow> None
        | Some revision \<Rightarrow>
            collect_statuses is (rs @ [status])
              (good \<or> \<not> Revision_Failed revision \<and> rs_PeakPercent status > 0) latest)
     else collect_statuses is (rs @ [status]) good latest)"

text \<open>Without a good release, the newest retired one is made eligible for a fast release.\<close>

definition recommission ::
  "ReleaseManagerRevisionStatus list \<Rightarrow> bool \<Rightarrow> nat option \<Rightarrow> ReleaseManagerRevisionStatus list" where
  "recommission rs good latest = (case latest of
     None \<Rightarrow> rs
   | Some n \<Rightarrow>
       if \<not> good \<and> n < length rs
       then rs[n := (rs ! n)\<lparr>rs_ReleaseEligible := True, rs_PeakPercent := 100\<rparr>]
       else rs)"

definition final_statuses :: "Collection \<Rightarrow> ReleaseManagerRevisionStatus list option" where
  "final_statuses ic = do {
     (rs, good, latest) \<leftarrow> collect_statuses (List.rev (sorted_incs ic)) [] False None;
     Some (recommission rs good latest)
   }"

definition deleteInstance :: "'c Ctx \<Rightarrow> 'c sync_step" where
  "deleteInstance x s = (let (err, c) = x_deleteReleaseManager x (x_rm x) (snd s) in Some (err, (fst s, c)))"

definition sync_steps :: "'c Ctx \<Rightarrow> HTTPPortFault list \<Rightarrow> time \<Rightarrow> 'c sync_step list" where
  "sync_steps x faults now =
     [syncNamespace x, syncServiceAccount x, syncRBAC x, reportMetrics now, tickIncarnations x now,
      sync_observe x now, syncApp x faults now, syncServiceMonitors x, syncSLORules x,
      syncServiceLevels x, garbageCollection x now]"

text \<open>\<^verbatim>\<open>ResourceSyncer.sync\<close>: the error or the statuses, and the state after.\<close>

definition ResourceSyncer_sync :: "'c Ctx \<Rightarrow> HTTPPortFault list \<Rightarrow> time \<Rightarrow> 'c sync_state \<Rightarrow>
    ((goerror + ReleaseManagerRevisionStatus list) \<times> 'c sync_state) option" where
  "ResourceSyncer_sync x faults now s = (
     if revisioned (fst s) = [] then do {
       (err, s) \<leftarrow> step_then (syncServiceLevels x) (deleteInstance x) s;
       Some (case err of Some e \<Rightarrow> Inl e | None \<Rightarrow> Inr [], s)
     } else do {
       (err, s) \<leftarrow> steps (sync_steps x faults now) s;
       (case err of
          Some e \<Rightarrow> Some (Inl e, s)
        | None \<Rightarrow> do {
            rs \<leftarrow> final_statuses (fst s);
            Some (Inr rs, s)
          })
     })"

definition syncer_del :: "'c Ctx \<Rightarrow> 'c sync_step" where
  "syncer_del x = apply_step x (PlanDeleteApp \<lparr>dap_Namespace = TargetNamespace (x_rm x)\<rparr>)"

end
