(* ===== verification/Reconcile.thy ===== *)
theory Reconcile
  imports Syncer
begin

text \<open>
  Facts on the reconciliation of \<^verbatim>\<open>Syncer\<close>: what every sequence of steps keeps, that the last loop of
  \<^verbatim>\<open>sync\<close> cannot meet a missing revision, which statuses it writes back, and when the waypoint stays.
\<close>

section \<open>Sequences of steps\<close>

text \<open>\<open>f\<close> keeps \<open>P\<close> whatever it returns, and \<open>f\<close> establishes \<open>Q\<close> from \<open>P\<close> when it succeeds.\<close>

definition keeps :: "('c sync_state \<Rightarrow> bool) \<Rightarrow> 'c sync_step \<Rightarrow> bool" where
  "keeps P f \<longleftrightarrow> (\<forall>s err s'. P s \<longrightarrow> f s = Some (err, s') \<longrightarrow> P s')"

definition achieves :: "('c sync_state \<Rightarrow> bool) \<Rightarrow> 'c sync_step \<Rightarrow> ('c sync_state \<Rightarrow> bool) \<Rightarrow> bool" where
  "achieves P f Q \<longleftrightarrow> (\<forall>s s'. P s \<longrightarrow> f s = Some (None, s') \<longrightarrow> Q s')"

lemma keepsI: "(\<And>s err s'. P s \<Longrightarrow> f s = Some (err, s') \<Longrightarrow> P s') \<Longrightarrow> keeps P f"
  unfolding keeps_def by blast

lemma keepsD: "keeps P f \<Longrightarrow> f s = Some (err, s') \<Longrightarrow> P s \<Longrightarrow> P s'"
  unfolding keeps_def by blast

lemma keeps_achieves: "keeps P f \<Longrightarrow> achieves P f P"
  unfolding keeps_def achieves_def by blast

lemma achievesD: "achieves P f Q \<Longrightarrow> f s = Some (None, s') \<Longrightarrow> P s \<Longrightarrow> Q s'"
  unfolding achieves_def by blast

text \<open>How a sequence of two steps returns.\<close>

lemma step_thenE:
  assumes "step_then f g s = Some (err, s')"
  obtains (fails) e where "err = Some e" "f s = Some (Some e, s')"
    | (goes) s1 where "f s = Some (None, s1)" "g s1 = Some (err, s')"
  using assms by (auto simp: step_then_def split: Option.bind_splits option.splits)

lemma keeps_step_then: "keeps P f \<Longrightarrow> keeps P g \<Longrightarrow> keeps P (step_then f g)"
  by (rule keepsI, erule step_thenE) (blast dest: keepsD)+

lemma keeps_steps: "\<forall>f \<in> set fs. keeps P f \<Longrightarrow> keeps P (steps fs)"
proof (induction fs)
  case Nil
  show ?case by (rule keepsI) simp
next
  case (Cons f fs)
  then have "keeps P (step_then f (steps fs))" by (intro keeps_step_then) simp_all
  then show ?case by (simp add: keeps_def del: split_paired_All)
qed

lemma achieves_steps:
  assumes "achieves P f Q" "achieves Q (steps fs) R"
  shows "achieves P (steps (f # fs)) R"
  unfolding achieves_def steps.simps
  by (intro allI impI, erule step_thenE) (use assms in \<open>auto dest: achievesD\<close>)

text \<open>A sequence succeeds when each of its steps does.\<close>

lemma steps_append:
  "steps (fs @ gs) s = step_then (steps fs) (steps gs) s"
proof (induction fs arbitrary: s)
  case (Cons f fs)
  then show ?case
    by (cases "f s") (auto simp: step_then_def split: option.split)
qed (simp add: step_then_def)

section \<open>Steps that keep the collection\<close>

text \<open>The steps that only apply plans or mark revisions change nothing of it.\<close>

definition keeps_incs :: "'c sync_step \<Rightarrow> bool" where
  "keeps_incs f \<longleftrightarrow> (\<forall>s err s'. f s = Some (err, s') \<longrightarrow> fst s' = fst s)"

lemma keeps_incsI: "(\<And>s err s'. f s = Some (err, s') \<Longrightarrow> fst s' = fst s) \<Longrightarrow> keeps_incs f"
  unfolding keeps_incs_def by blast

lemma keeps_incsD: "keeps_incs f \<Longrightarrow> f s = Some (err, s') \<Longrightarrow> fst s' = fst s"
  unfolding keeps_incs_def by blast

lemma apply_step_fst: "apply_step x p s = Some (err, s') \<Longrightarrow> fst s' = fst s"
  by (auto simp: apply_step_def Let_def split: prod.splits)

lemma keeps_incs_apply [simp]: "keeps_incs (apply_step x p)"
  by (rule keeps_incsI) (rule apply_step_fst)

lemma keeps_incs_then: "keeps_incs f \<Longrightarrow> keeps_incs g \<Longrightarrow> keeps_incs (step_then f g)"
  by (rule keeps_incsI, erule step_thenE) (metis keeps_incsD)+

lemma keeps_incs_steps: "list_all keeps_incs fs \<Longrightarrow> keeps_incs (steps fs)"
proof (induction fs)
  case Nil
  show ?case by (rule keeps_incsI) simp
next
  case (Cons f fs)
  then have "keeps_incs (step_then f (steps fs))" by (intro keeps_incs_then) simp_all
  then show ?case by (simp add: keeps_incs_def del: split_paired_All)
qed

lemma keeps_incs_keeps: "keeps_incs f \<Longrightarrow> keeps (\<lambda>s. P (fst s)) f"
  by (rule keepsI) (metis keeps_incsD)

lemmas steps_fst = keeps_incsD [OF keeps_incs_steps, rotated]

lemma keeps_incs_waypoint: "keeps_incs (ensure_waypoint x)" "keeps_incs (delete_waypoint x)"
proof -
  show "keeps_incs (ensure_waypoint x)"
    by (rule keeps_incsI, unfold ensure_waypoint_def Let_def, erule steps_fst, simp)
  show "keeps_incs (delete_waypoint x)"
    unfolding delete_waypoint_def Let_def by (rule keeps_incs_steps) simp
qed

lemma keeps_incs_syncNamespace: "keeps_incs (syncNamespace x)"
proof (rule keeps_incsI)
  fix s :: "'a sync_state" and err s'
  assume s: "syncNamespace x s = Some (err, s')"
  obtain a t where m: "mesh_mode x (fst s) = (a, t)" by force
  have "keeps_incs (step_then (apply_step x p) (if b then ensure_waypoint x else delete_waypoint x))" for p b
    by (rule keeps_incs_then) (simp_all add: keeps_incs_waypoint)
  from keeps_incsD [OF this] s show "fst s' = fst s" unfolding syncNamespace_def m by auto
qed

lemma keeps_incs_later:
  "keeps_incs (syncServiceMonitors x)" "keeps_incs (syncSLORules x)" "keeps_incs (syncServiceLevels x)"
  "keeps_incs (garbageCollection x now)" "keeps_incs (deleteInstance x)"
proof -
  show "keeps_incs (syncServiceMonitors x)" "keeps_incs (syncSLORules x)"
    by (rule keeps_incsI, auto simp: syncServiceMonitors_def syncSLORules_def Let_def split: if_splits prod.splits
      dest: apply_step_fst)+
  show "keeps_incs (syncServiceLevels x)"
    by (rule keeps_incsI) (auto simp: syncServiceLevels_def Let_def simp del: steps.simps split: if_splits prod.splits
      dest: apply_step_fst steps_fst)
  show "keeps_incs (garbageCollection x now)" "keeps_incs (deleteInstance x)"
    by (auto simp: keeps_incs_def garbageCollection_def deleteInstance_def Let_def
      split: Option.bind_splits prod.splits)
qed

section \<open>No missing revision\<close>

text \<open>The states in which the last loop reads the revision.\<close>

definition revision_states :: "State set" where
  "revision_states = {deploying, deployed, pendingrelease, releasing, released}"

definition safe :: "Incarnation \<Rightarrow> bool" where
  "safe i \<longleftrightarrow> (state_of i \<in> revision_states \<longrightarrow> hasRevision i)"

definition all_safe :: "'c sync_state \<Rightarrow> bool" where
  "all_safe s \<longleftrightarrow> (\<forall>p \<in> set (fst s). safe (snd p))"

context deployment_contract
begin

lemma tick_live_revision:
  assumes "tick d now lu w = Some (None, w')" "current d w' \<in> revision_states"
  shows "d_hasRevision d w'"
  using assms(1)
proof (cases rule: tickE)
  case (ok h w1)
  have "d_hasRevision d w"
    using ok(1,2) assms(2)
    by (cases "current d w")
      (auto simp: handler_defs Let_def observed_def revision_states_def elim!: callE
        split: if_splits ExternalTestStatus.splits Option.bind_splits)
  then show ?thesis using ok(5) by (simp add: observed_def)
qed simp

end

lemma tick_safe: "inc_tick x now (i, c) = Some (None, i', c') \<Longrightarrow> safe i'"
  unfolding inc_tick_def
  using inc.tick_live_revision [of x now now _ "(i, c)" "(i', c')"]
  by (simp only: current_inc) (simp add: safe_def inc_deployment_def)

lemma tick_tag_cases:
  assumes "tick_tag x now tag s = Some (err, s')"
  obtains i i' c' where "map_of (fst s) tag = Some i"
    "inc_tick x now (i, snd s) = Some (err, i', c')"
    "s' = (modify tag (\<lambda>_. i') (fst s), c')"
  using assms by (auto simp: tick_tag_def Let_def split: Option.bind_splits prod.splits)

lemma in_modify: "(t, i) \<in> set (modify tag f ic) \<longleftrightarrow> (\<exists>j. (t, j) \<in> set ic \<and> i = (if t = tag then f j else j))"
  by (force simp: modify_def)

lemma ticks_safe:
  assumes "steps (map (tick_tag x now) tags) s = Some (None, s')"
    "\<forall>(t, i) \<in> set (fst s). t \<in> set tags \<or> safe i"
  shows "all_safe s'"
  using assms
proof (induction tags arbitrary: s)
  case Nil
  then show ?case by (auto simp: all_safe_def)
next
  case (Cons tag tags)
  then obtain s1 where s1: "tick_tag x now tag s = Some (None, s1)"
    "steps (map (tick_tag x now) tags) s1 = Some (None, s')"
    by (auto simp: step_then_def split: Option.bind_splits option.splits)
  from s1(1) obtain i i' c' where t: "s1 = (modify tag (\<lambda>_. i') (fst s), c')" "safe i'"
    by (rule tick_tag_cases) (blast dest: tick_safe)
  have "t \<in> set tags \<or> safe j" if "(t, j) \<in> set (fst s1)" for t j
    using Cons.prems(2) t that by (auto simp: in_modify split: if_splits)
  then have "\<forall>(t, i) \<in> set (fst s1). t \<in> set tags \<or> safe i" by blast
  with Cons.IH s1(2) show ?case by blast
qed

lemma tickIncarnations_safe:
  assumes "tickIncarnations x now s = Some (None, s')" "wf_collection (fst s)"
  shows "all_safe s'"
proof (rule ticks_safe [of x now "map inc_tag (sorted_incs (fst s))" s])
  show "steps (map (tick_tag x now) (map inc_tag (sorted_incs (fst s)))) s = Some (None, s')"
    using assms(1) by (simp add: tickIncarnations_def o_def)
  show "\<forall>(t, i) \<in> set (fst s). t \<in> set (map inc_tag (sorted_incs (fst s))) \<or> safe i"
    using assms(2) by (force simp: wf_collection_def)
qed

text \<open>The steps after the ticks change neither states nor revisions.\<close>

definition same_revision :: "Incarnation \<Rightarrow> Incarnation \<Rightarrow> bool" where
  "same_revision i j \<longleftrightarrow> state_of i = state_of j \<and> inc_revision i = inc_revision j"

lemma safe_same: "same_revision i j \<Longrightarrow> safe i = safe j"
  by (simp add: safe_def same_revision_def hasRevision_def)

definition safe_incs :: "Collection \<Rightarrow> bool" where
  "safe_incs ic \<longleftrightarrow> (\<forall>p \<in> set ic. safe (snd p))"

lemma safe_incs_modify:
  assumes "safe_incs ic" "\<And>i. map_of ic tag = Some i \<Longrightarrow> same_revision (f i) i" "\<And>i j. f i = f j"
  shows "safe_incs (modify tag f ic)"
proof (cases "map_of ic tag")
  case None
  then have "modify tag f ic = ic"
    by (force simp: modify_def map_of_eq_None_iff intro!: map_idI)
  with assms(1) show ?thesis by simp
next
  case (Some i)
  then have "safe (f i)" using assms(1,2) safe_same map_of_SomeD [OF Some] by (auto simp: safe_incs_def)
  then have f: "safe (f j)" for j using assms(3) [of j i] by simp
  have "safe j" if "(t, j) \<in> set (modify tag f ic)" for t j
    using assms(1) that f by (cases "t = tag") (auto simp: safe_incs_def in_modify)
  then show ?thesis by (auto simp: safe_incs_def)
qed

lemma safe_zero_unreleasable: "safe_incs ic \<Longrightarrow> safe_incs (zero_unreleasable now ic)"
proof -
  have one: "safe_incs jc \<Longrightarrow> safe_incs (modify t (updateCurrentPercent now 0) jc)" for t and jc
    by (fastforce simp: safe_incs_def in_modify safe_def state_of_def hasRevision_def)
  have "safe_incs jc \<Longrightarrow> safe_incs (fold (\<lambda>t. modify t (updateCurrentPercent now 0)) ts jc)" for ts jc
    by (induction ts arbitrary: jc) (auto intro: one)
  then show "safe_incs ic \<Longrightarrow> safe_incs (zero_unreleasable now ic)"
    by (simp add: zero_unreleasable_def)
qed

lemma safe_prepare_step: "prepare_step x now idx tag s = Some s' \<Longrightarrow> safe_incs (ls_ic s) \<Longrightarrow> safe_incs (ls_ic s')"
  by (auto simp: prepare_step_def Let_def same_revision_def state_of_def
      intro!: safe_incs_modify split: Option.bind_splits if_splits)

lemma safe_prepare_last: "prepare_last now tags idx s = Some s' \<Longrightarrow> safe_incs (ls_ic s) \<Longrightarrow> safe_incs (ls_ic s')"
  by (auto simp: prepare_last_def Let_def same_revision_def state_of_def
      intro!: safe_incs_modify split: Option.bind_splits if_splits option.splits)

lemma safe_prepare_loop:
  "prepare_loop x now tags idx rest s = Some s' \<Longrightarrow> safe_incs (ls_ic s) \<Longrightarrow> safe_incs (ls_ic s')"
  by (induction rest arbitrary: idx s)
    (auto split: Option.bind_splits dest!: safe_prepare_step safe_prepare_last)

lemma safe_prepare_leftover: "prepare_leftover now tags s = Some s' \<Longrightarrow> safe_incs (ls_ic s) \<Longrightarrow> safe_incs (ls_ic s')"
  by (auto simp: prepare_leftover_def Let_def same_revision_def state_of_def
      intro!: safe_incs_modify split: Option.bind_splits if_splits list.splits)

lemma safe_prepareRevisions:
  assumes "prepareRevisions x now ic = Some (revs, ic')" "safe_incs ic"
  shows "safe_incs ic'"
proof (cases "deployed_incs ic = []")
  case False
  define jc where "jc = zero_unreleasable now ic"
  define tags where "tags = map inc_tag (releasable jc)"
  obtain s1 s2 where "prepare_loop x now tags 0 tags
      \<lparr>ls_ic = jc, ls_map = deployed_weights x ic, ls_perc = 100, ls_first = None\<rparr> = Some s1"
    "prepare_leftover now tags s1 = Some s2" "ic' = ls_ic s2"
    using assms(1) False
    by (auto simp: prepareRevisions_def Let_def jc_def tags_def split: Option.bind_splits)
  moreover have "safe_incs jc" using assms(2) by (simp add: jc_def safe_zero_unreleasable)
  ultimately show ?thesis by (auto dest!: safe_prepare_loop safe_prepare_leftover)
qed (use assms in \<open>simp add: prepareRevisions_def\<close>)

lemma all_safe_incs: "all_safe s = safe_incs (fst s)"
  by (simp add: all_safe_def safe_incs_def)

lemma keeps_all_safe: "keeps_incs f \<Longrightarrow> keeps all_safe f"
  using keeps_incs_keeps [of f safe_incs] by (simp add: keeps_def all_safe_incs del: split_paired_All)

text \<open>A step that is one of several, each decided by the state, keeps what each of them keeps.\<close>

lemma keeps_cases: "(\<And>s. \<exists>f. g s = f s \<and> keeps P f) \<Longrightarrow> keeps P g"
  unfolding keeps_def by metis

lemma keeps_sync_observe: "keeps all_safe (sync_observe x now)"
  by (rule keepsI)
    (fastforce simp: sync_observe_def all_safe_def collection_update_def safe_def state_of_def
      hasRevision_def split: sum.splits)

lemma keeps_syncApp: "keeps all_safe (syncApp x faults now)"
  by (rule keepsI)
    (auto simp: syncApp_def Let_def all_safe_incs split: if_splits Option.bind_splits
      dest!: apply_step_fst safe_prepareRevisions)

text \<open>The steps before the ticks keep the collection well formed.\<close>

definition all_wf :: "'c sync_state \<Rightarrow> bool" where
  "all_wf s \<longleftrightarrow> wf_collection (fst s)"

lemma wf_keeps_incs: "keeps_incs f \<Longrightarrow> keeps all_wf f"
  using keeps_incs_keeps [of f wf_collection] by (simp add: keeps_def all_wf_def del: split_paired_All)

lemma inc_reportMetrics_tag [simp]: "inc_tag (inc_reportMetrics now i) = inc_tag i"
  by (simp add: inc_reportMetrics_def Let_def split: option.splits)

lemma wf_reportMetrics: "keeps all_wf (reportMetrics now)"
  by (rule keepsI) (auto simp: reportMetrics_def all_wf_def wf_collection_def case_prod_unfold o_def)

text \<open>
  When all the steps succeed, every incarnation in a state in which the last loop reads the revision has
  one: the tick moves an incarnation without a revision out of these states.
\<close>

lemma sync_steps_safe:
  assumes "steps (sync_steps x faults now) s = Some (None, s')" "wf_collection (fst s)"
  shows "all_safe s'"
proof -
  have rest: "achieves all_safe (steps [sync_observe x now, syncApp x faults now, syncServiceMonitors x,
      syncSLORules x, syncServiceLevels x, garbageCollection x now]) all_safe"
    by (intro keeps_achieves keeps_steps)
      (simp add: keeps_sync_observe keeps_syncApp keeps_all_safe keeps_incs_later)
  have tick: "achieves all_wf (tickIncarnations x now) all_safe"
    unfolding achieves_def all_wf_def by (blast intro: tickIncarnations_safe)
  have "achieves all_wf (steps (sync_steps x faults now)) all_safe"
    unfolding sync_steps_def syncServiceAccount_def syncRBAC_def
    by (intro achieves_steps [OF keeps_achieves [OF wf_keeps_incs [OF keeps_incs_syncNamespace]]]
        achieves_steps [OF keeps_achieves [OF wf_keeps_incs [OF keeps_incs_apply]]]
        achieves_steps [OF keeps_achieves [OF wf_reportMetrics]]
        achieves_steps [OF tick] rest)
  from achievesD [OF this assms(1)] assms(2) show ?thesis by (simp add: all_wf_def)
qed

section \<open>The statuses written back\<close>

definition parked :: "Incarnation \<Rightarrow> bool" where
  "parked i \<longleftrightarrow> state_of i = retired \<or> state_of i = retiring"

definition kept :: "Incarnation \<Rightarrow> bool" where
  "kept i \<longleftrightarrow> \<not> (state_of i = deleted \<and> \<not> hasRevision i)"

text \<open>A good release: on its way or released, not failed, and it has had traffic.\<close>

definition good_release :: "Incarnation \<Rightarrow> bool" where
  "good_release i \<longleftrightarrow> state_of i \<in> revision_states \<and> peakPercent i > 0 \<and>
     (case inc_revision i of None \<Rightarrow> False | Some r \<Rightarrow> \<not> Revision_Failed r)"

definition statuses :: "Incarnation list \<Rightarrow> ReleaseManagerRevisionStatus list" where
  "statuses is = map inc_status (filter kept is)"

text \<open>The position of the last parked incarnation among the statuses.\<close>

fun last_parked :: "Incarnation list \<Rightarrow> nat \<Rightarrow> nat option \<Rightarrow> nat option" where
  "last_parked [] n latest = latest"
| "last_parked (i # is) n latest =
     last_parked is (if kept i then n + 1 else n) (if parked i then Some n else latest)"

lemma collect_statuses_cons:
  "safe i \<Longrightarrow> collect_statuses (i # is) rs good latest =
     collect_statuses is (if kept i then rs @ [inc_status i] else rs) (good \<or> good_release i)
       (if parked i then Some (length rs) else latest)"
  by (cases "inc_revision i")
    (auto simp: Let_def safe_def kept_def parked_def good_release_def revision_states_def
      hasRevision_def peakPercent_def conj_commute)

lemma collect_statuses_eq:
  "\<forall>i \<in> set is. safe i \<Longrightarrow> collect_statuses is rs good latest =
     Some (rs @ statuses is, good \<or> (\<exists>i \<in> set is. good_release i), last_parked is (length rs) latest)"
proof (induction "is" arbitrary: rs good latest)
  case (Cons i "is")
  have "collect_statuses (i # is) rs good latest =
      collect_statuses is (if kept i then rs @ [inc_status i] else rs) (good \<or> good_release i)
        (if parked i then Some (length rs) else latest)"
    using Cons.prems by (intro collect_statuses_cons) simp
  then show ?case using Cons by (auto simp: statuses_def)
qed (simp add: statuses_def)

lemma collect_statuses_safe:
  "collect_statuses is rs good latest \<noteq> None \<Longrightarrow> \<forall>i \<in> set is. safe i"
proof (induction "is" arbitrary: rs good latest)
  case (Cons i "is")
  have "safe i" using Cons.prems
    by (cases "inc_revision i") (auto simp: Let_def safe_def revision_states_def hasRevision_def)
  then have "collect_statuses (i # is) rs good latest = collect_statuses is (if kept i then rs @ [inc_status i] else rs)
      (good \<or> good_release i) (if parked i then Some (length rs) else latest)"
    by (rule collect_statuses_cons)
  then have "\<forall>i \<in> set is. safe i" using Cons.prems by (intro Cons.IH) simp
  with \<open>safe i\<close> show ?case by simp
qed simp

lemma last_parked_append:
  "last_parked (xs @ ys) n latest = last_parked ys (n + length (statuses xs)) (last_parked xs n latest)"
  by (induction xs arbitrary: n latest) (simp_all add: statuses_def)

lemma last_parked_none: "\<forall>i \<in> set is. \<not> parked i \<Longrightarrow> last_parked is n latest = latest"
  by (induction "is" arbitrary: n latest) simp_all

lemma last_parked_split:
  "parked i \<Longrightarrow> \<forall>j \<in> set ys. \<not> parked j \<Longrightarrow>
   last_parked (xs @ i # ys) 0 None = Some (length (statuses xs))"
  by (simp add: last_parked_append last_parked_none)

lemma parked_kept: "parked i \<Longrightarrow> kept i"
  by (auto simp: parked_def kept_def)

text \<open>The statuses written back exist exactly when no revision is missing.\<close>

lemma final_statuses_safe: "final_statuses ic \<noteq> None \<longleftrightarrow> safe_incs ic"
proof -
  define xs where "xs = List.rev (sorted_incs ic)"
  have "(\<forall>i \<in> set xs. safe i) \<longleftrightarrow> safe_incs ic"
    by (auto simp: safe_incs_def xs_def)
  moreover have "(\<forall>i \<in> set xs. safe i) \<longleftrightarrow> collect_statuses xs [] False None \<noteq> None"
    using collect_statuses_safe [of xs] collect_statuses_eq [of xs] by blast
  moreover have "final_statuses ic \<noteq> None \<longleftrightarrow> collect_statuses xs [] False None \<noteq> None"
    by (cases "collect_statuses xs [] False None") (auto simp: final_statuses_def xs_def)
  ultimately show ?thesis by blast
qed

lemma final_statuses_good:
  assumes "safe_incs ic" "\<exists>i \<in> snd ` set ic. good_release i"
  shows "final_statuses ic = Some (statuses (List.rev (sorted_incs ic)))"
proof -
  have "\<forall>i \<in> set (List.rev (sorted_incs ic)). safe i" using assms(1) by (auto simp: safe_incs_def)
  then show ?thesis
    using assms(2) by (auto simp: final_statuses_def collect_statuses_eq recommission_def split: option.split)
qed

lemma final_statuses_recommission:
  assumes "safe_incs ic" "\<not> (\<exists>i \<in> snd ` set ic. good_release i)"
    "sorted_incs ic = newer_incs @ i # older_incs" "parked i" "\<forall>j \<in> set newer_incs. \<not> parked j"
  shows "final_statuses ic = Some (statuses (List.rev older_incs) @
    (inc_status i)\<lparr>rs_ReleaseEligible := True, rs_PeakPercent := 100\<rparr> # statuses (List.rev newer_incs))"
proof -
  have r: "List.rev (sorted_incs ic) = List.rev older_incs @ i # List.rev newer_incs"
    using assms(3) by simp
  have safe: "\<forall>i \<in> set (List.rev (sorted_incs ic)). safe i" using assms(1) by (auto simp: safe_incs_def)
  have good: "\<not> (\<exists>i \<in> set (List.rev (sorted_incs ic)). good_release i)" using assms(2) by simp
  have last: "last_parked (List.rev (sorted_incs ic)) 0 None = Some (length (statuses (List.rev older_incs)))"
    unfolding r using assms(4,5) by (intro last_parked_split) simp_all
  have split: "statuses (List.rev (sorted_incs ic)) =
      statuses (List.rev older_incs) @ inc_status i # statuses (List.rev newer_incs)"
    unfolding r using parked_kept [OF assms(4)] by (simp add: statuses_def)
  show ?thesis
    using good unfolding final_statuses_def collect_statuses_eq [OF safe] list.size last split
    by (simp add: recommission_def)
qed

text \<open>
  What becomes of a recommissioned revision: the incarnation made of its status is deployed again at its
  next tick.
\<close>

lemma init_status_retired:
  "st_Current (rs_State s) = retired \<Longrightarrow>
   rs_State (init_status now rm r s) = rs_State s \<and>
   rs_ReleaseEligible (init_status now rm r s) = rs_ReleaseEligible s \<and>
   rs_PeakPercent (init_status now rm r s) = rs_PeakPercent s"
  by (simp add: init_status_def Let_def)

lemma NewIncarnation_known:
  assumes "NewIncarnation ci now rm tag revision di = (i, rm')"
    "find (\<lambda>s. rs_Tag s = tag) (rmst_Revisions (rm_Status rm)) = Some s"
    "st_Current (rs_State s) = retired"
  shows "state_of i = retired \<and> isReleaseEligible i = rs_ReleaseEligible s \<and>
    peakPercent i = rs_PeakPercent s \<and> inc_revision i = revision"
  using assms init_status_retired [of s now rm revision]
  by (auto simp: NewIncarnation_def RevisionStatus_def state_of_def isReleaseEligible_def peakPercent_def)

lemma recommissioned_redeploys:
  assumes "NewIncarnation ci t rm tag (Some r) di = (i, rm')" "\<not> rsp_Failed (rev_Spec r)"
    "find (\<lambda>s. rs_Tag s = tag) (rmst_Revisions (rm_Status rm)) = Some s"
    "st_Current (rs_State s) = retired" "rs_ReleaseEligible s" "rs_PeakPercent s = 100"
  shows "\<exists>i' c'. inc_tick x now (i, c) = Some (None, i', c') \<and> state_of i' = deploying \<and>
    peakPercent i' = 100"
proof -
  note k = NewIncarnation_known [OF assms(1,3,4)]
  have "d_hasRevision (inc_deployment x now) (i, c)" "\<not> d_markedAsFailed (inc_deployment x now) (i, c)"
    "d_isReleaseEligible (inc_deployment x now) (i, c)" "current (inc_deployment x now) (i, c) = retired"
    using k assms(2,5) by (simp_all only: current_inc fst_conv)
      (simp_all add: inc_deployment_def hasRevision_def markedAsFailed_def)
  from inc.eligible_redeploys [OF this]
  obtain i' c' where t: "inc_tick x now (i, c) = Some (None, i', c')" "state_of i' = deploying"
    "observed (inc_deployment x now) (i', c') = observed (inc_deployment x now) (i, c)"
    unfolding inc_tick_def current_inc by force
  moreover have "peakPercent i' = 100" using t(3) k assms(6) by (simp add: observed_inc)
  ultimately show ?thesis by blast
qed

section \<open>The waypoint\<close>

text \<open>
  A waypoint is never deleted while a revision that uses it has replicas: with such a revision,
  \<^verbatim>\<open>syncNamespace\<close> only applies plans that make the namespace and its waypoint.
\<close>

fun ensures :: "Plan \<Rightarrow> bool" where
  "ensures (PlanEnsureNamespace p) = True"
| "ensures (PlanEnsureWaypointOptions p) = True"
| "ensures (PlanEnsureWaypoint ns) = True"
| "ensures (PlanEnsureWaypointPDB p) = True"
| "ensures (PlanEnsureWaypointHPA p) = True"
| "ensures _ = False"

lemma mesh_mode_ambient: "hasAmbientReplicas x ic \<Longrightarrow> fst (mesh_mode x ic) \<or> snd (mesh_mode x ic)"
  by (simp add: mesh_mode_def Let_def)

lemma mesh_mode_exclusive: "\<not> (fst (mesh_mode x ic) \<and> snd (mesh_mode x ic))"
  by (simp add: mesh_mode_def Let_def)

lemma mesh_mode_sidecar:
  "hasSidecarReplicas x ic \<Longrightarrow> \<not> fst (mesh_mode x ic)"
  by (simp add: mesh_mode_def Let_def)

definition cluster_keeps :: "('c \<Rightarrow> bool) \<Rightarrow> 'c Ctx \<Rightarrow> (Plan \<Rightarrow> bool) \<Rightarrow> bool" where
  "cluster_keeps P x ok \<longleftrightarrow> (\<forall>p c. ok p \<longrightarrow> P c \<longrightarrow> P (snd (x_apply x p c)))"

lemma keeps_cluster: "cluster_keeps P x ok \<Longrightarrow> ok p \<Longrightarrow> keeps (\<lambda>s. P (snd s)) (apply_step x p)"
  by (rule keepsI) (fastforce simp: cluster_keeps_def apply_step_def Let_def split: prod.splits)

text \<open>A step of a sequence that achieves what the others keep.\<close>

lemma steps_achieve:
  assumes "f \<in> set fs" "\<forall>g \<in> set fs. keeps P g" "achieves (\<lambda>_. True) f P"
  shows "achieves (\<lambda>_. True) (steps fs) P"
  using assms(1,2)
proof (induction fs)
  case (Cons g gs)
  show ?case
  proof (cases "f = g")
    case True
    with Cons.prems(2) assms(3) show ?thesis
      by (intro achieves_steps [of _ _ P] keeps_achieves keeps_steps) simp_all
  next
    case False
    with Cons have "achieves (\<lambda>_. True) (steps gs) P" by simp
    then show ?thesis by (rule achieves_steps [rotated]) (simp add: achieves_def)
  qed
qed simp

definition waypoint_plans :: "'c Ctx \<Rightarrow> Collection \<Rightarrow> Plan list" where
  "waypoint_plans x ic = (let ns = TargetNamespace (x_rm x); hpa = effectiveWaypointHPA x ic;
       minReplicas = (case hpa of Some h \<Rightarrow> if wh_MinReplicas h \<ge> 2 then wh_MinReplicas h else 2 | None \<Rightarrow> 2) in
     [PlanEnsureWaypointOptions \<lparr>ewo_Namespace = ns, ewo_App = rmsp_App (rm_Spec (x_rm x)),
        ewo_Env = rmsp_Target (rm_Spec (x_rm x)), ewo_Resources = effectiveWaypointResources x ic\<rparr>,
      PlanEnsureWaypoint ns, PlanEnsureWaypointPDB \<lparr>ewp_Namespace = ns, ewp_MinReplicas = minReplicas\<rparr>,
      PlanEnsureWaypointHPA \<lparr>ewh_Namespace = ns,
        ewh_HPA = Some (case hpa of Some h \<Rightarrow> h | None \<Rightarrow> default_WaypointHPA)\<rparr>])"

lemma ensure_waypoint_steps: "ensure_waypoint x s = steps (map (apply_step x) (waypoint_plans x (fst s))) s"
  by (cases "effectiveWaypointHPA x (fst s)") (simp_all add: ensure_waypoint_def waypoint_plans_def Let_def)

lemma waypoint_plans_ensure: "list_all ensures (waypoint_plans x ic)"
  by (simp add: waypoint_plans_def Let_def)

lemma keeps_ensured: "cluster_keeps P x ensures \<Longrightarrow> list_all ensures ps \<Longrightarrow>
    keeps (\<lambda>s. P (snd s)) (steps (map (apply_step x) ps))"
  by (intro keeps_steps) (auto simp: list_all_iff intro: keeps_cluster)

lemma ambient_steps:
  assumes "hasAmbientReplicas x (fst s)" "syncNamespace x s = Some (err, s')"
  obtains p where "step_then (apply_step x (PlanEnsureNamespace p)) (ensure_waypoint x) s = Some (err, s')"
  using assms mesh_mode_ambient [OF assms(1)]
  by (cases "mesh_mode x (fst s)") (auto simp: syncNamespace_def)

lemma ambient_keeps:
  assumes "cluster_keeps P x ensures" "hasAmbientReplicas x (fst s)" "P (snd s)" "syncNamespace x s = Some (err, s')"
  shows "P (snd s')"
proof -
  obtain p where run: "step_then (apply_step x (PlanEnsureNamespace p)) (ensure_waypoint x) s = Some (err, s')"
    by (rule ambient_steps [OF assms(2,4)])
  have "keeps (\<lambda>s. P (snd s)) (ensure_waypoint x)"
    by (rule keepsI) (auto simp: ensure_waypoint_steps simp del: steps.simps
      dest: keepsD [OF keeps_ensured [OF assms(1) waypoint_plans_ensure]])
  moreover have "keeps (\<lambda>s. P (snd s)) (apply_step x (PlanEnsureNamespace p))"
    by (rule keeps_cluster [OF assms(1)]) simp
  ultimately show ?thesis using keepsD [OF keeps_step_then run] assms(3) by blast
qed

text \<open>What one of the plans of the waypoint makes and the others keep is there after a success.\<close>

lemma ambient_achieves:
  assumes "cluster_keeps P x ensures" "q \<in> set (waypoint_plans x (fst s))"
    and "\<And>c c'. x_apply x q c = (None, c') \<Longrightarrow> P c'"
    and "hasAmbientReplicas x (fst s)" "syncNamespace x s = Some (None, s')"
  shows "P (snd s')"
proof -
  obtain p where "step_then (apply_step x (PlanEnsureNamespace p)) (ensure_waypoint x) s = Some (None, s')"
    by (rule ambient_steps [OF assms(4,5)])
  then obtain s1 where s1: "apply_step x (PlanEnsureNamespace p) s = Some (None, s1)"
    and "ensure_waypoint x s1 = Some (None, s')" by (auto elim: step_thenE)
  then have run: "steps (map (apply_step x) (waypoint_plans x (fst s))) s1 = Some (None, s')"
    using apply_step_fst [OF s1] by (simp add: ensure_waypoint_steps)
  have "achieves (\<lambda>_. True) (apply_step x q) (\<lambda>s. P (snd s))"
    using assms(3) by (auto simp: achieves_def apply_step_def Let_def split: prod.splits)
  moreover have "\<forall>g \<in> set (map (apply_step x) (waypoint_plans x (fst s))). keeps (\<lambda>s. P (snd s)) g"
    using waypoint_plans_ensure assms(1) by (auto simp: list_all_iff intro: keeps_cluster)
  ultimately have "achieves (\<lambda>_. True) (steps (map (apply_step x) (waypoint_plans x (fst s)))) (\<lambda>s. P (snd s))"
    using assms(2) by (intro steps_achieve [of "apply_step x q"]) simp_all
  from achievesD [OF this run] show ?thesis by simp
qed

end
