(* ===== verification/Samples.thy ===== *)
theory Samples
  imports Reconcile
begin

text \<open>
  Small concrete objects to run the model on: one target with a linear release, a revision and a release
  manager of it, and a context in which every plan succeeds and is logged in the state of the clusters.
\<close>

definition a_scale :: ScaleInfo where
  "a_scale = \<lparr>si_Min = Some 2, si_Default = 2, si_Max = 10, si_MinReadySeconds = 0,
     si_TargetCPUUtilizationPercentage = Some 70, si_TargetMemoryUtilizationPercentage = None,
     si_TargetRequestsRate = None, si_RequestsRateMetric = ''istio_requests_rate'', si_Worker = None,
     si_KedaWorker = None\<rparr>"

definition a_release :: ReleaseInfo where
  "a_release = \<lparr>ri_Eligible = True, ri_Max = 100, ri_ScalingStrategy = ''linear'',
     ri_GeometricScaling = \<lparr>gs_Start = 10, gs_Factor = 2, gs_Delay = Some 0\<rparr>,
     ri_LinearScaling = \<lparr>ls_Increment = 5, ls_Delay = Some 0\<rparr>, ri_Schedule = ''always'', ri_TTL = 86400\<rparr>"

definition no_resources :: ResourceRequirements where
  "no_resources = \<lparr>rr_Requests = [], rr_Limits = []\<rparr>"

definition a_target :: RevisionTarget where
  "a_target = \<lparr>rt_Name = ''production'', rt_Fleet = ''fleet'', rt_Scale = a_scale, rt_Release = a_release,
     rt_DatadogMonitoring = \<lparr>dm_Enabled = False\<rparr>, rt_ServiceMonitors = [],
     rt_SlothServiceLevelObjectives = [],
     rt_ServiceLevelObjectiveLabels = \<lparr>sl_AlertLabels = [], sl_RuleLabels = [], sl_ServiceLevelLabels = []\<rparr>,
     rt_AcceptanceTarget = False, rt_ConfigSelector = None, rt_AWS = \<lparr>aws_IAM = \<lparr>iam_RoleARN = []\<rparr>\<rparr>,
     rt_AlertRules = [], rt_Sidecars = [], rt_VolumeMounts = [], rt_Volumes = [], rt_PodAnnotations = [],
     rt_KarpenterDoNotDisrupt = [], rt_ServiceAccountName = [], rt_Resources = no_resources,
     rt_LivenessProbe = None, rt_ReadinessProbe = None, rt_Lifecycle = None, rt_Affinity = None,
     rt_PriorityClassName = [], rt_Tolerations = [],
     rt_ExternalTest = \<lparr>et_Enabled = False, et_Started = False, et_Completed = False, et_Succeeded = False,
       et_Timeout = None, et_LastUpdated = None\<rparr>,
     rt_Canary = \<lparr>ca_Percent = 10, ca_TTL = 60\<rparr>, rt_DefaultIngressPorts = None, rt_Ports = [],
     rt_Env = [], rt_Istio = None, rt_PodDisruptionBudget = None, rt_TopologySpreadConstraint = None,
     rt_AmbientMesh = True, rt_WaypointHPA = None, rt_WaypointResources = no_resources,
     rt_SchedulerName = []\<rparr>"

definition a_revision :: Revision where
  "a_revision = \<lparr>rev_Meta = zero_ObjectMeta\<lparr>om_Name := ''app-v1'', om_Namespace := ''picchu''\<rparr>,
     rev_Spec = \<lparr>rsp_App = \<lparr>ra_Name = ''app'', ra_Ref = ''v1'', ra_Tag = ''v1'', ra_Image = ''app:v1''\<rparr>,
       rsp_Targets = [a_target], rsp_Failed = False, rsp_IgnoreSLOs = False,
       rsp_CanaryWithSLIRules = False, rsp_Sentry = \<lparr>se_Release = False\<rparr>, rsp_TagRoutingHeader = [],
       rsp_DisableMirroring = False, rsp_EventDriven = False\<rparr>,
     rev_Status = \<lparr>rst_Sentry = \<lparr>se_Release = False\<rparr>, rst_Targets = []\<rparr>\<rparr>"

definition with_target :: "(RevisionTarget \<Rightarrow> RevisionTarget) \<Rightarrow> Revision \<Rightarrow> Revision" where
  "with_target f r = r\<lparr>rev_Spec := (rev_Spec r)\<lparr>rsp_Targets := map f (rsp_Targets (rev_Spec r))\<rparr>\<rparr>"

definition a_rm :: ReleaseManager where
  "a_rm = \<lparr>rm_Meta = zero_ObjectMeta\<lparr>om_Name := ''app-production''\<rparr>,
     rm_Spec = \<lparr>rmsp_Fleet = ''fleet'', rmsp_App = ''app'', rmsp_Target = ''production'', rmsp_Variants = []\<rparr>,
     rm_Status = \<lparr>rmst_Revisions = [], rmst_LastUpdated = None\<rparr>\<rparr>"

definition a_config :: Config where
  "a_config = \<lparr>conf_HumaneReleasesEnabled = True, conf_ManageRoute53 = False, conf_RequeueAfter = 0,
     conf_PrometheusQueryAddress = [], conf_PrometheusQueryTTL = 0, conf_SlackQueryTTL = 0,
     conf_ServiceLevelsNamespace = [], conf_ServiceLevelsFleet = [], conf_ConcurrentRevisions = 1,
     conf_ConcurrentReleaseManagers = 1, conf_DevRoutesServiceHost = [], conf_DevRoutesServicePort = 0,
     conf_useKedaClusterAuth = False, conf_ClusterPrometheusAddress = []\<rparr>"

text \<open>One live cluster; the lists are empty and the lookups find nothing.\<close>

definition a_ctx :: "Plan list Ctx" where
  "a_ctx = \<lparr>x_rm = a_rm,
     x_clusterInfo = [\<lparr>inf_Name = ''one'', inf_Live = True, inf_ScalingFactor = 1\<rparr>],
     x_config = a_config, x_off = \<lambda>_. 0, x_local = \<lambda>_. 0, x_apply = \<lambda>p c. (None, c @ [p]),
     x_selector = \<lambda>_. Inl NotFound, x_listSecrets = \<lambda>_ _ _. Inr [],
     x_listExternalSecrets = \<lambda>_ _ _. Inr [], x_listConfigMaps = \<lambda>_ _ _. Inr [],
     x_parseQuantity = \<lambda>_. Inl NotFound, x_observe = \<lambda>_ _. Inr [],
     x_getRevision = \<lambda>_ _ _. Inl NotFound, x_updateRevision = \<lambda>_ c. (None, c),
     x_deleteReleaseManager = \<lambda>_ c. (None, c)\<rparr>"

text \<open>An incarnation of the revision by tag, state and percentages, with \<open>n\<close> replicas.\<close>

definition an_inc :: "string \<Rightarrow> State \<Rightarrow> u32 \<Rightarrow> u32 \<Rightarrow> int \<Rightarrow> Incarnation" where
  "an_inc tag state cur peak n = \<lparr>inc_deployed = True, inc_tag = tag, inc_revision = Some a_revision,
     inc_status = (new_RevisionStatus 0 tag)\<lparr>
       rs_State := \<lparr>st_Current = state, st_Target = state, st_LastUpdated = Some 0\<rparr>,
       rs_CurrentPercent := cur, rs_PeakPercent := peak, rs_ReleaseEligible := True,
       rs_Scale := \<lparr>rsc_Current = n, rsc_Desired = n, rsc_Peak = n\<rparr>\<rparr>,
     inc_isRamping = False\<rparr>"

definition orphan :: "string \<Rightarrow> State \<Rightarrow> Incarnation" where
  "orphan tag state = (an_inc tag state 0 0 0)\<lparr>inc_revision := None\<rparr>"

text \<open>An incarnation whose revision has no target of the release manager's name.\<close>

definition stray :: "string \<Rightarrow> State \<Rightarrow> u32 \<Rightarrow> u32 \<Rightarrow> Incarnation" where
  "stray tag state cur peak = (an_inc tag state cur peak 0)\<lparr>inc_revision :=
     Some (with_target (\<lambda>t. t\<lparr>rt_Name := ''other''\<rparr>) a_revision)\<rparr>"

lemmas samples = a_scale_def a_release_def no_resources_def a_target_def a_revision_def with_target_def
  a_rm_def a_config_def a_ctx_def an_inc_def orphan_def zero_ObjectMeta_def new_RevisionStatus_def
  zero_Metrics_def

lemma target_an_inc [simp]: "target a_rm (an_inc tag s c p n) = Some a_target"
  by (simp add: target_def samples)

lemma an_inc_simps [simp]:
  "state_of (an_inc tag s c p n) = s" "currentPercent (an_inc tag s c p n) = c"
  "peakPercent (an_inc tag s c p n) = p" "isReleaseEligible (an_inc tag s c p n)"
  "inc_tag (an_inc tag s c p n) = tag" "hasRevision (an_inc tag s c p n)"
  "\<not> markedAsFailed (an_inc tag s c p n)" "inc_revision (an_inc tag s c p n) = Some a_revision"
  "rs_Scale (inc_status (an_inc tag s c p n)) = \<lparr>rsc_Current = n, rsc_Desired = n, rsc_Peak = n\<rparr>"
  "inc_isRamping (an_inc tag s c p n) = False" "inc_deployed (an_inc tag s c p n)"
  "rs_LastUpdated (inc_status (an_inc tag s c p n)) = Some 0"
  by (simp_all add: an_inc_def new_RevisionStatus_def state_of_def currentPercent_def peakPercent_def
      isReleaseEligible_def hasRevision_def markedAsFailed_def a_revision_def)

lemma state_of_inc: "st_Current (rs_State (inc_status i)) = state_of i"
  by (simp add: state_of_def)

lemma orphan_simps [simp]:
  "state_of (orphan tag s) = s" "currentPercent (orphan tag s) = 0" "inc_tag (orphan tag s) = tag"
  "\<not> hasRevision (orphan tag s)" "inc_revision (orphan tag s) = None" "target rm (orphan tag s) = None"
  by (simp_all add: orphan_def hasRevision_def target_def an_inc_def state_of_def currentPercent_def)

lemma a_ctx_simps [simp]:
  "x_rm a_ctx = a_rm" "x_config a_ctx = a_config" "x_apply a_ctx p c = (None, c @ [p])"
  "x_observe a_ctx ns c = Inr []"
  by (simp_all add: a_ctx_def)

lemma a_rm_simps [simp]:
  "appName a_rm = ''app''" "targetName a_rm = ''production''" "targetNamespace a_rm = ''app-production''"
  "TargetNamespace a_rm = ''app-production''"
  by (simp_all add: a_rm_def appName_def targetName_def targetNamespace_def TargetNamespace_def)

lemma a_config_simps [simp]: "conf_ServiceLevelsNamespace a_config = []"
  by (simp add: a_config_def)

lemma stray_simps [simp]:
  "state_of (stray tag s c p) = s" "currentPercent (stray tag s c p) = c" "peakPercent (stray tag s c p) = p"
  "inc_tag (stray tag s c p) = tag" "hasRevision (stray tag s c p)" "isReleaseEligible (stray tag s c p)"
  "\<not> markedAsFailed (stray tag s c p)" "target a_rm (stray tag s c p) = None"
  by (simp_all add: stray_def hasRevision_def target_def an_inc_def state_of_def currentPercent_def
      peakPercent_def isReleaseEligible_def markedAsFailed_def with_target_def a_revision_def a_target_def
      a_rm_def new_RevisionStatus_def)

lemma a_target_release [simp]: "rt_Release a_target = a_release" "rt_Name a_target = ''production''"
  by (simp_all add: a_target_def)

lemma a_release_scalable [simp]: "scalable a_release"
  by (simp add: scalable_def a_release_def ScalingStrategyLinear_def)

lemma sound_an_inc [simp]: "sound a_rm (an_inc tag s c p n)"
  by (simp add: sound_def)

end
