(* ===== verification/Webhook.thy ===== *)
theory Webhook
  imports Defaults
begin

text \<open>
  The admission webhook of revisions, \<^verbatim>\<open>revision_webhook.go\<close>: the mutating half fills in the
  ingresses of the ports and the default port of each ingress, the validating half collects the errors
  of every target. A Go map is an association list whose order is the iteration order.
\<close>

section \<open>Buckets\<close>

text \<open>
  A port with its position. \<^verbatim>\<open>track[ingress] = append(track[ingress], pi)\<close> is \<open>track_append\<close>.
\<close>

type_synonym portInfo = "PortInfo \<times> nat"
type_synonym buckets = "(string \<times> portInfo list) list"

definition bucket :: "buckets \<Rightarrow> string \<Rightarrow> portInfo list" where
  "bucket track ingress = (case map_of track ingress of None \<Rightarrow> [] | Some ps \<Rightarrow> ps)"

definition track_append :: "portInfo \<Rightarrow> string \<Rightarrow> buckets \<Rightarrow> buckets" where
  "track_append p ingress track = AList.update ingress (bucket track ingress @ [p]) track"

definition bucket_port :: "portInfo \<Rightarrow> buckets \<Rightarrow> buckets" where
  "bucket_port p track =
     (case pi_Ingresses (fst p) of
        Some ingresses \<Rightarrow> fold (track_append p) ingresses track
      | None \<Rightarrow> (case pi_Mode (fst p) of
            PortPublic \<Rightarrow> track_append p ''private'' (track_append p ''public'' track)
          | PortPrivate \<Rightarrow> track_append p ''private'' track
          | _ \<Rightarrow> track))"

definition bucketIngressPorts :: "RevisionTarget \<Rightarrow> buckets" where
  "bucketIngressPorts target =
     fold bucket_port (zip (rt_Ports target) [0..<length (rt_Ports target)]) []"

section \<open>Mutation\<close>

definition getIngressesPatch :: "PortInfo \<Rightarrow> PortInfo" where
  "getIngressesPatch port = (let ingresses = (case pi_Ingresses port of None \<Rightarrow> [] | Some is \<Rightarrow> is) in
     if 0 < length ingresses then port
     else (let a = (if pi_Mode port = PortPrivate \<or> pi_Mode port = PortPublic
                    then ingresses @ [''private''] else ingresses);
               b = (if pi_Mode port = PortPublic then a @ [''public''] else a)
           in if b = ingresses then port else port\<lparr>pi_Ingresses := Some b\<rparr>))"

definition getIngressesPatches :: "Revision \<Rightarrow> Revision" where
  "getIngressesPatches r = r\<lparr>rev_Spec := (rev_Spec r)\<lparr>rsp_Targets :=
     map (\<lambda>t. t\<lparr>rt_Ports := map getIngressesPatch (rt_Ports t)\<rparr>) (rsp_Targets (rev_Spec r))\<rparr>\<rparr>"

text \<open>The default port one bucket suggests: the only port, or \<^verbatim>\<open>http\<close> when no port is a default.\<close>

definition suggest_default :: "portInfo list \<Rightarrow> string option" where
  "suggest_default ports =
     (let single = (case ports of [p] \<Rightarrow> Some (pi_Name (fst p)) | _ \<Rightarrow> None);
          httpFound = list_ex (\<lambda>p. pi_Name (fst p) = ''http'') ports;
          defaultFound = list_ex (\<lambda>p. pi_Default (fst p)) ports
      in if \<not> defaultFound \<and> httpFound then Some ''http'' else single)"

definition ingressDefaultPorts :: "buckets \<Rightarrow> strmap" where
  "ingressDefaultPorts bs =
     fold (\<lambda>(ingress, ports) m. case suggest_default ports of
         None \<Rightarrow> m | Some p \<Rightarrow> AList.update ingress p m) bs []"

text \<open>
  \<^verbatim>\<open>existing\<close> is the same map as the target's, so the write goes to the map the test reads. The write
  to a nil map cannot happen: there is something to write only when the first branch was not taken.
\<close>

definition getIngressDefaultPortPatch :: "RevisionTarget \<Rightarrow> RevisionTarget" where
  "getIngressDefaultPortPatch t =
     (let defs = ingressDefaultPorts (bucketIngressPorts t) in
      case rt_DefaultIngressPorts t of
        None \<Rightarrow> (if defs \<noteq> [] then t\<lparr>rt_DefaultIngressPorts := Some defs\<rparr> else t)
      | Some existing \<Rightarrow>
          if existing = [] \<and> defs \<noteq> [] then t\<lparr>rt_DefaultIngressPorts := Some defs\<rparr>
          else t\<lparr>rt_DefaultIngressPorts := Some
            (fold (\<lambda>(ingress, def) m. if map_of m ingress = None then AList.update ingress def m else m)
              defs existing)\<rparr>)"

definition getIngressDefaultPortPatches :: "Revision \<Rightarrow> Revision" where
  "getIngressDefaultPortPatches r = r\<lparr>rev_Spec := (rev_Spec r)\<lparr>rsp_Targets :=
     map getIngressDefaultPortPatch (rsp_Targets (rev_Spec r))\<rparr>\<rparr>"

text \<open>Neither group of patches returns an error, so \<^verbatim>\<open>getPatches\<close> returns nil.\<close>

definition getPatches :: "Revision \<Rightarrow> goerror option \<times> Revision" where
  "getPatches r = (None, getIngressDefaultPortPatches (getIngressesPatches r))"

definition Default :: "Revision \<Rightarrow> goerror option \<times> Revision" where
  "Default r = getPatches r"

section \<open>Validation\<close>

datatype path_elem = Field string | Index nat | Key string

datatype field_error =
    Invalid "path_elem list" string string
  | Required "path_elem list" string
  | NotFoundField "path_elem list" string
  | Forbidden "path_elem list" string

definition targetPath :: "nat \<Rightarrow> path_elem list" where
  "targetPath i = [Field ''spec'', Field ''targets'', Index i]"

definition validate_pdb :: "nat \<Rightarrow> RevisionTarget \<Rightarrow> field_error list" where
  "validate_pdb i target =
     (case rt_PodDisruptionBudget target of
        None \<Rightarrow> []
      | Some pdb \<Rightarrow>
          if pd_MaxUnavailable pdb \<noteq> None \<and> pd_MinAvailable pdb \<noteq> None
          then [Invalid (targetPath i @ [Field ''podDisruptionBudget''])
                  ''both maxUnavailable and minAvailable set''
                  ''podDisruptionBudget: cannot set both maxUnavailable and minAvailable'']
          else [])"

definition validate_karpenter :: "nat \<Rightarrow> RevisionTarget \<Rightarrow> field_error list" where
  "validate_karpenter i target =
     (if rt_KarpenterDoNotDisrupt target \<noteq> [] then
        (if ValidateKarpenterDoNotDisrupt (rt_KarpenterDoNotDisrupt target) \<noteq> None
         then [Invalid (targetPath i @ [Field ''karpenterDoNotDisrupt'']) (rt_KarpenterDoNotDisrupt target)
                 ''must be \"true\" or a valid Go duration (e.g. \"30m\")'']
         else []) @
        (if map_of (rt_PodAnnotations target) AnnotationKarpenterDoNotDisrupt \<noteq> None
         then [Forbidden (targetPath i @ [Field ''podAnnotations'', Key AnnotationKarpenterDoNotDisrupt])
                 (''use karpenterDoNotDisrupt instead of podAnnotations['' @ [CHR 0x22] @
                   AnnotationKarpenterDoNotDisrupt @ [CHR 0x22] @ '']'')]
         else [])
      else [])"

definition validate_strategy :: "RevisionTarget \<Rightarrow> field_error list" where
  "validate_strategy target = (let s = ri_ScalingStrategy (rt_Release target);
       found = (s = [] \<or> list_ex (\<lambda>x. s = x) ScalingStrategies)
     in if \<not> found then [Invalid [Field ''spec''] s ''Invalid scaling strategy''] else [])"

definition validate_bucket :: "strmap option \<Rightarrow> string \<times> portInfo list \<Rightarrow> field_error list" where
  "validate_bucket defs b =
     (if defs = None
      then [Required [Field ''spec''] (''Default ingress ports not specified for '' @ fst b)] else []) @
     (if list_ex (\<lambda>port. mget defs (fst b) = pi_Name (fst port)) (snd b) then []
      else [NotFoundField [Field ''spec'']
              (''Specified default for ingress '' @ fst b @ '' that doesn'' @ [CHR 0x27] @ ''t exist'')])"

definition validate_defaults :: "strmap option \<Rightarrow> buckets \<Rightarrow> field_error list" where
  "validate_defaults defs buckets =
     List.concat (map (\<lambda>(ingress, _). if map_of buckets ingress = None
        then [NotFoundField [Field ''spec'']
                (''Specified default for ingress '' @ ingress @ '' that doesn'' @ [CHR 0x27] @ ''t exist'')]
        else []) (case defs of None \<Rightarrow> [] | Some m \<Rightarrow> m))"

definition validate_target :: "nat \<Rightarrow> RevisionTarget \<Rightarrow> field_error list" where
  "validate_target i target = (let buckets = bucketIngressPorts target in
     validate_pdb i target @ validate_karpenter i target @ validate_strategy target @
     List.concat (map (validate_bucket (rt_DefaultIngressPorts target)) buckets) @
     validate_defaults (rt_DefaultIngressPorts target) buckets)"

text \<open>\<open>validate r\<close> is the error list; \<^verbatim>\<open>validate\<close> returns nil when it is empty.\<close>

definition validate :: "Revision \<Rightarrow> field_error list" where
  "validate r = (let ts = rsp_Targets (rev_Spec r) in
     List.concat (map (\<lambda>(i, t). validate_target i t) (zip [0..<length ts] ts)))"

definition ValidateCreate :: "Revision \<Rightarrow> field_error list" where
  "ValidateCreate r = validate r"

definition ValidateUpdate :: "Revision \<Rightarrow> Revision \<Rightarrow> field_error list" where
  "ValidateUpdate oldObj newObj = validate newObj"

definition ValidateDelete :: "Revision \<Rightarrow> field_error list" where
  "ValidateDelete r = []"

section \<open>Buckets, specified\<close>

text \<open>The ingresses a port is offered on, and the ingresses some port of a target is offered on.\<close>

definition port_ingresses :: "PortInfo \<Rightarrow> string list" where
  "port_ingresses p = (case pi_Ingresses p of
     Some ingresses \<Rightarrow> ingresses
   | None \<Rightarrow> (case pi_Mode p of PortPublic \<Rightarrow> [''public'', ''private''] | PortPrivate \<Rightarrow> [''private'']
             | _ \<Rightarrow> []))"

definition offers :: "RevisionTarget \<Rightarrow> string \<Rightarrow> PortInfo list" where
  "offers t ingress = filter (\<lambda>p. ingress \<in> set (port_ingresses p)) (rt_Ports t)"

definition wf_buckets :: "buckets \<Rightarrow> bool" where
  "wf_buckets bs \<longleftrightarrow> distinct (map fst bs) \<and> (\<forall>(k, v) \<in> set bs. v \<noteq> [])"

lemma bucket_track_append:
  "bucket (track_append p g track) h = bucket track h @ (if h = g then [p] else [])"
  by (simp add: bucket_def track_append_def)

lemma bucket_fold_append:
  "bucket (fold (track_append p) gs track) h = bucket track h @ replicate (count_list gs h) p"
proof (induction gs arbitrary: track)
  case (Cons g gs)
  then show ?case
    by (simp add: bucket_track_append replicate_app_Cons_same flip: replicate_Suc)
qed simp

lemma bucket_port_alt: "bucket_port p track = fold (track_append p) (port_ingresses (fst p)) track"
  by (simp add: bucket_port_def port_ingresses_def split: option.split PortMode.split)

lemma bucket_fold_ports:
  "bucket (fold bucket_port ps track) h =
     bucket track h @ List.concat (map (\<lambda>p. replicate (count_list (port_ingresses (fst p)) h) p) ps)"
  by (induction ps arbitrary: track) (simp_all add: bucket_port_alt bucket_fold_append)

lemma wf_track_append: "wf_buckets track \<Longrightarrow> wf_buckets (track_append p g track)"
  using update_set_subset [of g "bucket track g @ [p]" track]
  by (fastforce simp: wf_buckets_def track_append_def)

lemma wf_fold_append: "wf_buckets track \<Longrightarrow> wf_buckets (fold (track_append p) gs track)"
  by (induction gs arbitrary: track) (simp_all add: wf_track_append)

lemma wf_fold_ports: "wf_buckets track \<Longrightarrow> wf_buckets (fold bucket_port ps track)"
  by (induction ps arbitrary: track) (simp_all add: bucket_port_alt wf_fold_append)

lemma wf_bucketIngressPorts: "wf_buckets (bucketIngressPorts t)"
  unfolding bucketIngressPorts_def by (rule wf_fold_ports) (simp add: wf_buckets_def)

lemma wf_buckets_in:
  "wf_buckets bs \<Longrightarrow> (k, v) \<in> set bs \<Longrightarrow> bucket bs k = v \<and> v \<noteq> [] \<and> map_of bs k = Some v"
  by (auto simp: wf_buckets_def bucket_def)

lemma bucket_ports: "fst ` set (bucket (bucketIngressPorts t) h) = set (offers t h)"
proof -
  let ?ps = "zip (rt_Ports t) [0..<length (rt_Ports t)]"
  have "bucket (bucketIngressPorts t) h
      = List.concat (map (\<lambda>p. replicate (count_list (port_ingresses (fst p)) h) p) ?ps)"
    unfolding bucketIngressPorts_def bucket_fold_ports by (simp add: bucket_def)
  then have "set (bucket (bucketIngressPorts t) h) = {p \<in> set ?ps. h \<in> set (port_ingresses (fst p))}"
    by (simp only: set_concat set_map) (auto simp: count_list_0_iff)
  then have "fst ` set (bucket (bucketIngressPorts t) h)
      = {x \<in> fst ` set ?ps. h \<in> set (port_ingresses x)}" by auto
  also have "fst ` set ?ps = set (rt_Ports t)"
    by (metis list.set_map length_upt map_fst_zip minus_nat.diff_0)
  finally show ?thesis by (simp add: offers_def)
qed

lemma bucket_key: "map_of (bucketIngressPorts t) h = None \<longleftrightarrow> offers t h = []"
proof -
  have "map_of (bucketIngressPorts t) h = None \<longleftrightarrow> bucket (bucketIngressPorts t) h = []"
    using wf_bucketIngressPorts [of t]
    by (auto simp: bucket_def wf_buckets_def split: option.splits dest!: map_of_SomeD)
  also have "\<dots> \<longleftrightarrow> offers t h = []"
    using bucket_ports [of t h] by (metis image_is_empty set_empty)
  finally show ?thesis .
qed

section \<open>Validation, specified\<close>

text \<open>
  What a valid target is, over the ports each ingress is offered by: every offered ingress has a
  default and it names one of its ports, and there is no default for an ingress no port offers.
\<close>

definition valid_defaults :: "RevisionTarget \<Rightarrow> bool" where
  "valid_defaults t \<longleftrightarrow>
     (\<forall>g. offers t g \<noteq> [] \<longrightarrow> rt_DefaultIngressPorts t \<noteq> None \<and>
        (\<exists>p \<in> set (offers t g). pi_Name p = mget (rt_DefaultIngressPorts t) g)) \<and>
     (\<forall>g. mlookup (rt_DefaultIngressPorts t) g \<noteq> None \<longrightarrow> offers t g \<noteq> [])"

definition valid_karpenter :: "RevisionTarget \<Rightarrow> bool" where
  "valid_karpenter t \<longleftrightarrow> rt_KarpenterDoNotDisrupt t = [] \<or>
     (rt_KarpenterDoNotDisrupt t = ''true'' \<or> time_ParseDuration (rt_KarpenterDoNotDisrupt t) \<noteq> None) \<and>
     map_of (rt_PodAnnotations t) AnnotationKarpenterDoNotDisrupt = None"

definition valid_pdb :: "RevisionTarget \<Rightarrow> bool" where
  "valid_pdb t \<longleftrightarrow> (case rt_PodDisruptionBudget t of None \<Rightarrow> True
     | Some b \<Rightarrow> pd_MaxUnavailable b = None \<or> pd_MinAvailable b = None)"

definition valid_strategy :: "RevisionTarget \<Rightarrow> bool" where
  "valid_strategy t \<longleftrightarrow> ri_ScalingStrategy (rt_Release t) \<in>
     {[], ScalingStrategyLinear, ScalingStrategyGeometric}"

definition valid_target :: "RevisionTarget \<Rightarrow> bool" where
  "valid_target t \<longleftrightarrow> valid_pdb t \<and> valid_karpenter t \<and> valid_strategy t \<and> valid_defaults t"

lemma validate_pdb_Nil: "validate_pdb i t = [] \<longleftrightarrow> valid_pdb t"
  by (auto simp: validate_pdb_def valid_pdb_def split: option.splits)

lemma validate_karpenter_Nil: "validate_karpenter i t = [] \<longleftrightarrow> valid_karpenter t"
  by (auto simp: validate_karpenter_def valid_karpenter_def ValidateKarpenterDoNotDisrupt_def)

lemma validate_strategy_Nil: "validate_strategy t = [] \<longleftrightarrow> valid_strategy t"
  by (auto simp: validate_strategy_def valid_strategy_def ScalingStrategies_def Let_def)

lemma validate_bucket_Nil:
  "validate_bucket defs b = [] \<longleftrightarrow>
     defs \<noteq> None \<and> (\<exists>p \<in> fst ` set (snd b). pi_Name p = mget defs (fst b))"
  by (cases defs) (force simp: validate_bucket_def list_ex_iff)+

lemma buckets_all:
  "(\<forall>b \<in> set (bucketIngressPorts t). P (fst b) (fst ` set (snd b))) \<longleftrightarrow>
   (\<forall>g. offers t g \<noteq> [] \<longrightarrow> P g (set (offers t g)))"
proof safe
  fix g assume all: "\<forall>b \<in> set (bucketIngressPorts t). P (fst b) (fst ` set (snd b))"
    and "offers t g \<noteq> []"
  then obtain ps where "map_of (bucketIngressPorts t) g = Some ps"
    using bucket_key [of t g] by blast
  then have "(g, ps) \<in> set (bucketIngressPorts t)" "bucket (bucketIngressPorts t) g = ps"
    by (auto simp: bucket_def dest: map_of_SomeD)
  then show "P g (set (offers t g))" using all bucket_ports [of t g] by fastforce
next
  fix g ps assume all: "\<forall>g. offers t g \<noteq> [] \<longrightarrow> P g (set (offers t g))"
    and gp: "(g, ps) \<in> set (bucketIngressPorts t)"
  have b: "bucket (bucketIngressPorts t) g = ps" "map_of (bucketIngressPorts t) g = Some ps"
    using wf_buckets_in [OF wf_bucketIngressPorts gp] by simp_all
  then have "offers t g \<noteq> []" using bucket_key [of t g] by simp
  then show "P (fst (g, ps)) (fst ` set (snd (g, ps)))" using all bucket_ports [of t g] b by simp
qed

lemma validate_buckets_Nil:
  "(List.concat (map (validate_bucket (rt_DefaultIngressPorts t)) (bucketIngressPorts t)) = [] \<and>
    validate_defaults (rt_DefaultIngressPorts t) (bucketIngressPorts t) = []) \<longleftrightarrow> valid_defaults t"
proof -
  have "validate_defaults (rt_DefaultIngressPorts t) (bucketIngressPorts t) = [] \<longleftrightarrow>
      (\<forall>g. mlookup (rt_DefaultIngressPorts t) g \<noteq> None \<longrightarrow> offers t g \<noteq> [])"
    by (cases "rt_DefaultIngressPorts t")
      (auto simp: validate_defaults_def bucket_key weak_map_of_SomeI dest!: map_of_SomeD)
  moreover have "List.concat (map (validate_bucket (rt_DefaultIngressPorts t)) (bucketIngressPorts t)) = []
      \<longleftrightarrow> (\<forall>g. offers t g \<noteq> [] \<longrightarrow> rt_DefaultIngressPorts t \<noteq> None \<and>
        (\<exists>p \<in> set (offers t g). pi_Name p = mget (rt_DefaultIngressPorts t) g))"
    unfolding concat_eq_Nil_conv set_map ball_simps validate_bucket_Nil
    by (rule buckets_all)
  ultimately show ?thesis by (simp add: valid_defaults_def)
qed

lemma validate_target_Nil: "validate_target i t = [] \<longleftrightarrow> valid_target t"
  using validate_buckets_Nil [of t]
  by (auto simp: validate_target_def valid_target_def Let_def validate_pdb_Nil validate_karpenter_Nil
      validate_strategy_Nil)

lemma validate_Nil: "validate r = [] \<longleftrightarrow> (\<forall>t \<in> set (rsp_Targets (rev_Spec r)). valid_target t)"
proof -
  have "validate r = [] \<longleftrightarrow> (\<forall>i < length (rsp_Targets (rev_Spec r)). valid_target (rsp_Targets (rev_Spec r) ! i))"
    by (auto simp: validate_def Let_def validate_target_Nil set_zip)
  then show ?thesis by (simp add: all_set_conv_all_nth)
qed

section \<open>Mutation, specified\<close>

lemma map_of_ingressDefaultPorts:
  "distinct (map fst bs) \<Longrightarrow>
   map_of (ingressDefaultPorts bs) g = Option.bind (map_of bs g) suggest_default"
proof -
  let ?f = "\<lambda>(ingress, ports) m. case suggest_default ports of
         None \<Rightarrow> m | Some p \<Rightarrow> AList.update ingress p m"
  have "distinct (map fst bs) \<Longrightarrow> map_of (fold ?f bs m) g =
      (case map_of bs g of None \<Rightarrow> map_of m g
       | Some ps \<Rightarrow> (case suggest_default ps of None \<Rightarrow> map_of m g | Some p \<Rightarrow> Some p))" for m
  proof (induction bs arbitrary: m)
    case (Cons b bs)
    obtain k ps where [simp]: "b = (k, ps)" by force
    from Cons.prems have "map_of bs k = None" by (simp add: map_of_eq_None_iff)
    then show ?case using Cons by (auto split: option.split)
  qed simp
  then show "distinct (map fst bs) \<Longrightarrow> ?thesis"
    by (auto simp: ingressDefaultPorts_def split: option.split)
qed

lemma map_of_add_missing:
  "map_of (fold (\<lambda>(ingress, def) m. if map_of m ingress = None then AList.update ingress def m else m)
      defs existing) g = (case map_of existing g of Some v \<Rightarrow> Some v | None \<Rightarrow> map_of defs g)"
proof (induction defs arbitrary: existing)
  case (Cons d defs)
  obtain k v where [simp]: "d = (k, v)" by force
  show ?case
  proof (cases "map_of existing k")
    case None
    then show ?thesis by (simp add: Cons.IH split: option.split)
  next
    case (Some w)
    then show ?thesis by (auto simp: Cons.IH split: option.split)
  qed
qed (simp split: option.split)

lemma add_missing_id:
  "(\<forall>g. map_of defs g \<noteq> None \<longrightarrow> map_of m g \<noteq> None) \<Longrightarrow>
   fold (\<lambda>(ingress, def) m. if map_of m ingress = None then AList.update ingress def m else m) defs m = m"
  by (induction defs) (auto split: if_splits)

text \<open>
  The default port of an ingress after the patch: the one the revision gave, else the suggested one.
\<close>

lemma patched_default:
  "mlookup (rt_DefaultIngressPorts (getIngressDefaultPortPatch t)) g =
     (case mlookup (rt_DefaultIngressPorts t) g of
        Some p \<Rightarrow> Some p
      | None \<Rightarrow> Option.bind (map_of (bucketIngressPorts t) g) suggest_default)"
proof -
  have "map_of (ingressDefaultPorts (bucketIngressPorts t)) g
      = Option.bind (map_of (bucketIngressPorts t) g) suggest_default"
    using wf_bucketIngressPorts [of t] by (intro map_of_ingressDefaultPorts) (simp add: wf_buckets_def)
  then show ?thesis
    by (cases "rt_DefaultIngressPorts t")
      (auto simp: getIngressDefaultPortPatch_def Let_def map_of_add_missing split: option.split)
qed

lemma patch_ports [simp]: "rt_Ports (getIngressDefaultPortPatch t) = rt_Ports t"
  by (simp add: getIngressDefaultPortPatch_def Let_def split: option.split)

lemma patch_buckets [simp]: "bucketIngressPorts (getIngressDefaultPortPatch t) = bucketIngressPorts t"
  by (simp add: bucketIngressPorts_def)

lemma patch_idem: "getIngressDefaultPortPatch (getIngressDefaultPortPatch t) = getIngressDefaultPortPatch t"
proof -
  let ?defs = "ingressDefaultPorts (bucketIngressPorts t)" and ?t = "getIngressDefaultPortPatch t"
  show ?thesis
  proof (cases "rt_DefaultIngressPorts ?t")
    case None
    then have "?defs = []" "rt_DefaultIngressPorts t = None"
      by (auto simp: getIngressDefaultPortPatch_def Let_def split: option.splits if_splits)
    then show ?thesis by (simp add: getIngressDefaultPortPatch_def)
  next
    case (Some m)
    have sub: "map_of ?defs g \<noteq> None \<longrightarrow> map_of m g \<noteq> None" for g
      using Some by (auto simp: getIngressDefaultPortPatch_def Let_def map_of_add_missing
          split: option.splits if_splits)
    then have "m = [] \<longrightarrow> ?defs = []" by (cases ?defs) fastforce+
    moreover have "getIngressDefaultPortPatch ?t = (if m = [] \<and> ?defs \<noteq> []
        then ?t\<lparr>rt_DefaultIngressPorts := Some ?defs\<rparr> else ?t\<lparr>rt_DefaultIngressPorts := Some m\<rparr>)"
      using Some sub by (simp add: getIngressDefaultPortPatch_def [of ?t] Let_def add_missing_id)
    ultimately show ?thesis using Some by simp
  qed
qed

lemma getIngressesPatch_idem: "getIngressesPatch (getIngressesPatch p) = getIngressesPatch p"
  by (auto simp: getIngressesPatch_def Let_def split: option.splits)

interpretation ingress_patch: defaulter getIngressesPatch
  by unfold_locales (rule getIngressesPatch_idem)

interpretation default_port_patch: defaulter getIngressDefaultPortPatch
  by unfold_locales (rule patch_idem)

definition mutate_target :: "RevisionTarget \<Rightarrow> RevisionTarget" where
  "mutate_target t = getIngressDefaultPortPatch (t\<lparr>rt_Ports := map getIngressesPatch (rt_Ports t)\<rparr>)"

lemma mutated_targets:
  "rsp_Targets (rev_Spec (snd (Default r))) = map mutate_target (rsp_Targets (rev_Spec r))"
  by (simp add: Default_def getPatches_def getIngressDefaultPortPatches_def getIngressesPatches_def
      mutate_target_def)

lemma mutate_target_idem: "mutate_target (mutate_target t) = mutate_target t"
proof -
  have "mutate_target t\<lparr>rt_Ports := map getIngressesPatch (rt_Ports (mutate_target t))\<rparr> = mutate_target t"
    by (simp add: mutate_target_def ingress_patch.idem)
  then show ?thesis by (simp add: mutate_target_def [of "mutate_target t"]) (simp add: mutate_target_def patch_idem)
qed

lemma Default_alt:
  "snd (Default r) = r\<lparr>rev_Spec := (rev_Spec r)\<lparr>rsp_Targets := map mutate_target (rsp_Targets (rev_Spec r))\<rparr>\<rparr>"
  by (simp add: Default_def getPatches_def getIngressDefaultPortPatches_def getIngressesPatches_def
      mutate_target_def o_def)

lemma Default_idem: "snd (Default (snd (Default r))) = snd (Default r)"
  by (simp add: Default_alt mutate_target_idem o_def)

text \<open>
  When the revision gives no defaults, mutation makes the ingress part of validation pass as soon as
  each offered ingress has one port, or has a port called \<^verbatim>\<open>http\<close> and none marked as default.
\<close>

lemma suggest_default_in: "suggest_default ps = Some n \<Longrightarrow> n \<in> pi_Name ` fst ` set ps"
  by (force simp: suggest_default_def Let_def list_ex_iff split: if_splits list.splits)

lemma suggest_default_some:
  "(\<exists>p. ps = [p]) \<or> ((\<exists>p \<in> fst ` set ps. pi_Name p = ''http'') \<and> (\<forall>p \<in> fst ` set ps. \<not> pi_Default p)) \<Longrightarrow>
   suggest_default ps \<noteq> None"
  by (force simp: suggest_default_def Let_def list_ex_iff split: if_splits list.splits)

lemma mutate_valid_defaults:
  assumes none: "rt_DefaultIngressPorts t = None \<or> rt_DefaultIngressPorts t = Some []"
    and ok: "\<And>g. offers (mutate_target t) g \<noteq> [] \<Longrightarrow>
      (\<exists>p. bucket (bucketIngressPorts (mutate_target t)) g = [p]) \<or>
      (\<exists>p \<in> set (offers (mutate_target t) g). pi_Name p = ''http'') \<and>
      (\<forall>p \<in> set (offers (mutate_target t) g). \<not> pi_Default p)"
  shows "valid_defaults (mutate_target t)"
proof -
  let ?t = "mutate_target t"
  have d: "mlookup (rt_DefaultIngressPorts ?t) g
      = Option.bind (map_of (bucketIngressPorts ?t) g) suggest_default" for g
    using none by (auto simp: mutate_target_def patched_default)
  have b: "map_of (bucketIngressPorts ?t) g = Some (bucket (bucketIngressPorts ?t) g)"
    if "offers ?t g \<noteq> []" for g
    using that bucket_key [of ?t g] by (auto simp: bucket_def)
  have *: "\<exists>n. mlookup (rt_DefaultIngressPorts ?t) g = Some n \<and> n \<in> pi_Name ` set (offers ?t g)"
    if o: "offers ?t g \<noteq> []" for g
    using ok [OF o] suggest_default_some [of "bucket (bucketIngressPorts ?t) g"]
      suggest_default_in [of "bucket (bucketIngressPorts ?t) g"] b [OF o] bucket_ports [of ?t g]
    by (auto simp: d)
  have "rt_DefaultIngressPorts ?t \<noteq> None \<and>
      (\<exists>p \<in> set (offers ?t g). pi_Name p = mget (rt_DefaultIngressPorts ?t) g)"
    if o: "offers ?t g \<noteq> []" for g
  proof -
    obtain n where "mlookup (rt_DefaultIngressPorts ?t) g = Some n" "n \<in> pi_Name ` set (offers ?t g)"
      using * [OF o] by blast
    then show ?thesis by (cases "rt_DefaultIngressPorts ?t") (auto simp: mget_def)
  qed
  moreover have "offers ?t g \<noteq> []" if "mlookup (rt_DefaultIngressPorts ?t) g \<noteq> None" for g
    using that bucket_key [of ?t g] by (auto simp: d)
  ultimately show ?thesis by (simp add: valid_defaults_def)
qed

end
