(* ===== verification/Kube_Objects.thy ===== *)
theory Kube_Objects
  imports Plan_Types
begin

text \<open>
  The Kubernetes objects the plans of \<^verbatim>\<open>src/controllers/plan\<close> build and \<^verbatim>\<open>src/plan/common.go\<close> writes: their
  metadata, the fields of their specification that the code sets, and the client of a target cluster.

  An object is a \<open>KubeObj\<close>: its metadata, a \<open>Body\<close> with one constructor per kind, and \<open>ko_rest\<close>, all that
  the program never sets (the status, the fields the API server owns). The types come from the
  \<^verbatim>\<open>k8s.io/api\<close> modules and the custom resources of Istio, Prometheus, Sloth, KEDA, Datadog and External
  Secrets; the records hold the fields the source names.
\<close>

section \<open>Istio\<close>

datatype StringMatch = MatchExact string | MatchPrefix string | MatchRegex string

record HTTPMatchRequest =
  hm_Headers :: "(string \<times> StringMatch) list"
  hm_Authority :: "StringMatch option"
  hm_Port :: u32
  hm_Gateways :: "string list"
  hm_Uri :: "StringMatch option"

record HTTPRouteDestination =
  hd_Host :: string
  hd_Port :: u32
  hd_Subset :: string
  hd_Weight :: int32

record HTTPRetry =
  hr_Attempts :: int32
  hr_PerTryTimeout :: "duration option"
  hr_RetryOn :: string

record HTTPRoute =
  ht_Name :: string
  ht_Timeout :: "duration option"
  ht_Retries :: "HTTPRetry option"
  ht_Match :: "HTTPMatchRequest list"
  ht_Route :: "HTTPRouteDestination list"
  ht_Fault :: "opaque option"

record VirtualServiceSpec =
  vs_Hosts :: "string list"
  vs_Gateways :: "string list"
  vs_Http :: "HTTPRoute list"

record Subset =
  su_Name :: string
  su_Labels :: strmap
  su_TrafficPolicy :: "opaque option"

record DestinationRuleSpec =
  dr_Host :: string
  dr_Subsets :: "Subset list"

section \<open>Services, Prometheus and Sloth\<close>

record ServicePort =
  sp_Name :: string
  sp_Protocol :: string
  sp_Port :: int32
  sp_TargetPort :: IntOrString

record RuleGroup =
  rg_Name :: string
  rg_Rules :: "Rule list"

record SLO =
  so_Name :: string
  so_Objective :: float64
  so_Description :: string
  so_Labels :: strmap
  so_Events :: "(string \<times> string) option"
  so_Alerting :: "Alerting option"

section \<open>Workloads and their autoscalers\<close>

record PodSpec =
  ps_ServiceAccountName :: string
  ps_Containers :: "Container list"
  ps_DNSOptions :: strmap
  ps_Affinity :: "opaque option"
  ps_PriorityClassName :: string
  ps_Tolerations :: "opaque list"
  ps_Volumes :: "opaque list"
  ps_SchedulerName :: string
  ps_TopologySpreadConstraints :: "TopologySpreadConstraint list"
  ps_TerminationGracePeriodSeconds :: "int64 option"

record PodTemplateSpec =
  pt_Name :: string
  pt_Namespace :: string
  pt_Labels :: "strmap option"
  pt_Annotations :: "strmap option"
  pt_Spec :: PodSpec

record ReplicaSetSpec =
  rset_Replicas :: "int32 option"
  rset_Selector :: "strmap option"
  rset_Template :: PodTemplateSpec
  rset_MinReadySeconds :: int32

record ObjectReference =
  or_APIVersion :: string
  or_Kind :: string
  or_Name :: string

datatype MetricSpec =
    ResourceUtilization string int32
  | PodsAverageValue string Quantity

record ScalingPolicy =
  spo_Type :: string
  spo_Value :: int32
  spo_PeriodSeconds :: int32

record ScalingRules =
  sru_StabilizationWindowSeconds :: "int32 option"
  sru_SelectPolicy :: "string option"
  sru_Policies :: "ScalingPolicy list"

record HPASpec =
  hpa_ScaleTargetRef :: ObjectReference
  hpa_MinReplicas :: "int32 option"
  hpa_MaxReplicas :: int32
  hpa_Metrics :: "MetricSpec list"
  hpa_Behavior :: "(ScalingRules \<times> ScalingRules) option"

record WPASpec =
  wpa_ReplicaSetName :: string
  wpa_MinReplicas :: "int32 option"
  wpa_MaxReplicas :: "int32 option"
  wpa_QueueURI :: string
  wpa_TargetMessagesPerWorker :: "int32 option"
  wpa_SecondsToProcessOneJob :: "float64 option"
  wpa_MaxDisruption :: "string option"

record ScaledObjectSpec =
  sob_ScaleTargetRef :: ObjectReference
  sob_CooldownPeriod :: "int32 option"
  sob_IdleReplicaCount :: "int32 option"
  sob_MinReplicaCount :: "int32 option"
  sob_MaxReplicaCount :: "int32 option"
  sob_Advanced :: "opaque option"
  sob_Triggers :: "ScaleTriggers list"
  sob_Fallback :: "opaque option"

record AuthTargetRef =
  at_Parameter :: string
  at_Name :: string
  at_Key :: string

record TriggerAuthenticationSpec =
  ta_PodIdentityProvider :: string
  ta_ConfigMapTargetRef :: "AuthTargetRef list"
  ta_SecretTargetRef :: "AuthTargetRef list"

section \<open>Access control\<close>

record PolicyRule =
  po_APIGroups :: "string list"
  po_Resources :: "string list"
  po_Verbs :: "string list"

record RBACSubject =
  rb_Kind :: string
  rb_Name :: string
  rb_Namespace :: string

section \<open>Unstructured objects\<close>

text \<open>A Go \<^verbatim>\<open>interface{}\<close> holding decoded JSON; \<open>JNil\<close> is the nil interface, what a missing key reads as.\<close>

datatype json = JNil | JString string | JInt int64 | JFloat float64
  | JMap "(string \<times> json) list" | JList "json list"

section \<open>Objects\<close>

datatype Data = DataMap strmap | OpaqueData opaque

datatype Body =
    NamespaceBody
  | ServiceBody "ServicePort list" strmap
  | ServiceAccountBody
  | DestinationRuleBody DestinationRuleSpec
  | VirtualServiceBody VirtualServiceSpec
  | SidecarBody "string list"
  | GatewayBody opaque
  | PrometheusRuleBody "RuleGroup list"
  | ServiceMonitorBody ServiceMonitorSpec
  | PrometheusServiceLevelBody string "SLO list"
  | SecretBody string Data
  | ExternalSecretBody opaque
  | ConfigMapBody Data
  | ReplicaSetBody ReplicaSetSpec
  | HPABody HPASpec
  | DatadogMetricBody string
  | WPABody WPASpec
  | ScaledObjectBody ScaledObjectSpec
  | TriggerAuthenticationBody TriggerAuthenticationSpec
  | PDBBody PodDisruptionBudgetSpec
  | RoleBody "PolicyRule list"
  | RoleBindingBody "RBACSubject list" ObjectReference
  | WaypointBody "json option"
  | OtherBody string

record KubeObj =
  ko_Meta :: ObjectMeta
  ko_Body :: Body
  ko_rest :: opaque

datatype Kind =
    KNamespace | KService | KServiceAccount | KDestinationRule | KVirtualService | KSidecar | KGateway
  | KPrometheusRule | KServiceMonitor | KPrometheusServiceLevel | KSecret | KExternalSecret
  | KConfigMap | KReplicaSet | KHPA | KDatadogMetric | KWPA | KScaledObject
  | KTriggerAuthentication | KPDB | KRole | KRoleBinding | KWaypoint | KOther string

fun kind_of :: "Body \<Rightarrow> Kind" where
  "kind_of NamespaceBody = KNamespace"
| "kind_of (ServiceBody _ _) = KService"
| "kind_of ServiceAccountBody = KServiceAccount"
| "kind_of (DestinationRuleBody _) = KDestinationRule"
| "kind_of (VirtualServiceBody _) = KVirtualService"
| "kind_of (SidecarBody _) = KSidecar"
| "kind_of (GatewayBody _) = KGateway"
| "kind_of (PrometheusRuleBody _) = KPrometheusRule"
| "kind_of (ServiceMonitorBody _) = KServiceMonitor"
| "kind_of (PrometheusServiceLevelBody _ _) = KPrometheusServiceLevel"
| "kind_of (SecretBody _ _) = KSecret"
| "kind_of (ExternalSecretBody _) = KExternalSecret"
| "kind_of (ConfigMapBody _) = KConfigMap"
| "kind_of (ReplicaSetBody _) = KReplicaSet"
| "kind_of (HPABody _) = KHPA"
| "kind_of (DatadogMetricBody _) = KDatadogMetric"
| "kind_of (WPABody _) = KWPA"
| "kind_of (ScaledObjectBody _) = KScaledObject"
| "kind_of (TriggerAuthenticationBody _) = KTriggerAuthentication"
| "kind_of (PDBBody _) = KPDB"
| "kind_of (RoleBody _) = KRole"
| "kind_of (RoleBindingBody _ _) = KRoleBinding"
| "kind_of (WaypointBody _) = KWaypoint"
| "kind_of (OtherBody k) = KOther k"

text \<open>An object is addressed by its kind, namespace and name.\<close>

record Key =
  key_Kind :: Kind
  key_Namespace :: string
  key_Name :: string

definition key_of :: "KubeObj \<Rightarrow> Key" where
  "key_of obj = \<lparr>key_Kind = kind_of (ko_Body obj), key_Namespace = om_Namespace (ko_Meta obj),
     key_Name = om_Name (ko_Meta obj)\<rparr>"

text \<open>A fresh \<^verbatim>\<open>metav1.ObjectMeta\<close> with a name, a namespace and labels, and an object with it.\<close>

definition named :: "string \<Rightarrow> string \<Rightarrow> strmap option \<Rightarrow> ObjectMeta" where
  "named ns n ls = zero_ObjectMeta\<lparr>om_Namespace := ns, om_Name := n, om_Labels := ls\<rparr>"

definition object :: "ObjectMeta \<Rightarrow> Body \<Rightarrow> KubeObj" where
  "object m b = \<lparr>ko_Meta = m, ko_Body = b, ko_rest = []\<rparr>"

lemma named_simps [simp]:
  "om_Name (named ns n ls) = n" "om_Namespace (named ns n ls) = ns" "om_Labels (named ns n ls) = ls"
  "om_Annotations (named ns n ls) = None"
  by (simp_all add: named_def zero_ObjectMeta_def)

lemma object_simps [simp]:
  "ko_Meta (object m b) = m" "ko_Body (object m b) = b" "ko_rest (object m b) = []"
  by (simp_all add: object_def)

lemma key_of_object [simp]:
  "key_of (object m b) = \<lparr>key_Kind = kind_of b, key_Namespace = om_Namespace m, key_Name = om_Name m\<rparr>"
  by (simp add: key_of_def)

section \<open>The client of a cluster\<close>

text \<open>
  A step of a plan against a cluster in state \<open>'c\<close>: its error and the state it leaves, \<open>None\<close> when it
  panics.
\<close>

type_synonym 'c step = "'c \<Rightarrow> (goerror option \<times> 'c) option"

text \<open>
  \<^verbatim>\<open>client.Client\<close> of controller-runtime, by the calls the plans make; a list call takes the kind, the
  namespace and the labels to select on. \<open>k_CreateOrUpdate\<close> is \<^verbatim>\<open>controllerutil.CreateOrUpdate\<close>, with the
  object and the mutate function, whose panic it passes on.
\<close>

record 'c Client =
  k_Get :: "Key \<Rightarrow> 'c \<Rightarrow> goerror + KubeObj"
  k_Create :: "KubeObj \<Rightarrow> 'c \<Rightarrow> goerror option \<times> 'c"
  k_Update :: "KubeObj \<Rightarrow> 'c \<Rightarrow> goerror option \<times> 'c"
  k_Delete :: "Key \<Rightarrow> 'c \<Rightarrow> goerror option \<times> 'c"
  k_List :: "Kind \<Rightarrow> string \<Rightarrow> strmap \<Rightarrow> 'c \<Rightarrow> goerror + KubeObj list"
  k_CreateOrUpdate :: "KubeObj \<Rightarrow> (KubeObj \<Rightarrow> KubeObj option) \<Rightarrow> 'c step"

text \<open>Steps in sequence, stopping at the first error, and a step that cannot panic.\<close>

definition ok :: "'c step" where
  "ok c = Some (None, c)"

definition fails :: "goerror \<Rightarrow> 'c step" where
  "fails e c = Some (Some e, c)"

definition then_do :: "'c step \<Rightarrow> 'c step \<Rightarrow> 'c step" where
  "then_do f g c = (case f c of
     None \<Rightarrow> None
   | Some (Some e, c') \<Rightarrow> Some (Some e, c')
   | Some (None, c') \<Rightarrow> g c')"

fun each :: "('a \<Rightarrow> 'c step) \<Rightarrow> 'a list \<Rightarrow> 'c step" where
  "each f [] = ok"
| "each f (x # xs) = then_do (f x) (each f xs)"

definition total :: "('c \<Rightarrow> goerror option \<times> 'c) \<Rightarrow> 'c step" where
  "total f c = Some (f c)"

text \<open>\<^verbatim>\<open>utils.DeleteIfExists\<close>, and the same test written out in several plans.\<close>

definition DeleteIfExists :: "'c Client \<Rightarrow> Key \<Rightarrow> 'c \<Rightarrow> goerror option \<times> 'c" where
  "DeleteIfExists cli k c = (case k_Delete cli k c of
     (Some e, c') \<Rightarrow> (if e \<noteq> NotFound then Some e else None, c')
   | (None, c') \<Rightarrow> (None, c'))"

lemma then_do_ok [simp]: "then_do ok g = g"
  by (rule ext) (simp add: then_do_def ok_def)

lemma then_do_success:
  "then_do f g c = Some (None, c'') \<longleftrightarrow> (\<exists>c'. f c = Some (None, c') \<and> g c' = Some (None, c''))"
  by (auto simp: then_do_def split: option.splits prod.splits)

lemma then_do_assoc: "then_do (then_do f g) h = then_do f (then_do g h)"
  by (rule ext) (auto simp: then_do_def split: option.splits prod.splits)

lemma each_append: "each f (xs @ ys) = then_do (each f xs) (each f ys)"
  by (induction xs) (simp_all add: then_do_assoc)

lemma each_not_panic:
  assumes "\<And>x c. x \<in> set xs \<Longrightarrow> f x c \<noteq> None"
  shows "each f xs c \<noteq> None"
  using assms
proof (induction xs arbitrary: c)
  case Nil
  then show ?case by (simp add: ok_def)
next
  case (Cons x xs)
  then have "f x c \<noteq> None" by simp
  moreover have "\<And>c. each f xs c \<noteq> None" using Cons by (intro Cons.IH) simp
  ultimately show ?case by (auto simp: then_do_def split: option.splits prod.splits)
qed

section \<open>What the client documents\<close>

text \<open>
  The state of a cluster is seen through \<open>store\<close>, the objects in it by their keys. The hypothesis
  \<open>documented\<close> states what controller-runtime documents of the calls when they succeed, and that a call
  that fails changes no object: it is the only assumption made about a cluster. \<^verbatim>\<open>CreateOrUpdate\<close> gets the
  object, calls the mutate function on what it got, or on the object it was given when there is none, and
  creates or updates the result. \<^verbatim>\<open>errors.Is\<close> compares the identity of errors, and \<open>ErrNoChangeNeeded\<close> is made
  by \<^verbatim>\<open>src/plan\<close>: no error of the client is that one.
\<close>

definition ErrNoChangeNeeded :: goerror where
  "ErrNoChangeNeeded = Errorf ''no change needed''"

type_synonym store = "Key \<Rightarrow> KubeObj option"

definition held :: "store \<Rightarrow> KubeObj \<Rightarrow> KubeObj" where
  "held s obj = (case s (key_of obj) of None \<Rightarrow> obj | Some e \<Rightarrow> e)"

definition documented_CreateOrUpdate :: "'c Client \<Rightarrow> ('c \<Rightarrow> store) \<Rightarrow> bool" where
  "documented_CreateOrUpdate cli store \<longleftrightarrow> (\<forall>obj f c.
     case k_CreateOrUpdate cli obj f c of
       None \<Rightarrow> f (held (store c) obj) = None
     | Some (Some e, c') \<Rightarrow> store c' = store c \<and> e \<noteq> ErrNoChangeNeeded
     | Some (None, c') \<Rightarrow> (\<exists>new. f (held (store c) obj) = Some new \<and>
         store c' = (store c)(key_of obj \<mapsto> new)))"

definition documented_Get :: "'c Client \<Rightarrow> ('c \<Rightarrow> store) \<Rightarrow> bool" where
  "documented_Get cli store \<longleftrightarrow> (\<forall>k c. case k_Get cli k c of
       Inr obj \<Rightarrow> store c k = Some obj
     | Inl e \<Rightarrow> e = NotFound \<longrightarrow> store c k = None)"

definition documented_write :: "'c Client \<Rightarrow> ('c \<Rightarrow> store) \<Rightarrow> bool" where
  "documented_write cli store \<longleftrightarrow> (\<forall>obj c.
     (case k_Create cli obj c of
        (None, c') \<Rightarrow> store c' = (store c)(key_of obj \<mapsto> obj)
      | (Some e, c') \<Rightarrow> store c' = store c) \<and>
     (case k_Update cli obj c of
        (None, c') \<Rightarrow> store c' = (store c)(key_of obj \<mapsto> obj)
      | (Some e, c') \<Rightarrow> store c' = store c))"

definition documented_Delete :: "'c Client \<Rightarrow> ('c \<Rightarrow> store) \<Rightarrow> bool" where
  "documented_Delete cli store \<longleftrightarrow> (\<forall>k c. case k_Delete cli k c of
       (None, c') \<Rightarrow> store c' = (store c)(k := None)
     | (Some e, c') \<Rightarrow> store c' = store c \<and> (e = NotFound \<or> e = NoKindMatch \<longrightarrow> store c k = None))"

definition selects :: "strmap \<Rightarrow> KubeObj \<Rightarrow> bool" where
  "selects sel obj \<longleftrightarrow> list_all (\<lambda>(k, v). mlookup (om_Labels (ko_Meta obj)) k = Some v) sel"

definition documented_List :: "'c Client \<Rightarrow> ('c \<Rightarrow> store) \<Rightarrow> bool" where
  "documented_List cli store \<longleftrightarrow> (\<forall>kind ns sel c. case k_List cli kind ns sel c of
       Inl e \<Rightarrow> e = NoKindMatch \<longrightarrow> (\<forall>k. key_Kind k = kind \<longrightarrow> store c k = None)
     | Inr items \<Rightarrow> set items = {obj. \<exists>n. store c \<lparr>key_Kind = kind, key_Namespace = ns, key_Name = n\<rparr> = Some obj \<and>
           selects sel obj})"

text \<open>A kind the cluster does not know has no objects there.\<close>

text \<open>
  The objects in the store are where their keys say: what an API server guarantees. The client that is
  documented is an ideal one in three respects: an API server adds no defaults to what is written; a deletion
  that succeeds has removed the object at once, whatever finalizers it carries; and an operation that fails
  has changed nothing.
\<close>

definition keyed :: "store \<Rightarrow> bool" where
  "keyed s \<longleftrightarrow> (\<forall>k obj. s k = Some obj \<longrightarrow> key_of obj = k)"

definition documented :: "'c Client \<Rightarrow> ('c \<Rightarrow> store) \<Rightarrow> bool" where
  "documented cli store \<longleftrightarrow> documented_CreateOrUpdate cli store \<and> documented_Get cli store \<and>
     documented_write cli store \<and> documented_Delete cli store \<and> documented_List cli store \<and>
     (\<forall>c. keyed (store c))"

lemma documentedD:
  assumes "documented cli store"
  shows "documented_CreateOrUpdate cli store" "documented_Get cli store" "documented_write cli store"
    "documented_Delete cli store" "documented_List cli store" "keyed (store c)"
  using assms by (simp_all add: documented_def)

lemma CreateOrUpdate_cases:
  assumes "documented cli store"
  shows "case k_CreateOrUpdate cli obj f c of
       None \<Rightarrow> f (held (store c) obj) = None
     | Some (Some e, c') \<Rightarrow> store c' = store c \<and> e \<noteq> ErrNoChangeNeeded
     | Some (None, c') \<Rightarrow> (\<exists>new. f (held (store c) obj) = Some new \<and>
         store c' = (store c)(key_of obj \<mapsto> new))"
  using documentedD(1) [OF assms] unfolding documented_CreateOrUpdate_def by blast

lemma CreateOrUpdate_success:
  assumes "documented cli store" "k_CreateOrUpdate cli obj f c = Some (None, c')"
  shows "\<exists>new. f (held (store c) obj) = Some new \<and> store c' = (store c)(key_of obj \<mapsto> new)"
  using CreateOrUpdate_cases [OF assms(1), where obj = obj and f = f and c = c] by (simp add: assms(2))

lemma CreateOrUpdate_failure:
  assumes "documented cli store" "k_CreateOrUpdate cli obj f c = Some (Some e, c')"
  shows "store c' = store c \<and> e \<noteq> ErrNoChangeNeeded"
  using CreateOrUpdate_cases [OF assms(1), where obj = obj and f = f and c = c] by (simp add: assms(2))

lemma CreateOrUpdate_not_panic:
  assumes "documented cli store" "f (held (store c) obj) \<noteq> None"
  shows "k_CreateOrUpdate cli obj f c \<noteq> None"
  using CreateOrUpdate_cases [OF assms(1), where obj = obj and f = f and c = c] assms(2) by (auto split: option.splits)

lemma Get_cases:
  "documented cli store \<Longrightarrow>
   case k_Get cli k c of Inr obj \<Rightarrow> store c k = Some obj | Inl e \<Rightarrow> e = NotFound \<longrightarrow> store c k = None"
  using documentedD(2) [of cli store] unfolding documented_Get_def by blast

lemma Get_key:
  assumes "documented cli store" "k_Get cli k c = Inr obj"
  shows "store c k = Some obj" "key_of obj = k"
proof -
  show "store c k = Some obj" using Get_cases [OF assms(1), where k = k and c = c] assms(2) by simp
  with documentedD(6) [OF assms(1)] show "key_of obj = k" unfolding keyed_def by blast
qed

lemma Get_missing:
  "documented cli store \<Longrightarrow> k_Get cli k c = Inl NotFound \<Longrightarrow> store c k = None"
  using Get_cases [of cli store, where k = k and c = c] by simp

lemma Create_cases:
  "documented cli store \<Longrightarrow>
   case k_Create cli obj c of (None, c') \<Rightarrow> store c' = (store c)(key_of obj \<mapsto> obj)
   | (Some e, c') \<Rightarrow> store c' = store c"
  by (drule documentedD(3)) (simp add: documented_write_def)

lemma Update_cases:
  "documented cli store \<Longrightarrow>
   case k_Update cli obj c of (None, c') \<Rightarrow> store c' = (store c)(key_of obj \<mapsto> obj)
   | (Some e, c') \<Rightarrow> store c' = store c"
  by (drule documentedD(3)) (simp add: documented_write_def)

lemma Delete_cases:
  "documented cli store \<Longrightarrow>
   case k_Delete cli k c of (None, c') \<Rightarrow> store c' = (store c)(k := None)
   | (Some e, c') \<Rightarrow> store c' = store c \<and> (e = NotFound \<or> e = NoKindMatch \<longrightarrow> store c k = None)"
  by (drule documentedD(4)) (simp add: documented_Delete_def)

lemma List_cases:
  "documented cli store \<Longrightarrow>
   case k_List cli kind ns sel c of
     Inl e \<Rightarrow> e = NoKindMatch \<longrightarrow> (\<forall>k. key_Kind k = kind \<longrightarrow> store c k = None)
   | Inr items \<Rightarrow> set items = {obj. \<exists>n. store c \<lparr>key_Kind = kind, key_Namespace = ns, key_Name = n\<rparr> = Some obj \<and>
       selects sel obj}"
  by (drule documentedD(5)) (simp add: documented_List_def)

lemma DeleteIfExists_success:
  assumes "documented cli store" "DeleteIfExists cli k c = (None, c')"
  shows "store c' = (store c)(k := None)"
  using Delete_cases [OF assms(1), where k = k and c = c] assms(2)
  by (auto simp: DeleteIfExists_def fun_upd_idem split: prod.splits option.splits if_splits)

lemma key_of_held: "keyed s \<Longrightarrow> key_of (held s obj) = key_of obj"
  by (auto simp: held_def keyed_def split: option.splits)

section \<open>Deleting lists of objects\<close>

lemma each_deletes:
  assumes "\<And>x c c'. f x c = Some (None, c') \<Longrightarrow> store c' = (store c)(key x := None)"
    and "each f xs c = Some (None, c')"
  shows "store c' = (\<lambda>k. if k \<in> key ` set xs then None else store c k)"
  using assms(2)
proof (induction xs arbitrary: c)
  case Nil
  then show ?case by (simp add: ok_def)
next
  case (Cons x xs)
  then obtain c1 where c1: "f x c = Some (None, c1)" and rest: "each f xs c1 = Some (None, c')"
    by (auto simp: then_do_success)
  from assms(1) [OF c1] Cons.IH [OF rest] show ?case by (auto simp: fun_eq_iff)
qed

lemma Delete_success:
  assumes "documented cli store" "total (k_Delete cli k) c = Some (None, c')"
  shows "store c' = (store c)(k := None)"
  using Delete_cases [OF assms(1), where k = k and c = c] assms(2) by (simp add: total_def)

lemma total_DeleteIfExists_success:
  assumes "documented cli store" "total (DeleteIfExists cli k) c = Some (None, c')"
  shows "store c' = (store c)(k := None)"
  using DeleteIfExists_success [OF assms(1)] assms(2) by (simp add: total_def)

text \<open>The store without the objects of a kind, in a namespace, with the labels.\<close>

definition doomed :: "Kind \<Rightarrow> string \<Rightarrow> strmap \<Rightarrow> Key \<Rightarrow> KubeObj \<Rightarrow> bool" where
  "doomed kind ns sel k obj \<longleftrightarrow> key_Kind k = kind \<and> key_Namespace k = ns \<and> selects sel obj"

definition without :: "(Key \<Rightarrow> KubeObj \<Rightarrow> bool) \<Rightarrow> store \<Rightarrow> store" where
  "without P s k = (case s k of None \<Rightarrow> None | Some obj \<Rightarrow> if P k obj then None else Some obj)"

lemma without_without: "without P (without Q s) = without (\<lambda>k obj. P k obj \<or> Q k obj) s"
  by (rule ext) (simp add: without_def split: option.splits)

lemma without_none: "\<forall>k obj. s k = Some obj \<longrightarrow> \<not> P k obj \<Longrightarrow> without P s = s"
  by (rule ext) (auto simp: without_def split: option.splits)

lemma listed_keys:
  assumes "documented cli store" "k_List cli kind ns sel c = Inr items"
  shows "(\<lambda>k. if k \<in> key_of ` set items then None else store c k) = without (doomed kind ns sel) (store c)"
proof -
  have items: "set items = {obj. \<exists>n. store c \<lparr>key_Kind = kind, key_Namespace = ns, key_Name = n\<rparr> = Some obj \<and>
      selects sel obj}" using List_cases [OF assms(1), where kind = kind and ns = ns and sel = sel and c = c] by (simp add: assms(2))
  have keyed: "key_of obj = k" if "store c k = Some obj" for k obj
    using documentedD(6) [OF assms(1)] that unfolding keyed_def by blast
  have "k \<in> key_of ` set items \<longleftrightarrow> (\<exists>obj. store c k = Some obj \<and> doomed kind ns sel k obj)" for k
  proof
    assume "k \<in> key_of ` set items"
    then obtain obj n where "k = key_of obj" and s: "store c \<lparr>key_Kind = kind, key_Namespace = ns, key_Name = n\<rparr> = Some obj"
      and "selects sel obj" unfolding items by blast
    with keyed [OF s] show "\<exists>obj. store c k = Some obj \<and> doomed kind ns sel k obj" by (auto simp: doomed_def)
  next
    assume "\<exists>obj. store c k = Some obj \<and> doomed kind ns sel k obj"
    then obtain obj where s: "store c k = Some obj" and d: "doomed kind ns sel k obj" by blast
    moreover from d have "k = \<lparr>key_Kind = kind, key_Namespace = ns, key_Name = key_Name k\<rparr>" by (simp add: doomed_def)
    ultimately have "obj \<in> set items" unfolding items doomed_def by (metis (mono_tags, lifting) mem_Collect_eq)
    with keyed [OF s] show "k \<in> key_of ` set items" by blast
  qed
  then show ?thesis by (auto simp: fun_eq_iff without_def split: option.splits)
qed

lemma list_missing_kind:
  assumes "documented cli store" "k_List cli kind ns sel c = Inl NoKindMatch"
  shows "without (doomed kind ns sel) (store c) = store c"
proof -
  have none: "\<forall>k. key_Kind k = kind \<longrightarrow> store c k = None"
    using List_cases [OF assms(1), where kind = kind and ns = ns and sel = sel and c = c] by (simp add: assms(2))
  show ?thesis by (rule without_none) (use none in \<open>auto simp: doomed_def\<close>)
qed

end
