(* ===== verification/Create_Or_Update.thy ===== *)
theory Create_Or_Update
  imports Kube_Objects
begin

text \<open>
  \<^verbatim>\<open>plan.CreateOrUpdate\<close> of \<^verbatim>\<open>src/plan/common.go\<close>: how every object a plan builds reaches a cluster.

  The source has one case per kind; each builds a fresh object and a closure that changes the object the
  cluster has (or the fresh one). A case is here a definition giving the pair. The lemmas show what a write
  keeps, that writing twice is writing once, and that an object with the ignore label is left as it is.
\<close>

definition AnnotationPausedReplicas :: string where
  "AnnotationPausedReplicas = ''autoscaling.keda.sh/paused-replicas''"
definition AutoscalerTypeHPA :: string where "AutoscalerTypeHPA = ''hpa''"
definition AutoscalerTypeWPA :: string where "AutoscalerTypeWPA = ''wpa''"
definition AutoscalerTypeKEDA :: string where "AutoscalerTypeKEDA = ''keda''"

definition CopyStringMap :: "strmap option \<Rightarrow> strmap option" where
  "CopyStringMap src = (case src of None \<Rightarrow> None | Some m \<Rightarrow> Some (copy_into m []))"

definition isIgnored :: "ObjectMeta \<Rightarrow> bool" where
  "isIgnored m \<longleftrightarrow> (case om_Labels m of None \<Rightarrow> False | Some ls \<Rightarrow> list_ex (\<lambda>(l, _). l = LabelIgnore) ls)"

section \<open>Fields\<close>

abbreviation labels_of :: "KubeObj \<Rightarrow> strmap option" where
  "labels_of obj \<equiv> om_Labels (ko_Meta obj)"

abbreviation annotations_of :: "KubeObj \<Rightarrow> strmap option" where
  "annotations_of obj \<equiv> om_Annotations (ko_Meta obj)"

definition set_labels :: "strmap option \<Rightarrow> KubeObj \<Rightarrow> KubeObj" where
  "set_labels ls obj = obj\<lparr>ko_Meta := (ko_Meta obj)\<lparr>om_Labels := ls\<rparr>\<rparr>"

definition set_annotations :: "strmap option \<Rightarrow> KubeObj \<Rightarrow> KubeObj" where
  "set_annotations as obj = obj\<lparr>ko_Meta := (ko_Meta obj)\<lparr>om_Annotations := as\<rparr>\<rparr>"

definition set_body :: "Body \<Rightarrow> KubeObj \<Rightarrow> KubeObj" where
  "set_body b obj = obj\<lparr>ko_Body := b\<rparr>"

text \<open>Go's zero value of the specification of each kind.\<close>

definition no_reference :: ObjectReference where
  "no_reference = \<lparr>or_APIVersion = [], or_Kind = [], or_Name = []\<rparr>"

definition zero_PodSpec :: PodSpec where
  "zero_PodSpec = \<lparr>ps_ServiceAccountName = [], ps_Containers = [], ps_DNSOptions = [],
     ps_Affinity = None, ps_PriorityClassName = [], ps_Tolerations = [], ps_Volumes = [],
     ps_SchedulerName = [], ps_TopologySpreadConstraints = [], ps_TerminationGracePeriodSeconds = None\<rparr>"

definition zero_ReplicaSetSpec :: ReplicaSetSpec where
  "zero_ReplicaSetSpec = \<lparr>rset_Replicas = None, rset_Selector = None,
     rset_Template = \<lparr>pt_Name = [], pt_Namespace = [], pt_Labels = None, pt_Annotations = None,
       pt_Spec = zero_PodSpec\<rparr>,
     rset_MinReadySeconds = 0\<rparr>"

fun zero_body :: "Body \<Rightarrow> Body" where
  "zero_body NamespaceBody = NamespaceBody"
| "zero_body (ServiceBody _ _) = ServiceBody [] []"
| "zero_body ServiceAccountBody = ServiceAccountBody"
| "zero_body (DestinationRuleBody _) = DestinationRuleBody \<lparr>dr_Host = [], dr_Subsets = []\<rparr>"
| "zero_body (VirtualServiceBody _) = VirtualServiceBody \<lparr>vs_Hosts = [], vs_Gateways = [], vs_Http = []\<rparr>"
| "zero_body (SidecarBody _) = SidecarBody []"
| "zero_body (GatewayBody _) = GatewayBody []"
| "zero_body (PrometheusRuleBody _) = PrometheusRuleBody []"
| "zero_body (ServiceMonitorBody _) =
     ServiceMonitorBody \<lparr>sms_Endpoints = [], sms_NamespaceSelector = [], sms_rest = []\<rparr>"
| "zero_body (PrometheusServiceLevelBody _ _) = PrometheusServiceLevelBody [] []"
| "zero_body (SecretBody _ _) = SecretBody [] (DataMap [])"
| "zero_body (ExternalSecretBody _) = ExternalSecretBody []"
| "zero_body (ConfigMapBody _) = ConfigMapBody (DataMap [])"
| "zero_body (ReplicaSetBody _) = ReplicaSetBody zero_ReplicaSetSpec"
| "zero_body (HPABody _) = HPABody \<lparr>hpa_ScaleTargetRef = no_reference, hpa_MinReplicas = None,
     hpa_MaxReplicas = 0, hpa_Metrics = [], hpa_Behavior = None\<rparr>"
| "zero_body (DatadogMetricBody _) = DatadogMetricBody []"
| "zero_body (WPABody _) = WPABody \<lparr>wpa_ReplicaSetName = [], wpa_MinReplicas = None,
     wpa_MaxReplicas = None, wpa_QueueURI = [], wpa_TargetMessagesPerWorker = None,
     wpa_SecondsToProcessOneJob = None, wpa_MaxDisruption = None\<rparr>"
| "zero_body (ScaledObjectBody _) = ScaledObjectBody \<lparr>sob_ScaleTargetRef = no_reference,
     sob_CooldownPeriod = None, sob_IdleReplicaCount = None, sob_MinReplicaCount = None,
     sob_MaxReplicaCount = None, sob_Advanced = None, sob_Triggers = [], sob_Fallback = None\<rparr>"
| "zero_body (TriggerAuthenticationBody _) = TriggerAuthenticationBody
     \<lparr>ta_PodIdentityProvider = [], ta_ConfigMapTargetRef = [], ta_SecretTargetRef = []\<rparr>"
| "zero_body (PDBBody _) = PDBBody
     \<lparr>pd_MinAvailable = None, pd_MaxUnavailable = None, pd_Selector = None, pd_rest = []\<rparr>"
| "zero_body (RoleBody _) = RoleBody []"
| "zero_body (RoleBindingBody _ _) = RoleBindingBody [] no_reference"
| "zero_body (WaypointBody _) = WaypointBody None"
| "zero_body (OtherBody k) = OtherBody k"

text \<open>The fresh object of a case, and the test every closure starts with.\<close>

definition fresh :: "KubeObj \<Rightarrow> strmap option \<Rightarrow> strmap option \<Rightarrow> KubeObj" where
  "fresh typed ls as = object
     ((named (om_Namespace (ko_Meta typed)) (om_Name (ko_Meta typed)) ls)\<lparr>om_Annotations := as\<rparr>)
     (zero_body (ko_Body typed))"

type_synonym mutate = "KubeObj \<Rightarrow> KubeObj option"

definition unless_ignored :: "mutate \<Rightarrow> mutate" where
  "unless_ignored f cur = (if isIgnored (ko_Meta cur) then Some cur else f cur)"

text \<open>\<^verbatim>\<open>x.Spec = typed.Spec; x.Labels = CopyStringMap(typed.Labels)\<close>, and without the labels.\<close>

definition assign :: "KubeObj \<Rightarrow> mutate" where
  "assign typed cur = Some (set_labels (CopyStringMap (labels_of typed)) (set_body (ko_Body typed) cur))"

definition assign_spec :: "KubeObj \<Rightarrow> mutate" where
  "assign_spec typed cur = Some (set_body (ko_Body typed) cur)"

section \<open>The cases\<close>

definition case_Namespace :: "KubeObj \<Rightarrow> KubeObj \<times> mutate" where
  "case_Namespace typed =
     (object (named [] (om_Name (ko_Meta typed)) (CopyStringMap (labels_of typed))) NamespaceBody,
      unless_ignored (\<lambda>cur. Some (set_annotations (CopyStringMap (annotations_of typed))
        (set_labels (CopyStringMap (labels_of typed)) cur))))"

definition case_Service :: "KubeObj \<Rightarrow> KubeObj \<times> mutate" where
  "case_Service typed = (fresh typed None None, unless_ignored (assign typed))"

definition case_ServiceAccount :: "KubeObj \<Rightarrow> KubeObj \<times> mutate" where
  "case_ServiceAccount typed =
     (fresh typed None None,
      unless_ignored (\<lambda>cur. Some (set_annotations (CopyStringMap (annotations_of typed))
        (set_labels (CopyStringMap (labels_of typed)) cur))))"

definition case_DestinationRule :: "KubeObj \<Rightarrow> KubeObj \<times> mutate" where
  "case_DestinationRule typed = (fresh typed None None, unless_ignored (assign typed))"

definition case_VirtualService :: "KubeObj \<Rightarrow> KubeObj \<times> mutate" where
  "case_VirtualService typed = (fresh typed None None, unless_ignored (assign typed))"

definition case_Sidecar :: "KubeObj \<Rightarrow> KubeObj \<times> mutate" where
  "case_Sidecar typed = (fresh typed None None, unless_ignored (assign typed))"

definition case_Gateway :: "KubeObj \<Rightarrow> KubeObj \<times> mutate" where
  "case_Gateway typed = (fresh typed None None, unless_ignored (assign typed))"

definition case_PrometheusRule :: "KubeObj \<Rightarrow> KubeObj \<times> mutate" where
  "case_PrometheusRule typed = (fresh typed None None, unless_ignored (assign typed))"

definition case_ServiceMonitor :: "KubeObj \<Rightarrow> KubeObj \<times> mutate" where
  "case_ServiceMonitor typed = (fresh typed None None, unless_ignored (assign typed))"

definition case_PrometheusServiceLevel :: "KubeObj \<Rightarrow> KubeObj \<times> mutate" where
  "case_PrometheusServiceLevel typed = (fresh typed None None, unless_ignored (assign typed))"

text \<open>The type and the annotations of a secret are set when it is created and never again.\<close>

definition case_Secret :: "string \<Rightarrow> Data \<Rightarrow> KubeObj \<Rightarrow> KubeObj \<times> mutate" where
  "case_Secret ty data typed =
     (set_body (SecretBody ty (DataMap [])) (fresh typed None (annotations_of typed)),
      unless_ignored (\<lambda>cur. Some (set_labels (CopyStringMap (labels_of typed))
        (case ko_Body cur of SecretBody ty' _ \<Rightarrow> set_body (SecretBody ty' data) cur | _ \<Rightarrow> cur))))"

definition case_ExternalSecret :: "KubeObj \<Rightarrow> KubeObj \<times> mutate" where
  "case_ExternalSecret typed = (fresh typed None None, unless_ignored (assign typed))"

definition case_ConfigMap :: "KubeObj \<Rightarrow> KubeObj \<times> mutate" where
  "case_ConfigMap typed = (fresh typed None None, unless_ignored (assign typed))"

text \<open>
  A replica set. Its size changes only to or from zero, and not at all when a worker pod autoscaler owns
  it; its pod template is frozen once it has one, apart from one annotation. The dereference of
  \<^verbatim>\<open>typed.Spec.Replicas\<close> panics when it is nil.
\<close>

definition sync_replicas :: "bool \<Rightarrow> int32 option \<Rightarrow> int32 option \<Rightarrow> int32 option option" where
  "sync_replicas wpa typed cur =
     (if wpa then Some cur
      else let r = (case cur of None \<Rightarrow> 0 | Some r \<Rightarrow> r) in
        case typed of
          None \<Rightarrow> None
        | Some n \<Rightarrow> Some (Some (if n = 0 \<or> r = 0 then n else r)))"

definition sync_template :: "PodTemplateSpec \<Rightarrow> PodTemplateSpec \<Rightarrow> PodTemplateSpec" where
  "sync_template typed cur =
     (if pt_Labels cur = None \<or> pt_Labels cur = Some [] then typed
      else case pt_Annotations cur of
        None \<Rightarrow> cur
      | Some as \<Rightarrow>
          (case mlookup (pt_Annotations typed) AnnotationKarpenterDoNotDisrupt of
             Some v \<Rightarrow>
               if v \<noteq> [] then cur\<lparr>pt_Annotations := Some (AList.update AnnotationKarpenterDoNotDisrupt v as)\<rparr>
               else cur\<lparr>pt_Annotations := Some (AList.delete AnnotationKarpenterDoNotDisrupt as)\<rparr>
           | None \<Rightarrow> cur\<lparr>pt_Annotations := Some (AList.delete AnnotationKarpenterDoNotDisrupt as)\<rparr>))"

definition mutate_ReplicaSet :: "ReplicaSetSpec \<Rightarrow> KubeObj \<Rightarrow> mutate" where
  "mutate_ReplicaSet t typed cur = (case ko_Body cur of
     ReplicaSetBody s \<Rightarrow>
       (case sync_replicas (mget (annotations_of typed) AnnotationAutoscaler = AutoscalerTypeWPA)
               (rset_Replicas t) (rset_Replicas s) of
          None \<Rightarrow> None
        | Some replicas \<Rightarrow> Some (set_labels (labels_of typed) (set_body (ReplicaSetBody
            (s\<lparr>rset_Replicas := replicas,
               rset_Template := sync_template (rset_Template t) (rset_Template s),
               rset_Selector := rset_Selector t\<rparr>)) cur)))
   | _ \<Rightarrow> Some cur)"

definition case_ReplicaSet :: "ReplicaSetSpec \<Rightarrow> KubeObj \<Rightarrow> KubeObj \<times> mutate" where
  "case_ReplicaSet t typed =
     (fresh typed None (annotations_of typed), unless_ignored (mutate_ReplicaSet t typed))"

text \<open>The labels of the autoscalers are set when they are created and never again.\<close>

definition case_HPA :: "KubeObj \<Rightarrow> KubeObj \<times> mutate" where
  "case_HPA typed = (fresh typed (labels_of typed) None, unless_ignored (assign_spec typed))"

definition case_DatadogMetric :: "KubeObj \<Rightarrow> KubeObj \<times> mutate" where
  "case_DatadogMetric typed = (fresh typed None None, unless_ignored (assign typed))"

definition case_WPA :: "KubeObj \<Rightarrow> KubeObj \<times> mutate" where
  "case_WPA typed = (fresh typed (labels_of typed) None, unless_ignored (assign_spec typed))"

definition sync_pause :: "strmap option \<Rightarrow> strmap option \<Rightarrow> strmap option" where
  "sync_pause typed cur = (case mlookup typed AnnotationPausedReplicas of
     Some v \<Rightarrow> Some (AList.update AnnotationPausedReplicas v (case cur of None \<Rightarrow> [] | Some as \<Rightarrow> as))
   | None \<Rightarrow> map_option (AList.delete AnnotationPausedReplicas) cur)"

definition case_ScaledObject :: "KubeObj \<Rightarrow> KubeObj \<times> mutate" where
  "case_ScaledObject typed =
     (fresh typed (labels_of typed) None,
      unless_ignored (\<lambda>cur. Some (set_annotations (sync_pause (annotations_of typed) (annotations_of cur))
        (set_body (ko_Body typed) cur))))"

definition case_TriggerAuthentication :: "KubeObj \<Rightarrow> KubeObj \<times> mutate" where
  "case_TriggerAuthentication typed = (fresh typed (labels_of typed) None, unless_ignored (assign_spec typed))"

definition case_PDB :: "KubeObj \<Rightarrow> KubeObj \<times> mutate" where
  "case_PDB typed =
     (fresh typed None None,
      unless_ignored (\<lambda>cur. Some (set_body (ko_Body typed)
        (set_annotations (CopyStringMap (annotations_of typed))
          (set_labels (CopyStringMap (labels_of typed)) cur)))))"

definition case_Role :: "KubeObj \<Rightarrow> KubeObj \<times> mutate" where
  "case_Role typed = (fresh typed None None, unless_ignored (assign_spec typed))"

definition case_RoleBinding :: "KubeObj \<Rightarrow> KubeObj \<times> mutate" where
  "case_RoleBinding typed = (fresh typed None None, unless_ignored (assign_spec typed))"

section \<open>The switch\<close>

definition cases_of :: "KubeObj \<Rightarrow> (KubeObj \<times> mutate) option" where
  "cases_of typed = (case ko_Body typed of
     NamespaceBody \<Rightarrow> Some (case_Namespace typed)
   | ServiceBody _ _ \<Rightarrow> Some (case_Service typed)
   | ServiceAccountBody \<Rightarrow> Some (case_ServiceAccount typed)
   | DestinationRuleBody _ \<Rightarrow> Some (case_DestinationRule typed)
   | VirtualServiceBody _ \<Rightarrow> Some (case_VirtualService typed)
   | SidecarBody _ \<Rightarrow> Some (case_Sidecar typed)
   | GatewayBody _ \<Rightarrow> Some (case_Gateway typed)
   | PrometheusRuleBody _ \<Rightarrow> Some (case_PrometheusRule typed)
   | ServiceMonitorBody _ \<Rightarrow> Some (case_ServiceMonitor typed)
   | PrometheusServiceLevelBody _ _ \<Rightarrow> Some (case_PrometheusServiceLevel typed)
   | SecretBody ty data \<Rightarrow> Some (case_Secret ty data typed)
   | ExternalSecretBody _ \<Rightarrow> Some (case_ExternalSecret typed)
   | ConfigMapBody _ \<Rightarrow> Some (case_ConfigMap typed)
   | ReplicaSetBody t \<Rightarrow> Some (case_ReplicaSet t typed)
   | HPABody _ \<Rightarrow> Some (case_HPA typed)
   | DatadogMetricBody _ \<Rightarrow> Some (case_DatadogMetric typed)
   | WPABody _ \<Rightarrow> Some (case_WPA typed)
   | ScaledObjectBody _ \<Rightarrow> Some (case_ScaledObject typed)
   | TriggerAuthenticationBody _ \<Rightarrow> Some (case_TriggerAuthentication typed)
   | PDBBody _ \<Rightarrow> Some (case_PDB typed)
   | RoleBody _ \<Rightarrow> Some (case_Role typed)
   | RoleBindingBody _ _ \<Rightarrow> Some (case_RoleBinding typed)
   | WaypointBody _ \<Rightarrow> None
   | OtherBody _ \<Rightarrow> None)"

definition CreateOrUpdate :: "'c Client \<Rightarrow> KubeObj \<Rightarrow> 'c step" where
  "CreateOrUpdate cli typed c = (case cases_of typed of
     None \<Rightarrow> Some (Some (Errorf ''unsupported type''), c)
   | Some (obj, f) \<Rightarrow>
       (case k_CreateOrUpdate cli obj f c of
          None \<Rightarrow> None
        | Some (err, c') \<Rightarrow>
            Some (if kind_of (ko_Body typed) = KReplicaSet \<and> err = Some ErrNoChangeNeeded then None else err,
              c')))"

section \<open>What a write keeps\<close>

lemma set_simps [simp]:
  "ko_Body (set_labels ls obj) = ko_Body obj" "ko_rest (set_labels ls obj) = ko_rest obj"
  "labels_of (set_labels ls obj) = ls" "annotations_of (set_labels ls obj) = annotations_of obj"
  "ko_Body (set_annotations as obj) = ko_Body obj" "ko_rest (set_annotations as obj) = ko_rest obj"
  "labels_of (set_annotations as obj) = labels_of obj" "annotations_of (set_annotations as obj) = as"
  "ko_Body (set_body b obj) = b" "ko_rest (set_body b obj) = ko_rest obj"
  "ko_Meta (set_body b obj) = ko_Meta obj"
  by (simp_all add: set_labels_def set_annotations_def set_body_def)

lemma key_of_set [simp]:
  "key_of (set_labels ls obj) = key_of obj" "key_of (set_annotations as obj) = key_of obj"
  "kind_of b = kind_of (ko_Body obj) \<Longrightarrow> key_of (set_body b obj) = key_of obj"
  by (simp_all add: set_labels_def set_annotations_def set_body_def key_of_def)

lemma set_set [simp]:
  "set_labels ls (set_labels ls' obj) = set_labels ls obj"
  "set_annotations as (set_annotations as' obj) = set_annotations as obj"
  "set_body b (set_body b' obj) = set_body b obj"
  "set_body b (set_labels ls obj) = set_labels ls (set_body b obj)"
  "set_body b (set_annotations as obj) = set_annotations as (set_body b obj)"
  "set_annotations as (set_labels ls obj) = set_labels ls (set_annotations as obj)"
  by (simp_all add: set_labels_def set_annotations_def set_body_def)

lemma kind_of_zero [simp]: "kind_of (zero_body b) = kind_of b"
  by (cases b) simp_all

lemma isIgnored_labels: "om_Labels m = om_Labels m' \<Longrightarrow> isIgnored m = isIgnored m'"
  by (simp add: isIgnored_def)

text \<open>The definitions of the cases, and the kinds.\<close>

lemmas case_defs =
  case_Namespace_def case_Service_def case_ServiceAccount_def case_DestinationRule_def
  case_VirtualService_def case_Sidecar_def case_Gateway_def case_PrometheusRule_def
  case_ServiceMonitor_def case_PrometheusServiceLevel_def case_Secret_def case_ExternalSecret_def
  case_ConfigMap_def case_ReplicaSet_def case_HPA_def case_DatadogMetric_def case_WPA_def
  case_ScaledObject_def case_TriggerAuthentication_def case_PDB_def case_Role_def case_RoleBinding_def

text \<open>Where an object goes: where its metadata say, a namespace nowhere.\<close>

definition key_to :: "KubeObj \<Rightarrow> Key" where
  "key_to typed = (if ko_Body typed = NamespaceBody
     then \<lparr>key_Kind = KNamespace, key_Namespace = [], key_Name = om_Name (ko_Meta typed)\<rparr>
     else key_of typed)"

lemma key_of_fresh [simp]: "key_of (fresh typed ls as) = key_of typed"
  by (simp add: fresh_def key_of_def named_def zero_ObjectMeta_def)

lemma cases_of_key: "cases_of typed = Some (obj, f) \<Longrightarrow> key_of obj = key_to typed"
  by (cases "ko_Body typed") (auto simp: cases_of_def case_defs key_to_def key_of_def fresh_def)

lemma kind_replica: "kind_of b = KReplicaSet \<Longrightarrow> \<exists>t. b = ReplicaSetBody t"
  by (cases b) simp_all

lemma cases_of_keeps:
  assumes "cases_of typed = Some (obj, f)" "f cur = Some new"
    and "kind_of (ko_Body cur) = kind_of (ko_Body typed)"
  shows "key_of new = key_of cur \<and> ko_rest new = ko_rest cur"
  using assms
  by (cases "ko_Body typed")
    (auto simp: cases_of_def case_defs unless_ignored_def assign_def assign_spec_def mutate_ReplicaSet_def
      split: if_splits Body.splits option.splits)

lemma cases_of_ignored:
  "cases_of typed = Some (obj, f) \<Longrightarrow> isIgnored (ko_Meta cur) \<Longrightarrow> f cur = Some cur"
  by (cases "ko_Body typed") (auto simp: cases_of_def case_defs unless_ignored_def)

lemma cases_of_not_panic:
  assumes "cases_of typed = Some (obj, f)" "\<And>t. ko_Body typed = ReplicaSetBody t \<Longrightarrow> rset_Replicas t \<noteq> None"
  shows "f cur \<noteq> None"
  using assms
  by (cases "ko_Body typed")
    (auto simp: cases_of_def case_defs unless_ignored_def assign_def assign_spec_def mutate_ReplicaSet_def
      sync_replicas_def Let_def split: if_splits Body.splits option.splits)

section \<open>Writing twice\<close>

lemma update_again [simp]: "AList.update k v (AList.update k v m) = AList.update k v m"
  by (induction m) auto

lemma sync_replicas_again:
  "sync_replicas wpa t r = Some r' \<Longrightarrow> sync_replicas wpa t r' = Some r'"
  by (auto simp: sync_replicas_def Let_def split: if_splits option.splits)

text \<open>
  The annotation of the pod template is kept by a second write unless it is there and empty: then the
  first write of a new replica set puts it there, and the second takes it away.
\<close>

definition empty_disrupt :: "PodTemplateSpec \<Rightarrow> bool" where
  "empty_disrupt t \<longleftrightarrow> mlookup (pt_Annotations t) AnnotationKarpenterDoNotDisrupt = Some []"

lemma sync_template_again:
  assumes "\<not> empty_disrupt t"
  shows "sync_template t (sync_template t s) = sync_template t s"
proof (cases "pt_Labels s = None \<or> pt_Labels s = Some []")
  case True
  have *: "AList.update k v m = m" if "map_of m k = Some v" for k :: string and v :: string and m
    using that by (induction m) (auto split: if_splits)
  have **: "AList.delete k m = m" if "map_of m k = None" for k :: string and m :: strmap
    using that by (metis delete_id map_of_eq_None_iff)
  from True have "sync_template t s = t" by (simp add: sync_template_def)
  moreover have "sync_template t t = t"
    using assms by (auto simp: sync_template_def empty_disrupt_def * ** split: option.splits)
  ultimately show ?thesis by simp
next
  case False
  then show ?thesis
    by (auto simp: sync_template_def delete_idem split: option.splits)
qed

lemma sync_pause_again: "sync_pause t (sync_pause t cur) = sync_pause t cur"
  by (cases cur) (auto simp: sync_pause_def delete_idem split: option.splits)

definition stable_template :: "KubeObj \<Rightarrow> bool" where
  "stable_template typed \<longleftrightarrow> (case ko_Body typed of
     ReplicaSetBody t \<Rightarrow> \<not> empty_disrupt (rset_Template t) | _ \<Rightarrow> True)"

lemma mutate_ReplicaSet_again:
  assumes "mutate_ReplicaSet t typed cur = Some new" "\<not> empty_disrupt (rset_Template t)"
  shows "mutate_ReplicaSet t typed new = Some new"
  using assms sync_replicas_again
  by (cases "ko_Body cur")
    (auto simp: mutate_ReplicaSet_def sync_template_again split: option.splits)

lemma unless_ignored_again:
  assumes "\<And>new. f cur = Some new \<Longrightarrow> f new = Some new" "unless_ignored f cur = Some new"
  shows "unless_ignored f new = Some new"
  using assms by (auto simp: unless_ignored_def split: if_splits)

lemma cases_of_again:
  assumes "cases_of typed = Some (obj, f)" "f cur = Some new" "stable_template typed"
    and "kind_of (ko_Body cur) = kind_of (ko_Body typed)"
  shows "f new = Some new"
proof -
  obtain g where f: "f = unless_ignored g" and g: "\<And>new. g cur = Some new \<Longrightarrow> g new = Some new"
  proof (cases "ko_Body typed")
    case (ReplicaSetBody t)
    with assms(1,3) show ?thesis
      by (intro that [of "mutate_ReplicaSet t typed"])
        (auto simp: cases_of_def case_ReplicaSet_def stable_template_def mutate_ReplicaSet_again)
  qed (use assms(1) in \<open>auto simp: cases_of_def case_defs assign_def assign_spec_def sync_pause_again
      intro!: that split: Body.splits\<close>)
  show ?thesis using unless_ignored_again [of g cur new] g assms(2) by (simp add: f)
qed

section \<open>Through the client\<close>

lemma CreateOrUpdate_ok:
  assumes "documented cli store" "CreateOrUpdate cli typed c = Some (None, c')"
  shows "\<exists>obj f new. cases_of typed = Some (obj, f) \<and> f (held (store c) obj) = Some new \<and>
    store c' = (store c)(key_to typed \<mapsto> new)"
proof -
  from assms(2) obtain obj f where f: "cases_of typed = Some (obj, f)"
    by (auto simp: CreateOrUpdate_def split: option.splits)
  with assms(2) obtain err where "k_CreateOrUpdate cli obj f c = Some (err, c')"
    and "err = None \<or> err = Some ErrNoChangeNeeded"
    by (auto simp: CreateOrUpdate_def split: option.splits if_splits prod.splits)
  with CreateOrUpdate_failure [OF assms(1)] have "k_CreateOrUpdate cli obj f c = Some (None, c')" by blast
  from CreateOrUpdate_success [OF assms(1) this] f show ?thesis by (metis cases_of_key)
qed

lemma CreateOrUpdate_error:
  assumes "documented cli store" "CreateOrUpdate cli typed c = Some (Some e, c')"
  shows "store c' = store c"
proof (cases "cases_of typed")
  case None
  with assms(2) show ?thesis by (simp add: CreateOrUpdate_def)
next
  case (Some p)
  then obtain obj f where f: "cases_of typed = Some (obj, f)" by (cases p) simp
  with assms(2) have "k_CreateOrUpdate cli obj f c = Some (Some e, c')"
    by (auto simp: CreateOrUpdate_def split: option.splits if_splits prod.splits)
  with CreateOrUpdate_failure [OF assms(1)] show ?thesis by blast
qed

lemma CreateOrUpdate_total:
  assumes "documented cli store" "\<And>t. ko_Body typed = ReplicaSetBody t \<Longrightarrow> rset_Replicas t \<noteq> None"
  shows "CreateOrUpdate cli typed c \<noteq> None"
proof (cases "cases_of typed")
  case None
  then show ?thesis by (simp add: CreateOrUpdate_def)
next
  case (Some p)
  then obtain obj f where f: "cases_of typed = Some (obj, f)" by (cases p) simp
  then have "k_CreateOrUpdate cli obj f c \<noteq> None"
    using CreateOrUpdate_not_panic [OF assms(1), of f c obj] cases_of_not_panic [OF f assms(2)] by blast
  with f show ?thesis by (auto simp: CreateOrUpdate_def split: option.splits prod.splits)
qed

lemma kind_key_to: "key_Kind (key_to typed) = kind_of (ko_Body typed)"
  by (simp add: key_to_def key_of_def)

lemma held_kind:
  assumes "keyed s" "key_of obj = key_to typed"
  shows "kind_of (ko_Body (held s obj)) = kind_of (ko_Body typed)"
  using key_of_held [OF assms(1), of obj] assms(2) kind_key_to [of typed]
  by (metis Key.select_convs(1) key_of_def)

text \<open>A second write of the same object changes nothing.\<close>

lemma CreateOrUpdate_again:
  assumes "documented cli store" "stable_template typed"
    and "CreateOrUpdate cli typed c = Some (None, c')" "CreateOrUpdate cli typed c' = Some (None, c'')"
  shows "store c'' = store c'"
proof -
  from CreateOrUpdate_ok [OF assms(1,3)] obtain obj f new where f: "cases_of typed = Some (obj, f)"
    and new: "f (held (store c) obj) = Some new" "store c' = (store c)(key_to typed \<mapsto> new)" by blast
  from CreateOrUpdate_ok [OF assms(1,4)] f obtain new' where
    new': "f (held (store c') obj) = Some new'" "store c'' = (store c')(key_to typed \<mapsto> new')" by auto
  note key = cases_of_key [OF f]
  have kind: "kind_of (ko_Body (held (store c) obj)) = kind_of (ko_Body typed)"
    by (rule held_kind [OF documentedD(6) [OF assms(1)] key])
  have "held (store c') obj = new" by (simp add: held_def new(2) key)
  with new' cases_of_again [OF f new(1) assms(2) kind] have "new' = new" by simp
  then show ?thesis by (simp add: new' new(2))
qed

section \<open>What a plan promises\<close>

text \<open>
  The abstract specification of a write: an object is \<open>realised\<close> in a cluster when the cluster has one at
  its place that the mutate function would not change. For the kinds whose whole specification is assigned
  that means the cluster's object is ignored or has the wanted specification.
\<close>

definition realised :: "store \<Rightarrow> KubeObj \<Rightarrow> bool" where
  "realised s typed \<longleftrightarrow> (\<exists>obj f cur. cases_of typed = Some (obj, f) \<and> s (key_to typed) = Some cur \<and>
     f cur = Some cur)"

definition stored_body :: "store \<Rightarrow> KubeObj \<Rightarrow> bool" where
  "stored_body s typed \<longleftrightarrow> (\<exists>cur. s (key_to typed) = Some cur \<and>
     (isIgnored (ko_Meta cur) \<or> ko_Body cur = ko_Body typed))"

definition whole_spec :: "KubeObj \<Rightarrow> bool" where
  "whole_spec typed \<longleftrightarrow> kind_of (ko_Body typed) \<in>
     {KService, KDestinationRule, KVirtualService, KSidecar, KGateway, KPrometheusRule, KServiceMonitor,
      KPrometheusServiceLevel, KExternalSecret, KConfigMap, KHPA, KDatadogMetric, KWPA, KScaledObject,
      KTriggerAuthentication, KPDB, KRole, KRoleBinding}"

lemma realised_body:
  assumes "realised s typed" "whole_spec typed"
  shows "stored_body s typed"
proof -
  from assms(1) obtain obj f cur where f: "cases_of typed = Some (obj, f)"
    and cur: "s (key_to typed) = Some cur" "f cur = Some cur" unfolding realised_def by blast
  have body: "ko_Body cur = b" if "set_labels ls (set_body b cur) = cur \<or> set_body b cur = cur \<or>
      set_labels ls (set_annotations as (set_body b cur)) = cur \<or> set_annotations as (set_body b cur) = cur"
    for b ls as
    using that by (metis set_simps(1,5,9))
  have "isIgnored (ko_Meta cur) \<or> ko_Body cur = ko_Body typed"
    using f cur(2) assms(2)
    by (cases "ko_Body typed")
      (auto simp: cases_of_def case_defs unless_ignored_def assign_def assign_spec_def whole_spec_def
        intro: body split: if_splits)
  with cur(1) show ?thesis unfolding stored_body_def by blast
qed

lemma CreateOrUpdate_realises:
  assumes "documented cli store" "stable_template typed" "CreateOrUpdate cli typed c = Some (None, c')"
  shows "realised (store c') typed \<and> (\<forall>k. k \<noteq> key_to typed \<longrightarrow> store c' k = store c k)"
proof -
  from CreateOrUpdate_ok [OF assms(1,3)] obtain obj f new where f: "cases_of typed = Some (obj, f)"
    and new: "f (held (store c) obj) = Some new" "store c' = (store c)(key_to typed \<mapsto> new)" by blast
  have "kind_of (ko_Body (held (store c) obj)) = kind_of (ko_Body typed)"
    by (rule held_kind [OF documentedD(6) [OF assms(1)] cases_of_key [OF f]])
  from cases_of_again [OF f new(1) assms(2) this] f new(2) show ?thesis
    unfolding realised_def by auto
qed

text \<open>Steps that leave what other steps realised: those that touch other keys.\<close>

definition only_writes :: "('c \<Rightarrow> store) \<Rightarrow> Key set \<Rightarrow> 'c step \<Rightarrow> bool" where
  "only_writes store ks f \<longleftrightarrow> (\<forall>c err c'. f c = Some (err, c') \<longrightarrow> (\<forall>k. k \<notin> ks \<longrightarrow> store c' k = store c k))"

lemma only_writesD: "only_writes store ks f \<Longrightarrow> f c = Some (err, c') \<Longrightarrow> k \<notin> ks \<Longrightarrow> store c' k = store c k"
  unfolding only_writes_def by blast

lemma only_writes_ok [intro]: "only_writes store ks ok"
  by (simp add: only_writes_def ok_def)

lemma only_writes_fails [intro]: "only_writes store ks (fails e)"
  by (simp add: only_writes_def fails_def)

lemma only_writes_mono: "only_writes store ks f \<Longrightarrow> ks \<subseteq> ks' \<Longrightarrow> only_writes store ks' f"
  unfolding only_writes_def by blast

lemma only_writes_then [intro]:
  assumes "only_writes store ks f" "only_writes store ks g"
  shows "only_writes store ks (then_do f g)"
proof (unfold only_writes_def, intro allI impI)
  fix c err c' k
  assume run: "then_do f g c = Some (err, c')" and k: "k \<notin> ks"
  then obtain err1 c1 where f: "f c = Some (err1, c1)"
    by (auto simp: then_do_def split: option.splits prod.splits)
  have "store c1 k = store c k" using only_writesD [OF assms(1) f k] .
  moreover have "store c' k = store c1 k"
  proof (cases err1)
    case None
    with run f have "g c1 = Some (err, c')" by (simp add: then_do_def)
    then show ?thesis by (rule only_writesD [OF assms(2) _ k])
  next
    case (Some e)
    with run f show ?thesis by (simp add: then_do_def)
  qed
  ultimately show "store c' k = store c k" by simp
qed

lemma only_writes_CreateOrUpdate:
  assumes "documented cli store" "key_to typed \<in> ks"
  shows "only_writes store ks (CreateOrUpdate cli typed)"
proof (unfold only_writes_def, intro allI impI)
  fix c err c' k
  assume run: "CreateOrUpdate cli typed c = Some (err, c')" and k: "k \<notin> ks"
  show "store c' k = store c k"
  proof (cases err)
    case None
    with run CreateOrUpdate_ok [OF assms(1)] obtain new where "store c' = (store c)(key_to typed \<mapsto> new)"
      by blast
    with k assms(2) show ?thesis by auto
  next
    case (Some e)
    with run CreateOrUpdate_error [OF assms(1)] show ?thesis by simp
  qed
qed

lemma only_writes_each:
  assumes "\<And>x. x \<in> set xs \<Longrightarrow> only_writes store ks (f x)"
  shows "only_writes store ks (each f xs)"
  using assms by (induction xs) (auto intro: only_writes_then)

text \<open>A list of objects with places of their own: all are realised, and nothing else changes.\<close>

lemma realised_other:
  "realised s typed \<Longrightarrow> s' (key_to typed) = s (key_to typed) \<Longrightarrow> realised s' typed"
  unfolding realised_def by simp

lemma each_realises:
  assumes "documented cli store" "list_all stable_template objs" "distinct (map key_to objs)"
    and "each (CreateOrUpdate cli) objs c = Some (None, c')"
  shows "list_all (realised (store c')) objs \<and>
    (\<forall>k. k \<notin> key_to ` set objs \<longrightarrow> store c' k = store c k)"
  using assms(2-)
proof (induction objs arbitrary: c)
  case Nil
  then show ?case by (simp add: ok_def)
next
  case (Cons typed objs)
  then obtain c1 where c1: "CreateOrUpdate cli typed c = Some (None, c1)"
    and rest: "each (CreateOrUpdate cli) objs c1 = Some (None, c')"
    by (auto simp: then_do_success)
  from Cons.prems(1) have "stable_template typed" by simp
  from CreateOrUpdate_realises [OF assms(1) this c1]
  have 1: "realised (store c1) typed" "\<And>k. k \<noteq> key_to typed \<Longrightarrow> store c1 k = store c k" by auto
  from Cons.IH [OF _ _ rest] Cons.prems
  have 2: "list_all (realised (store c')) objs" "\<And>k. k \<notin> key_to ` set objs \<Longrightarrow> store c' k = store c1 k" by auto
  have "key_to typed \<notin> key_to ` set objs" using Cons.prems(2) by simp
  with realised_other [OF 1(1)] 2(2) have "realised (store c') typed" by simp
  with 1 2 show ?case by simp
qed

text \<open>A replica set's size after a write.\<close>

definition replicas_at :: "store \<Rightarrow> Key \<Rightarrow> int32 option" where
  "replicas_at s k = (case s k of
     Some obj \<Rightarrow> (case ko_Body obj of ReplicaSetBody t \<Rightarrow> rset_Replicas t | _ \<Rightarrow> None)
   | None \<Rightarrow> None)"

lemma CreateOrUpdate_ReplicaSet:
  assumes "documented cli store" "ko_Body typed = ReplicaSetBody t"
    and "CreateOrUpdate cli typed c = Some (None, c')"
    and "store c (key_of typed) = Some cur" "ko_Body cur = ReplicaSetBody s" "\<not> isIgnored (ko_Meta cur)"
  shows "\<exists>replicas. sync_replicas (mget (annotations_of typed) AnnotationAutoscaler = AutoscalerTypeWPA)
      (rset_Replicas t) (rset_Replicas s) = Some replicas \<and>
    store c' (key_of typed) = Some (set_labels (labels_of typed) (set_body (ReplicaSetBody
      (s\<lparr>rset_Replicas := replicas, rset_Template := sync_template (rset_Template t) (rset_Template s),
         rset_Selector := rset_Selector t\<rparr>)) cur))"
proof -
  have k: "key_to typed = key_of typed" using assms(2) by (simp add: key_to_def)
  from CreateOrUpdate_ok [OF assms(1,3)] obtain obj f new where f: "cases_of typed = Some (obj, f)"
    and new: "f (held (store c) obj) = Some new" "store c' = (store c)(key_to typed \<mapsto> new)" by blast
  have "held (store c) obj = cur"
    using cases_of_key [OF f] assms(4) by (simp add: held_def k)
  with f new(1) assms(2,5,6) have "mutate_ReplicaSet t typed cur = Some new"
    by (auto simp: cases_of_def case_ReplicaSet_def unless_ignored_def)
  then show ?thesis
    using assms(5) new(2) by (auto simp: mutate_ReplicaSet_def k split: option.splits)
qed

end
