(* ===== verification/Go_Text.thy ===== *)
theory Go_Text
  imports Go_Std "HOL-Library.List_Lexorder"
begin

text \<open>
  More of Go's standard library, as far as the plans use it: \<^verbatim>\<open>sort.Strings\<close>, \<^verbatim>\<open>strings.Join\<close>,
  \<^verbatim>\<open>strings.ToLower\<close> and \<^verbatim>\<open>strings.TrimLeft\<close>, \<^verbatim>\<open>regexp.QuoteMeta\<close>, and a Go map used as a set of strings.
\<close>

text \<open>Strings compare byte by byte.\<close>

definition sort_Strings :: "string list \<Rightarrow> string list" where
  "sort_Strings xs = sort_Slice (\<lambda>a b. a < b) xs"

interpretation by_string: strict_weak_order "\<lambda>a b :: string. a < b"
  by (rule strict_weak_order_key [of "\<lambda>s. s"])

fun strings_Join :: "string list \<Rightarrow> string \<Rightarrow> string" where
  "strings_Join [] sep = []"
| "strings_Join [s] sep = s"
| "strings_Join (s # t # ss) sep = s @ sep @ strings_Join (t # ss) sep"

definition ToLower_char :: "char \<Rightarrow> char" where
  "ToLower_char c = (if 65 \<le> (of_char c :: nat) \<and> (of_char c :: nat) \<le> 90
     then char_of ((of_char c :: nat) + 32) else c)"

text \<open>\<^verbatim>\<open>strings.ToLower\<close> on ASCII text.\<close>

definition strings_ToLower :: "string \<Rightarrow> string" where
  "strings_ToLower s = map ToLower_char s"

definition strings_TrimLeft :: "string \<Rightarrow> char \<Rightarrow> string" where
  "strings_TrimLeft s c = dropWhile (\<lambda>d. d = c) s"

text \<open>\<^verbatim>\<open>regexp.QuoteMeta\<close> puts a backslash before every character with a meaning in a regular expression.\<close>

definition regexp_special :: "char \<Rightarrow> bool" where
  "regexp_special c \<longleftrightarrow> c \<in> set (CHR 0x5C # ''.+*?()|[]{}^$'')"

definition regexp_QuoteMeta :: "string \<Rightarrow> string" where
  "regexp_QuoteMeta s = List.concat (map (\<lambda>c. if regexp_special c then [CHR 0x5C, c] else [c]) s)"

text \<open>
  \<^verbatim>\<open>map[string]bool\<close> as a set: the keys in the order they went in, each once. \<^verbatim>\<open>range\<close> over it has an
  arbitrary order; the model's is the order of insertion, and what is read in it is sorted before it
  leaves the program.
\<close>

definition add_all :: "string list \<Rightarrow> string list \<Rightarrow> string list" where
  "add_all ss m = fold List.insert ss m"

lemma set_add_all [simp]: "set (add_all ss m) = set ss \<union> set m"
  by (induction ss arbitrary: m) (auto simp: add_all_def)

lemma distinct_add_all [simp]: "distinct m \<Longrightarrow> distinct (add_all ss m)"
  by (induction ss arbitrary: m) (auto simp: add_all_def)

lemma set_sort_Strings [simp]: "set (sort_Strings xs) = set xs"
  by (simp add: sort_Strings_def)

lemma mset_sort_Strings [simp]: "mset (sort_Strings xs) = mset xs"
  by (simp add: sort_Strings_def)

lemma sort_Strings_Nil_iff [simp]: "sort_Strings xs = [] \<longleftrightarrow> xs = []"
  by (simp add: sort_Strings_def)

lemma distinct_sort_Strings [simp]: "distinct (sort_Strings xs) \<longleftrightarrow> distinct xs"
  by (metis mset_eq_imp_distinct_iff mset_sort_Strings)

lemma sorted_sort_Strings: "sorted (sort_Strings xs)"
  using by_string.sort_Slice_sorted [of xs]
  by (simp add: sort_Strings_def sorted_wrt_iff_nth_less not_less sorted_iff_nth_mono_less)

text \<open>The order in which a set was read does not show once it is sorted.\<close>

lemma sort_Strings_set_eq:
  assumes "distinct xs" "distinct ys" "set xs = set ys"
  shows "sort_Strings xs = sort_Strings ys"
  by (rule sorted_distinct_set_unique) (use assms in \<open>simp_all add: sorted_sort_Strings\<close>)

end
