(* ===== verification/Sync_App.thy ===== *)
theory Sync_App
  imports Create_Or_Update Go_Text
begin

text \<open>
  The application's objects, \<^verbatim>\<open>src/controllers/plan/syncApp.go\<close>: the service, the destination rule with a
  subset per deployed revision, and the virtual service whose routes carry out the division of the traffic
  and the routing by tag; the alert rules and the sidecar.

  \<^verbatim>\<open>html/template\<close>, which turns the cluster's template into the name of the developers' routing header, is
  the parameter \<open>tmpl\<close>: the name for a template and a plan, or an error.
\<close>

section \<open>Hosts\<close>

definition serviceHost :: "SyncApp \<Rightarrow> string" where
  "serviceHost p = sap_App p @ ''.'' @ sap_Namespace p @ ''.svc.cluster.local''"

definition isUserDefined :: "SyncApp \<Rightarrow> string \<Rightarrow> bool" where
  "isUserDefined p host \<longleftrightarrow> list_ex (\<lambda>port. host \<in> set (pi_Hosts port)) (sap_Ports p)"

definition addDefaultHost :: "SyncApp \<Rightarrow> PortInfo \<Rightarrow> string \<Rightarrow> string \<Rightarrow> string list \<Rightarrow> string list" where
  "addDefaultHost p port ingressName host hostMap =
     (if isUserDefined p host then hostMap
      else case mlookup (sap_DefaultIngressPorts p) ingressName of
        None \<Rightarrow> hostMap
      | Some defaultPort \<Rightarrow>
          if defaultPort \<noteq> pi_Name port then hostMap else List.insert host hostMap)"

definition ingressHosts :: "SyncApp \<Rightarrow> PortInfo \<Rightarrow> string list \<Rightarrow> string \<Rightarrow> string list" where
  "ingressHosts p port defaultDomains ingressName = (let
       fleetSuffix = ''-'' @ sap_Fleet p;
       add = addDefaultHost p port ingressName;
       defaults = fold (\<lambda>domain hostMap.
         let hostMap = add (sap_Namespace p @ ''.'' @ domain) hostMap in
         if sap_Target p = sap_Fleet p then add (sap_App p @ ''.'' @ domain) hostMap
         else if strings_HasSuffix (sap_Namespace p) fleetSuffix
         then add (strings_TrimSuffix (sap_Namespace p) fleetSuffix @ ''.'' @ domain) hostMap
         else hostMap) defaultDomains []
     in add_all (pi_Hosts port) defaults)"

definition publicHosts :: "SyncApp \<Rightarrow> PortInfo \<Rightarrow> Cluster \<Rightarrow> string list" where
  "publicHosts p port cluster =
     ingressHosts p port (ii_DefaultDomains (ci_Public (cs_Ingresses (cl_Spec cluster)))) ''public''"

definition privateHosts :: "SyncApp \<Rightarrow> PortInfo \<Rightarrow> Cluster \<Rightarrow> string list" where
  "privateHosts p port cluster =
     ingressHosts p port (ii_DefaultDomains (ci_Private (cs_Ingresses (cl_Spec cluster)))) ''private''"

section \<open>Matches\<close>

definition authorityMatch :: "string list \<Rightarrow> StringMatch" where
  "authorityMatch hosts =
     MatchRegex (''^('' @ strings_Join (sort_Strings (map regexp_QuoteMeta hosts)) ''|'' @ '')(:[0-9]+)?$'')"

definition publicAuthorityMatch :: "SyncApp \<Rightarrow> PortInfo \<Rightarrow> Cluster \<Rightarrow> StringMatch" where
  "publicAuthorityMatch p port cluster = authorityMatch (publicHosts p port cluster)"

definition privateAuthorityMatch :: "SyncApp \<Rightarrow> PortInfo \<Rightarrow> Cluster \<Rightarrow> StringMatch" where
  "privateAuthorityMatch p port cluster = authorityMatch (privateHosts p port cluster)"

type_synonym headers = "(string \<times> StringMatch) list"

definition mesh_match :: "PortInfo \<Rightarrow> headers \<Rightarrow> HTTPMatchRequest" where
  "mesh_match port headers = \<lparr>hm_Headers = headers, hm_Authority = None,
     hm_Port = u32_of_int (pi_Port port), hm_Gateways = [''mesh''], hm_Uri = Some (MatchPrefix ''/'')\<rparr>"

text \<open>
  The matches of one ingress, for the public and the private one alike: the ingress port, and port 80 as
  well where the ingress port is 443.
\<close>

definition ingress_matches ::
  "PortInfo \<Rightarrow> headers \<Rightarrow> StringMatch \<Rightarrow> string \<Rightarrow> HTTPMatchRequest list" where
  "ingress_matches port headers authority gateway = (let
       m = \<lparr>hm_Headers = headers, hm_Authority = Some authority,
            hm_Port = u32_of_int (pi_IngressPort port), hm_Gateways = [gateway],
            hm_Uri = Some (MatchPrefix ''/'')\<rparr>
     in if pi_IngressPort port = 443 then [m, m\<lparr>hm_Port := 80\<rparr>] else [m])"

definition ingress_enabled :: "PortInfo \<Rightarrow> string \<Rightarrow> bool" where
  "ingress_enabled port ingress \<longleftrightarrow>
     (case pi_Ingresses port of None \<Rightarrow> False | Some is \<Rightarrow> ingress \<in> set is)"

definition portHeaderMatches ::
  "SyncApp \<Rightarrow> PortInfo \<Rightarrow> headers \<Rightarrow> Cluster \<Rightarrow> HTTPMatchRequest list \<times> string list" where
  "portHeaderMatches p port headers cluster = (let
       ingresses = cs_Ingresses (cl_Spec cluster);
       hostMap = [serviceHost p];
       matches = [mesh_match port headers];
       (matches, hostMap) =
         (let hosts = publicHosts p port cluster in
          if ingress_enabled port ''public'' \<and> hosts \<noteq> []
          then (matches @ ingress_matches port headers (publicAuthorityMatch p port cluster)
                  (ii_Gateway (ci_Public ingresses)), add_all hosts hostMap)
          else (matches, hostMap));
       (matches, hostMap) =
         (let hosts = privateHosts p port cluster in
          if ingress_enabled port ''private'' \<and> hosts \<noteq> []
          then (matches @ ingress_matches port headers (privateAuthorityMatch p port cluster)
                  (ii_Gateway (ci_Private ingresses)), add_all hosts hostMap)
          else (matches, hostMap))
     in (matches, hostMap))"

definition releaseMatches ::
  "SyncApp \<Rightarrow> PortInfo \<Rightarrow> Cluster \<Rightarrow> HTTPMatchRequest list \<times> string list" where
  "releaseMatches p port cluster = portHeaderMatches p port [] cluster"

definition taggedMatches ::
  "SyncApp \<Rightarrow> PortInfo \<Rightarrow> PlanRevision \<Rightarrow> Cluster \<Rightarrow> HTTPMatchRequest list \<times> string list" where
  "taggedMatches p port revision cluster =
     portHeaderMatches p port [(prv_TagRoutingHeader revision, MatchExact (prv_Tag revision))] cluster"

definition devMatches ::
  "(string \<Rightarrow> SyncApp \<Rightarrow> goerror + string) \<Rightarrow> SyncApp \<Rightarrow> Cluster \<Rightarrow> goerror + HTTPMatchRequest list" where
  "devMatches tmpl p cluster = (case tmpl (cs_DevRouteTagTemplate (cl_Spec cluster)) p of
     Inl e \<Rightarrow> Inl e
   | Inr header \<Rightarrow> Inr [\<lparr>hm_Headers = [(header, MatchRegex ''(.+)'')], hm_Authority = None, hm_Port = 0,
        hm_Gateways = [], hm_Uri = None\<rparr>])"

section \<open>Routes\<close>

definition releaseRoute :: "SyncApp \<Rightarrow> PortInfo \<Rightarrow> HTTPRouteDestination list" where
  "releaseRoute p port =
     map (\<lambda>revision. \<lparr>hd_Host = serviceHost p, hd_Port = u32_of_int (pi_Port port),
            hd_Subset = prv_Tag revision, hd_Weight = i32_of_u32 (prv_Weight revision)\<rparr>)
       (filter (\<lambda>revision. prv_Weight revision \<noteq> 0) (sap_DeployedRevisions p))"

definition taggedRoute :: "SyncApp \<Rightarrow> PortInfo \<Rightarrow> PlanRevision \<Rightarrow> HTTPRouteDestination list" where
  "taggedRoute p port revision =
     [\<lparr>hd_Host = serviceHost p, hd_Port = u32_of_int (pi_Port port), hd_Subset = prv_Tag revision,
       hd_Weight = 100\<rparr>]"

definition devRoute :: "SyncApp \<Rightarrow> HTTPRouteDestination list" where
  "devRoute p = [\<lparr>hd_Host = sap_DevRoutesServiceHost p,
     hd_Port = u32_of_int (sap_DevRoutesServicePort p), hd_Subset = [], hd_Weight = 100\<rparr>]"

text \<open>The fault of the last selector for the port; a fault with no selector panics.\<close>

fun port_fault :: "HTTPPortFault list \<Rightarrow> int32 \<Rightarrow> opaque option \<Rightarrow> opaque option option" where
  "port_fault [] port fault = Some fault"
| "port_fault (f # fs) port fault = (case hf_PortSelector f of
     None \<Rightarrow> None
   | Some number \<Rightarrow> port_fault fs port (if i32_of_u32 number = port then hf_HTTPFault f else fault))"

definition makeRoute ::
  "SyncApp \<Rightarrow> string \<Rightarrow> PortInfo \<Rightarrow> HTTPMatchRequest list \<Rightarrow> HTTPRouteDestination list \<Rightarrow> HTTPRoute option" where
  "makeRoute p name port match route = do {
     let http = ipc_HTTP (pi_Istio port);
     fault \<leftarrow> port_fault (sap_HTTPPortFaults p) (pi_Port port) None;
     let retries = map_option (\<lambda>r. \<lparr>hr_Attempts = re_Attempts r, hr_PerTryTimeout = re_PerTryTimeout r,
       hr_RetryOn = (case re_RetryOn r of None \<Rightarrow> [] | Some s \<Rightarrow> s)\<rparr>) (ih_Retries http);
     Some \<lparr>ht_Name = name, ht_Timeout = ih_Timeout http, ht_Retries = retries, ht_Match = match,
       ht_Route = route, ht_Fault = fault\<rparr>
   }"

fun releaseRoutes_of ::
  "SyncApp \<Rightarrow> Cluster \<Rightarrow> PortInfo list \<Rightarrow> HTTPRoute list \<Rightarrow> string list \<Rightarrow> (HTTPRoute list \<times> string list) option" where
  "releaseRoutes_of p cluster [] routes hostMap = Some (routes, hostMap)"
| "releaseRoutes_of p cluster (port # ports) routes hostMap =
     (if releaseRoute p port = [] then releaseRoutes_of p cluster ports routes hostMap
      else let (matches, hosts) = releaseMatches p port cluster in
        case makeRoute p (''01_release-'' @ pi_Name port) port matches (releaseRoute p port) of
          None \<Rightarrow> None
        | Some route \<Rightarrow>
            releaseRoutes_of p cluster ports (routes @ [route]) (add_all hosts hostMap))"

definition releaseRoutes :: "SyncApp \<Rightarrow> Cluster \<Rightarrow> (HTTPRoute list \<times> string list) option" where
  "releaseRoutes p cluster = releaseRoutes_of p cluster (sap_Ports p) [] []"

text \<open>The tagged routes, over the pairs of a revision with a routing header and a port.\<close>

fun taggedRoutes_of ::
  "SyncApp \<Rightarrow> Cluster \<Rightarrow> (PlanRevision \<times> PortInfo) list \<Rightarrow> HTTPRoute list \<Rightarrow> string list \<Rightarrow>
   (HTTPRoute list \<times> string list) option" where
  "taggedRoutes_of p cluster [] routes hostMap = Some (routes, hostMap)"
| "taggedRoutes_of p cluster ((revision, port) # rps) routes hostMap =
     (let (matches, hosts) = taggedMatches p port revision cluster in
      case makeRoute p (''00_tagged-'' @ prv_Tag revision @ ''-'' @ pi_Name port) port matches
             (taggedRoute p port revision) of
        None \<Rightarrow> None
      | Some route \<Rightarrow> taggedRoutes_of p cluster rps (routes @ [route]) (add_all hosts hostMap))"

definition tagged_pairs :: "SyncApp \<Rightarrow> (PlanRevision \<times> PortInfo) list" where
  "tagged_pairs p = List.concat (map (\<lambda>revision. map (\<lambda>port. (revision, port)) (sap_Ports p))
     (filter (\<lambda>revision. prv_TagRoutingHeader revision \<noteq> []) (sap_DeployedRevisions p)))"

definition taggedRoutes :: "SyncApp \<Rightarrow> Cluster \<Rightarrow> (HTTPRoute list \<times> string list) option" where
  "taggedRoutes p cluster = taggedRoutes_of p cluster (tagged_pairs p) [] []"

definition devRoutes ::
  "(string \<Rightarrow> SyncApp \<Rightarrow> goerror + string) \<Rightarrow> SyncApp \<Rightarrow> Cluster \<Rightarrow> HTTPRoute list" where
  "devRoutes tmpl p cluster =
     (if cs_EnableDevRoutes (cl_Spec cluster) \<and> cs_DevRouteTagTemplate (cl_Spec cluster) \<noteq> [] \<and>
         sap_DevRoutesServiceHost p \<noteq> [] \<and> sap_DevRoutesServicePort p > 0
      then case devMatches tmpl p cluster of
        Inl e \<Rightarrow> []
      | Inr matches \<Rightarrow> [\<lparr>ht_Name = ''00_dev-'' @ sap_App p, ht_Timeout = None, ht_Retries = None,
          ht_Match = matches, ht_Route = devRoute p, ht_Fault = None\<rparr>]
      else [])"

section \<open>The objects\<close>

definition PrometheusScrapeLabel :: string where "PrometheusScrapeLabel = ''prometheus.io/scrape''"
definition PrometheusScrapeLabelValue :: string where "PrometheusScrapeLabelValue = ''true''"

definition by_port :: "ServicePort \<Rightarrow> ServicePort \<Rightarrow> bool" where
  "by_port a b \<longleftrightarrow> sp_Port a < sp_Port b"

definition service :: "SyncApp \<Rightarrow> KubeObj" where
  "service p = (let
       ports = map (\<lambda>port. \<lparr>sp_Name = pi_Name port, sp_Protocol = pi_Protocol port,
         sp_Port = pi_Port port, sp_TargetPort = FromString (pi_Name port)\<rparr>) (sap_Ports p);
       labels = copy_into (sap_Labels p) [(PrometheusScrapeLabel, PrometheusScrapeLabelValue)]
     in object (named (sap_Namespace p) (sap_App p) (Some labels))
          (ServiceBody (sort_Slice by_port ports) [(LabelApp, sap_App p)]))"

definition destinationRule :: "SyncApp \<Rightarrow> KubeObj" where
  "destinationRule p = object (named (sap_Namespace p) (sap_App p) (Some (sap_Labels p)))
     (DestinationRuleBody \<lparr>dr_Host = serviceHost p,
        dr_Subsets = map (\<lambda>revision. \<lparr>su_Name = prv_Tag revision,
          su_Labels = [(''tag.picchu.medium.engineering'', prv_Tag revision)],
          su_TrafficPolicy = prv_TrafficPolicy revision\<rparr>) (sap_DeployedRevisions p)\<rparr>)"

definition by_route_name :: "HTTPRoute \<Rightarrow> HTTPRoute \<Rightarrow> bool" where
  "by_route_name a b \<longleftrightarrow> ht_Name a < ht_Name b"

definition gateways_of :: "HTTPRoute list \<Rightarrow> string list" where
  "gateways_of http = add_all (List.concat (map (\<lambda>r. List.concat (map hm_Gateways (ht_Match r))) http)) [''mesh'']"

definition virtualService ::
  "(string \<Rightarrow> SyncApp \<Rightarrow> goerror + string) \<Rightarrow> SyncApp \<Rightarrow> Cluster \<Rightarrow> KubeObj option option" where
  "virtualService tmpl p cluster = do {
     (tagged, taggedHosts) \<leftarrow> taggedRoutes p cluster;
     (release, releaseHosts) \<leftarrow> releaseRoutes p cluster;
     let hosts = add_all releaseHosts (add_all taggedHosts []);
     let http = devRoutes tmpl p cluster @ tagged @ release;
     Some (if http = [] then None
       else if hosts = [] then None
       else Some (object (named (sap_Namespace p) (sap_App p) (Some (sap_Labels p)))
         (VirtualServiceBody \<lparr>vs_Hosts = sort_Strings hosts,
            vs_Gateways = sort_Strings (gateways_of (sort_Slice by_route_name http)),
            vs_Http = sort_Slice by_route_name http\<rparr>)))
   }"

definition prometheusRule :: "SyncApp \<Rightarrow> KubeObj" where
  "prometheusRule p = object (named (sap_Namespace p) (sap_App p) (Some (sap_Labels p)))
     (PrometheusRuleBody (if sap_AlertRules p = [] then []
        else [\<lparr>rg_Name = ''picchu.rules'', rg_Rules = sap_AlertRules p\<rparr>]))"

definition sidecarResource :: "SyncApp \<Rightarrow> KubeObj option" where
  "sidecarResource p = map_option (\<lambda>is.
     object (named (sap_Namespace p) (sap_App p) (Some (sap_Labels p))) (SidecarBody (is_EgressHosts is)))
       (sap_IstioSidecarConfig p)"

section \<open>Applying the plan\<close>

text \<open>
  The error of a failed deletion of the alert rules is logged and not returned: the plan then ends, with no
  error, before the virtual service.
\<close>

definition SyncApp_Apply ::
  "(string \<Rightarrow> SyncApp \<Rightarrow> goerror + string) \<Rightarrow> 'c Client \<Rightarrow> Cluster \<Rightarrow> SyncApp \<Rightarrow> 'c step" where
  "SyncApp_Apply tmpl cli cluster p =
     (if sap_Ports p = [] then ok
      else then_do (CreateOrUpdate cli (service p))
        (then_do (case sidecarResource p of None \<Rightarrow> ok | Some s \<Rightarrow> CreateOrUpdate cli s)
          (if sap_DeployedRevisions p = [] then ok
           else then_do (CreateOrUpdate cli (destinationRule p))
             (let sync_vs = (case virtualService tmpl p cluster of
                  None \<Rightarrow> (\<lambda>c. None)
                | Some None \<Rightarrow> ok
                | Some (Some vs) \<Rightarrow> CreateOrUpdate cli vs)
              in if sap_AlertRules p = [] then (\<lambda>c.
                   case k_Delete cli (key_of (prometheusRule p)) c of
                     (None, c') \<Rightarrow> sync_vs c'
                   | (Some e, c') \<Rightarrow> if e \<noteq> NotFound then ok c' else sync_vs c')
                 else then_do (CreateOrUpdate cli (prometheusRule p)) sync_vs))))"

section \<open>Routes and weights\<close>

lemma makeRoute_simps:
  assumes "makeRoute p name port match route = Some r"
  shows "ht_Name r = name" "ht_Match r = match" "ht_Route r = route"
  using assms by (auto simp: makeRoute_def Let_def bind_eq_Some_conv)

definition weight_of_route :: "HTTPRoute \<Rightarrow> int" where
  "weight_of_route r = sum_list (map hd_Weight (ht_Route r))"

lemma i32_of_u32_0 [simp]: "i32_of_u32 0 = 0"
  by (simp add: i32_of_u32_def)

lemma releaseRoute_weights:
  "sum_list (map hd_Weight (releaseRoute p port)) =
   sum_list (map (\<lambda>r. i32_of_u32 (prv_Weight r)) (sap_DeployedRevisions p))"
  by (auto simp: releaseRoute_def comp_def sum_list_map_filter [symmetric] intro!: sum_list_map_filter)

text \<open>The routes to the application's own subsets.\<close>

definition to_subset :: "SyncApp \<Rightarrow> HTTPRoute \<Rightarrow> bool" where
  "to_subset p r \<longleftrightarrow> list_all (\<lambda>d. hd_Host d = serviceHost p \<and>
     list_ex (\<lambda>rev. prv_Tag rev = hd_Subset d) (sap_DeployedRevisions p)) (ht_Route r)"

definition is_release_of :: "SyncApp \<Rightarrow> Cluster \<Rightarrow> HTTPRoute \<Rightarrow> PortInfo \<Rightarrow> bool" where
  "is_release_of p cluster r port \<longleftrightarrow> releaseRoute p port \<noteq> [] \<and>
     ht_Name r = ''01_release-'' @ pi_Name port \<and> ht_Match r = fst (releaseMatches p port cluster) \<and>
     ht_Route r = releaseRoute p port"

definition is_tagged_of :: "SyncApp \<Rightarrow> Cluster \<Rightarrow> HTTPRoute \<Rightarrow> PlanRevision \<Rightarrow> PortInfo \<Rightarrow> bool" where
  "is_tagged_of p cluster r revision port \<longleftrightarrow> prv_TagRoutingHeader revision \<noteq> [] \<and>
     ht_Name r = ''00_tagged-'' @ prv_Tag revision @ ''-'' @ pi_Name port \<and>
     ht_Match r = fst (taggedMatches p port revision cluster) \<and> ht_Route r = taggedRoute p port revision"

text \<open>The routes come one for one with the ports that have traffic, and with the tagged pairs.\<close>

lemma releaseRoutes_of_each:
  "releaseRoutes_of p cluster ports rs hs = Some (routes, hosts) \<Longrightarrow>
   \<exists>new. routes = rs @ new \<and>
     list_all2 (is_release_of p cluster) new (filter (\<lambda>port. releaseRoute p port \<noteq> []) ports) \<and>
     set hosts = set hs \<union> (\<Union>port \<in> {port \<in> set ports. releaseRoute p port \<noteq> []}.
       set (snd (releaseMatches p port cluster)))"
proof (induction p cluster ports rs hs rule: releaseRoutes_of.induct)
  case (1 p cluster routes hostMap)
  then show ?case by simp
next
  case (2 p cluster port ports rs hs)
  show ?case
  proof (cases "releaseRoute p port = []")
    case True
    with 2 show ?thesis by (auto cong: conj_cong)
  next
    case False
    obtain ms hs' where m: "releaseMatches p port cluster = (ms, hs')" by force
    from 2(3) False m obtain r where r: "makeRoute p (''01_release-'' @ pi_Name port) port ms (releaseRoute p port) = Some r"
      and rest: "releaseRoutes_of p cluster ports (rs @ [r]) (add_all hs' hs) = Some (routes, hosts)"
      by (auto split: option.splits)
    from 2(2) [OF False m [symmetric] refl r rest] obtain new where new: "routes = (rs @ [r]) @ new"
      "list_all2 (is_release_of p cluster) new (filter (\<lambda>port. releaseRoute p port \<noteq> []) ports)"
      "set hosts = set (add_all hs' hs) \<union> (\<Union>port \<in> {port \<in> set ports. releaseRoute p port \<noteq> []}.
         set (snd (releaseMatches p port cluster)))" by blast
    have "is_release_of p cluster r port"
      using makeRoute_simps [OF r] False by (simp add: is_release_of_def m)
    with new False m show ?thesis by (intro exI [of _ "r # new"]) auto
  qed
qed

lemma taggedRoutes_of_each:
  "taggedRoutes_of p cluster rps rs hs = Some (routes, hosts) \<Longrightarrow>
   list_all (\<lambda>(revision, port). prv_TagRoutingHeader revision \<noteq> []) rps \<Longrightarrow>
   \<exists>new. routes = rs @ new \<and> list_all2 (\<lambda>r (revision, port). is_tagged_of p cluster r revision port) new rps \<and>
     set hosts = set hs \<union> (\<Union>(revision, port) \<in> set rps. set (snd (taggedMatches p port revision cluster)))"
proof (induction p cluster rps rs hs rule: taggedRoutes_of.induct)
  case (1 p cluster routes hostMap)
  then show ?case by simp
next
  case (2 p cluster revision port rps rs hs)
  obtain ms hs' where m: "taggedMatches p port revision cluster = (ms, hs')" by force
  from 2(2) m obtain r where r: "makeRoute p (''00_tagged-'' @ prv_Tag revision @ ''-'' @ pi_Name port) port ms
      (taggedRoute p port revision) = Some r"
    and rest: "taggedRoutes_of p cluster rps (rs @ [r]) (add_all hs' hs) = Some (routes, hosts)"
    by (auto split: option.splits)
  from 2(3) have "list_all (\<lambda>(revision, port). prv_TagRoutingHeader revision \<noteq> []) rps" by simp
  from 2(1) [OF m [symmetric] refl r rest this] obtain new where new: "routes = (rs @ [r]) @ new"
    "list_all2 (\<lambda>r (revision, port). is_tagged_of p cluster r revision port) new rps"
    "set hosts = set (add_all hs' hs) \<union>
       (\<Union>(revision, port) \<in> set rps. set (snd (taggedMatches p port revision cluster)))" by blast
  have "is_tagged_of p cluster r revision port"
    using makeRoute_simps [OF r] 2(3) by (simp add: is_tagged_of_def m)
  with new m show ?case by (intro exI [of _ "r # new"]) auto
qed

lemma tagged_pairs_header: "list_all (\<lambda>(revision, port). prv_TagRoutingHeader revision \<noteq> []) (tagged_pairs p)"
  by (auto simp: tagged_pairs_def list_all_iff)

lemma set_tagged_pairs:
  "set (tagged_pairs p) = {(revision, port). revision \<in> set (sap_DeployedRevisions p) \<and>
     prv_TagRoutingHeader revision \<noteq> [] \<and> port \<in> set (sap_Ports p)}"
  by (auto simp: tagged_pairs_def)

lemma release_to_subset: "is_release_of p cluster r port \<Longrightarrow> to_subset p r"
  by (auto simp: is_release_of_def to_subset_def releaseRoute_def list_all_iff list_ex_iff)

lemma tagged_to_subset:
  "is_tagged_of p cluster r revision port \<Longrightarrow> revision \<in> set (sap_DeployedRevisions p) \<Longrightarrow> to_subset p r"
  by (auto simp: is_tagged_of_def to_subset_def taggedRoute_def list_ex_iff)

definition is_release :: "HTTPRoute \<Rightarrow> bool" where
  "is_release r \<longleftrightarrow> strings_HasPrefix (ht_Name r) ''01_release-''"

lemma release_name: "is_release_of p cluster r port \<Longrightarrow> is_release r"
  by (auto simp: is_release_of_def is_release_def strings_HasPrefix_append)

lemma list_all2_each:
  assumes "list_all2 P xs ys"
  shows "x \<in> set xs \<Longrightarrow> \<exists>y \<in> set ys. P x y" and "y \<in> set ys \<Longrightarrow> \<exists>x \<in> set xs. P x y"
  using assms by (induction xs ys rule: list_all2_induct) auto

lemma tagged_name: "is_tagged_of p cluster r revision port \<Longrightarrow> \<not> is_release r"
  by (auto simp: is_tagged_of_def is_release_def)

lemma devRoutes_cases:
  "devRoutes tmpl p cluster = [] \<or>
   (\<exists>r. devRoutes tmpl p cluster = [r] \<and> ht_Name r = ''00_dev-'' @ sap_App p \<and> ht_Route r = devRoute p)"
  by (cases "devMatches tmpl p cluster") (simp_all add: devRoutes_def)

lemma dev_name:
  assumes "r \<in> set (devRoutes tmpl p cluster)"
  shows "\<not> is_release r" "ht_Route r = devRoute p"
  using assms devRoutes_cases [of tmpl p cluster] by (auto simp: is_release_def)

text \<open>Every route of a virtual service is one of the three kinds.\<close>

lemma virtualService_routes:
  assumes "virtualService tmpl p cluster = Some (Some obj)"
  shows "\<exists>vs http. ko_Body obj = VirtualServiceBody vs \<and> vs_Http vs = sort_Slice by_route_name http \<and> http \<noteq> [] \<and>
    (\<forall>r \<in> set http. r \<in> set (devRoutes tmpl p cluster) \<or>
       (\<exists>(revision, port) \<in> set (tagged_pairs p). is_tagged_of p cluster r revision port) \<or>
       (\<exists>port \<in> set (sap_Ports p). is_release_of p cluster r port)) \<and>
    (\<forall>port \<in> set (sap_Ports p). releaseRoute p port \<noteq> [] \<longrightarrow> (\<exists>r \<in> set http. is_release_of p cluster r port)) \<and>
    (\<forall>(revision, port) \<in> set (tagged_pairs p). \<exists>r \<in> set http. is_tagged_of p cluster r revision port)"
proof -
  from assms obtain tagged th release rh where t: "taggedRoutes p cluster = Some (tagged, th)"
    and r: "releaseRoutes p cluster = Some (release, rh)"
    by (auto simp: virtualService_def bind_eq_Some_conv)
  let ?http = "devRoutes tmpl p cluster @ tagged @ release"
  from assms t r have obj: "?http \<noteq> []" "\<exists>vs. ko_Body obj = VirtualServiceBody vs \<and> vs_Http vs = sort_Slice by_route_name ?http"
    by (auto simp: virtualService_def Let_def split: if_splits)
  from taggedRoutes_of_each [OF t [unfolded taggedRoutes_def] tagged_pairs_header]
  have T: "list_all2 (\<lambda>r (revision, port). is_tagged_of p cluster r revision port) tagged (tagged_pairs p)" by auto
  from releaseRoutes_of_each [OF r [unfolded releaseRoutes_def]]
  have R: "list_all2 (is_release_of p cluster) release (filter (\<lambda>port. releaseRoute p port \<noteq> []) (sap_Ports p))"
    by auto
  have T1: "\<exists>(revision, port) \<in> set (tagged_pairs p). is_tagged_of p cluster r revision port" if "r \<in> set tagged" for r
    using list_all2_each(1) [OF T that] .
  have T2: "\<exists>r \<in> set tagged. is_tagged_of p cluster r (fst q) (snd q)" if "q \<in> set (tagged_pairs p)" for q
    using list_all2_each(2) [OF T that] by (auto simp: split_beta)
  have R1: "\<exists>port \<in> set (sap_Ports p). is_release_of p cluster r port" if "r \<in> set release" for r
    using list_all2_each(1) [OF R that] by auto
  have R2: "\<exists>r \<in> set release. is_release_of p cluster r port"
    if "port \<in> set (sap_Ports p)" "releaseRoute p port \<noteq> []" for port
  proof -
    from that have "port \<in> set (filter (\<lambda>port. releaseRoute p port \<noteq> []) (sap_Ports p))" by simp
    from list_all2_each(2) [OF R this] show ?thesis .
  qed
  from obj obtain vs where "ko_Body obj = VirtualServiceBody vs" "vs_Http vs = sort_Slice by_route_name ?http" by blast
  moreover have "r \<in> set (devRoutes tmpl p cluster) \<or>
       (\<exists>(revision, port) \<in> set (tagged_pairs p). is_tagged_of p cluster r revision port) \<or>
       (\<exists>port \<in> set (sap_Ports p). is_release_of p cluster r port)" if "r \<in> set ?http" for r
    using that T1 R1 by auto
  moreover have "\<exists>r \<in> set ?http. is_release_of p cluster r port"
    if "port \<in> set (sap_Ports p)" "releaseRoute p port \<noteq> []" for port
    using R2 [OF that] by auto
  moreover have "case q of (revision, port) \<Rightarrow> \<exists>r \<in> set ?http. is_tagged_of p cluster r revision port"
    if "q \<in> set (tagged_pairs p)" for q
    using T2 [OF that] by (auto simp: split_beta)
  ultimately show ?thesis using obj(1)
    by (intro exI [of _ vs] exI [of _ ?http]) blast
qed

text \<open>The weights of the routes, and where they lead.\<close>

lemma route_cases:
  assumes "virtualService tmpl p cluster = Some (Some obj)"
  shows "\<exists>vs. ko_Body obj = VirtualServiceBody vs \<and> vs_Http vs \<noteq> [] \<and>
    (\<forall>r \<in> set (vs_Http vs).
       is_release r \<and> to_subset p r \<and>
         weight_of_route r = sum_list (map (\<lambda>r. i32_of_u32 (prv_Weight r)) (sap_DeployedRevisions p)) \<or>
       \<not> is_release r \<and> weight_of_route r = 100 \<and> (to_subset p r \<or> ht_Route r = devRoute p))"
proof -
  from virtualService_routes [OF assms] obtain vs http where vs: "ko_Body obj = VirtualServiceBody vs"
    and http: "vs_Http vs = sort_Slice by_route_name http" "http \<noteq> []"
    and each: "\<And>r. r \<in> set http \<Longrightarrow> r \<in> set (devRoutes tmpl p cluster) \<or>
       (\<exists>(revision, port) \<in> set (tagged_pairs p). is_tagged_of p cluster r revision port) \<or>
       (\<exists>port \<in> set (sap_Ports p). is_release_of p cluster r port)" by blast
  have "is_release r \<and> to_subset p r \<and>
         weight_of_route r = sum_list (map (\<lambda>r. i32_of_u32 (prv_Weight r)) (sap_DeployedRevisions p)) \<or>
       \<not> is_release r \<and> weight_of_route r = 100 \<and> (to_subset p r \<or> ht_Route r = devRoute p)"
    if "r \<in> set http" for r
    using each [OF that]
  proof (elim disjE bexE)
    assume "r \<in> set (devRoutes tmpl p cluster)"
    from dev_name [OF this] show ?thesis by (simp add: weight_of_route_def devRoute_def)
  next
    fix q assume q: "q \<in> set (tagged_pairs p)" "case q of (revision, port) \<Rightarrow> is_tagged_of p cluster r revision port"
    obtain revision port where [simp]: "q = (revision, port)" by (cases q)
    from q have t: "is_tagged_of p cluster r revision port" and "revision \<in> set (sap_DeployedRevisions p)"
      by (auto simp: set_tagged_pairs)
    with tagged_to_subset have "to_subset p r" by blast
    with t tagged_name [OF t] show ?thesis by (simp add: is_tagged_of_def weight_of_route_def taggedRoute_def)
  next
    fix port assume r: "is_release_of p cluster r port"
    with release_name release_to_subset releaseRoute_weights [of p port] show ?thesis
      by (fastforce simp: weight_of_route_def is_release_of_def)
  qed
  then show ?thesis using vs http by (intro exI [of _ vs]) simp
qed

text \<open>The order: the routes of the developers and of the tags before the release.\<close>

lemma sorted_split:
  assumes "sorted_wrt R xs" "\<And>x y. x \<in> set xs \<Longrightarrow> y \<in> set xs \<Longrightarrow> P x \<Longrightarrow> \<not> P y \<Longrightarrow> \<not> R x y"
  shows "\<exists>early late. xs = early @ late \<and> list_all (\<lambda>x. \<not> P x) early \<and> list_all P late"
  using assms
proof (induction xs)
  case Nil
  then show ?case by simp
next
  case (Cons x xs)
  show ?case
  proof (cases "P x")
    case True
    with Cons.prems have "list_all P (x # xs)" by (force simp: list_all_iff)
    then show ?thesis by (intro exI [of _ "[]"] exI [of _ "x # xs"]) simp
  next
    case False
    with Cons obtain early late where "xs = early @ late" "list_all (\<lambda>x. \<not> P x) early" "list_all P late"
      by fastforce
    with False show ?thesis by (intro exI [of _ "x # early"] exI [of _ late]) simp
  qed
qed

interpretation by_route_name: strict_weak_order by_route_name
  unfolding by_route_name_def by (rule strict_weak_order_key)

interpretation by_port: strict_weak_order by_port
  unfolding by_port_def by (rule strict_weak_order_key)

lemma non_release_first:
  assumes "virtualService tmpl p cluster = Some (Some obj)" "ko_Body obj = VirtualServiceBody vs"
  shows "\<exists>early late. vs_Http vs = early @ late \<and> list_all (\<lambda>r. \<not> is_release r) early \<and> list_all is_release late"
proof -
  from virtualService_routes [OF assms(1)] assms(2) obtain http where
    http: "vs_Http vs = sort_Slice by_route_name http"
    and each: "\<And>r. r \<in> set http \<Longrightarrow> r \<in> set (devRoutes tmpl p cluster) \<or>
       (\<exists>(revision, port) \<in> set (tagged_pairs p). is_tagged_of p cluster r revision port) \<or>
       (\<exists>port \<in> set (sap_Ports p). is_release_of p cluster r port)" by auto
  have early: "\<exists>n. ht_Name y = ''00_'' @ n" if "y \<in> set http" "\<not> is_release y" for y
    using each [OF that(1)] that(2) devRoutes_cases [of tmpl p cluster] release_name
    by (auto simp: is_tagged_of_def)
  have "by_route_name y x" if "x \<in> set http" "y \<in> set http" "is_release x" "\<not> is_release y" for x y
  proof -
    from early [OF that(2,4)] obtain n where "ht_Name y = ''00_'' @ n" by blast
    moreover from that(3) obtain m where "ht_Name x = ''01_release-'' @ m"
      by (auto simp: is_release_def strings_HasPrefix_append)
    ultimately show ?thesis by (simp add: by_route_name_def less_char_def)
  qed
  then show ?thesis unfolding http
    by (intro sorted_split [OF by_route_name.sort_Slice_sorted]) auto
qed

section \<open>Hosts and gateways\<close>

definition default_names :: "SyncApp \<Rightarrow> string list \<Rightarrow> string set" where
  "default_names p domains = (\<Union>domain \<in> set domains. {sap_Namespace p @ ''.'' @ domain} \<union>
     (if sap_Target p = sap_Fleet p then {sap_App p @ ''.'' @ domain}
      else if strings_HasSuffix (sap_Namespace p) (''-'' @ sap_Fleet p)
      then {strings_TrimSuffix (sap_Namespace p) (''-'' @ sap_Fleet p) @ ''.'' @ domain} else {}))"

lemma set_addDefaultHost:
  "set (addDefaultHost p port ing host m) = set m \<union>
     (if \<not> isUserDefined p host \<and> mlookup (sap_DefaultIngressPorts p) ing = Some (pi_Name port) then {host} else {})"
  by (auto simp: addDefaultHost_def split: option.splits)

lemma set_ingressHosts:
  "set (ingressHosts p port domains ing) = set (pi_Hosts port) \<union>
     {h \<in> default_names p domains. \<not> isUserDefined p h \<and>
        mlookup (sap_DefaultIngressPorts p) ing = Some (pi_Name port)}"
proof -
  let ?add = "addDefaultHost p port ing"
  let ?f = "\<lambda>domain hostMap. let hostMap = ?add (sap_Namespace p @ ''.'' @ domain) hostMap in
         if sap_Target p = sap_Fleet p then ?add (sap_App p @ ''.'' @ domain) hostMap
         else if strings_HasSuffix (sap_Namespace p) (''-'' @ sap_Fleet p)
         then ?add (strings_TrimSuffix (sap_Namespace p) (''-'' @ sap_Fleet p) @ ''.'' @ domain) hostMap
         else hostMap"
  have *: "set (fold ?f domains m) = set m \<union> {h \<in> default_names p domains. \<not> isUserDefined p h \<and>
        mlookup (sap_DefaultIngressPorts p) ing = Some (pi_Name port)}" for m
  proof (induction domains arbitrary: m)
    case Nil
    then show ?case by (simp add: default_names_def)
  next
    case (Cons d ds)
    have "set (?f d m) = set m \<union> {h \<in> default_names p [d]. \<not> isUserDefined p h \<and>
        mlookup (sap_DefaultIngressPorts p) ing = Some (pi_Name port)}"
      by (auto simp: Let_def set_addDefaultHost default_names_def)
    with Cons show ?case by (auto simp: default_names_def)
  qed
  show ?thesis unfolding ingressHosts_def set_add_all Let_def
    using * [of "[]", unfolded Let_def] by (simp only: list.set(1) sup_bot_left)
qed

lemma hosts_of_matches:
  "set (snd (portHeaderMatches p port headers cluster)) = {serviceHost p} \<union>
     (if ingress_enabled port ''public'' then set (publicHosts p port cluster) else {}) \<union>
     (if ingress_enabled port ''private'' then set (privateHosts p port cluster) else {})"
  by (auto simp: portHeaderMatches_def Let_def)

text \<open>A gateway named by a match is the mesh, or the gateway of an ingress the port enables.\<close>

lemma gateways_of_matches:
  assumes "m \<in> set (fst (portHeaderMatches p port headers cluster))"
  shows "hm_Gateways m = [''mesh''] \<or>
    ingress_enabled port ''public'' \<and> hm_Gateways m = [ii_Gateway (ci_Public (cs_Ingresses (cl_Spec cluster)))] \<or>
    ingress_enabled port ''private'' \<and> hm_Gateways m = [ii_Gateway (ci_Private (cs_Ingresses (cl_Spec cluster)))]"
  using assms
  by (auto simp: portHeaderMatches_def Let_def mesh_match_def ingress_matches_def split: if_splits)

section \<open>What applying the plan achieves\<close>

text \<open>
  The objects the plan wants in the cluster, in the order it writes them: nothing without ports, the service
  and its sidecar without deployed revisions, then the destination rule and the alert rules, if any, and at
  last the virtual service, if there is a host to route. Without alert rules it wants those there are gone.
\<close>

definition opt_list :: "'a option \<Rightarrow> 'a list" where
  "opt_list x = (case x of None \<Rightarrow> [] | Some y \<Rightarrow> [y])"

definition SyncApp_base :: "SyncApp \<Rightarrow> KubeObj list" where
  "SyncApp_base p = (if sap_Ports p = [] then []
     else service p # opt_list (sidecarResource p) @
       (if sap_DeployedRevisions p = [] then []
        else destinationRule p # (if sap_AlertRules p = [] then [] else [prometheusRule p])))"

definition SyncApp_routes :: "(string \<Rightarrow> SyncApp \<Rightarrow> goerror + string) \<Rightarrow> Cluster \<Rightarrow> SyncApp \<Rightarrow> KubeObj list" where
  "SyncApp_routes tmpl cluster p = (if sap_Ports p = [] \<or> sap_DeployedRevisions p = [] then []
     else case virtualService tmpl p cluster of Some vs \<Rightarrow> opt_list vs | None \<Rightarrow> [])"

definition SyncApp_unwanted :: "SyncApp \<Rightarrow> Key list" where
  "SyncApp_unwanted p = (if sap_Ports p = [] \<or> sap_DeployedRevisions p = [] \<or> sap_AlertRules p \<noteq> [] then []
     else [key_of (prometheusRule p)])"

lemma then_do_ok_right: "then_do f ok = f"
  by (rule ext) (auto simp: then_do_def ok_def split: option.splits prod.splits)

lemma opt_list_simps [simp]: "opt_list None = []" "opt_list (Some x) = [x]" "y \<in> set (opt_list z) \<longleftrightarrow> z = Some y"
  by (auto simp: opt_list_def split: option.split)

lemma virtualService_body:
  "virtualService tmpl p cluster = Some (Some obj) \<Longrightarrow> \<exists>vs.
     obj = object (named (sap_Namespace p) (sap_App p) (Some (sap_Labels p))) (VirtualServiceBody vs)"
  by (auto simp: virtualService_def Let_def bind_eq_Some_conv split: if_splits)

lemma SyncApp_bodies [simp]:
  "\<exists>ps s. ko_Body (service p) = ServiceBody ps s"
  "\<exists>d. ko_Body (destinationRule p) = DestinationRuleBody d"
  "\<exists>gs. ko_Body (prometheusRule p) = PrometheusRuleBody gs"
  "sidecarResource p = Some sc \<Longrightarrow> \<exists>hs. ko_Body sc = SidecarBody hs"
  by (auto simp: service_def destinationRule_def prometheusRule_def sidecarResource_def Let_def)

lemma SyncApp_object_kinds:
  "kind_of (ko_Body (service p)) = KService" "kind_of (ko_Body (destinationRule p)) = KDestinationRule"
  "kind_of (ko_Body (prometheusRule p)) = KPrometheusRule"
  "sidecarResource p = Some sc \<Longrightarrow> kind_of (ko_Body sc) = KSidecar"
  using SyncApp_bodies [of p] by fastforce+

lemma SyncApp_routes_body:
  assumes "obj \<in> set (SyncApp_routes tmpl cluster p)"
  shows "\<exists>vs. obj = object (named (sap_Namespace p) (sap_App p) (Some (sap_Labels p))) (VirtualServiceBody vs)"
proof -
  from assms have "virtualService tmpl p cluster = Some (Some obj)"
    by (auto simp: SyncApp_routes_def split: if_splits option.splits)
  then show ?thesis by (rule virtualService_body)
qed

text \<open>The objects of the base have kinds of their own, and are not virtual services.\<close>

lemma SyncApp_kinds:
  "distinct (map key_to (SyncApp_base p))" "distinct (map key_to (SyncApp_routes tmpl cluster p))"
  "obj \<in> set (SyncApp_base p @ SyncApp_routes tmpl cluster p) \<Longrightarrow> whole_spec obj"
  "obj \<in> set (SyncApp_base p @ SyncApp_routes tmpl cluster p) \<Longrightarrow> stable_template obj"
  "obj \<in> set (SyncApp_base p) \<Longrightarrow> key_Kind (key_to obj) \<noteq> KVirtualService"
  "obj \<in> set (SyncApp_routes tmpl cluster p) \<Longrightarrow> key_to obj =
     \<lparr>key_Kind = KVirtualService, key_Namespace = sap_Namespace p, key_Name = sap_App p\<rparr>"
  "k \<in> set (SyncApp_unwanted p) \<Longrightarrow> k = key_of (prometheusRule p) \<and> key_Kind k = KPrometheusRule \<and>
     k \<notin> key_to ` set (SyncApp_base p)"
proof -
  note kinds = SyncApp_object_kinds
  have ne: "key_to a \<noteq> key_to b" if "kind_of (ko_Body a) \<noteq> kind_of (ko_Body b)" for a b
    using that by (metis kind_key_to)
  have st: "stable_template obj" if "kind_of (ko_Body obj) \<noteq> KReplicaSet" for obj
    using that by (auto simp: stable_template_def split: Body.splits)
  show "distinct (map key_to (SyncApp_base p))"
    using kinds by (cases "sidecarResource p") (auto simp: SyncApp_base_def ne)
  show "distinct (map key_to (SyncApp_routes tmpl cluster p))"
    by (auto simp: SyncApp_routes_def opt_list_def split: option.split)
  have base: "kind_of (ko_Body obj) \<in> {KService, KSidecar, KDestinationRule, KPrometheusRule}"
    if "obj \<in> set (SyncApp_base p)" for obj
    using that kinds by (auto simp: SyncApp_base_def split: if_splits)
  show "whole_spec obj" "stable_template obj" if "obj \<in> set (SyncApp_base p @ SyncApp_routes tmpl cluster p)"
    using that base [of obj] SyncApp_routes_body [of obj tmpl cluster p] st [of obj] by (auto simp: whole_spec_def)
  show "key_Kind (key_to obj) \<noteq> KVirtualService" if "obj \<in> set (SyncApp_base p)"
    using base [OF that] by (auto simp: kind_key_to)
  show "key_to obj = \<lparr>key_Kind = KVirtualService, key_Namespace = sap_Namespace p, key_Name = sap_App p\<rparr>"
    if "obj \<in> set (SyncApp_routes tmpl cluster p)"
    using SyncApp_routes_body [OF that] by (auto simp: key_to_def)
  show "k = key_of (prometheusRule p) \<and> key_Kind k = KPrometheusRule \<and> k \<notin> key_to ` set (SyncApp_base p)"
    if k: "k \<in> set (SyncApp_unwanted p)"
  proof -
    from k have rules: "sap_AlertRules p = []" "k = key_of (prometheusRule p)"
      by (auto simp: SyncApp_unwanted_def split: if_splits)
    then have "key_Kind (key_to obj) \<noteq> KPrometheusRule" if "obj \<in> set (SyncApp_base p)" for obj
      using that kinds by (auto simp: SyncApp_base_def kind_key_to split: if_splits)
    moreover have "key_Kind (key_of (prometheusRule p)) = KPrometheusRule"
      using kinds(3) by (simp add: key_of_def)
    ultimately show ?thesis using rules(2) by force
  qed
qed

text \<open>The plan writes its base; then the rules go, and the routes come.\<close>

lemma SyncApp_Apply_base:
  "SyncApp_Apply tmpl cli cluster p = then_do (each (CreateOrUpdate cli) (SyncApp_base p))
     (if sap_Ports p = [] \<or> sap_DeployedRevisions p = [] then ok
      else let sync_vs = (case virtualService tmpl p cluster of
                  None \<Rightarrow> (\<lambda>c. None)
                | Some None \<Rightarrow> ok
                | Some (Some vs) \<Rightarrow> CreateOrUpdate cli vs)
        in if sap_AlertRules p = [] then (\<lambda>c.
             case k_Delete cli (key_of (prometheusRule p)) c of
               (None, c') \<Rightarrow> sync_vs c'
             | (Some e, c') \<Rightarrow> if e \<noteq> NotFound then ok c' else sync_vs c')
           else sync_vs)"
  by (cases "sidecarResource p"; cases "sap_Ports p = []"; cases "sap_DeployedRevisions p = []"; cases "sap_AlertRules p = []")
    (simp_all add: SyncApp_Apply_def SyncApp_base_def Let_def then_do_assoc then_do_ok_right)

lemma SyncApp_routes_written:
  assumes "sap_Ports p \<noteq> []" "sap_DeployedRevisions p \<noteq> []"
    and "(case virtualService tmpl p cluster of None \<Rightarrow> (\<lambda>c. None) | Some None \<Rightarrow> ok
      | Some (Some vs) \<Rightarrow> CreateOrUpdate cli vs) c = Some (None, c')"
  shows "each (CreateOrUpdate cli) (SyncApp_routes tmpl cluster p) c = Some (None, c')"
  using assms by (auto simp: SyncApp_routes_def then_do_ok_right split: option.splits)

text \<open>What a success of the plan did, on every path through it.\<close>

lemma SyncApp_success:
  assumes "SyncApp_Apply tmpl cli cluster p c = Some (None, c')"
  obtains (writes) c1 where "each (CreateOrUpdate cli) (SyncApp_base p) c = Some (None, c1)" "SyncApp_unwanted p = []"
      "each (CreateOrUpdate cli) (SyncApp_routes tmpl cluster p) c1 = Some (None, c')"
    | (deletes) c1 err c2 where "each (CreateOrUpdate cli) (SyncApp_base p) c = Some (None, c1)"
      "SyncApp_unwanted p = [key_of (prometheusRule p)]"
      "k_Delete cli (key_of (prometheusRule p)) c1 = (err, c2)" "err = None \<or> err = Some NotFound"
      "each (CreateOrUpdate cli) (SyncApp_routes tmpl cluster p) c2 = Some (None, c')"
    | (stuck) c1 e where "each (CreateOrUpdate cli) (SyncApp_base p) c = Some (None, c1)"
      "SyncApp_unwanted p = [key_of (prometheusRule p)]"
      "k_Delete cli (key_of (prometheusRule p)) c1 = (Some e, c')" "e \<noteq> NotFound"
proof -
  let ?vs = "case virtualService tmpl p cluster of None \<Rightarrow> (\<lambda>c. None) | Some None \<Rightarrow> ok
      | Some (Some vs) \<Rightarrow> CreateOrUpdate cli vs"
  from assms obtain c1 where base: "each (CreateOrUpdate cli) (SyncApp_base p) c = Some (None, c1)"
    and rest: "(if sap_Ports p = [] \<or> sap_DeployedRevisions p = [] then ok
      else if sap_AlertRules p = [] then (\<lambda>c. case k_Delete cli (key_of (prometheusRule p)) c of
        (None, c') \<Rightarrow> ?vs c' | (Some e, c') \<Rightarrow> if e \<noteq> NotFound then ok c' else ?vs c') else ?vs) c1 = Some (None, c')"
    unfolding SyncApp_Apply_base Let_def then_do_success by blast
  consider "sap_Ports p = [] \<or> sap_DeployedRevisions p = []"
    | "sap_Ports p \<noteq> []" "sap_DeployedRevisions p \<noteq> []" "sap_AlertRules p \<noteq> []"
    | "sap_Ports p \<noteq> []" "sap_DeployedRevisions p \<noteq> []" "sap_AlertRules p = []" by blast
  then show thesis
  proof cases
    case 1
    then show thesis using rest by (intro writes [OF base]) (auto simp: SyncApp_unwanted_def SyncApp_routes_def)
  next
    case 2
    then show thesis
      using rest by (intro writes [OF base] SyncApp_routes_written) (simp_all add: SyncApp_unwanted_def)
  next
    case 3
    then have gone: "SyncApp_unwanted p = [key_of (prometheusRule p)]" by (simp add: SyncApp_unwanted_def)
    obtain err c2 where d: "k_Delete cli (key_of (prometheusRule p)) c1 = (err, c2)" by fastforce
    show thesis
    proof (cases "err = None \<or> err = Some NotFound")
      case True
      then have "?vs c2 = Some (None, c')" using rest 3 by (auto simp: d)
      from deletes [OF base gone d True SyncApp_routes_written [OF 3(1,2) this]] show thesis .
    next
      case False
      then obtain e where e: "err = Some e" "e \<noteq> NotFound" by auto
      then have "c' = c2" using rest 3 by (simp add: d ok_def)
      with d e stuck [OF base gone] show thesis by blast
    qed
  qed
qed

text \<open>Without alert rules, and when those there are cannot be deleted, the plan ends there and reports success.\<close>

lemma SyncApp_rules_stuck:
  assumes "sap_Ports p \<noteq> []" "sap_DeployedRevisions p \<noteq> []" "sap_AlertRules p = []"
    and "each (CreateOrUpdate cli) (SyncApp_base p) c = Some (None, c1)"
    and "k_Delete cli (key_of (prometheusRule p)) c1 = (Some e, c2)" "e \<noteq> NotFound"
  shows "SyncApp_Apply tmpl cli cluster p c = Some (None, c2)"
  using assms by (simp add: SyncApp_Apply_base Let_def then_do_success ok_def)

end
