(* ===== verification/Go_Format.thy ===== *)
theory Go_Format
  imports Go_Text
begin

text \<open>
  Numbers as text, as far as the plans read and write them: \<^verbatim>\<open>strconv.Atoi\<close>, \<^verbatim>\<open>strconv.ParseFloat\<close> on decimal
  text, \<^verbatim>\<open>strconv.FormatFloat(x, 'f', -1, 64)\<close> and the verb \<^verbatim>\<open>%.10g\<close>.
\<close>

section \<open>Reading\<close>

definition digits_val :: "string \<Rightarrow> int" where
  "digits_val ds = fold (\<lambda>c n. n * 10 + digit_val c) ds 0"

definition split_sign :: "string \<Rightarrow> bool \<times> string" where
  "split_sign s = (case s of
     c # s' \<Rightarrow> if c = CHR ''-'' then (True, s') else if c = CHR ''+'' then (False, s') else (False, s)
   | [] \<Rightarrow> (False, []))"

text \<open>\<^verbatim>\<open>strconv.Atoi\<close>: a sign and digits, within \<^verbatim>\<open>int64\<close>.\<close>

definition strconv_Atoi :: "string \<Rightarrow> int64 option" where
  "strconv_Atoi s = (let (neg, ds) = split_sign s; n = (if neg then - digits_val ds else digits_val ds) in
     if ds \<noteq> [] \<and> list_all digit ds \<and> - (2 ^ 63) \<le> n \<and> n < 2 ^ 63 then Some n else None)"

text \<open>
  \<^verbatim>\<open>strconv.ParseFloat(s, 64)\<close>: a sign, digits with an optional point, an optional decimal exponent, rounded
  to the nearest float. Hexadecimal floats and the spellings of infinity and NaN are outside the model,
  which has no such values.
\<close>

definition parse_exponent :: "string \<Rightarrow> int option" where
  "parse_exponent s = (case s of
     [] \<Rightarrow> Some 0
   | c # s' \<Rightarrow>
       if c = CHR ''e'' \<or> c = CHR ''E''
       then (let (neg, ds) = split_sign s' in
         if ds \<noteq> [] \<and> list_all digit ds then Some (if neg then - digits_val ds else digits_val ds) else None)
       else None)"

definition strconv_ParseFloat :: "string \<Rightarrow> float64 option" where
  "strconv_ParseFloat s = (let
       (neg, s) = split_sign s;
       whole = takeWhile digit s;
       s = dropWhile digit s;
       (frac, s) = (case s of
          c # s' \<Rightarrow> if c = CHR ''.'' then (takeWhile digit s', dropWhile digit s') else ([], s)
        | [] \<Rightarrow> ([], []))
     in if whole = [] \<and> frac = [] then None
        else case parse_exponent s of
          None \<Rightarrow> None
        | Some e \<Rightarrow>
            (let x = of_int (digits_val (whole @ frac)) * 10 powi (e - int (length frac)) in
             Some (if neg then - fl x else fl x)))"

section \<open>Writing\<close>

function show_nat :: "nat \<Rightarrow> string" where
  "show_nat n = (if n < 10 then [char_of (n + 48)] else show_nat (n div 10) @ [char_of (n mod 10 + 48)])"
  by pat_completeness auto
termination
  by (relation "measure id") auto

declare show_nat.simps [simp del]

text \<open>
  The decimal exponent of a positive float, \<open>10 powi e \<le> x < 10 powi (e + 1)\<close>, from its binary one.
\<close>

definition dec_exp :: "rat \<Rightarrow> int" where
  "dec_exp x = (let e = (float_exp x * 30103) div 100000 in
     if x < 10 powi e then e - 1 else if 10 powi (e + 1) \<le> x then e + 1 else e)"

text \<open>The text of \<open>d * 10 powi k\<close> with no exponent.\<close>

definition positional :: "nat \<Rightarrow> int \<Rightarrow> string" where
  "positional d k = (let ds = show_nat d in
     if k \<ge> 0 then (if d = 0 then ''0'' else ds @ replicate (nat k) CHR ''0'')
     else let n = nat (- k);
              ds = replicate (n + 1 - length ds) CHR ''0'' @ ds in
       take (length ds - n) ds @ ''.'' @ drop (length ds - n) ds)"

text \<open>
  The shortest digits that read back as \<open>x\<close>, for the first number of digits at which one of the two
  neighbours of \<open>x\<close> does: \<open>(d, k)\<close> stands for \<open>d * 10 powi k\<close>.
\<close>

definition shortest_at :: "float64 \<Rightarrow> nat \<Rightarrow> (nat \<times> int) option" where
  "shortest_at x n = (let
       k = dec_exp x + 1 - int n;
       lo = nat \<lfloor>x * 10 powi (- k)\<rfloor>;
       good = (\<lambda>d. fl (of_nat d * 10 powi k) = x)
     in if good lo \<and> good (lo + 1)
        then Some (if x * 10 powi (- k) - of_nat lo \<le> 1 / 2 then lo else lo + 1, k)
        else if good lo then Some (lo, k) else if good (lo + 1) then Some (lo + 1, k) else None)"

definition shortest :: "float64 \<Rightarrow> nat \<times> int" where
  "shortest x = (case List.map_filter (shortest_at x) [1..<18] of [] \<Rightarrow> (0, 0) | dk # _ \<Rightarrow> dk)"

definition FormatFloat :: "float64 \<Rightarrow> string" where
  "FormatFloat x =
     (if x = 0 then ''0''
      else let (d, k) = shortest \<bar>x\<bar> in (if x < 0 then ''-'' else []) @ positional d k)"

text \<open>
  \<^verbatim>\<open>%.10g\<close>: ten significant digits, ties to even, trailing zeros dropped, with an exponent when it is below
  \<open>-4\<close> or at least \<open>10\<close>.
\<close>

fun drop_zeros :: "nat \<Rightarrow> nat \<Rightarrow> int \<Rightarrow> nat \<times> int" where
  "drop_zeros 0 d k = (d, k)"
| "drop_zeros (Suc fuel) d k = (if d \<noteq> 0 \<and> d mod 10 = 0 then drop_zeros fuel (d div 10) (k + 1) else (d, k))"

definition Format10g :: "float64 \<Rightarrow> string" where
  "Format10g x =
     (if x = 0 then ''0''
      else let e = dec_exp \<bar>x\<bar>;
               r = nat (rne (\<bar>x\<bar> * 10 powi (9 - e)));
               e = (if r = 10 ^ 10 then e + 1 else e);
               (d, k) = drop_zeros 11 r ((if r = 10 ^ 10 then e - 1 else e) - 9);
               ds = show_nat d;
               ex = nat \<bar>e\<bar>
           in (if x < 0 then ''-'' else []) @
              (if e < -4 \<or> e \<ge> 10
               then [hd ds] @ (if tl ds = [] then [] else ''.'' @ tl ds) @
                    (if e < 0 then ''e-'' else ''e+'') @ (if ex < 10 then ''0'' else []) @ show_nat ex
               else positional d k))"

end
