(* ===== verification/Revision_Plans.thy ===== *)
theory Revision_Plans
  imports Create_Or_Update Go_Format Cluster_Info
begin

text \<open>
  A revision in a target cluster: \<^verbatim>\<open>syncRevision.go\<close>, which writes its replica set and what the pods need,
  \<^verbatim>\<open>scaleRevision.go\<close>, which gives it an autoscaler, \<^verbatim>\<open>retireRevision.go\<close>, which takes its pods away, and
  \<^verbatim>\<open>deleteRevision.go\<close>, which removes its objects (all in \<^verbatim>\<open>src/controllers/plan\<close>).

  The plans are shared by the clusters. What \<^verbatim>\<open>Apply\<close> assigns to the plan itself (\<^verbatim>\<open>p.Max\<close>, the mode of the
  topology constraint) it would assign again, so that the definitions take the plan as it was.
\<close>

section \<open>Constants\<close>

definition AnnotationKedaServiceAccount :: string where
  "AnnotationKedaServiceAccount = ''eks.amazonaws.com/role-arn''"
definition MaxUnavailable :: string where "MaxUnavailable = ''10%''"
definition annotationDatadogTolerateUnready :: string where
  "annotationDatadogTolerateUnready = ''ad.datadoghq.com/tolerate-unready''"
definition labelDestinationTag :: string where "labelDestinationTag = ''tag.picchu.medium.engineering''"
definition labelPodTTL :: string where "labelPodTTL = ''medium.engineering/pod-ttl-seconds''"

definition defaultLivenessProbe :: Probe where
  "defaultLivenessProbe = HTTPGet \<lparr>hp_Path = ''/running'', hp_Port = FromString ''status'',
     hp_InitialDelaySeconds = 10, hp_PeriodSeconds = 10, hp_TimeoutSeconds = 1,
     hp_SuccessThreshold = 1, hp_FailureThreshold = 7\<rparr>"

definition defaultReadinessProbe :: Probe where
  "defaultReadinessProbe = HTTPGet \<lparr>hp_Path = ''/running'', hp_Port = FromString ''status'',
     hp_InitialDelaySeconds = 10, hp_PeriodSeconds = 10, hp_TimeoutSeconds = 1,
     hp_SuccessThreshold = 1, hp_FailureThreshold = 3\<rparr>"

definition DefaultDNSConfig :: strmap where
  "DefaultDNSConfig = [(''ndots'', ''1'')]"

section \<open>The scaling factor of a cluster\<close>

text \<open>A factor that is missing or does not parse is an error of the plan.\<close>

definition scalingFactor_of :: "Cluster \<Rightarrow> float64 option" where
  "scalingFactor_of cluster = (case cs_ScalingFactorString (cl_Spec cluster) of
     None \<Rightarrow> None | Some s \<Rightarrow> strconv_ParseFloat s)"

text \<open>\<^verbatim>\<open>int32(math.Ceil(float64(n) * factor))\<close>\<close>

definition scaled :: "int32 \<Rightarrow> float64 \<Rightarrow> int32" where
  "scaled n factor = int32_of_float (math_Ceil (fmul (float_of_int n) factor))"

section \<open>Syncing a revision\<close>

definition object_of_config :: "SyncRevision \<Rightarrow> ConfigObject \<Rightarrow> KubeObj" where
  "object_of_config p config = object (named (srv_Namespace p) (cfg_Name config) (Some (srv_Labels p)))
     (case cfg_Kind config of
        SecretKind ty \<Rightarrow> SecretBody ty (OpaqueData (cfg_Data config))
      | ConfigMapKind \<Rightarrow> ConfigMapBody (OpaqueData (cfg_Data config)))"

definition env_of_config :: "ConfigObject \<Rightarrow> EnvFromSource" where
  "env_of_config config = (case cfg_Kind config of
     SecretKind ty \<Rightarrow> SecretRef (cfg_Name config) | ConfigMapKind \<Rightarrow> ConfigMapRef (cfg_Name config))"

definition object_of_external :: "SyncRevision \<Rightarrow> ExternalSecret \<Rightarrow> KubeObj" where
  "object_of_external p xs =
     object (named (srv_Namespace p) (xs_Name xs) (Some (srv_Labels p))) (ExternalSecretBody (xs_Spec xs))"

definition env_of_external :: "ExternalSecret \<Rightarrow> EnvFromSource" where
  "env_of_external xs = SecretRef (xs_TargetName xs)"

text \<open>The role annotation of the application's service account.\<close>

definition patchServiceAccount :: "'c Client \<Rightarrow> SyncRevision \<Rightarrow> 'c step" where
  "patchServiceAccount cli p c =
     (case k_Get cli \<lparr>key_Kind = KServiceAccount, key_Namespace = srv_Namespace p, key_Name = srv_App p\<rparr> c of
        Inl e \<Rightarrow> fails e c
      | Inr sa \<Rightarrow>
          (let as = (case annotations_of sa of None \<Rightarrow> [] | Some as \<Rightarrow> as) in
           if srv_IAMRole p = [] then ok c
           else if mget (Some as) AnnotationKedaServiceAccount = srv_IAMRole p then ok c
           else total (k_Update cli (set_annotations
             (Some (AList.update AnnotationKedaServiceAccount (srv_IAMRole p) as)) sa)) c))"

definition podDisruptionBudget :: "SyncRevision \<Rightarrow> KubeObj" where
  "podDisruptionBudget p = (let
       spec = (case srv_PodDisruptionBudget p of
           None \<Rightarrow> \<lparr>pd_MinAvailable = None, pd_MaxUnavailable = None, pd_Selector = None, pd_rest = []\<rparr>
         | Some b \<Rightarrow> b)\<lparr>pd_Selector := Some [(LabelApp, srv_App p)]\<rparr>;
       spec = (if pd_MaxUnavailable spec = None \<and> pd_MinAvailable spec = None
         then spec\<lparr>pd_MaxUnavailable := Some (FromString MaxUnavailable)\<rparr> else spec)
     in object (named (srv_Namespace p) (srv_App p) (Some (srv_Labels p))) (PDBBody spec))"

definition syncPodDisruptionBudget :: "'c Client \<Rightarrow> SyncRevision \<Rightarrow> 'c step" where
  "syncPodDisruptionBudget cli p = CreateOrUpdate cli (podDisruptionBudget p)"

definition by_container_port :: "ContainerPort \<Rightarrow> ContainerPort \<Rightarrow> bool" where
  "by_container_port a b \<longleftrightarrow> cp_ContainerPort a < cp_ContainerPort b"

definition appContainer :: "SyncRevision \<Rightarrow> EnvFromSource list \<Rightarrow> Container" where
  "appContainer p envs = (let
       ports = sort_Slice by_container_port (map (\<lambda>port. \<lparr>cp_Name = pi_Name port,
         cp_Protocol = pi_Protocol port, cp_ContainerPort = pi_ContainerPort port\<rparr>) (srv_Ports p));
       hasStatusPort = list_ex (\<lambda>port. pi_Name port = ''status'') (srv_Ports p);
       or_default = (\<lambda>probe d. if hasStatusPort \<and> probe = None then Some d else probe)
     in \<lparr>co_Name = srv_App p, co_Image = srv_Image p, co_Ports = ports, co_EnvFrom = envs,
         co_Env = srv_EnvVars p, co_Resources = srv_Resources p,
         co_LivenessProbe = or_default (srv_LivenessProbe p) defaultLivenessProbe,
         co_ReadinessProbe = or_default (srv_ReadinessProbe p) defaultReadinessProbe,
         co_Lifecycle = srv_Lifecycle p, co_VolumeMounts = [], co_rest = []\<rparr>)"

definition pod_containers :: "SyncRevision \<Rightarrow> EnvFromSource list \<Rightarrow> Container list" where
  "pod_containers p envs = map (\<lambda>container. container\<lparr>co_EnvFrom := envs, co_Env := srv_EnvVars p,
     co_VolumeMounts := srv_VolumeMounts p\<rparr>) (appContainer p envs # srv_Sidecars p)"

definition schedule_anyway :: "TopologySpreadConstraint \<Rightarrow> TopologySpreadConstraint" where
  "schedule_anyway t = (if tsc_WhenUnsatisfiable t = ''DoNotSchedule''
     then t\<lparr>tsc_WhenUnsatisfiable := ''ScheduleAnyway''\<rparr> else t)"

definition pod_annotations :: "SyncRevision \<Rightarrow> strmap" where
  "pod_annotations p = (let
       m = copy_into (srv_PodAnnotations p) [];
       m = (if srv_IAMRole p \<noteq> [] then AList.update AnnotationIAMRole (srv_IAMRole p) m else m);
       m = AList.update annotationDatadogTolerateUnready ''true'' m
     in if srv_KarpenterDoNotDisrupt p \<noteq> []
        then AList.update AnnotationKarpenterDoNotDisrupt (srv_KarpenterDoNotDisrupt p) m else m)"

definition template_labels :: "SyncRevision \<Rightarrow> strmap \<Rightarrow> strmap" where
  "template_labels p podLabels = (let
       m = copy_into podLabels [];
       ttl = mget (Some (srv_PodAnnotations p)) labelPodTTL
     in if ttl \<noteq> [] then AList.update labelPodTTL ttl m else m)"

definition pod_template :: "SyncRevision \<Rightarrow> strmap \<Rightarrow> EnvFromSource list \<Rightarrow> PodTemplateSpec" where
  "pod_template p podLabels envs = (let
       grace = mget (Some (srv_PodAnnotations p)) ''go.medium.engineering/PodTerminationGracePeriodSeconds''
     in \<lparr>pt_Name = srv_Tag p, pt_Namespace = srv_Namespace p,
         pt_Labels = Some (template_labels p podLabels), pt_Annotations = Some (pod_annotations p),
         pt_Spec = \<lparr>ps_ServiceAccountName = srv_ServiceAccountName p,
           ps_Containers = pod_containers p envs, ps_DNSOptions = DefaultDNSConfig,
           ps_Affinity = srv_Affinity p, ps_PriorityClassName = srv_PriorityClassName p,
           ps_Tolerations = srv_Tolerations p, ps_Volumes = srv_Volumes p,
           ps_SchedulerName = srv_SchedulerName p,
           ps_TopologySpreadConstraints = (case srv_TopologySpreadConstraint p of
               None \<Rightarrow> [] | Some t \<Rightarrow> [schedule_anyway t]),
           ps_TerminationGracePeriodSeconds = (if grace \<noteq> [] then strconv_Atoi grace else None)\<rparr>\<rparr>)"

definition autoScaler :: "SyncRevision \<Rightarrow> string" where
  "autoScaler p = (if srv_Worker p \<noteq> None then AutoscalerTypeWPA
     else if srv_KedaWorker p \<noteq> None then AutoscalerTypeKEDA else AutoscalerTypeHPA)"

definition rs_annotations :: "SyncRevision \<Rightarrow> strmap" where
  "rs_annotations p = (let m = [(AnnotationAutoscaler, autoScaler p)] in
     if srv_IAMRole p \<noteq> [] then AList.update AnnotationIAMRole (srv_IAMRole p) m else m)"

text \<open>The selector leaves out the labels Istio reads, which older replica sets do not have.\<close>

definition rs_selector :: "strmap \<Rightarrow> strmap" where
  "rs_selector podLabels = filter (\<lambda>(k, v). k \<noteq> LabelIstioApp \<and> k \<noteq> LabelIstioVersion) podLabels"

definition replicaSet_of ::
  "SyncRevision \<Rightarrow> float64 \<Rightarrow> strmap \<Rightarrow> EnvFromSource list \<Rightarrow> KubeObj" where
  "replicaSet_of p factor podLabels envs = object
     ((named (srv_Namespace p) (srv_Tag p) (Some (srv_Labels p)))\<lparr>om_Annotations := Some (rs_annotations p)\<rparr>)
     (ReplicaSetBody \<lparr>rset_Replicas = Some (scaled (srv_Replicas p) factor),
        rset_Selector = Some (rs_selector podLabels), rset_Template = pod_template p podLabels envs,
        rset_MinReadySeconds = srv_MinReadySeconds p\<rparr>)"

definition syncReplicaSet ::
  "'c Client \<Rightarrow> SyncRevision \<Rightarrow> float64 \<Rightarrow> strmap \<Rightarrow> EnvFromSource list \<Rightarrow> 'c step" where
  "syncReplicaSet cli p factor podLabels envs = CreateOrUpdate cli (replicaSet_of p factor podLabels envs)"

text \<open>The labels of the pods; the first is the one the destination rule selects on.\<close>

definition pod_labels :: "SyncRevision \<Rightarrow> strmap" where
  "pod_labels p = copy_into (srv_Labels p) [(labelDestinationTag, srv_Tag p)]"

definition pod_envs :: "SyncRevision \<Rightarrow> EnvFromSource list" where
  "pod_envs p = map env_of_config (srv_Configs p) @ map env_of_external (srv_ExternalSecrets p)"

definition SyncRevision_Apply :: "'c Client \<Rightarrow> Cluster \<Rightarrow> SyncRevision \<Rightarrow> 'c step" where
  "SyncRevision_Apply cli cluster p =
     then_do (patchServiceAccount cli p)
     (then_do (syncPodDisruptionBudget cli p)
     (then_do (each (\<lambda>config. CreateOrUpdate cli (object_of_config p config)) (srv_Configs p))
     (then_do (each (\<lambda>xs. CreateOrUpdate cli (object_of_external p xs)) (srv_ExternalSecrets p))
       (case scalingFactor_of cluster of
          None \<Rightarrow> fails (Errorf ''cluster scalingFactor is nil'')
        | Some factor \<Rightarrow>
            syncReplicaSet cli p
              (if cs_DisableEventDriven (cl_Spec cluster) \<and> srv_EventDriven p then 0 else factor)
              (pod_labels p) (pod_envs p)))))"

section \<open>Scaling a revision\<close>

definition kedaDisabledSettings :: "int32 \<Rightarrow> int32 \<Rightarrow> bool \<Rightarrow> int32 \<times> int32 \<times> strmap option" where
  "kedaDisabledSettings scaledMin scaledMax disabled =
     (if \<not> disabled then (scaledMin, scaledMax, None)
      else (0, scaledMax, Some [(AnnotationPausedReplicas, ''0'')]))"

definition hpaName :: "ScaleRevision \<Rightarrow> string" where
  "hpaName p = (if length (scr_Tag p) \<le> 54 then scr_Tag p
     else strings_TrimLeft (drop (length (scr_Tag p) - 54) (scr_Tag p)) CHR ''-'')"

definition hpa_key :: "ScaleRevision \<Rightarrow> Key" where
  "hpa_key p = \<lparr>key_Kind = KHPA, key_Namespace = scr_Namespace p, key_Name = hpaName p\<rparr>"

definition deleteHPA :: "'c Client \<Rightarrow> ScaleRevision \<Rightarrow> 'c step" where
  "deleteHPA cli p = total (DeleteIfExists cli (hpa_key p))"

definition scale_target :: "ScaleRevision \<Rightarrow> ObjectReference" where
  "scale_target p = \<lparr>or_APIVersion = ''apps/v1'', or_Kind = ''ReplicaSet'', or_Name = scr_Tag p\<rparr>"

definition hpa_metrics :: "ScaleRevision \<Rightarrow> MetricSpec list" where
  "hpa_metrics p =
     (case scr_CPUTarget p of None \<Rightarrow> [] | Some n \<Rightarrow> [ResourceUtilization ''cpu'' n]) @
     (case scr_MemoryTarget p of None \<Rightarrow> [] | Some n \<Rightarrow> [ResourceUtilization ''memory'' n]) @
     (case scr_RequestsRateTarget p of None \<Rightarrow> []
      | Some q \<Rightarrow> [PodsAverageValue (scr_RequestsRateMetric p) q])"

definition hpa_of :: "ScaleRevision \<Rightarrow> int32 \<Rightarrow> int32 \<Rightarrow> KubeObj" where
  "hpa_of p scaledMin scaledMax = object (named (scr_Namespace p) (hpaName p) (Some (scr_Labels p)))
     (HPABody \<lparr>hpa_ScaleTargetRef = scale_target p, hpa_MinReplicas = Some scaledMin,
        hpa_MaxReplicas = scaledMax, hpa_Metrics = hpa_metrics p, hpa_Behavior = None\<rparr>)"

definition applyHPA :: "'c Client \<Rightarrow> ScaleRevision \<Rightarrow> int32 \<Rightarrow> int32 \<Rightarrow> 'c step" where
  "applyHPA cli p scaledMin scaledMax =
     (if hpa_metrics p = [] then total (DeleteIfExists cli (hpa_key p))
      else CreateOrUpdate cli (hpa_of p scaledMin scaledMax))"

text \<open>The query and the threshold of the request rate; the quantity is there when this is called.\<close>

definition ambient_query :: "ScaleRevision \<Rightarrow> string" where
  "ambient_query p = ''sum(rate(istio_requests_total{destination_workload='' @ [CHR 0x22] @ scr_Tag p @
     [CHR 0x22] @ '', destination_workload_namespace='' @ [CHR 0x22] @ scr_Namespace p @ [CHR 0x22] @
     ''}[2m]))''"

definition ambient_keda :: "ScaleRevision \<Rightarrow> Quantity \<Rightarrow> int32 \<Rightarrow> int32 \<Rightarrow> bool \<Rightarrow> KubeObj" where
  "ambient_keda p rate scaledMin scaledMax paused =
     (let (mn, mx, annotations) = kedaDisabledSettings scaledMin scaledMax paused in object
     ((named (scr_Namespace p) (hpaName p) (Some (scr_Labels p)))\<lparr>om_Annotations := annotations\<rparr>)
     (ScaledObjectBody \<lparr>sob_ScaleTargetRef = scale_target p, sob_CooldownPeriod = None,
        sob_IdleReplicaCount = None, sob_MinReplicaCount = Some mn, sob_MaxReplicaCount = Some mx,
        sob_Advanced = None,
        sob_Triggers = [\<lparr>str_Type = ''prometheus'', str_Metadata = Some
          [(''serverAddress'', scr_PrometheusAddress p), (''query'', ambient_query p),
           (''threshold'', FormatFloat (fdiv (float_of_int (q_MilliValue rate)) 1000))],
          str_AuthenticationRef = None, str_rest = []\<rparr>],
        sob_Fallback = None\<rparr>))"

definition applyAmbientKeda ::
  "'c Client \<Rightarrow> ScaleRevision \<Rightarrow> Quantity \<Rightarrow> int32 \<Rightarrow> int32 \<Rightarrow> bool \<Rightarrow> 'c step" where
  "applyAmbientKeda cli p rate scaledMin scaledMax paused =
     CreateOrUpdate cli (ambient_keda p rate scaledMin scaledMax paused)"

definition wpa_of :: "ScaleRevision \<Rightarrow> WorkerScaleInfo \<Rightarrow> int32 \<Rightarrow> int32 \<Rightarrow> KubeObj" where
  "wpa_of p worker scaledMin scaledMax =
     object (named (scr_Namespace p) (scr_Tag p) (Some (scr_Labels p)))
     (WPABody \<lparr>wpa_ReplicaSetName = scr_Tag p, wpa_MinReplicas = Some scaledMin,
        wpa_MaxReplicas = Some scaledMax, wpa_QueueURI = wsi_QueueURI worker,
        wpa_TargetMessagesPerWorker = wsi_TargetMessagesPerWorker worker,
        wpa_SecondsToProcessOneJob = (case wsi_SecondsToProcessOneJobString worker of
            None \<Rightarrow> None | Some s \<Rightarrow> strconv_ParseFloat s),
        wpa_MaxDisruption = wsi_MaxDisruption worker\<rparr>)"

definition applyWPA :: "'c Client \<Rightarrow> ScaleRevision \<Rightarrow> WorkerScaleInfo \<Rightarrow> int32 \<Rightarrow> int32 \<Rightarrow> 'c step" where
  "applyWPA cli p worker scaledMin scaledMax = CreateOrUpdate cli (wpa_of p worker scaledMin scaledMax)"

text \<open>\<^verbatim>\<open>deepCopyTriggers\<close> gives every trigger a map of its own; then one without authentication gets the pod's.\<close>

definition deepCopyTriggers :: "ScaleTriggers list \<Rightarrow> ScaleTriggers list" where
  "deepCopyTriggers triggers = map (\<lambda>t. t\<lparr>str_Metadata :=
     Some (copy_into (case str_Metadata t of None \<Rightarrow> [] | Some m \<Rightarrow> m) [])\<rparr>) triggers"

definition with_identity :: "ScaleRevision \<Rightarrow> ScaleTriggers \<Rightarrow> ScaleTriggers" where
  "with_identity p t = (if str_AuthenticationRef t = None
     then t\<lparr>str_AuthenticationRef := Some (scr_Tag p),
            str_Metadata := Some (AList.update ''identityOwner'' ''pod''
              (case str_Metadata t of None \<Rightarrow> [] | Some m \<Rightarrow> m))\<rparr>
     else t)"

definition keda_of :: "ScaleRevision \<Rightarrow> KedaScaleInfo \<Rightarrow> int32 \<Rightarrow> int32 \<Rightarrow> bool \<Rightarrow> KubeObj" where
  "keda_of p keda scaledMin scaledMax paused =
     (let (mn, mx, annotations) = kedaDisabledSettings scaledMin scaledMax paused in object
     ((named (scr_Namespace p) (hpaName p) (Some (scr_Labels p)))\<lparr>om_Annotations := annotations\<rparr>)
     (ScaledObjectBody \<lparr>sob_ScaleTargetRef = scale_target p, sob_CooldownPeriod = ks_CooldownPeriod keda,
        sob_IdleReplicaCount = ks_IdleReplicaCount keda, sob_MinReplicaCount = Some mn,
        sob_MaxReplicaCount = Some mx, sob_Advanced = ks_Advanced keda,
        sob_Triggers = map (with_identity p) (deepCopyTriggers (ks_Triggers keda)),
        sob_Fallback = ks_Fallback keda\<rparr>))"

definition datadogMetric :: "ScaleRevision \<Rightarrow> Cluster \<Rightarrow> KubeObj option" where
  "datadogMetric p cluster = (if scr_RequestsRateMetric p = [] then None
     else Some (object (named (scr_Namespace p) (scr_Tag p) (Some (scr_Labels p)))
       (DatadogMetricBody (''avg:istio.mesh.request.count{reporter:destination, cluster:'' @
          om_Name (cl_Meta cluster) @ '', kube_namespace:'' @ scr_Namespace p @ '', version:'' @
          scr_Tag p @ ''}.rollup(count, 120)''))))"

definition applyKeda ::
  "'c Client \<Rightarrow> Cluster \<Rightarrow> ScaleRevision \<Rightarrow> KedaScaleInfo \<Rightarrow> int32 \<Rightarrow> int32 \<Rightarrow> bool \<Rightarrow> 'c step" where
  "applyKeda cli cluster p keda scaledMin scaledMax paused =
     then_do (case (scr_RequestsRateTarget p, datadogMetric p cluster) of
         (Some _, Some m) \<Rightarrow> CreateOrUpdate cli m | _ \<Rightarrow> ok)
       (CreateOrUpdate cli (keda_of p keda scaledMin scaledMax paused))"

definition datadogConfigMap :: "ScaleRevision \<Rightarrow> KubeObj" where
  "datadogConfigMap p = object (named (scr_Namespace p) (''dd-cfg-'' @ scr_Tag p) (Some (scr_Labels p)))
     (ConfigMapBody (DataMap [(''datadogNamespace'', ''datadog''),
        (''datadogMetricsService'', ''datadog-cluster-agent-metrics-server''),
        (''authMode'', ''bearer''), (''unsafeSsl'', ''true'')]))"

definition triggerAuth :: "ScaleRevision \<Rightarrow> bool \<Rightarrow> KubeObj" where
  "triggerAuth p datadog = object (named (scr_Namespace p) (scr_Tag p) (Some (scr_Labels p)))
     (TriggerAuthenticationBody \<lparr>ta_PodIdentityProvider = ''aws-eks'',
        ta_ConfigMapTargetRef = (if \<not> datadog then [] else
          map (\<lambda>k. \<lparr>at_Parameter = k, at_Name = ''dd-cfg-'' @ scr_Tag p, at_Key = k\<rparr>)
            [''datadogNamespace'', ''authMode'', ''datadogMetricsService'', ''unsafeSsl'']),
        ta_SecretTargetRef = (if \<not> datadog then [] else
          [\<lparr>at_Parameter = ''token'', at_Name = ''service-account-token'', at_Key = ''token''\<rparr>])\<rparr>)"

definition applyKedaTriggerAuth :: "'c Client \<Rightarrow> ScaleRevision \<Rightarrow> KedaScaleInfo \<Rightarrow> 'c step" where
  "applyKedaTriggerAuth cli p keda =
     (let hasDatadogTrigger = list_ex (\<lambda>t. str_Type t = ''datadog'') (ks_Triggers keda) in
      if \<not> hasDatadogTrigger then CreateOrUpdate cli (triggerAuth p False)
      else then_do (CreateOrUpdate cli (datadogConfigMap p)) (CreateOrUpdate cli (triggerAuth p True)))"

definition ScaleRevision_Apply :: "'c Client \<Rightarrow> Cluster \<Rightarrow> ScaleRevision \<Rightarrow> 'c step" where
  "ScaleRevision_Apply cli cluster p =
     (let mx = (if scr_Min p > scr_Max p then scr_Min p else scr_Max p) in
      case scalingFactor_of cluster of
        None \<Rightarrow> fails (Errorf ''cluster scalingFactor can't be nil'')
      | Some factor \<Rightarrow>
          (let disabled = (cs_DisableEventDriven (cl_Spec cluster) \<and> scr_EventDriven p);
               factor = (if disabled \<and> scr_Worker p \<noteq> None then 0 else factor);
               scaledMin = scaled (scr_Min p) factor;
               scaledMax = scaled mx factor
           in case scr_Worker p of
                Some worker \<Rightarrow> applyWPA cli p worker scaledMin scaledMax
              | None \<Rightarrow>
                  (case scr_KedaWorker p of
                     Some keda \<Rightarrow> then_do (applyKedaTriggerAuth cli p keda)
                       (applyKeda cli cluster p keda scaledMin scaledMax disabled)
                   | None \<Rightarrow>
                       (case scr_RequestsRateTarget p of
                          Some rate \<Rightarrow>
                            if scr_AmbientMesh p \<and> scr_PrometheusAddress p \<noteq> []
                            then then_do (total (DeleteIfExists cli (hpa_key p)))
                              (applyAmbientKeda cli p rate scaledMin scaledMax disabled)
                            else if disabled then deleteHPA cli p
                            else applyHPA cli p scaledMin scaledMax
                        | None \<Rightarrow>
                            if disabled then deleteHPA cli p
                            else applyHPA cli p scaledMin scaledMax))))"

section \<open>Retiring and deleting a revision\<close>

text \<open>A deletion that forgives a missing kind as well as a missing object.\<close>

definition delete_tolerant :: "'c Client \<Rightarrow> Kind \<Rightarrow> string \<Rightarrow> string \<Rightarrow> 'c step" where
  "delete_tolerant cli kind namespace name c =
     (case k_Delete cli \<lparr>key_Kind = kind, key_Namespace = namespace, key_Name = name\<rparr> c of
        (None, c') \<Rightarrow> ok c'
      | (Some e, c') \<Rightarrow> if e = NoKindMatch \<or> e = NotFound then ok c' else fails e c')"

definition deleteWPA :: "'c Client \<Rightarrow> string \<Rightarrow> string \<Rightarrow> 'c step" where
  "deleteWPA cli = delete_tolerant cli KWPA"

definition deleteKEDA :: "'c Client \<Rightarrow> string \<Rightarrow> string \<Rightarrow> 'c step" where
  "deleteKEDA cli = delete_tolerant cli KScaledObject"

definition deleteAuthKEDA :: "'c Client \<Rightarrow> string \<Rightarrow> string \<Rightarrow> 'c step" where
  "deleteAuthKEDA cli = delete_tolerant cli KTriggerAuthentication"

text \<open>The replica set loses its pods; \<^verbatim>\<open>*rs.Spec.Replicas\<close> panics when it is nil.\<close>

definition scale_to_zero :: "'c Client \<Rightarrow> RetireRevision \<Rightarrow> 'c step" where
  "scale_to_zero cli p c =
     (case k_Get cli \<lparr>key_Kind = KReplicaSet, key_Namespace = rrv_Namespace p, key_Name = rrv_Tag p\<rparr> c of
        Inl e \<Rightarrow> if e \<noteq> NotFound then fails e c else ok c
      | Inr rs \<Rightarrow>
          (case ko_Body rs of
             ReplicaSetBody s \<Rightarrow>
               (case rset_Replicas s of
                  None \<Rightarrow> None
                | Some n \<Rightarrow> if n \<noteq> 0
                    then total (k_Update cli (set_body (ReplicaSetBody (s\<lparr>rset_Replicas := Some 0\<rparr>)) rs)) c
                    else ok c)
           | _ \<Rightarrow> ok c))"

definition RetireRevision_Apply :: "'c Client \<Rightarrow> RetireRevision \<Rightarrow> 'c step" where
  "RetireRevision_Apply cli p =
     then_do (deleteWPA cli (rrv_Namespace p) (rrv_Tag p))
     (then_do (deleteKEDA cli (rrv_Namespace p) (rrv_Tag p))
     (then_do (deleteAuthKEDA cli (rrv_Namespace p) (rrv_Tag p)) (scale_to_zero cli p)))"

text \<open>The lists of \<^verbatim>\<open>wrappers.go\<close>, in the order \<^verbatim>\<open>DeleteRevision\<close> goes through them.\<close>

definition revision_kinds :: "Kind list" where
  "revision_kinds = [KSecret, KConfigMap, KReplicaSet, KHPA, KWPA, KScaledObject, KTriggerAuthentication,
     KExternalSecret, KDatadogMetric]"

definition delete_item :: "'c Client \<Rightarrow> KubeObj \<Rightarrow> 'c step" where
  "delete_item cli item = total (k_Delete cli (key_of item))"

definition delete_kind :: "'c Client \<Rightarrow> string \<Rightarrow> strmap \<Rightarrow> Kind \<Rightarrow> 'c step" where
  "delete_kind cli namespace labels kind c = (case k_List cli kind namespace labels c of
     Inl e \<Rightarrow> if e = NoKindMatch then ok c else fails e c
   | Inr items \<Rightarrow> each (delete_item cli) items c)"

definition DeleteRevision_Apply :: "'c Client \<Rightarrow> DeleteRevision \<Rightarrow> 'c step" where
  "DeleteRevision_Apply cli p = each (delete_kind cli (drv_Namespace p) (drv_Labels p)) revision_kinds"

section \<open>Labels of the pods\<close>

lemma mget_copy: "distinct (map fst m) \<Longrightarrow> map_of (copy_into m []) k = map_of m k"
  by (simp add: map_of_copy_into split: option.splits)

lemma distinct_copy_into: "distinct (map fst dst) \<Longrightarrow> distinct (map fst (copy_into src dst))"
  by (induction src arbitrary: dst) (auto simp: copy_into_def)

lemma distinct_pod_labels: "distinct (map fst (pod_labels p))"
  by (simp add: pod_labels_def distinct_copy_into)

lemma map_of_template_labels:
  assumes "distinct (map fst podLabels)" "k \<noteq> labelPodTTL"
  shows "map_of (template_labels p podLabels) k = map_of podLabels k"
  using assms by (simp add: template_labels_def Let_def mget_copy)

text \<open>The selector of the replica set selects its own pods.\<close>

lemma selector_in_template:
  assumes "map_of (srv_Labels p) labelPodTTL = None" "distinct (map fst (srv_Labels p))"
  shows "list_all (\<lambda>(k, v). map_of (template_labels p (pod_labels p)) k = Some v) (rs_selector (pod_labels p))"
proof -
  have "map_of (template_labels p (pod_labels p)) k = Some v" if "(k, v) \<in> set (rs_selector (pod_labels p))" for k v
  proof -
    from that have kv: "(k, v) \<in> set (pod_labels p)" by (auto simp: rs_selector_def)
    have v: "map_of (pod_labels p) k = Some v"
      using kv distinct_pod_labels [of p] by (simp only: map_of_eq_Some_iff)
    have "map_of (pod_labels p) labelPodTTL = None"
      using assms by (simp add: pod_labels_def map_of_copy_into labelPodTTL_def labelDestinationTag_def)
    with v have "k \<noteq> labelPodTTL" by auto
    from map_of_template_labels [OF distinct_pod_labels this] v show ?thesis by simp
  qed
  then show ?thesis by (auto simp: list_all_iff)
qed

text \<open>The tag the destination rule's subset selects on is on the pods.\<close>

lemma destination_tag:
  assumes "map_of (srv_Labels p) labelDestinationTag = None" "distinct (map fst (srv_Labels p))"
  shows "map_of (template_labels p (pod_labels p)) labelDestinationTag = Some (srv_Tag p)"
proof -
  have "labelDestinationTag \<noteq> labelPodTTL" by (simp add: labelDestinationTag_def labelPodTTL_def)
  from map_of_template_labels [OF distinct_pod_labels this] show ?thesis
    using assms by (simp add: pod_labels_def map_of_copy_into)
qed

section \<open>Scaling is monotone\<close>

lemma scaled_mono:
  assumes "0 \<le> a" "a \<le> b" "b < 2 ^ 31" "0 \<le> f" "math_Ceil (fmul (float_of_int b) f) < 2 ^ 31"
  shows "0 \<le> scaled a f \<and> scaled a f \<le> scaled b f"
proof -
  let ?A = "math_Ceil (fmul (float_of_int a) f)" and ?B = "math_Ceil (fmul (float_of_int b) f)"
  have "fmul (float_of_int a) f \<le> fmul (float_of_int b) f"
    using assms by (intro fmul_mono) simp_all
  then have le: "?A \<le> ?B" by (rule math_Ceil_mono)
  have nn: "0 \<le> ?A" using assms by (intro math_Ceil_nonneg fmul_nonneg) simp_all
  show ?thesis using le nn assms(5) by (simp add: scaled_def int32_of_float_def)
qed

lemma scaled_zero [simp]: "scaled n 0 = 0"
  by (simp add: scaled_def fmul_def fl_def math_Ceil_def int32_of_float_def)

section \<open>What syncing a revision achieves\<close>

lemma only_writes_Update:
  assumes "documented cli store" "key_of obj \<in> ks"
  shows "only_writes store ks (total (k_Update cli obj))"
proof (unfold only_writes_def, intro allI impI)
  fix c err c' k
  assume run: "total (k_Update cli obj) c = Some (err, c')" and k: "k \<notin> ks"
  from Update_cases [OF assms(1), where obj = obj and c = c] run k assms(2) show "store c' k = store c k"
    by (auto simp: total_def split: prod.splits option.splits)
qed

definition pod_kinds :: "Key set" where
  "pod_kinds = {k. key_Kind k \<in> {KServiceAccount, KPDB, KSecret, KConfigMap, KExternalSecret}}"

lemma only_writes_patch:
  assumes "documented cli store"
  shows "only_writes store pod_kinds (patchServiceAccount cli p)"
proof (unfold only_writes_def, intro allI impI)
  fix c err c' k
  assume run: "patchServiceAccount cli p c = Some (err, c')" and k: "k \<notin> pod_kinds"
  show "store c' k = store c k"
  proof (cases "k_Get cli \<lparr>key_Kind = KServiceAccount, key_Namespace = srv_Namespace p, key_Name = srv_App p\<rparr> c")
    case (Inl e)
    with run show ?thesis by (simp add: patchServiceAccount_def fails_def)
  next
    case (Inr sa)
    from Get_key [OF assms this] have "key_of (set_annotations as sa) \<in> pod_kinds" for as
      by (simp add: pod_kinds_def)
    from only_writesD [OF only_writes_Update [OF assms this] _ k]
    show ?thesis using run Inr
      by (auto simp: patchServiceAccount_def Let_def ok_def split: if_splits)
  qed
qed

lemma kind_of_config: "kind_of (ko_Body (object_of_config p config)) \<in> {KSecret, KConfigMap}"
  by (simp add: object_of_config_def split: ConfigKind.split)

lemma key_to_pod_kinds: "kind_of (ko_Body typed) \<in> {KServiceAccount, KPDB, KSecret, KConfigMap, KExternalSecret} \<Longrightarrow>
    key_to typed \<in> pod_kinds"
  by (simp add: pod_kinds_def kind_key_to)

definition effective_factor :: "Cluster \<Rightarrow> SyncRevision \<Rightarrow> float64 \<Rightarrow> float64" where
  "effective_factor cluster p factor =
     (if cs_DisableEventDriven (cl_Spec cluster) \<and> srv_EventDriven p then 0 else factor)"

text \<open>The last step of the plan is the replica set, with everything else but the pods' needs as it was.\<close>

lemma SyncRevision_last:
  assumes "documented cli store" "SyncRevision_Apply cli cluster p c = Some (None, c')"
  shows "\<exists>factor c1. scalingFactor_of cluster = Some factor \<and>
    (\<forall>k. k \<notin> pod_kinds \<longrightarrow> store c1 k = store c k) \<and>
    CreateOrUpdate cli (replicaSet_of p (effective_factor cluster p factor) (pod_labels p) (pod_envs p)) c1 =
      Some (None, c')"
proof -
  let ?prefix = "then_do (patchServiceAccount cli p)
     (then_do (syncPodDisruptionBudget cli p)
     (then_do (each (\<lambda>config. CreateOrUpdate cli (object_of_config p config)) (srv_Configs p))
       (each (\<lambda>xs. CreateOrUpdate cli (object_of_external p xs)) (srv_ExternalSecrets p))))"
  let ?last = "case scalingFactor_of cluster of
      None \<Rightarrow> fails (Errorf ''cluster scalingFactor is nil'')
    | Some factor \<Rightarrow> syncReplicaSet cli p (effective_factor cluster p factor) (pod_labels p) (pod_envs p)"
  have "SyncRevision_Apply cli cluster p = then_do ?prefix ?last"
    by (simp add: SyncRevision_Apply_def effective_factor_def then_do_assoc cong: option.case_cong)
  with assms(2) obtain c1 where c1: "?prefix c = Some (None, c1)" and last: "?last c1 = Some (None, c')"
    by (auto simp: then_do_success)
  have config: "only_writes store pod_kinds (CreateOrUpdate cli (object_of_config p config))" for config
    using kind_of_config [of p config]
    by (intro only_writes_CreateOrUpdate [OF assms(1)] key_to_pod_kinds) auto
  have external: "only_writes store pod_kinds (CreateOrUpdate cli (object_of_external p xs))" for xs
    by (intro only_writes_CreateOrUpdate [OF assms(1)] key_to_pod_kinds) (simp add: object_of_external_def)
  have pdb: "only_writes store pod_kinds (syncPodDisruptionBudget cli p)"
    unfolding syncPodDisruptionBudget_def
    by (intro only_writes_CreateOrUpdate [OF assms(1)] key_to_pod_kinds)
      (simp add: podDisruptionBudget_def Let_def)
  have "only_writes store pod_kinds ?prefix"
    by (intro only_writes_then only_writes_each only_writes_patch [OF assms(1)] pdb config external)
  from only_writesD [OF this c1] last show ?thesis
    by (cases "scalingFactor_of cluster") (auto simp: fails_def syncReplicaSet_def)
qed

definition revision_key :: "string \<Rightarrow> string \<Rightarrow> Key" where
  "revision_key namespace tag = \<lparr>key_Kind = KReplicaSet, key_Namespace = namespace, key_Name = tag\<rparr>"

lemma revision_key_kind: "revision_key ns tag \<notin> pod_kinds"
  by (simp add: pod_kinds_def revision_key_def)

lemma key_replicaSet [simp]:
  "key_of (replicaSet_of p f ls es) = revision_key (srv_Namespace p) (srv_Tag p)"
  "key_to (replicaSet_of p f ls es) = revision_key (srv_Namespace p) (srv_Tag p)"
  by (simp_all add: replicaSet_of_def key_to_def revision_key_def)

definition worker_scaled :: "SyncRevision \<Rightarrow> bool" where
  "worker_scaled p \<longleftrightarrow> srv_Worker p \<noteq> None"

lemma mget_autoscaler:
  "mget (annotations_of (replicaSet_of p f ls es)) AnnotationAutoscaler = AutoscalerTypeWPA \<longleftrightarrow> worker_scaled p"
  by (simp add: replicaSet_of_def rs_annotations_def Let_def mget_def autoScaler_def worker_scaled_def
    AutoscalerTypeWPA_def AutoscalerTypeKEDA_def AutoscalerTypeHPA_def AnnotationAutoscaler_def AnnotationIAMRole_def)

text \<open>A revision new to the cluster gets the plan's replica set, but for the seconds it waits.\<close>

lemma new_replicaSet:
  assumes "documented cli store" "SyncRevision_Apply cli cluster p c = Some (None, c')"
    and "store c (revision_key (srv_Namespace p) (srv_Tag p)) = None"
  shows "\<exists>factor obj. scalingFactor_of cluster = Some factor \<and>
    store c' (revision_key (srv_Namespace p) (srv_Tag p)) = Some obj \<and> labels_of obj = Some (srv_Labels p) \<and>
    ko_Body obj = ReplicaSetBody
      \<lparr>rset_Replicas = (if worker_scaled p then None
          else Some (scaled (srv_Replicas p) (effective_factor cluster p factor))),
       rset_Selector = Some (rs_selector (pod_labels p)),
       rset_Template = pod_template p (pod_labels p) (pod_envs p),
       rset_MinReadySeconds = 0\<rparr>"
proof -
  from SyncRevision_last [OF assms(1,2)] obtain factor c1 where factor: "scalingFactor_of cluster = Some factor"
    and c1: "\<And>k. k \<notin> pod_kinds \<Longrightarrow> store c1 k = store c k"
    and run: "CreateOrUpdate cli (replicaSet_of p (effective_factor cluster p factor) (pod_labels p) (pod_envs p)) c1
      = Some (None, c')" by blast
  let ?rs = "replicaSet_of p (effective_factor cluster p factor) (pod_labels p) (pod_envs p)"
  have none: "store c1 (revision_key (srv_Namespace p) (srv_Tag p)) = None"
    using c1 [OF revision_key_kind] assms(3) by simp
  from CreateOrUpdate_ok [OF assms(1) run] obtain obj f new where f: "cases_of ?rs = Some (obj, f)"
    and new: "f (held (store c1) obj) = Some new"
      "store c' = (store c1)(revision_key (srv_Namespace p) (srv_Tag p) \<mapsto> new)" by auto
  have "held (store c1) obj = obj"
    using cases_of_key [OF f] none by (simp add: held_def)
  moreover have "\<exists>t. ko_Body ?rs = ReplicaSetBody t \<and> f = unless_ignored (mutate_ReplicaSet t ?rs) \<and>
      obj = fresh ?rs None (annotations_of ?rs)"
    using f by (auto simp: cases_of_def case_ReplicaSet_def replicaSet_of_def)
  ultimately show ?thesis using new mget_autoscaler [of p]
    by (intro exI [of _ factor] exI [of _ new])
      (auto simp: factor unless_ignored_def isIgnored_def fresh_def mutate_ReplicaSet_def replicaSet_of_def
        zero_ReplicaSetSpec_def sync_replicas_def sync_template_def Let_def split: if_splits)
qed

lemma existing_replicaSet:
  assumes "documented cli store" "SyncRevision_Apply cli cluster p c = Some (None, c')"
    and "store c (revision_key (srv_Namespace p) (srv_Tag p)) = Some cur" "ko_Body cur = ReplicaSetBody s"
    and "\<not> isIgnored (ko_Meta cur)"
  shows "\<exists>factor obj t. scalingFactor_of cluster = Some factor \<and>
    store c' (revision_key (srv_Namespace p) (srv_Tag p)) = Some obj \<and> ko_Body obj = ReplicaSetBody t \<and>
    sync_replicas (worker_scaled p) (Some (scaled (srv_Replicas p) (effective_factor cluster p factor)))
      (rset_Replicas s) = Some (rset_Replicas t) \<and>
    rset_Template t = sync_template (pod_template p (pod_labels p) (pod_envs p)) (rset_Template s) \<and>
    rset_MinReadySeconds t = rset_MinReadySeconds s"
proof -
  from SyncRevision_last [OF assms(1,2)] obtain factor c1 where factor: "scalingFactor_of cluster = Some factor"
    and c1: "\<And>k. k \<notin> pod_kinds \<Longrightarrow> store c1 k = store c k"
    and run: "CreateOrUpdate cli (replicaSet_of p (effective_factor cluster p factor) (pod_labels p) (pod_envs p)) c1
      = Some (None, c')" by blast
  let ?f = "effective_factor cluster p factor"
  let ?rs = "replicaSet_of p ?f (pod_labels p) (pod_envs p)"
  let ?t = "\<lparr>rset_Replicas = Some (scaled (srv_Replicas p) ?f), rset_Selector = Some (rs_selector (pod_labels p)),
     rset_Template = pod_template p (pod_labels p) (pod_envs p), rset_MinReadySeconds = srv_MinReadySeconds p\<rparr>"
  have body: "ko_Body ?rs = ReplicaSetBody ?t" by (simp add: replicaSet_of_def)
  have there: "store c1 (key_of ?rs) = Some cur"
    using c1 [OF revision_key_kind] assms(3) by simp
  from CreateOrUpdate_ReplicaSet [OF assms(1) body run there assms(4,5)] obtain replicas where
    "sync_replicas (worker_scaled p) (Some (scaled (srv_Replicas p) ?f)) (rset_Replicas s) = Some replicas"
    "store c' (key_of ?rs) = Some (set_labels (labels_of ?rs) (set_body (ReplicaSetBody
      (s\<lparr>rset_Replicas := replicas, rset_Template := sync_template (rset_Template ?t) (rset_Template s),
         rset_Selector := rset_Selector ?t\<rparr>)) cur))"
    by (auto simp: mget_autoscaler)
  then show ?thesis using factor by (intro exI conjI) (assumption | simp)+
qed

section \<open>What scaling a revision achieves\<close>

text \<open>
  The abstract specification of \<^verbatim>\<open>ScaleRevision\<close>: the one autoscaler the revision is to have in the cluster,
  if any.
\<close>

definition wanted_autoscaler :: "ScaleRevision \<Rightarrow> Cluster \<Rightarrow> float64 \<Rightarrow> KubeObj option" where
  "wanted_autoscaler p cluster factor = (let
       disabled = (cs_DisableEventDriven (cl_Spec cluster) \<and> scr_EventDriven p);
       factor = (if disabled \<and> scr_Worker p \<noteq> None then 0 else factor);
       mn = scaled (scr_Min p) factor;
       mx = scaled (max (scr_Min p) (scr_Max p)) factor
     in case (scr_Worker p, scr_KedaWorker p, scr_RequestsRateTarget p) of
          (Some worker, _, _) \<Rightarrow> Some (wpa_of p worker mn mx)
        | (None, Some keda, _) \<Rightarrow> Some (keda_of p keda mn mx disabled)
        | (None, None, Some rate) \<Rightarrow>
            if scr_AmbientMesh p \<and> scr_PrometheusAddress p \<noteq> [] then Some (ambient_keda p rate mn mx disabled)
            else if disabled then None else Some (hpa_of p mn mx)
        | (None, None, None) \<Rightarrow> if disabled \<or> hpa_metrics p = [] then None else Some (hpa_of p mn mx))"

text \<open>The bounds an autoscaler works between, and whether it is paused at no replicas.\<close>

fun autoscaler_bounds :: "Body \<Rightarrow> (int32 \<times> int32) option" where
  "autoscaler_bounds (HPABody h) = (case hpa_MinReplicas h of None \<Rightarrow> None | Some mn \<Rightarrow> Some (mn, hpa_MaxReplicas h))"
| "autoscaler_bounds (WPABody w) = (case (wpa_MinReplicas w, wpa_MaxReplicas w) of
     (Some mn, Some mx) \<Rightarrow> Some (mn, mx) | _ \<Rightarrow> None)"
| "autoscaler_bounds (ScaledObjectBody k) = (case (sob_MinReplicaCount k, sob_MaxReplicaCount k) of
     (Some mn, Some mx) \<Rightarrow> Some (mn, mx) | _ \<Rightarrow> None)"
| "autoscaler_bounds _ = None"

definition paused_at_zero :: "KubeObj \<Rightarrow> bool" where
  "paused_at_zero obj \<longleftrightarrow> autoscaler_bounds (ko_Body obj) = Some (0, 0) \<or>
     mlookup (annotations_of obj) AnnotationPausedReplicas = Some ''0''"

lemma stable_autoscalers [simp]:
  "stable_template (wpa_of p w a b)" "stable_template (keda_of p k a b d)"
  "stable_template (ambient_keda p r a b d)" "stable_template (hpa_of p a b)"
  by (auto simp: stable_template_def wpa_of_def keda_of_def ambient_keda_def hpa_of_def
    kedaDisabledSettings_def)

lemma whole_autoscalers [simp]:
  "whole_spec (wpa_of p w a b)" "whole_spec (keda_of p k a b d)"
  "whole_spec (ambient_keda p r a b d)" "whole_spec (hpa_of p a b)"
  by (auto simp: whole_spec_def wpa_of_def keda_of_def ambient_keda_def hpa_of_def kedaDisabledSettings_def)

lemma ScaleRevision_realises:
  assumes "documented cli store" "ScaleRevision_Apply cli cluster p c = Some (None, c')"
  shows "\<exists>factor. scalingFactor_of cluster = Some factor \<and>
    (case wanted_autoscaler p cluster factor of
       Some obj \<Rightarrow> realised (store c') obj
     | None \<Rightarrow> store c' (hpa_key p) = None)"
proof -
  from assms(2) obtain factor where factor: "scalingFactor_of cluster = Some factor"
    by (cases "scalingFactor_of cluster") (auto simp: ScaleRevision_Apply_def fails_def Let_def)
  have written: "realised (store c2) obj" if "CreateOrUpdate cli obj c1 = Some (None, c2)" "stable_template obj" for obj c1 c2
    using CreateOrUpdate_realises [OF assms(1) that(2,1)] by blast
  have gone: "store c2 (hpa_key p) = None" if "total (DeleteIfExists cli (hpa_key p)) c1 = Some (None, c2)" for c1 c2
    using total_DeleteIfExists_success [OF assms(1) that] by simp
  have mx: "(if scr_Min p > scr_Max p then scr_Min p else scr_Max p) = max (scr_Min p) (scr_Max p)"
    by (simp add: max_def)
  have met: "hpa_metrics p \<noteq> []" if "scr_RequestsRateTarget p = Some r" for r
    using that by (simp add: hpa_metrics_def)
  show ?thesis
    using assms(2) factor
    by (intro exI [of _ factor])
      (auto simp: ScaleRevision_Apply_def wanted_autoscaler_def mx Let_def applyWPA_def applyKeda_def
        applyAmbientKeda_def applyHPA_def deleteHPA_def then_do_success met
        intro: written gone split: option.splits if_splits)
qed

section \<open>What retiring and deleting achieve\<close>

lemma delete_tolerant_success:
  assumes "documented cli store" "delete_tolerant cli kind ns n c = Some (None, c')"
  shows "store c' = (store c)(\<lparr>key_Kind = kind, key_Namespace = ns, key_Name = n\<rparr> := None)"
  using Delete_cases [OF assms(1), where k = "\<lparr>key_Kind = kind, key_Namespace = ns, key_Name = n\<rparr>" and c = c] assms(2)
  by (auto simp: delete_tolerant_def ok_def fails_def fun_upd_idem split: prod.splits option.splits if_splits)

lemma scale_to_zero_success:
  assumes "documented cli store" "scale_to_zero cli p c = Some (None, c')"
  shows "replicas_at (store c') (revision_key (rrv_Namespace p) (rrv_Tag p)) \<in> {None, Some 0} \<and>
    (\<forall>k. k \<noteq> revision_key (rrv_Namespace p) (rrv_Tag p) \<longrightarrow> store c' k = store c k)"
proof (cases "k_Get cli (revision_key (rrv_Namespace p) (rrv_Tag p)) c")
  case (Inl e)
  with assms(2) have "e = NotFound" "c' = c"
    by (auto simp: scale_to_zero_def revision_key_def ok_def fails_def split: if_splits)
  with Get_missing [OF assms(1)] Inl show ?thesis by (simp add: replicas_at_def)
next
  case (Inr rs)
  note key = Get_key [OF assms(1) Inr]
  show ?thesis
  proof (cases "\<exists>s. ko_Body rs = ReplicaSetBody s \<and> rset_Replicas s \<noteq> Some 0")
    case True
    then obtain s where s: "ko_Body rs = ReplicaSetBody s" "rset_Replicas s \<noteq> Some 0" by blast
    let ?new = "set_body (ReplicaSetBody (s\<lparr>rset_Replicas := Some 0\<rparr>)) rs"
    have k: "key_of ?new = revision_key (rrv_Namespace p) (rrv_Tag p)" using key(2) s(1) by simp
    from s assms(2) Inr have "total (k_Update cli ?new) c = Some (None, c')"
      by (auto simp: scale_to_zero_def revision_key_def ok_def split: option.splits if_splits)
    with Update_cases [OF assms(1), where obj = ?new and c = c] have "store c' = (store c)(revision_key (rrv_Namespace p) (rrv_Tag p) \<mapsto> ?new)"
      by (simp add: total_def k)
    then show ?thesis by (simp add: replicas_at_def)
  next
    case False
    with assms(2) Inr have "c' = c"
      by (auto simp: scale_to_zero_def revision_key_def ok_def split: option.splits if_splits Body.splits)
    with False key(1) show ?thesis by (auto simp: replicas_at_def split: Body.splits)
  qed
qed

lemma RetireRevision_success:
  assumes "documented cli store" "RetireRevision_Apply cli p c = Some (None, c')"
  shows "replicas_at (store c') (revision_key (rrv_Namespace p) (rrv_Tag p)) \<in> {None, Some 0} \<and>
    list_all (\<lambda>kind. store c' \<lparr>key_Kind = kind, key_Namespace = rrv_Namespace p, key_Name = rrv_Tag p\<rparr> = None)
      [KWPA, KScaledObject, KTriggerAuthentication] \<and>
    (\<forall>k. key_Namespace k \<noteq> rrv_Namespace p \<or> key_Name k \<noteq> rrv_Tag p \<or>
       key_Kind k \<notin> {KWPA, KScaledObject, KTriggerAuthentication, KReplicaSet} \<longrightarrow> store c' k = store c k)"
proof -
  from assms(2) obtain c1 c2 c3 where steps:
    "delete_tolerant cli KWPA (rrv_Namespace p) (rrv_Tag p) c = Some (None, c1)"
    "delete_tolerant cli KScaledObject (rrv_Namespace p) (rrv_Tag p) c1 = Some (None, c2)"
    "delete_tolerant cli KTriggerAuthentication (rrv_Namespace p) (rrv_Tag p) c2 = Some (None, c3)"
    "scale_to_zero cli p c3 = Some (None, c')"
    by (auto simp: RetireRevision_Apply_def deleteWPA_def deleteKEDA_def deleteAuthKEDA_def then_do_success)
  note d = steps(1-3) [THEN delete_tolerant_success [OF assms(1)]]
  from scale_to_zero_success [OF assms(1) steps(4)]
  have zero: "replicas_at (store c') (revision_key (rrv_Namespace p) (rrv_Tag p)) \<in> {None, Some 0}"
    and keep: "\<And>k. k \<noteq> revision_key (rrv_Namespace p) (rrv_Tag p) \<Longrightarrow> store c' k = store c3 k" by auto
  have gone: "store c' \<lparr>key_Kind = kind, key_Namespace = rrv_Namespace p, key_Name = rrv_Tag p\<rparr> = None"
    if "kind \<in> {KWPA, KScaledObject, KTriggerAuthentication}" for kind
    using that by (subst keep) (auto simp: d revision_key_def)
  have "store c' k = store c k" if "key_Namespace k \<noteq> rrv_Namespace p \<or> key_Name k \<noteq> rrv_Tag p \<or>
       key_Kind k \<notin> {KWPA, KScaledObject, KTriggerAuthentication, KReplicaSet}" for k
  proof -
    have "k \<noteq> \<lparr>key_Kind = kind, key_Namespace = rrv_Namespace p, key_Name = rrv_Tag p\<rparr>"
      if "kind \<in> {KWPA, KScaledObject, KTriggerAuthentication, KReplicaSet}" for kind
      using that \<open>key_Namespace k \<noteq> rrv_Namespace p \<or> _\<close> by auto
    then show ?thesis by (subst keep) (simp_all add: d revision_key_def)
  qed
  with zero gone show ?thesis by simp
qed

lemma delete_kind_success:
  assumes "documented cli store" "delete_kind cli ns labels kind c = Some (None, c')"
  shows "store c' = without (doomed kind ns labels) (store c)"
proof (cases "k_List cli kind ns labels c")
  case (Inl e)
  with assms(2) have "e = NoKindMatch" "c' = c"
    by (auto simp: delete_kind_def ok_def fails_def split: if_splits)
  with list_missing_kind [OF assms(1)] Inl show ?thesis by simp
next
  case (Inr items)
  with assms(2) have "each (delete_item cli) items c = Some (None, c')" by (simp add: delete_kind_def)
  from each_deletes [where store = store and key = key_of, OF _ this]
  have "store c' = (\<lambda>k. if k \<in> key_of ` set items then None else store c k)"
    using Delete_success [OF assms(1)] unfolding delete_item_def by blast
  with listed_keys [OF assms(1) Inr] show ?thesis by simp
qed

lemma delete_kinds_success:
  assumes "documented cli store" "each (delete_kind cli ns labels) kinds c = Some (None, c')"
  shows "store c' = without (\<lambda>k obj. \<exists>kind \<in> set kinds. doomed kind ns labels k obj) (store c)"
  using assms(2)
proof (induction kinds arbitrary: c)
  case Nil
  then show ?case by (simp add: ok_def without_none)
next
  case (Cons kind kinds)
  then obtain c1 where c1: "delete_kind cli ns labels kind c = Some (None, c1)"
    and rest: "each (delete_kind cli ns labels) kinds c1 = Some (None, c')" by (auto simp: then_do_success)
  from Cons.IH [OF rest] delete_kind_success [OF assms(1) c1] show ?case
    by (auto simp: without_without disj_commute intro: arg_cong [where f = "\<lambda>P. without P (store c)"])
qed

end
