(* ===== verification/Ensure_Plans.thy ===== *)
theory Ensure_Plans
  imports Create_Or_Update Go_Text
begin

text \<open>
  What an application has in a cluster whatever its revisions: its namespace (\<^verbatim>\<open>ensureNamespace.go\<close>,
  \<^verbatim>\<open>deleteApp.go\<close>), its service account and role (\<^verbatim>\<open>ensureServiceAccount.go\<close>, \<^verbatim>\<open>ensure_rbac.go\<close>), and the
  waypoint proxy of the ambient mesh with its options, autoscaler and disruption budget
  (\<^verbatim>\<open>ensureWaypoint.go\<close>, \<^verbatim>\<open>ensureWaypointHPA.go\<close>, \<^verbatim>\<open>ensureWaypointPDB.go\<close>), all of
  \<^verbatim>\<open>src/controllers/plan\<close>.

  A resource quantity is its canonical text; whether it is zero is \<open>isZero\<close>, a call of \<^verbatim>\<open>resource.Quantity\<close>.
\<close>

section \<open>Namespaces\<close>

definition IstioInjectionLabelName :: string where "IstioInjectionLabelName = ''istio-injection''"
definition IstioDataplaneModeLabel :: string where "IstioDataplaneModeLabel = ''istio.io/dataplane-mode''"
definition IstioDataplaneModeAmbient :: string where "IstioDataplaneModeAmbient = ''ambient''"
definition IstioUseWaypointLabel :: string where "IstioUseWaypointLabel = ''istio.io/use-waypoint''"

definition namespace_labels :: "EnsureNamespace \<Rightarrow> strmap" where
  "namespace_labels p = (let
       m = [(LabelOwnerType, ens_OwnerType p), (LabelOwnerName, ens_OwnerName p)]
     in if ens_AmbientMesh p
        then AList.update IstioUseWaypointLabel ''waypoint''
               (AList.update IstioDataplaneModeLabel IstioDataplaneModeAmbient m)
        else let m = AList.update IstioInjectionLabelName ''enabled'' m in
          if ens_TransitionToSidecar p then AList.update IstioDataplaneModeLabel IstioDataplaneModeAmbient m
          else m)"

definition namespace_of :: "EnsureNamespace \<Rightarrow> KubeObj" where
  "namespace_of p = object (named [] (ens_Name p) (Some (namespace_labels p))) NamespaceBody"

definition EnsureNamespace_Apply :: "'c Client \<Rightarrow> EnsureNamespace \<Rightarrow> 'c step" where
  "EnsureNamespace_Apply cli p = CreateOrUpdate cli (namespace_of p)"

definition namespace_key :: "string \<Rightarrow> Key" where
  "namespace_key n = \<lparr>key_Kind = KNamespace, key_Namespace = [], key_Name = n\<rparr>"

definition DeleteApp_Apply :: "'c Client \<Rightarrow> DeleteApp \<Rightarrow> 'c step" where
  "DeleteApp_Apply cli p = total (DeleteIfExists cli (namespace_key (dap_Namespace p)))"

section \<open>Accounts and roles\<close>

text \<open>The annotations the account has are kept: the plan writes back what it read.\<close>

definition service_token :: "EnsureServiceAccount \<Rightarrow> KubeObj" where
  "service_token p = object ((named (esa_Namespace p) ''service-account-token'' None)
       \<lparr>om_Annotations := Some [(''kubernetes.io/service-account.name'', esa_Name p)]\<rparr>)
     (SecretBody ''kubernetes.io/service-account-token'' (DataMap []))"

definition service_account :: "EnsureServiceAccount \<Rightarrow> strmap \<Rightarrow> KubeObj" where
  "service_account p annotations = object ((named (esa_Namespace p) (esa_Name p)
       (Some [(LabelOwnerType, esa_OwnerType p), (LabelOwnerName, esa_OwnerName p)]))
       \<lparr>om_Annotations := Some annotations\<rparr>)
     ServiceAccountBody"

definition EnsureServiceAccount_Apply :: "'c Client \<Rightarrow> EnsureServiceAccount \<Rightarrow> 'c step" where
  "EnsureServiceAccount_Apply cli p c = (let
       write = (\<lambda>annotations. then_do (CreateOrUpdate cli (service_token p))
         (CreateOrUpdate cli (service_account p annotations)) c)
     in case k_Get cli \<lparr>key_Kind = KServiceAccount, key_Namespace = esa_Namespace p, key_Name = esa_Name p\<rparr> c of
          Inl e \<Rightarrow> if e \<noteq> NotFound then fails e c else write []
        | Inr sa \<Rightarrow> write (case annotations_of sa of None \<Rightarrow> [] | Some as \<Rightarrow> copy_into as []))"

definition role_of :: "EnsureRBAC \<Rightarrow> KubeObj" where
  "role_of p = object (named (erb_Namespace p) (erb_Name p @ ''-external-metrics'')
       (Some [(LabelOwnerType, erb_OwnerType p), (LabelOwnerName, erb_OwnerName p)]))
     (RoleBody [\<lparr>po_APIGroups = [''external.metrics.k8s.io''], po_Resources = [''*''],
        po_Verbs = [''get'', ''list'', ''watch'']\<rparr>])"

definition roleBinding_of :: "EnsureRBAC \<Rightarrow> KubeObj" where
  "roleBinding_of p = object (named (erb_Namespace p) (erb_Name p @ ''-external-metrics-binding'')
       (Some [(LabelOwnerType, erb_OwnerType p), (LabelOwnerName, erb_OwnerName p)]))
     (RoleBindingBody [\<lparr>rb_Kind = ''ServiceAccount'', rb_Name = erb_ServiceAccountName p,
         rb_Namespace = erb_Namespace p\<rparr>]
       \<lparr>or_APIVersion = ''rbac.authorization.k8s.io'', or_Kind = ''Role'',
        or_Name = om_Name (ko_Meta (role_of p))\<rparr>)"

definition wrapped :: "string \<Rightarrow> 'c step \<Rightarrow> 'c step" where
  "wrapped msg f c = map_option (\<lambda>(err, c'). (map_option (Wrapf msg) err, c')) (f c)"

definition EnsureRBAC_Apply :: "'c Client \<Rightarrow> EnsureRBAC \<Rightarrow> 'c step" where
  "EnsureRBAC_Apply cli p =
     then_do (wrapped ''failed to create/update Role: '' (CreateOrUpdate cli (role_of p)))
       (wrapped ''failed to create/update RoleBinding: '' (CreateOrUpdate cli (roleBinding_of p)))"

section \<open>The waypoint's options\<close>

definition waypointOptionsConfigMap :: string where "waypointOptionsConfigMap = ''waypoint-options''"
definition ddUnifiedServiceTagsPlaceholder :: string where
  "ddUnifiedServiceTagsPlaceholder = ''__DD_UNIFIED_SERVICE_TAGS__''"

abbreviation quote :: char where "quote \<equiv> CHR 0x27"
abbreviation dquote :: char where "dquote \<equiv> CHR 0x22"
abbreviation newline :: char where "newline \<equiv> CHR 0x0A"

definition overlay_checks :: string where
  "overlay_checks = map (\<lambda>c. if c = CHR ''~'' then dquote else c)
     ''{~istio~:{~init_config~:{},~instances~:[{~use_openmetrics~:true,~istio_mode~:~ambient~,~waypoint_endpoint~:~http://%%host%%:15020/stats/prometheus~,~collect_histogram_buckets~:true}]}}''"

definition waypointDeploymentOverlayTemplate :: string where
  "waypointDeploymentOverlayTemplate = List.concat (map (\<lambda>line. line @ [newline])
     [''spec:'',
      ''  template:'',
      ''    metadata:'',
      ''      annotations:'',
      ''        ad.datadoghq.com/istio-proxy.checks: '' @ [quote] @ overlay_checks @ [quote],
      ''        ad.datadoghq.com/tags: '' @ [quote] @ ''__DD_UNIFIED_SERVICE_TAGS__'' @ [quote],
      ''    spec:'',
      ''      tolerations:'',
      ''        - key: waypoint'',
      ''          operator: Exists'',
      ''          effect: NoSchedule'',
      ''      affinity:'',
      ''        nodeAffinity:'',
      ''          requiredDuringSchedulingIgnoredDuringExecution:'',
      ''            nodeSelectorTerms:'',
      ''              - matchExpressions:'',
      ''                  - key: node.medium.engineering/role'',
      ''                    operator: In'',
      ''                    values:'',
      ''                      - waypoint''])"

text \<open>\<^verbatim>\<open>json.Marshal\<close> of a string of ASCII text, and \<^verbatim>\<open>strings.Replace(s, old, new, 1)\<close>.\<close>

definition hex_digit :: "nat \<Rightarrow> char" where
  "hex_digit n = ''0123456789abcdef'' ! n"

definition json_char :: "char \<Rightarrow> string" where
  "json_char c = (let n = (of_char c :: nat) in
     if c = dquote \<or> c = CHR 0x5C then [CHR 0x5C, c]
     else if n = 8 then [CHR 0x5C, CHR ''b''] else if n = 12 then [CHR 0x5C, CHR ''f'']
     else if n = 10 then [CHR 0x5C, CHR ''n''] else if n = 13 then [CHR 0x5C, CHR ''r'']
     else if n = 9 then [CHR 0x5C, CHR ''t'']
     else if n < 32 \<or> c \<in> {CHR ''<'', CHR ''>'', CHR ''&''}
     then CHR 0x5C # ''u00'' @ [hex_digit (n div 16), hex_digit (n mod 16)]
     else [c])"

definition json_string :: "string \<Rightarrow> string" where
  "json_string s = [dquote] @ List.concat (map json_char s) @ [dquote]"

fun strings_Replace1 :: "string \<Rightarrow> string \<Rightarrow> string \<Rightarrow> string" where
  "strings_Replace1 [] old new = (if old = [] then new else [])"
| "strings_Replace1 (c # s) old new =
     (if strings_HasPrefix (c # s) old then new @ drop (length old) (c # s)
      else c # strings_Replace1 s old new)"

text \<open>The resources, in the order of their names, zero ones left out.\<close>

definition writeResourceList :: "(string \<Rightarrow> bool) \<Rightarrow> string \<Rightarrow> strmap \<Rightarrow> string" where
  "writeResourceList isZero indent rl = List.concat (map (\<lambda>name.
     (let qty = mget (Some rl) name in
      if isZero qty then [] else indent @ name @ '': '' @ qty @ [newline])) (sort_Strings (map fst rl)))"

definition buildWaypointResourcesOverlay :: "(string \<Rightarrow> bool) \<Rightarrow> ResourceRequirements \<Rightarrow> string" where
  "buildWaypointResourcesOverlay isZero r =
     ''      containers:'' @ [newline] @ ''      - name: istio-proxy'' @ [newline] @
     ''        resources:'' @ [newline] @
     (if rr_Requests r \<noteq> [] then ''          requests:'' @ [newline] @
        writeResourceList isZero ''            '' (rr_Requests r) else []) @
     (if rr_Limits r \<noteq> [] then ''          limits:'' @ [newline] @
        writeResourceList isZero ''            '' (rr_Limits r) else [])"

definition waypointResourcesEmpty :: "ResourceRequirements \<Rightarrow> bool" where
  "waypointResourcesEmpty r \<longleftrightarrow> rr_Requests r = [] \<and> rr_Limits r = []"

definition buildWaypointDeploymentOverlay ::
  "(string \<Rightarrow> bool) \<Rightarrow> string \<Rightarrow> string \<Rightarrow> ResourceRequirements option \<Rightarrow> string" where
  "buildWaypointDeploymentOverlay isZero app env resources = (let
       tags = ''{'' @ json_string ''env'' @ '':'' @ json_string env @ '','' @ json_string ''service'' @ '':'' @
              json_string app @ ''}'';
       base = strings_Replace1 waypointDeploymentOverlayTemplate ddUnifiedServiceTagsPlaceholder tags
     in case resources of
          None \<Rightarrow> base
        | Some r \<Rightarrow> if waypointResourcesEmpty r then base else base @ buildWaypointResourcesOverlay isZero r)"

definition waypoint_options :: "(string \<Rightarrow> bool) \<Rightarrow> EnsureWaypointOptions \<Rightarrow> KubeObj" where
  "waypoint_options isZero p = object (named (ewo_Namespace p) waypointOptionsConfigMap None)
     (ConfigMapBody (DataMap [(''deployment'',
        buildWaypointDeploymentOverlay isZero (ewo_App p) (ewo_Env p) (ewo_Resources p))]))"

definition EnsureWaypointOptions_Apply ::
  "(string \<Rightarrow> bool) \<Rightarrow> 'c Client \<Rightarrow> EnsureWaypointOptions \<Rightarrow> 'c step" where
  "EnsureWaypointOptions_Apply isZero cli p = CreateOrUpdate cli (waypoint_options isZero p)"

definition DeleteWaypointOptions_Apply :: "'c Client \<Rightarrow> string \<Rightarrow> 'c step" where
  "DeleteWaypointOptions_Apply cli ns = total (DeleteIfExists cli
     \<lparr>key_Kind = KConfigMap, key_Namespace = ns, key_Name = waypointOptionsConfigMap\<rparr>)"

section \<open>The waypoint\<close>

definition waypointGatewayName :: string where "waypointGatewayName = ''waypoint''"
definition waypointLabelKey :: string where "waypointLabelKey = ''istio.io/waypoint-for''"
definition waypointLabelValue :: string where "waypointLabelValue = ''all''"
definition gatewayListenerPort :: int64 where "gatewayListenerPort = 15008"
definition gatewayListenerProto :: string where "gatewayListenerProto = ''HBONE''"

text \<open>
  Reading decoded JSON: a missing key, or a key of what is not a map, reads as nil. Comparing two
  interfaces is comparing type and value; it would panic on two maps, but one side is always the text of
  the wanted specification.
\<close>

fun as_map :: "json \<Rightarrow> (string \<times> json) list option" where
  "as_map (JMap m) = Some m"
| "as_map _ = None"

fun as_list :: "json \<Rightarrow> json list option" where
  "as_list (JList l) = Some l"
| "as_list _ = None"

definition jget :: "(string \<times> json) list option \<Rightarrow> string \<Rightarrow> json" where
  "jget m k = (case m of None \<Rightarrow> JNil | Some m \<Rightarrow> (case map_of m k of None \<Rightarrow> JNil | Some v \<Rightarrow> v))"

fun portEqual :: "json \<Rightarrow> json \<Rightarrow> bool" where
  "portEqual (JInt a) (JInt b) = (a = b)"
| "portEqual (JInt a) (JFloat b) = (float_of_int a = b)"
| "portEqual (JFloat a) (JInt b) = (a = float_of_int b)"
| "portEqual (JFloat a) (JFloat b) = (a = b)"
| "portEqual a b = (a = b)"

definition infrastructureEqual :: "json \<Rightarrow> json \<Rightarrow> bool" where
  "infrastructureEqual a b = (case (as_map a, as_map b) of
     (None, None) \<Rightarrow> True
   | (Some am, Some bm) \<Rightarrow>
       (case (as_map (jget (Some am) ''parametersRef''), as_map (jget (Some bm) ''parametersRef'')) of
          (None, None) \<Rightarrow> True
        | (Some pa, Some pb) \<Rightarrow>
            jget (Some pa) ''group'' = jget (Some pb) ''group'' \<and>
            jget (Some pa) ''kind'' = jget (Some pb) ''kind'' \<and>
            jget (Some pa) ''name'' = jget (Some pb) ''name''
        | _ \<Rightarrow> False)
   | _ \<Rightarrow> False)"

definition listenerEqual :: "json \<Rightarrow> json \<Rightarrow> bool" where
  "listenerEqual a b = (let am = as_map a; bm = as_map b in
     jget am ''name'' = jget bm ''name'' \<and> jget am ''protocol'' = jget bm ''protocol'' \<and>
     portEqual (jget am ''port'') (jget bm ''port''))"

definition specMapsEqual :: "(string \<times> json) list option \<Rightarrow> (string \<times> json) list option \<Rightarrow> bool" where
  "specMapsEqual a b = (case (a, b) of
     (None, None) \<Rightarrow> True
   | (Some _, Some _) \<Rightarrow>
       jget a ''gatewayClassName'' = jget b ''gatewayClassName'' \<and>
       infrastructureEqual (jget a ''infrastructure'') (jget b ''infrastructure'') \<and>
       (case (as_list (jget a ''listeners''), as_list (jget b ''listeners'')) of
          (None, None) \<Rightarrow> True
        | (Some al, Some bl) \<Rightarrow> length al = length bl \<and> list_all2 listenerEqual al bl
        | _ \<Rightarrow> False)
   | _ \<Rightarrow> False)"

definition waypoint_spec :: "(string \<times> json) list" where
  "waypoint_spec =
     [(''gatewayClassName'', JString ''istio-waypoint''),
      (''listeners'', JList [JMap [(''name'', JString ''mesh''), (''port'', JInt gatewayListenerPort),
         (''protocol'', JString gatewayListenerProto)]]),
      (''infrastructure'', JMap [(''parametersRef'', JMap [(''group'', JString []),
         (''kind'', JString ''ConfigMap''), (''name'', JString waypointOptionsConfigMap)])])]"

definition waypoint_key :: "string \<Rightarrow> Key" where
  "waypoint_key ns = \<lparr>key_Kind = KWaypoint, key_Namespace = ns, key_Name = waypointGatewayName\<rparr>"

definition waypoint_gateway :: "string \<Rightarrow> KubeObj" where
  "waypoint_gateway ns = object (named ns waypointGatewayName (Some [(waypointLabelKey, waypointLabelValue)]))
     (WaypointBody (Some (JMap waypoint_spec)))"

definition waypoint_spec_of :: "KubeObj \<Rightarrow> (string \<times> json) list option" where
  "waypoint_spec_of obj = (case ko_Body obj of WaypointBody (Some s) \<Rightarrow> as_map s | _ \<Rightarrow> None)"

definition waypoint_matches :: "KubeObj \<Rightarrow> bool" where
  "waypoint_matches existing \<longleftrightarrow>
     mlookup (labels_of existing) waypointLabelKey = Some waypointLabelValue \<and>
     specMapsEqual (waypoint_spec_of existing) (Some waypoint_spec)"

definition EnsureWaypoint_Apply :: "'c Client \<Rightarrow> string \<Rightarrow> 'c step" where
  "EnsureWaypoint_Apply cli ns c = (case k_Get cli (waypoint_key ns) c of
     Inl e \<Rightarrow> if e \<noteq> NotFound then fails e c else total (k_Create cli (waypoint_gateway ns)) c
   | Inr existing \<Rightarrow>
       if waypoint_matches existing then ok c
       else total (k_Update cli (set_labels (Some [(waypointLabelKey, waypointLabelValue)])
         (set_body (WaypointBody (Some (JMap waypoint_spec))) existing))) c)"

definition DeleteWaypoint_Apply :: "'c Client \<Rightarrow> string \<Rightarrow> 'c step" where
  "DeleteWaypoint_Apply cli ns = total (DeleteIfExists cli (waypoint_key ns))"

section \<open>The waypoint's autoscaler and disruption budget\<close>

definition waypointHPAName :: string where "waypointHPAName = ''waypoint''"
definition waypointDefaultMin :: int32 where "waypointDefaultMin = 2"
definition waypointDefaultMax :: int32 where "waypointDefaultMax = 20"
definition waypointDefaultCPU :: int32 where "waypointDefaultCPU = 70"

definition waypoint_bounds :: "WaypointHPASpec \<Rightarrow> int32 \<times> int32" where
  "waypoint_bounds h = (let
       minRep = (if wh_MinReplicas h < waypointDefaultMin then waypointDefaultMin else wh_MinReplicas h);
       maxRep = (if wh_MaxReplicas h < 1 then waypointDefaultMax else wh_MaxReplicas h)
     in (if maxRep < minRep then maxRep else minRep, maxRep))"

definition waypoint_behavior :: "ScalingRules \<times> ScalingRules" where
  "waypoint_behavior =
     (\<lparr>sru_StabilizationWindowSeconds = Some 0, sru_SelectPolicy = Some ''Max'',
       sru_Policies = [\<lparr>spo_Type = ''Pods'', spo_Value = 4, spo_PeriodSeconds = 15\<rparr>,
         \<lparr>spo_Type = ''Percent'', spo_Value = 100, spo_PeriodSeconds = 15\<rparr>]\<rparr>,
      \<lparr>sru_StabilizationWindowSeconds = Some 300, sru_SelectPolicy = Some ''Max'',
       sru_Policies = [\<lparr>spo_Type = ''Percent'', spo_Value = 25, spo_PeriodSeconds = 60\<rparr>,
         \<lparr>spo_Type = ''Pods'', spo_Value = 1, spo_PeriodSeconds = 60\<rparr>]\<rparr>)"

definition waypoint_hpa :: "string \<Rightarrow> WaypointHPASpec \<Rightarrow> KubeObj" where
  "waypoint_hpa ns h = (let
       (minRep, maxRep) = waypoint_bounds h;
       cpuTarget = (if wh_TargetCPUUtilizationPercentage h < 1 then waypointDefaultCPU
                    else wh_TargetCPUUtilizationPercentage h)
     in object (named ns waypointHPAName None)
       (HPABody \<lparr>hpa_ScaleTargetRef =
            \<lparr>or_APIVersion = ''apps/v1'', or_Kind = ''Deployment'', or_Name = ''waypoint''\<rparr>,
          hpa_MinReplicas = Some minRep, hpa_MaxReplicas = maxRep,
          hpa_Metrics = [ResourceUtilization ''cpu'' cpuTarget], hpa_Behavior = Some waypoint_behavior\<rparr>))"

definition EnsureWaypointHPA_Apply :: "'c Client \<Rightarrow> EnsureWaypointHPA \<Rightarrow> 'c step" where
  "EnsureWaypointHPA_Apply cli p = (case ewh_HPA p of
     None \<Rightarrow> ok | Some h \<Rightarrow> CreateOrUpdate cli (waypoint_hpa (ewh_Namespace p) h))"

definition DeleteWaypointHPA_Apply :: "'c Client \<Rightarrow> string \<Rightarrow> 'c step" where
  "DeleteWaypointHPA_Apply cli ns = total (DeleteIfExists cli
     \<lparr>key_Kind = KHPA, key_Namespace = ns, key_Name = waypointHPAName\<rparr>)"

definition waypointPDBName :: string where "waypointPDBName = ''waypoint''"
definition waypointGatewayLabel :: string where
  "waypointGatewayLabel = ''gateway.networking.k8s.io/gateway-name''"

definition waypoint_minAvailable :: "int32 \<Rightarrow> int32" where
  "waypoint_minAvailable minReplicas = (let minAvail = wrap32 (minReplicas - 1) in
     if minAvail < 1 then 1 else minAvail)"

definition waypoint_pdb :: "EnsureWaypointPDB \<Rightarrow> KubeObj" where
  "waypoint_pdb p = object (named (ewp_Namespace p) waypointPDBName None)
     (PDBBody \<lparr>pd_MinAvailable = Some (FromInt (waypoint_minAvailable (ewp_MinReplicas p))),
        pd_MaxUnavailable = None, pd_Selector = Some [(waypointGatewayLabel, ''waypoint'')], pd_rest = []\<rparr>)"

definition EnsureWaypointPDB_Apply :: "'c Client \<Rightarrow> EnsureWaypointPDB \<Rightarrow> 'c step" where
  "EnsureWaypointPDB_Apply cli p = CreateOrUpdate cli (waypoint_pdb p)"

definition DeleteWaypointPDB_Apply :: "'c Client \<Rightarrow> string \<Rightarrow> 'c step" where
  "DeleteWaypointPDB_Apply cli ns = total (DeleteIfExists cli
     \<lparr>key_Kind = KPDB, key_Namespace = ns, key_Name = waypointPDBName\<rparr>)"

section \<open>Facts\<close>

text \<open>The labels of a namespace follow the mode of its mesh.\<close>

lemma namespace_labels_mode:
  "map_of (namespace_labels p) IstioInjectionLabelName =
     (if ens_AmbientMesh p then None else Some ''enabled'')"
  "map_of (namespace_labels p) IstioDataplaneModeLabel =
     (if ens_AmbientMesh p \<or> ens_TransitionToSidecar p then Some IstioDataplaneModeAmbient else None)"
  "map_of (namespace_labels p) IstioUseWaypointLabel = (if ens_AmbientMesh p then Some ''waypoint'' else None)"
  by (auto simp: namespace_labels_def Let_def IstioInjectionLabelName_def IstioDataplaneModeLabel_def
    IstioUseWaypointLabel_def LabelOwnerType_def LabelOwnerName_def)

text \<open>The waypoint has the wanted gateway after the plan; applied again, the plan writes nothing.\<close>

lemma waypoint_gateway_matches:
  "labels_of obj = Some [(waypointLabelKey, waypointLabelValue)] \<Longrightarrow>
   ko_Body obj = WaypointBody (Some (JMap waypoint_spec)) \<Longrightarrow> waypoint_matches obj"
  by (simp add: waypoint_matches_def waypoint_spec_of_def waypoint_spec_def specMapsEqual_def jget_def
    infrastructureEqual_def listenerEqual_def)

lemma EnsureWaypoint_success:
  assumes "documented cli store" "EnsureWaypoint_Apply cli ns c = Some (None, c')"
  shows "\<exists>obj. store c' (waypoint_key ns) = Some obj \<and> waypoint_matches obj \<and>
    (\<forall>k. k \<noteq> waypoint_key ns \<longrightarrow> store c' k = store c k)"
proof (cases "k_Get cli (waypoint_key ns) c")
    case (Inl e)
    with assms(2) have "k_Create cli (waypoint_gateway ns) c = (None, c')"
      by (simp add: EnsureWaypoint_Apply_def fails_def total_def split: if_splits)
    with Create_cases [OF assms(1), where obj = "waypoint_gateway ns" and c = c] have "store c' = (store c)(waypoint_key ns \<mapsto> waypoint_gateway ns)"
      by (simp add: waypoint_gateway_def waypoint_key_def)
    then show ?thesis
      by (intro exI [of _ "waypoint_gateway ns"]) (simp add: waypoint_gateway_matches waypoint_gateway_def)
  next
    case (Inr existing)
    note there = Get_key(1) [OF assms(1) Inr] and key = Get_key(2) [OF assms(1) Inr]
    show ?thesis
    proof (cases "waypoint_matches existing")
      case True
      with assms(2) Inr there show ?thesis by (auto simp: EnsureWaypoint_Apply_def ok_def)
    next
      case False
      let ?new = "set_labels (Some [(waypointLabelKey, waypointLabelValue)])
         (set_body (WaypointBody (Some (JMap waypoint_spec))) existing)"
      from False assms(2) Inr have "k_Update cli ?new c = (None, c')"
        by (simp add: EnsureWaypoint_Apply_def total_def)
      moreover have "kind_of (ko_Body existing) = KWaypoint"
        using key by (simp add: key_of_def waypoint_key_def)
      ultimately have "store c' = (store c)(waypoint_key ns \<mapsto> ?new)"
        using Update_cases [OF assms(1), where obj = ?new and c = c] by (simp add: key)
      then show ?thesis by (intro exI [of _ ?new]) (simp add: waypoint_gateway_matches)
    qed
qed

lemma waypoint_bounds_ok:
  "wh_MinReplicas h \<le> wh_MaxReplicas h \<Longrightarrow> 2 \<le> wh_MinReplicas h \<Longrightarrow>
   waypoint_bounds h = (wh_MinReplicas h, wh_MaxReplicas h)"
  by (auto simp: waypoint_bounds_def waypointDefaultMin_def Let_def)

lemma waypoint_bounds_sound:
  "fst (waypoint_bounds h) \<le> snd (waypoint_bounds h) \<and> 1 \<le> fst (waypoint_bounds h)"
  by (auto simp: waypoint_bounds_def waypointDefaultMin_def waypointDefaultMax_def Let_def)

end
