(* ===== verification/SLO_Plans.thy ===== *)
theory SLO_Plans
  imports Create_Or_Update Go_Format
begin

text \<open>
  The objects that watch an application's service levels: the recording rules (\<^verbatim>\<open>syncSLORules.go\<close>), the
  canary's alerts (\<^verbatim>\<open>syncCanaryRules.go\<close>), Sloth's service levels (\<^verbatim>\<open>syncServiceLevels.go\<close>) and the service
  monitors (\<^verbatim>\<open>syncServiceMonitors.go\<close>), the queries of \<^verbatim>\<open>sloConfig.go\<close> they share, and the plans that delete
  them, all of \<^verbatim>\<open>src/controllers/plan\<close>; and the metric names of a query, \<^verbatim>\<open>src/prometheus/parse.go\<close>.

  Prometheus' parser is the parameter \<open>parseExpr\<close>; its syntax trees are \<open>promql\<close>.
\<close>

section \<open>Names and text\<close>

definition RuleTypeSLO :: string where "RuleTypeSLO = ''slo''"
definition RuleTypeCanary :: string where "RuleTypeCanary = ''canary''"
definition TagLabel :: string where "TagLabel = ''tag''"
definition CanaryAppLabel :: string where "CanaryAppLabel = ''app''"
definition CanaryTagLabel :: string where "CanaryTagLabel = ''tag''"
definition CanarySLOLabel :: string where "CanarySLOLabel = ''slo''"
definition CanaryLabel :: string where "CanaryLabel = ''canary''"
definition CanaryChannelLabel :: string where "CanaryChannelLabel = ''channel''"
definition CanarySummaryAnnotation :: string where "CanarySummaryAnnotation = ''summary''"
definition CanaryMessageAnnotation :: string where "CanaryMessageAnnotation = ''message''"

definition alphanumeric :: "char \<Rightarrow> bool" where
  "alphanumeric c \<longleftrightarrow> (let n = (of_char c :: nat) in
     48 \<le> n \<and> n \<le> 57 \<or> 65 \<le> n \<and> n \<le> 90 \<or> 97 \<le> n \<and> n \<le> 122)"

text \<open>The expression \<^verbatim>\<open>[^a-zA-Z0-9]+\<close>: every maximal run of other characters becomes one underscore.\<close>

fun replace_runs :: "bool \<Rightarrow> string \<Rightarrow> string" where
  "replace_runs in_run [] = []"
| "replace_runs in_run (c # s) =
     (if alphanumeric c then c # replace_runs False s
      else if in_run then replace_runs True s else CHR ''_'' # replace_runs True s)"

definition sanitizeName :: "string \<Rightarrow> string" where
  "sanitizeName name = strings_ToLower (replace_runs False name)"

text \<open>The verb \<^verbatim>\<open>%q\<close> on printable ASCII text.\<close>

definition strconv_Quote :: "string \<Rightarrow> string" where
  "strconv_Quote s = [CHR 0x22] @
     List.concat (map (\<lambda>c. if c = CHR 0x22 \<or> c = CHR 0x5C then [CHR 0x5C, c] else [c]) s) @ [CHR 0x22]"

section \<open>Objectives and their queries\<close>

record SLOConfig =
  cfgs_SLO :: SlothServiceLevelObjective
  cfgs_App :: string
  cfgs_Name :: string
  cfgs_Tag :: string
  cfgs_Labels :: ServiceLevelObjectiveLabels

definition totalQuery :: "SLOConfig \<Rightarrow> string" where
  "totalQuery s = sanitizeName (cfgs_App s) @ '':'' @ sanitizeName (cfgs_Name s) @ '':'' @ ''total''"

definition errorQuery :: "SLOConfig \<Rightarrow> string" where
  "errorQuery s = sanitizeName (cfgs_App s) @ '':'' @ sanitizeName (cfgs_Name s) @ '':'' @ ''errors''"

definition serviceLevelObjective :: "SLOConfig \<Rightarrow> SLO" where
  "serviceLevelObjective s = (let
       labels = copy_into (sl_ServiceLevelLabels (cfgs_Labels s)) [];
       labels = copy_into (sl_ServiceLevelLabels (slo_ServiceLevelObjectiveLabels (cfgs_SLO s))) labels;
       labels = (if cfgs_Tag s \<noteq> [] then AList.update TagLabel (cfgs_Tag s) labels else labels);
       objectivePercent = (if slo_Objective (cfgs_SLO s) \<noteq> []
         then (case strconv_ParseFloat (slo_Objective (cfgs_SLO s)) of None \<Rightarrow> 0 | Some f \<Rightarrow> f) else 0)
     in \<lparr>so_Name = cfgs_Name s, so_Objective = objectivePercent,
         so_Description = slo_Description (cfgs_SLO s), so_Labels = labels, so_Events = None,
         so_Alerting = (if al_Name (slo_Alerting (cfgs_SLO s)) \<noteq> [] then Some (slo_Alerting (cfgs_SLO s))
           else None)\<rparr>)"

definition tagKey :: "SLOConfig \<Rightarrow> string" where
  "tagKey s = (let k = sli_TagKey (slo_ServiceLevelIndicator (cfgs_SLO s)) in
     if k \<noteq> [] then k else TagLabel)"

definition sliRate :: "SLOConfig \<Rightarrow> string \<Rightarrow> string" where
  "sliRate s query = (let rate = ''rate('' @ query @ ''[{{.window}}])'' in
     if tagKey s \<noteq> TagLabel
     then ''label_replace('' @ rate @ '', '' @ strconv_Quote TagLabel @ '', '' @ strconv_Quote ''$1'' @ '', '' @
       strconv_Quote (tagKey s) @ '', '' @ strconv_Quote ''(.*)'' @ '')''
     else rate)"

definition sliSource :: "SLOConfig \<Rightarrow> string \<times> string" where
  "sliSource s =
     (''sum by ('' @ TagLabel @ '') ('' @ sliRate s (errorQuery s) @ '')'',
      ''sum by ('' @ TagLabel @ '') ('' @ sliRate s (totalQuery s) @ '')'')"

definition sliSourceGRPC :: "SLOConfig \<Rightarrow> string \<times> string" where
  "sliSourceGRPC s =
     (''sum by ('' @ TagLabel @ '', grpc_method) ('' @ sliRate s (errorQuery s) @ '')'',
      ''sum by ('' @ TagLabel @ '', grpc_method) ('' @ sliRate s (totalQuery s) @ '')'')"

section \<open>Recording rules\<close>

definition recordingRuleName :: "SLOConfig \<Rightarrow> string" where
  "recordingRuleName s = cfgs_Name s @ ''_record''"

definition recording :: "string \<Rightarrow> string \<Rightarrow> Rule" where
  "recording name expr = \<lparr>ru_Record = name, ru_Alert = [], ru_Expr = expr, ru_For = [], ru_Labels = [],
     ru_Annotations = []\<rparr>"

definition recordingRules :: "SLOConfig \<Rightarrow> RuleGroup list" where
  "recordingRules s = [\<lparr>rg_Name = recordingRuleName s, rg_Rules =
     [recording (totalQuery s) (sli_TotalQuery (slo_ServiceLevelIndicator (cfgs_SLO s))),
      recording (errorQuery s) (sli_ErrorQuery (slo_ServiceLevelIndicator (cfgs_SLO s)))]\<rparr>]"

text \<open>The labels of a rule object: the plan's, the objectives', and the type of rule.\<close>

definition rule_labels :: "strmap \<Rightarrow> ServiceLevelObjectiveLabels \<Rightarrow> string \<Rightarrow> strmap" where
  "rule_labels labels slo ruleType =
     AList.update LabelRuleType ruleType (copy_into (sl_RuleLabels slo) (copy_into labels []))"

definition prometheusRuleName :: "SyncSLORules \<Rightarrow> string" where
  "prometheusRuleName p = strings_ToLower (ssr_App p) @ ''-slo''"

definition slo_config :: "SyncSLORules \<Rightarrow> SlothServiceLevelObjective \<Rightarrow> SLOConfig" where
  "slo_config p slo = \<lparr>cfgs_SLO = slo, cfgs_App = ssr_App p, cfgs_Name = sanitizeName (slo_Name slo),
     cfgs_Tag = [], cfgs_Labels = ssr_ServiceLevelObjectiveLabels p\<rparr>"

definition SLORules :: "SyncSLORules \<Rightarrow> KubeObj" where
  "SLORules p = object (named (ssr_Namespace p) (prometheusRuleName p)
       (Some (rule_labels (ssr_Labels p) (ssr_ServiceLevelObjectiveLabels p) RuleTypeSLO)))
     (PrometheusRuleBody (List.concat (map (\<lambda>slo. recordingRules (slo_config p slo))
       (ssr_ServiceLevelObjectives p))))"

definition SyncSLORules_Apply :: "'c Client \<Rightarrow> SyncSLORules \<Rightarrow> 'c step" where
  "SyncSLORules_Apply cli p = CreateOrUpdate cli (SLORules p)"

section \<open>Canary rules\<close>

definition formatAllowancePercent :: "SLOConfig \<Rightarrow> string" where
  "formatAllowancePercent s = (let
       canary = sli_Canary (slo_ServiceLevelIndicator (cfgs_SLO s));
       allowancePercent = (if sc_AllowancePercentString canary \<noteq> []
         then (case strconv_ParseFloat (sc_AllowancePercentString canary) of
                 None \<Rightarrow> sc_AllowancePercent canary | Some f \<Rightarrow> f)
         else sc_AllowancePercent canary)
     in Format10g (fdiv allowancePercent 100))"

definition canaryQuery :: "SLOConfig \<Rightarrow> string" where
  "canaryQuery s = (let
       key = sli_TagKey (slo_ServiceLevelIndicator (cfgs_SLO s));
       tagged = (\<lambda>q. q @ ''{'' @ key @ ''='' @ [CHR 0x22] @ cfgs_Tag s @ [CHR 0x22] @ ''}'')
     in tagged (errorQuery s) @ '' / '' @ tagged (totalQuery s) @ '' - '' @ formatAllowancePercent s @
        '' > ignoring('' @ key @ '') sum('' @ errorQuery s @ '') / sum('' @ totalQuery s @ '')'')"

definition canaryAlertName :: "SLOConfig \<Rightarrow> string" where
  "canaryAlertName s = cfgs_Name s @ ''_canary''"

definition canaryRuleLabels :: "SLOConfig \<Rightarrow> strmap" where
  "canaryRuleLabels s = [(CanaryAppLabel, cfgs_App s), (CanaryTagLabel, cfgs_Tag s), (CanaryLabel, ''true''),
     (CanarySLOLabel, ''true''), (CanaryChannelLabel, ''#eng-releases'')]"

definition canaryRuleAnnotations :: "SLOConfig \<Rightarrow> strmap" where
  "canaryRuleAnnotations s = [(CanarySummaryAnnotation, cfgs_App s @ '' - Canary is failing SLO''),
     (CanaryMessageAnnotation, so_Description (serviceLevelObjective s))]"

definition canary_labels :: "SLOConfig \<Rightarrow> strmap" where
  "canary_labels s = (let
       m = copy_into (sl_AlertLabels (cfgs_Labels s)) (canaryRuleLabels s);
       m = copy_into (sl_AlertLabels (slo_ServiceLevelObjectiveLabels (cfgs_SLO s))) m
     in AList.update ''channel'' ''#eng-releases'' m)"

definition canaryRules :: "SLOConfig \<Rightarrow> RuleGroup list" where
  "canaryRules s = [\<lparr>rg_Name = canaryAlertName s, rg_Rules =
     [\<lparr>ru_Record = [], ru_Alert = canaryAlertName s, ru_Expr = canaryQuery s,
       ru_For = sc_FailAfter (sli_Canary (slo_ServiceLevelIndicator (cfgs_SLO s))),
       ru_Labels = canary_labels s, ru_Annotations = canaryRuleAnnotations s\<rparr>]\<rparr>]"

definition canaryRuleName :: "SyncCanaryRules \<Rightarrow> string" where
  "canaryRuleName p = scn_App p @ ''-canary-'' @ scn_Tag p"

definition canary_config :: "SyncCanaryRules \<Rightarrow> SlothServiceLevelObjective \<Rightarrow> SLOConfig" where
  "canary_config p slo = \<lparr>cfgs_SLO = slo, cfgs_App = scn_App p, cfgs_Name = sanitizeName (slo_Name slo),
     cfgs_Tag = scn_Tag p, cfgs_Labels = scn_ServiceLevelObjectiveLabels p\<rparr>"

definition canary_prometheusRules :: "SyncCanaryRules \<Rightarrow> KubeObj list" where
  "canary_prometheusRules p =
     (if scn_ServiceLevelObjectives p = [] then []
      else [object (named (scn_Namespace p) (canaryRuleName p)
           (Some (rule_labels (scn_Labels p) (scn_ServiceLevelObjectiveLabels p) RuleTypeCanary)))
         (PrometheusRuleBody (List.concat (map (\<lambda>slo. canaryRules (canary_config p slo))
           (filter (\<lambda>slo. sc_Enabled (sli_Canary (slo_ServiceLevelIndicator slo)))
             (scn_ServiceLevelObjectives p)))))])"

definition SyncCanaryRules_Apply :: "'c Client \<Rightarrow> SyncCanaryRules \<Rightarrow> 'c step" where
  "SyncCanaryRules_Apply cli p = each (CreateOrUpdate cli) (canary_prometheusRules p)"

section \<open>Service levels\<close>

definition level_config :: "SyncServiceLevels \<Rightarrow> SlothServiceLevelObjective \<Rightarrow> SLOConfig" where
  "level_config p slo = \<lparr>cfgs_SLO = slo, cfgs_App = ssl_App p, cfgs_Name = sanitizeName (slo_Name slo),
     cfgs_Tag = [], cfgs_Labels = ssl_ServiceLevelObjectiveLabels p\<rparr>"

definition service_level_slo :: "SyncServiceLevels \<Rightarrow> SlothServiceLevelObjective \<Rightarrow> SLO" where
  "service_level_slo p slo = (let config = level_config p slo in
     (serviceLevelObjective config)\<lparr>so_Events := Some
       (if map_of (sl_ServiceLevelLabels (slo_ServiceLevelObjectiveLabels slo)) ''is_grpc'' \<noteq> None
        then sliSourceGRPC config else sliSource config)\<rparr>)"

definition serviceLevelName :: "SyncServiceLevels \<Rightarrow> string" where
  "serviceLevelName p = ssl_App p @ ''-'' @ ssl_Target p @ ''-servicelevels''"

definition serviceLevels :: "SyncServiceLevels \<Rightarrow> KubeObj list" where
  "serviceLevels p = (let slos = map (service_level_slo p) (filter slo_Enabled (ssl_ServiceLevelObjectives p)) in
     if slos = [] then []
     else [object (named (ssl_Namespace p) (serviceLevelName p) (Some (ssl_Labels p)))
       (PrometheusServiceLevelBody (ssl_App p) slos)])"

definition SyncServiceLevels_Apply :: "'c Client \<Rightarrow> SyncServiceLevels \<Rightarrow> 'c step" where
  "SyncServiceLevels_Apply cli p = each (CreateOrUpdate cli) (serviceLevels p)"

section \<open>The metrics of a query\<close>

text \<open>The syntax trees of PromQL, by the cases \<^verbatim>\<open>metricNames\<close> tells apart.\<close>

datatype promql =
    EvalStmt promql
  | Expressions "promql list"
  | AggregateExpr promql
  | SubqueryExpr promql
  | BinaryExpr promql promql
  | Call promql
  | ParenExpr promql
  | UnaryExpr promql
  | VectorSelector string
  | MatrixSelector promql
  | NumberLiteral
  | StringLiteral
  | OtherNode

text \<open>The errors of the recursive calls are dropped; only one at the root is returned.\<close>

fun metricNames :: "promql \<Rightarrow> string list" where
  "metricNames (EvalStmt e) = metricNames e"
| "metricNames (Expressions es) = List.concat (map metricNames es)"
| "metricNames (AggregateExpr e) = metricNames e"
| "metricNames (SubqueryExpr e) = metricNames e"
| "metricNames (BinaryExpr l r) = metricNames l @ metricNames r"
| "metricNames (Call args) = metricNames args"
| "metricNames (ParenExpr e) = metricNames e"
| "metricNames (UnaryExpr e) = metricNames e"
| "metricNames (VectorSelector n) = [n]"
| "metricNames (MatrixSelector v) = metricNames v"
| "metricNames NumberLiteral = []"
| "metricNames StringLiteral = []"
| "metricNames OtherNode = []"

definition MetricNames :: "(string \<Rightarrow> goerror + promql) \<Rightarrow> string \<Rightarrow> goerror + string list" where
  "MetricNames parseExpr query = (case parseExpr query of
     Inl e \<Rightarrow> Inl e
   | Inr OtherNode \<Rightarrow> Inl (Errorf ''promql.getMetrics: not all node types covered'')
   | Inr expr \<Rightarrow> Inr (remdups (metricNames expr)))"

section \<open>Service monitors\<close>

text \<open>The names of all metrics of the objectives, each once, in order.\<close>

fun metric_names_of :: "(string \<Rightarrow> goerror + promql) \<Rightarrow> string list \<Rightarrow> string list \<Rightarrow> goerror + string list" where
  "metric_names_of parseExpr [] n = Inr n"
| "metric_names_of parseExpr (q # qs) n = (case MetricNames parseExpr q of
     Inl e \<Rightarrow> Inl e | Inr names \<Rightarrow> metric_names_of parseExpr qs (add_all names n))"

definition slo_queries :: "SlothServiceLevelObjective list \<Rightarrow> string list" where
  "slo_queries slos = List.concat (map (\<lambda>slo. [sli_TotalQuery (slo_ServiceLevelIndicator slo),
     sli_ErrorQuery (slo_ServiceLevelIndicator slo)]) slos)"

definition parseMetricNames :: "(string \<Rightarrow> goerror + promql) \<Rightarrow> SyncServiceMonitors \<Rightarrow> goerror + string list" where
  "parseMetricNames parseExpr p =
     (case metric_names_of parseExpr (slo_queries (ssm_ServiceLevelObjectives p)) [] of
        Inl e \<Rightarrow> Inl e | Inr n \<Rightarrow> Inr (sort_Strings n))"

text \<open>
  The endpoints' relabelling is changed through pointers the revision shares; the value written is the same
  each time.
\<close>

definition fill_regex :: "bool \<Rightarrow> string \<Rightarrow> Endpoint \<Rightarrow> Endpoint" where
  "fill_regex sloRegex regex ep = ep\<lparr>ep_MetricRelabelConfigs :=
     map (\<lambda>r. if rc_Regex r = [] \<and> sloRegex then r\<lparr>rc_Regex := regex\<rparr> else r) (ep_MetricRelabelConfigs ep)\<rparr>"

definition serviceMonitor :: "SyncServiceMonitors \<Rightarrow> ServiceMonitor \<Rightarrow> string \<Rightarrow> KubeObj" where
  "serviceMonitor p sm metricNamesRegex = object
     ((named (ssm_Namespace p) (sm_Name sm) (Some (copy_into (sm_Labels sm) [])))
       \<lparr>om_Annotations := Some (copy_into (sm_Annotations sm) [])\<rparr>)
     (ServiceMonitorBody ((sm_Spec sm)
       \<lparr>sms_Endpoints := map (fill_regex (sm_SLORegex sm) metricNamesRegex) (sms_Endpoints (sm_Spec sm)),
        sms_NamespaceSelector := [ssm_Namespace p]\<rparr>))"

definition serviceMonitors :: "(string \<Rightarrow> goerror + promql) \<Rightarrow> SyncServiceMonitors \<Rightarrow> goerror + KubeObj list" where
  "serviceMonitors parseExpr p = (case parseMetricNames parseExpr p of
     Inl e \<Rightarrow> Inl e
   | Inr names \<Rightarrow> Inr (map (\<lambda>sm. serviceMonitor p sm (strings_Join names ''|'')) (ssm_ServiceMonitors p)))"

definition SyncServiceMonitors_Apply ::
  "(string \<Rightarrow> goerror + promql) \<Rightarrow> 'c Client \<Rightarrow> SyncServiceMonitors \<Rightarrow> 'c step" where
  "SyncServiceMonitors_Apply parseExpr cli p = (case serviceMonitors parseExpr p of
     Inl e \<Rightarrow> fails e
   | Inr sms \<Rightarrow> each (CreateOrUpdate cli) sms)"

section \<open>Deleting them\<close>

definition delete_listed :: "'c Client \<Rightarrow> Kind \<Rightarrow> string \<Rightarrow> strmap \<Rightarrow> 'c step" where
  "delete_listed cli kind namespace labels c = (case k_List cli kind namespace labels c of
     Inl e \<Rightarrow> fails e c
   | Inr items \<Rightarrow> each (\<lambda>item. total (DeleteIfExists cli (key_of item))) items c)"

definition DeleteCanaryRules_Apply :: "'c Client \<Rightarrow> DeleteCanaryRules \<Rightarrow> 'c step" where
  "DeleteCanaryRules_Apply cli p = delete_listed cli KPrometheusRule (dcr_Namespace p)
     [(LabelApp, dcr_App p), (LabelTag, dcr_Tag p), (LabelRuleType, RuleTypeCanary)]"

definition DeleteSLORules_Apply :: "'c Client \<Rightarrow> DeleteSLORules \<Rightarrow> 'c step" where
  "DeleteSLORules_Apply cli p = delete_listed cli KPrometheusRule (dsr_Namespace p)
     [(LabelApp, dsr_App p), (LabelRuleType, RuleTypeSLO)]"

definition DeleteServiceLevels_Apply :: "'c Client \<Rightarrow> DeleteServiceLevels \<Rightarrow> 'c step" where
  "DeleteServiceLevels_Apply cli p = delete_listed cli KPrometheusServiceLevel (dsl_Namespace p)
     [(LabelApp, dsl_App p), (LabelTarget, dsl_Target p)]"

definition DeleteServiceMonitors_Apply :: "'c Client \<Rightarrow> DeleteServiceMonitors \<Rightarrow> 'c step" where
  "DeleteServiceMonitors_Apply cli p = delete_listed cli KServiceMonitor (dsm_Namespace p)
     [(LabelApp, dsm_App p)]"

definition DeleteTaggedServiceLevels_Apply :: "'c Client \<Rightarrow> DeleteTaggedServiceLevels \<Rightarrow> 'c step" where
  "DeleteTaggedServiceLevels_Apply cli p = delete_listed cli KPrometheusServiceLevel (dts_Namespace p)
     [(LabelApp, dts_App p), (LabelTarget, dts_Target p), (LabelTag, dts_Tag p)]"

end
