(* ===== verification/Apply_Plan.thy ===== *)
theory Apply_Plan
  imports Sync_App Revision_Plans Ensure_Plans SLO_Plans Incarnation_Sync
begin

text \<open>
  \<^verbatim>\<open>Plan.Apply\<close> for every plan, and \<^verbatim>\<open>ClusterApplier\<close> of \<^verbatim>\<open>src/plan/applier.go\<close>: what the controllers' plans do
  to a target cluster.
\<close>

section \<open>The interface Plan\<close>

text \<open>The third-party calls the plans make besides the client's: the template engine, whether a quantity is
  zero, and Prometheus' parser.\<close>

record PlanEnv =
  pe_template :: "string \<Rightarrow> SyncApp \<Rightarrow> goerror + string"
  pe_isZero :: "string \<Rightarrow> bool"
  pe_parseExpr :: "string \<Rightarrow> goerror + promql"

lemma each_cong [fundef_cong]:
  "xs = ys \<Longrightarrow> (\<And>x. x \<in> set ys \<Longrightarrow> f x = g x) \<Longrightarrow> each f xs = each g ys"
proof (induction xs arbitrary: ys)
  case (Cons a xs)
  have "f a = g a" "each f xs = each g xs" using Cons.prems Cons.IH [OF refl] by auto
  with Cons.prems(1) show ?case by auto
qed auto

fun Plan_Apply :: "PlanEnv \<Rightarrow> 'c Client \<Rightarrow> Cluster \<Rightarrow> Plan \<Rightarrow> 'c step" where
  "Plan_Apply env cli cluster (PlanDeleteApp p) = DeleteApp_Apply cli p"
| "Plan_Apply env cli cluster (PlanDeleteCanaryRules p) = DeleteCanaryRules_Apply cli p"
| "Plan_Apply env cli cluster (PlanDeleteRevision p) = DeleteRevision_Apply cli p"
| "Plan_Apply env cli cluster (PlanDeleteSLORules p) = DeleteSLORules_Apply cli p"
| "Plan_Apply env cli cluster (PlanDeleteServiceLevels p) = DeleteServiceLevels_Apply cli p"
| "Plan_Apply env cli cluster (PlanDeleteServiceMonitors p) = DeleteServiceMonitors_Apply cli p"
| "Plan_Apply env cli cluster (PlanDeleteTaggedServiceLevels p) = DeleteTaggedServiceLevels_Apply cli p"
| "Plan_Apply env cli cluster (PlanEnsureNamespace p) = EnsureNamespace_Apply cli p"
| "Plan_Apply env cli cluster (PlanEnsureServiceAccount p) = EnsureServiceAccount_Apply cli p"
| "Plan_Apply env cli cluster (PlanEnsureWaypointOptions p) = EnsureWaypointOptions_Apply (pe_isZero env) cli p"
| "Plan_Apply env cli cluster (PlanEnsureWaypointHPA p) = EnsureWaypointHPA_Apply cli p"
| "Plan_Apply env cli cluster (PlanEnsureWaypointPDB p) = EnsureWaypointPDB_Apply cli p"
| "Plan_Apply env cli cluster (PlanEnsureRBAC p) = EnsureRBAC_Apply cli p"
| "Plan_Apply env cli cluster (PlanRetireRevision p) = RetireRevision_Apply cli p"
| "Plan_Apply env cli cluster (PlanScaleRevision p) = ScaleRevision_Apply cli cluster p"
| "Plan_Apply env cli cluster (PlanSyncApp p) = SyncApp_Apply (pe_template env) cli cluster p"
| "Plan_Apply env cli cluster (PlanSyncCanaryRules p) = SyncCanaryRules_Apply cli p"
| "Plan_Apply env cli cluster (PlanSyncRevision p) = SyncRevision_Apply cli cluster p"
| "Plan_Apply env cli cluster (PlanSyncSLORules p) = SyncSLORules_Apply cli p"
| "Plan_Apply env cli cluster (PlanSyncServiceLevels p) = SyncServiceLevels_Apply cli p"
| "Plan_Apply env cli cluster (PlanSyncServiceMonitors p) = SyncServiceMonitors_Apply (pe_parseExpr env) cli p"
| "Plan_Apply env cli cluster (PlanEnsureWaypoint ns) = EnsureWaypoint_Apply cli ns"
| "Plan_Apply env cli cluster (PlanDeleteWaypoint ns) = DeleteWaypoint_Apply cli ns"
| "Plan_Apply env cli cluster (PlanDeleteWaypointOptions ns) = DeleteWaypointOptions_Apply cli ns"
| "Plan_Apply env cli cluster (PlanDeleteWaypointPDB ns) = DeleteWaypointPDB_Apply cli ns"
| "Plan_Apply env cli cluster (PlanDeleteWaypointHPA ns) = DeleteWaypointHPA_Apply cli ns"
| "Plan_Apply env cli cluster (All ps) = each (Plan_Apply env cli cluster) ps"

section \<open>No plan panics\<close>

text \<open>
  Only two plans can panic: the application's, on a fault without a port, and the retirement, on a replica
  set without a size.
\<close>

definition never_panics :: "'c step \<Rightarrow> bool" where
  "never_panics f \<longleftrightarrow> (\<forall>c. f c \<noteq> None)"

lemma never_panics_then [intro]: "never_panics f \<Longrightarrow> never_panics g \<Longrightarrow> never_panics (then_do f g)"
  by (auto simp: never_panics_def then_do_def split: option.splits prod.splits)

lemma never_panics_each [intro]: "(\<And>x. x \<in> set xs \<Longrightarrow> never_panics (f x)) \<Longrightarrow> never_panics (each f xs)"
  by (simp add: never_panics_def each_not_panic del: not_None_eq)

lemma never_panics_simps [simp, intro]:
  "never_panics ok" "never_panics (fails e)" "never_panics (total f)"
  by (simp_all add: never_panics_def ok_def fails_def total_def)

lemma never_panics_cou:
  "documented cli store \<Longrightarrow> (\<And>t. ko_Body typed = ReplicaSetBody t \<Longrightarrow> rset_Replicas t \<noteq> None) \<Longrightarrow>
   never_panics (CreateOrUpdate cli typed)"
  by (simp add: never_panics_def CreateOrUpdate_total del: not_None_eq)

lemma never_panics_list: "never_panics (delete_listed cli kind ns labels)"
proof -
  have "never_panics (each (\<lambda>item. total (DeleteIfExists cli (key_of item))) items)" for items by blast
  then show ?thesis by (auto simp: never_panics_def delete_listed_def fails_def split: sum.splits)
qed

lemma never_panics_kind: "never_panics (delete_kind cli ns labels kind)"
proof -
  have "never_panics (each (delete_item cli) items)" for items
    by (intro never_panics_each) (simp add: delete_item_def)
  then show ?thesis by (auto simp: never_panics_def delete_kind_def fails_def ok_def split: sum.splits)
qed

lemma port_fault_total:
  "list_all (\<lambda>f. hf_PortSelector f \<noteq> None) fs \<Longrightarrow> port_fault fs port fault \<noteq> None"
  by (induction fs port fault rule: port_fault.induct) (auto split: option.splits)

lemma makeRoute_total:
  "list_all (\<lambda>f. hf_PortSelector f \<noteq> None) (sap_HTTPPortFaults p) \<Longrightarrow> makeRoute p n port m r \<noteq> None"
  using port_fault_total [of "sap_HTTPPortFaults p" "pi_Port port" None]
  by (auto simp: makeRoute_def Let_def bind_eq_None_conv)

lemma releaseRoutes_total:
  "list_all (\<lambda>f. hf_PortSelector f \<noteq> None) (sap_HTTPPortFaults p) \<Longrightarrow>
   releaseRoutes_of p cluster pts rs hs \<noteq> None"
proof (induction p cluster pts rs hs rule: releaseRoutes_of.induct)
  case (2 p cluster port ports routes hostMap)
  obtain matches hosts where m: "releaseMatches p port cluster = (matches, hosts)" by fastforce
  obtain route where r: "makeRoute p (''01_release-'' @ pi_Name port) port matches (releaseRoute p port) = Some route"
    using makeRoute_total [OF 2(3)] by blast
  show ?case using 2 m r by (cases "releaseRoute p port = []") auto
qed simp

lemma taggedRoutes_total:
  "list_all (\<lambda>f. hf_PortSelector f \<noteq> None) (sap_HTTPPortFaults p) \<Longrightarrow>
   taggedRoutes_of p cluster rps rs hs \<noteq> None"
proof (induction p cluster rps rs hs rule: taggedRoutes_of.induct)
  case (2 p cluster revision port rps routes hostMap)
  obtain matches hosts where m: "taggedMatches p port revision cluster = (matches, hosts)" by fastforce
  obtain route where r: "makeRoute p (''00_tagged-'' @ prv_Tag revision @ ''-'' @ pi_Name port) port matches
      (taggedRoute p port revision) = Some route"
    using makeRoute_total [OF 2(2)] by blast
  show ?case using 2 m r by auto
qed simp

lemma virtualService_total:
  "list_all (\<lambda>f. hf_PortSelector f \<noteq> None) (sap_HTTPPortFaults p) \<Longrightarrow>
   virtualService tmpl p cluster \<noteq> None"
  using releaseRoutes_total [of p cluster "sap_Ports p" "[]" "[]"]
    taggedRoutes_total [of p cluster "tagged_pairs p" "[]" "[]"]
  by (auto simp: virtualService_def releaseRoutes_def taggedRoutes_def bind_eq_None_conv Let_def split: prod.splits)

text \<open>The plans that need nothing of the objects in the cluster.\<close>

fun unconditional :: "Plan \<Rightarrow> bool" where
  "unconditional (PlanSyncApp p) = list_all (\<lambda>f. hf_PortSelector f \<noteq> None) (sap_HTTPPortFaults p)"
| "unconditional (PlanRetireRevision p) = False"
| "unconditional (All ps) = list_all unconditional ps"
| "unconditional _ = True"

definition no_replica_set :: "KubeObj \<Rightarrow> bool" where
  "no_replica_set obj \<longleftrightarrow> (case ko_Body obj of ReplicaSetBody t \<Rightarrow> False | _ \<Rightarrow> True)"

lemma never_panics_other:
  "documented cli store \<Longrightarrow> no_replica_set typed \<Longrightarrow> never_panics (CreateOrUpdate cli typed)"
  by (rule never_panics_cou) (auto simp: no_replica_set_def)

lemma never_panics_total_fun: "(\<And>c. f c \<noteq> None) \<Longrightarrow> never_panics f"
  by (simp add: never_panics_def)

text \<open>The objects of the plans are not replica sets, but for the revision's own.\<close>

lemma no_replica_set_objects [simp]:
  "no_replica_set (object m (ServiceBody ps sel))"
  "no_replica_set (service p)" "no_replica_set (destinationRule p)"
  "no_replica_set (prometheusRule p)" "no_replica_set (podDisruptionBudget q)"
  "no_replica_set (object_of_external q xs)" "no_replica_set (hpa_of r mn mx)"
  "no_replica_set (wpa_of r w mn mx)" "no_replica_set (datadogConfigMap r)"
  "no_replica_set (triggerAuth r b)" "no_replica_set (namespace_of e)"
  "no_replica_set (service_token sa)" "no_replica_set (service_account sa as)"
  "no_replica_set (role_of rb)" "no_replica_set (roleBinding_of rb)"
  "no_replica_set (waypoint_options z wo)" "no_replica_set (waypoint_hpa ns h)"
  "no_replica_set (waypoint_pdb wp)" "no_replica_set (SLORules sr)"
  by (simp_all add: no_replica_set_def service_def destinationRule_def prometheusRule_def
    podDisruptionBudget_def object_of_external_def hpa_of_def wpa_of_def datadogConfigMap_def
    triggerAuth_def namespace_of_def service_token_def service_account_def role_of_def roleBinding_of_def
    waypoint_options_def waypoint_hpa_def waypoint_pdb_def SLORules_def Let_def split: prod.splits)

lemmas panic_intros = never_panics_then never_panics_each never_panics_other

lemma SyncApp_never_panics:
  assumes "documented cli store" "list_all (\<lambda>f. hf_PortSelector f \<noteq> None) (sap_HTTPPortFaults p)"
  shows "never_panics (SyncApp_Apply tmpl cli cluster p)"
proof -
  obtain vs where vs: "virtualService tmpl p cluster = Some vs"
    using virtualService_total [OF assms(2)] by blast
  have no: "no_replica_set obj" if "vs = Some obj" for obj
    using that vs by (auto simp: virtualService_def bind_eq_Some_conv Let_def no_replica_set_def
      split: if_splits prod.splits)
  have sync: "never_panics (case vs of None \<Rightarrow> ok | Some obj \<Rightarrow> CreateOrUpdate cli obj)"
    using no by (auto intro: never_panics_other [OF assms(1)] split: option.split)
  then have deleted: "never_panics (\<lambda>c. case k_Delete cli k c of (None, c') \<Rightarrow>
      (case vs of None \<Rightarrow> ok | Some obj \<Rightarrow> CreateOrUpdate cli obj) c'
      | (Some e, c') \<Rightarrow> if e \<noteq> NotFound then ok c' else (case vs of None \<Rightarrow> ok | Some obj \<Rightarrow> CreateOrUpdate cli obj) c')" for k
    by (auto simp: never_panics_def ok_def simp del: not_None_eq split: prod.split option.splits)
  have side: "never_panics (case sidecarResource p of None \<Rightarrow> ok | Some s \<Rightarrow> CreateOrUpdate cli s)"
    using never_panics_other [OF assms(1)]
    by (auto simp: sidecarResource_def no_replica_set_def split: option.splits)
  show ?thesis using sync deleted side
    by (auto simp: SyncApp_Apply_def vs Let_def intro!: never_panics_then never_panics_other [OF assms(1)]
      split: option.split_asm)
qed

lemma ScaleRevision_never_panics:
  assumes "documented cli store"
  shows "never_panics (ScaleRevision_Apply cli cluster p)"
proof -
  note cou = never_panics_other [OF assms]
  have keda: "never_panics (applyKeda cli cluster p k mn mx b)" for k mn mx b
    by (auto simp: applyKeda_def datadogMetric_def keda_of_def no_replica_set_def
      intro!: never_panics_then cou split: option.splits prod.splits)
  have auth: "never_panics (applyKedaTriggerAuth cli p k)" for k
    by (auto simp: applyKedaTriggerAuth_def Let_def intro!: never_panics_then cou)
  have ambient: "never_panics (applyAmbientKeda cli p r mn mx b)" for r mn mx b
    by (auto simp: applyAmbientKeda_def ambient_keda_def no_replica_set_def intro!: cou split: prod.splits)
  have hpa: "never_panics (applyHPA cli p mn mx)" "never_panics (deleteHPA cli p)" for mn mx
    by (auto simp: applyHPA_def deleteHPA_def intro!: cou)
  have wpa: "never_panics (applyWPA cli p w mn mx)" for w mn mx
    by (auto simp: applyWPA_def intro!: cou)
  show ?thesis using keda auth ambient hpa wpa
    by (auto simp: ScaleRevision_Apply_def Let_def intro!: never_panics_then split: option.split)
qed

lemma SyncRevision_never_panics:
  assumes "documented cli store"
  shows "never_panics (SyncRevision_Apply cli cluster p)"
proof -
  note cou = never_panics_other [OF assms]
  have account: "never_panics (patchServiceAccount cli p)"
    by (auto simp: never_panics_def patchServiceAccount_def Let_def ok_def fails_def total_def
      split: sum.split option.split)
  have configs: "no_replica_set (object_of_config p config)" for config
    by (simp add: object_of_config_def no_replica_set_def split: ConfigKind.split)
  have rs: "never_panics (syncReplicaSet cli p f ls es)" for f ls es
    unfolding syncReplicaSet_def
    by (rule never_panics_cou [OF assms]) (auto simp: replicaSet_of_def)
  show ?thesis using account configs rs
    by (auto simp: SyncRevision_Apply_def syncPodDisruptionBudget_def intro!: never_panics_then
      never_panics_each cou split: option.split)
qed

text \<open>A replica set that is there has a size.\<close>

definition sized_at :: "store \<Rightarrow> Key \<Rightarrow> bool" where
  "sized_at s k \<longleftrightarrow> (\<forall>obj t. s k = Some obj \<longrightarrow> ko_Body obj = ReplicaSetBody t \<longrightarrow> rset_Replicas t \<noteq> None)"

lemma delete_tolerant_total: "\<exists>e c'. delete_tolerant cli kind ns name c = Some (e, c')"
  by (auto simp: delete_tolerant_def ok_def fails_def split: prod.split option.split)

lemma delete_tolerant_sized:
  assumes "documented cli store" "delete_tolerant cli kind ns name c = Some (e, c')" "sized_at (store c) k"
  shows "sized_at (store c') k"
  using Delete_cases [OF assms(1), where k = "\<lparr>key_Kind = kind, key_Namespace = ns, key_Name = name\<rparr>" and c = c] assms(2,3)
  by (auto simp: delete_tolerant_def ok_def fails_def sized_at_def split: prod.splits option.splits if_splits)

lemma RetireRevision_total:
  assumes "documented cli store" "sized_at (store c) (revision_key (rrv_Namespace p) (rrv_Tag p))"
  shows "RetireRevision_Apply cli p c \<noteq> None"
proof -
  let ?k = "revision_key (rrv_Namespace p) (rrv_Tag p)"
  have last: "scale_to_zero cli p c' \<noteq> None" if "sized_at (store c') ?k" for c'
    using that Get_key(1) [OF assms(1), of ?k c']
    by (fastforce simp: scale_to_zero_def sized_at_def revision_key_def ok_def fails_def total_def
      split: sum.split Body.split option.split)
  have seq: "then_do (delete_tolerant cli kind ns name) g c' \<noteq> None"
    if "sized_at (store c') ?k" "\<And>c''. sized_at (store c'') ?k \<Longrightarrow> g c'' \<noteq> None" for kind ns name g c'
    using delete_tolerant_total [of cli kind ns name c'] delete_tolerant_sized [OF assms(1) _ that(1)] that(2)
    by (fastforce simp: then_do_def split: option.split)
  show ?thesis unfolding RetireRevision_Apply_def deleteWPA_def deleteKEDA_def deleteAuthKEDA_def
    by (intro seq last assms(2))
qed

text \<open>The plans that only list and delete, or only create and update.\<close>

lemma wrapped_never_panics: "never_panics f \<Longrightarrow> never_panics (wrapped msg f)"
  by (auto simp: never_panics_def wrapped_def)

lemma SLO_never_panics:
  assumes "documented cli store"
  shows "never_panics (SyncCanaryRules_Apply cli p)" "never_panics (SyncServiceLevels_Apply cli q)"
    "never_panics (SyncServiceMonitors_Apply parse cli r)"
  by (auto simp: SyncCanaryRules_Apply_def canary_prometheusRules_def SyncServiceLevels_Apply_def
      serviceLevels_def SyncServiceMonitors_Apply_def serviceMonitors_def serviceMonitor_def
      no_replica_set_def Let_def
    intro!: never_panics_each never_panics_other [OF assms] split: sum.splits if_splits)

lemma ensure_never_panics:
  assumes "documented cli store"
  shows "never_panics (EnsureServiceAccount_Apply cli p)" "never_panics (EnsureRBAC_Apply cli q)"
    "never_panics (EnsureWaypoint_Apply cli ns)" "never_panics (EnsureWaypointHPA_Apply cli h)"
proof -
  have "then_do (CreateOrUpdate cli (service_token p)) (CreateOrUpdate cli (service_account p as)) c \<noteq> None" for as c
    using never_panics_then [OF never_panics_other [OF assms] never_panics_other [OF assms],
      of "service_token p" "service_account p as"] by (simp add: never_panics_def del: not_None_eq)
  then show "never_panics (EnsureServiceAccount_Apply cli p)"
    by (auto simp: never_panics_def EnsureServiceAccount_Apply_def Let_def fails_def simp del: not_None_eq
      split: sum.split)
  show "never_panics (EnsureRBAC_Apply cli q)"
    by (auto simp: EnsureRBAC_Apply_def intro!: never_panics_then wrapped_never_panics never_panics_other [OF assms])
  show "never_panics (EnsureWaypoint_Apply cli ns)"
    by (auto simp: never_panics_def EnsureWaypoint_Apply_def fails_def ok_def total_def split: sum.split)
  show "never_panics (EnsureWaypointHPA_Apply cli h)"
    by (auto simp: EnsureWaypointHPA_Apply_def intro!: never_panics_other [OF assms] split: option.split)
qed

lemma Plan_never_panics:
  assumes "documented cli store" "unconditional plan"
  shows "never_panics (Plan_Apply env cli cluster plan)"
  using assms(2)
proof (induction plan)
  case (All ps)
  then show ?case by (auto simp: list_all_iff intro!: never_panics_each)
next
  case (PlanSyncApp p)
  then show ?case using SyncApp_never_panics [OF assms(1)] by simp
next
  case (PlanDeleteRevision p)
  show ?case by (auto simp: DeleteRevision_Apply_def intro!: never_panics_each never_panics_kind)
qed (use assms(1) in \<open>simp_all add: never_panics_list SLO_never_panics ensure_never_panics
    SyncRevision_never_panics ScaleRevision_never_panics never_panics_other
    DeleteApp_Apply_def DeleteCanaryRules_Apply_def DeleteSLORules_Apply_def DeleteServiceLevels_Apply_def
    DeleteServiceMonitors_Apply_def DeleteTaggedServiceLevels_Apply_def EnsureNamespace_Apply_def
    EnsureWaypointOptions_Apply_def EnsureWaypointPDB_Apply_def SyncSLORules_Apply_def DeleteWaypoint_Apply_def
    DeleteWaypointOptions_Apply_def DeleteWaypointPDB_Apply_def DeleteWaypointHPA_Apply_def\<close>)

end
