(* ===== verification/Memory_Cluster.thy ===== *)
theory Memory_Cluster
  imports Apply_Plan
begin

text \<open>
  A cluster in memory: a list of objects and a client on it that behaves as controller-runtime documents.
  It shows that the hypothesis \<open>documented\<close> can hold, and runs the plans on concrete objects.
\<close>

definition mem_store :: "KubeObj list \<Rightarrow> store" where
  "mem_store c k = find (\<lambda>obj. key_of obj = k) c"

definition mem_put :: "KubeObj \<Rightarrow> KubeObj list \<Rightarrow> KubeObj list" where
  "mem_put obj c = obj # filter (\<lambda>e. key_of e \<noteq> key_of obj) c"

definition mem_remove :: "Key \<Rightarrow> KubeObj list \<Rightarrow> KubeObj list" where
  "mem_remove k c = filter (\<lambda>e. key_of e \<noteq> k) c"

text \<open>An object is listed when it is the one its key leads to.\<close>

definition mem_list :: "Kind \<Rightarrow> string \<Rightarrow> strmap \<Rightarrow> KubeObj list \<Rightarrow> KubeObj list" where
  "mem_list kind ns sel c = filter (\<lambda>e. mem_store c (key_of e) = Some e \<and> key_Kind (key_of e) = kind \<and>
     key_Namespace (key_of e) = ns \<and> selects sel e) c"

definition mem :: "KubeObj list Client" where
  "mem = \<lparr>
     k_Get = (\<lambda>k c. case mem_store c k of None \<Rightarrow> Inl NotFound | Some obj \<Rightarrow> Inr obj),
     k_Create = (\<lambda>obj c. (None, mem_put obj c)),
     k_Update = (\<lambda>obj c. (None, mem_put obj c)),
     k_Delete = (\<lambda>k c. case mem_store c k of None \<Rightarrow> (Some NotFound, c) | Some _ \<Rightarrow> (None, mem_remove k c)),
     k_List = (\<lambda>kind ns sel c. Inr (mem_list kind ns sel c)),
     k_CreateOrUpdate = (\<lambda>obj f c. case f (held (mem_store c) obj) of
         None \<Rightarrow> None
       | Some new \<Rightarrow> if key_of new = key_of obj then Some (None, mem_put new c)
                     else Some (Some (Errorf ''MutateFn cannot mutate object name and/or object namespace''), c))\<rparr>"

lemma mem_store_put: "mem_store (mem_put obj c) = (mem_store c)(key_of obj \<mapsto> obj)"
proof
  fix k
  have "find (\<lambda>e. key_of e = k) (filter (\<lambda>e. key_of e \<noteq> key_of obj) c) = find (\<lambda>e. key_of e = k) c" if "k \<noteq> key_of obj"
    using that by (induction c) auto
  then show "mem_store (mem_put obj c) k = ((mem_store c)(key_of obj \<mapsto> obj)) k"
    by (simp add: mem_store_def mem_put_def)
qed

lemma mem_store_remove: "mem_store (mem_remove k c) = (mem_store c)(k := None)"
proof
  fix k'
  show "mem_store (mem_remove k c) k' = ((mem_store c)(k := None)) k'"
    unfolding mem_store_def mem_remove_def by (induction c) auto
qed

lemma mem_store_keyed: "mem_store c k = Some obj \<Longrightarrow> key_of obj = k \<and> obj \<in> set c"
  by (auto simp: mem_store_def find_Some_iff)

lemma mem_list_set: "set (mem_list kind ns sel c) =
  {obj. \<exists>n. mem_store c \<lparr>key_Kind = kind, key_Namespace = ns, key_Name = n\<rparr> = Some obj \<and> selects sel obj}"
proof (intro set_eqI iffI)
  fix obj
  assume "obj \<in> set (mem_list kind ns sel c)"
  then have m: "mem_store c (key_of obj) = Some obj" and k: "key_Kind (key_of obj) = kind"
    "key_Namespace (key_of obj) = ns" and s: "selects sel obj" by (auto simp: mem_list_def)
  from k have "key_of obj = \<lparr>key_Kind = kind, key_Namespace = ns, key_Name = key_Name (key_of obj)\<rparr>" by simp
  with m s show "obj \<in> {obj. \<exists>n. mem_store c \<lparr>key_Kind = kind, key_Namespace = ns, key_Name = n\<rparr> = Some obj \<and> selects sel obj}"
    by (metis (mono_tags) mem_Collect_eq)
next
  fix obj
  assume "obj \<in> {obj. \<exists>n. mem_store c \<lparr>key_Kind = kind, key_Namespace = ns, key_Name = n\<rparr> = Some obj \<and> selects sel obj}"
  then obtain n where m: "mem_store c \<lparr>key_Kind = kind, key_Namespace = ns, key_Name = n\<rparr> = Some obj"
    and s: "selects sel obj" by blast
  with mem_store_keyed [OF m] show "obj \<in> set (mem_list kind ns sel c)" by (simp add: mem_list_def)
qed

lemma mem_documented: "documented mem mem_store"
  unfolding documented_def
proof (intro conjI allI)
  show "documented_CreateOrUpdate mem mem_store"
    by (auto simp: documented_CreateOrUpdate_def mem_def mem_store_put ErrNoChangeNeeded_def split: option.split)
  show "documented_Get mem mem_store"
    by (auto simp: documented_Get_def mem_def split: option.split)
  show "documented_write mem mem_store"
    by (simp add: documented_write_def mem_def mem_store_put)
  show "documented_Delete mem mem_store"
    by (auto simp: documented_Delete_def mem_def mem_store_remove split: option.split)
  show "documented_List mem mem_store"
    by (auto simp: documented_List_def mem_def mem_list_set)
  show "keyed (mem_store c)" for c
    using mem_store_keyed by (auto simp: keyed_def)
qed

section \<open>The plans on the cluster in memory\<close>

text \<open>The cluster in memory refuses nothing, so that the plans succeed on it.\<close>

definition succeeds :: "'c step \<Rightarrow> bool" where
  "succeeds f \<longleftrightarrow> (\<forall>c. \<exists>c'. f c = Some (None, c'))"

lemma succeedsE: "succeeds f \<Longrightarrow> (\<And>c'. f c = Some (None, c') \<Longrightarrow> P) \<Longrightarrow> P"
  unfolding succeeds_def by blast

lemma succeeds_simps [simp, intro]: "succeeds ok" "succeeds (total (DeleteIfExists mem k))"
  by (auto simp: succeeds_def ok_def total_def DeleteIfExists_def mem_def split: option.split)

lemma succeeds_then [intro]: "succeeds f \<Longrightarrow> succeeds g \<Longrightarrow> succeeds (then_do f g)"
  by (simp add: succeeds_def then_do_def) (metis (mono_tags, lifting) case_prod_conv option.case)

lemma succeeds_each [intro]: "(\<And>x. x \<in> set xs \<Longrightarrow> succeeds (f x)) \<Longrightarrow> succeeds (each f xs)"
  by (induction xs) auto

lemma then_succeeds: "f c = Some (None, c1) \<Longrightarrow> succeeds g \<Longrightarrow> \<exists>c'. then_do f g c = Some (None, c')"
  by (simp add: then_do_def succeeds_def)

lemma mem_writes:
  assumes "cases_of typed \<noteq> None" "\<And>t. ko_Body typed = ReplicaSetBody t \<Longrightarrow> rset_Replicas t \<noteq> None"
  shows "succeeds (CreateOrUpdate mem typed)"
  unfolding succeeds_def
proof
  fix c
  obtain obj f where f: "cases_of typed = Some (obj, f)" using assms(1) by auto
  have k: "key_of (held (mem_store c) obj) = key_of obj"
    using mem_documented by (intro key_of_held) (simp add: documented_def)
  then have "kind_of (ko_Body (held (mem_store c) obj)) = kind_of (ko_Body typed)"
    using cases_of_key [OF f] by (auto simp: key_to_def key_of_def split: if_splits)
  moreover obtain new where new: "f (held (mem_store c) obj) = Some new"
    using cases_of_not_panic [OF f assms(2)] by blast
  ultimately have "key_of new = key_of obj" using cases_of_keeps [OF f new] k by simp
  then show "\<exists>c'. CreateOrUpdate mem typed c = Some (None, c')"
    by (simp add: CreateOrUpdate_def f mem_def new)
qed

lemma mem_typed:
  "kind_of (ko_Body typed) \<in> {KNamespace, KSecret} \<or> whole_spec typed \<Longrightarrow> succeeds (CreateOrUpdate mem typed)"
  by (rule mem_writes) (cases "ko_Body typed"; auto simp: whole_spec_def cases_of_def)+

lemma mem_scales:
  assumes "scalingFactor_of cluster \<noteq> None"
  shows "succeeds (ScaleRevision_Apply mem cluster p)"
proof -
  have keda: "succeeds (applyKeda mem cluster p k mn mx b)" for k mn mx b
    by (auto simp: applyKeda_def datadogMetric_def keda_of_def whole_spec_def
      intro!: succeeds_then mem_typed split: option.splits prod.splits)
  have auth: "succeeds (applyKedaTriggerAuth mem p k)" for k
    by (auto simp: applyKedaTriggerAuth_def Let_def triggerAuth_def datadogConfigMap_def whole_spec_def intro!: succeeds_then mem_typed)
  have ambient: "succeeds (applyAmbientKeda mem p r mn mx b)" for r mn mx b
    by (auto simp: applyAmbientKeda_def ambient_keda_def whole_spec_def intro!: mem_typed split: prod.splits)
  have hpa: "succeeds (applyHPA mem p mn mx)" "succeeds (deleteHPA mem p)" for mn mx
    by (auto simp: applyHPA_def deleteHPA_def hpa_of_def whole_spec_def intro!: mem_typed)
  have wpa: "succeeds (applyWPA mem p w mn mx)" for w mn mx
    by (auto simp: applyWPA_def wpa_of_def whole_spec_def intro!: mem_typed)
  obtain factor where "scalingFactor_of cluster = Some factor" using assms by blast
  with keda auth ambient hpa wpa show ?thesis
    by (auto simp: ScaleRevision_Apply_def Let_def intro!: succeeds_then split: option.split)
qed

lemma mem_syncs:
  assumes "scalingFactor_of cluster \<noteq> None"
    and "mem_store c \<lparr>key_Kind = KServiceAccount, key_Namespace = srv_Namespace p, key_Name = srv_App p\<rparr> \<noteq> None"
  shows "\<exists>c'. SyncRevision_Apply mem cluster p c = Some (None, c')"
proof -
  have "\<exists>c1. patchServiceAccount mem p c = Some (None, c1)"
    using assms(2) by (auto simp: patchServiceAccount_def mem_def Let_def ok_def total_def)
  then obtain c1 where account: "patchServiceAccount mem p c = Some (None, c1)" by blast
  have "succeeds (each (\<lambda>config. CreateOrUpdate mem (object_of_config p config)) (srv_Configs p))"
    by (intro succeeds_each mem_typed) (simp_all add: object_of_config_def whole_spec_def split: ConfigKind.split)
  moreover have "succeeds (each (\<lambda>xs. CreateOrUpdate mem (object_of_external p xs)) (srv_ExternalSecrets p))"
    by (intro succeeds_each mem_typed) (simp_all add: object_of_external_def whole_spec_def)
  moreover have "succeeds (syncPodDisruptionBudget mem p)"
    by (auto simp: syncPodDisruptionBudget_def podDisruptionBudget_def whole_spec_def Let_def intro!: mem_typed)
  moreover have "succeeds (syncReplicaSet mem p f ls es)" for f ls es
    unfolding syncReplicaSet_def by (rule mem_writes) (auto simp: replicaSet_of_def cases_of_def)
  moreover obtain factor where "scalingFactor_of cluster = Some factor" using assms(1) by blast
  ultimately have "succeeds (then_do (syncPodDisruptionBudget mem p)
     (then_do (each (\<lambda>config. CreateOrUpdate mem (object_of_config p config)) (srv_Configs p))
     (then_do (each (\<lambda>xs. CreateOrUpdate mem (object_of_external p xs)) (srv_ExternalSecrets p))
       (case scalingFactor_of cluster of
          None \<Rightarrow> fails (Errorf ''cluster scalingFactor is nil'')
        | Some factor \<Rightarrow>
            syncReplicaSet mem p
              (if cs_DisableEventDriven (cl_Spec cluster) \<and> srv_EventDriven p then 0 else factor)
              (pod_labels p) (pod_envs p)))))"
    by (auto intro!: succeeds_then)
  then show ?thesis unfolding SyncRevision_Apply_def by (rule then_succeeds [where f = "patchServiceAccount mem p", OF account])
qed

lemma mem_app:
  assumes "virtualService tmpl p cluster \<noteq> None"
  shows "succeeds (SyncApp_Apply tmpl mem cluster p)"
proof -
  obtain vs where vs: "virtualService tmpl p cluster = Some vs" using assms by blast
  then have "whole_spec obj" if "vs = Some obj" for obj
    using that by (auto simp: virtualService_def whole_spec_def bind_eq_Some_conv Let_def split: if_splits prod.splits)
  then have sync: "succeeds (case vs of None \<Rightarrow> ok | Some obj \<Rightarrow> CreateOrUpdate mem obj)"
    by (auto intro!: mem_typed split: option.split)
  then have "succeeds (\<lambda>c. case k_Delete mem k c of (None, c') \<Rightarrow>
      (case vs of None \<Rightarrow> ok | Some obj \<Rightarrow> CreateOrUpdate mem obj) c'
      | (Some e, c') \<Rightarrow> if e \<noteq> NotFound then ok c' else (case vs of None \<Rightarrow> ok | Some obj \<Rightarrow> CreateOrUpdate mem obj) c')" for k
    by (auto simp: succeeds_def mem_def split: option.split)
  moreover have "succeeds (case sidecarResource p of None \<Rightarrow> ok | Some s \<Rightarrow> CreateOrUpdate mem s)"
    by (auto simp: sidecarResource_def whole_spec_def intro!: mem_typed split: option.splits)
  moreover have "succeeds (CreateOrUpdate mem (service p))" "succeeds (CreateOrUpdate mem (destinationRule p))"
    "succeeds (CreateOrUpdate mem (prometheusRule p))"
    by (auto simp: service_def destinationRule_def prometheusRule_def whole_spec_def Let_def intro!: mem_typed)
  ultimately show ?thesis using sync
    by (auto simp: SyncApp_Apply_def vs Let_def intro!: succeeds_then split: option.split_asm)
qed

lemma mem_deletes: "delete_tolerant mem kind ns name c = Some (e, c') \<Longrightarrow> e = None"
  by (auto simp: delete_tolerant_def mem_def ok_def split: option.splits)

lemma mem_retires:
  assumes "sized_at (mem_store c) (revision_key (rrv_Namespace p) (rrv_Tag p))"
  shows "\<exists>c'. RetireRevision_Apply mem p c = Some (None, c')"
proof -
  have last: "scale_to_zero mem p c1 = Some (e, c2) \<Longrightarrow> e = None" for c1 c2 e
    by (auto simp: scale_to_zero_def mem_def ok_def total_def split: option.splits Body.splits if_splits)
  obtain e c' where r: "RetireRevision_Apply mem p c = Some (e, c')"
    using RetireRevision_total [OF mem_documented assms] by (cases "RetireRevision_Apply mem p c") auto
  have "e = None" using r unfolding RetireRevision_Apply_def deleteWPA_def deleteKEDA_def deleteAuthKEDA_def
    by (auto simp: then_do_def split: option.splits prod.splits dest: last mem_deletes)
  with r show ?thesis by blast
qed

end
