(* ===== verification/Plan_Frames.thy ===== *)
theory Plan_Frames
  imports Apply_Plan
begin

text \<open>
  What the plans leave of a cluster: the kinds of objects each plan may touch, what it keeps of the objects
  there, the clusters in which a plan cannot panic, and the bounds of the autoscalers a plan writes.
\<close>

section \<open>Predicates of the store that a step keeps\<close>

definition store_keeps :: "('c \<Rightarrow> store) \<Rightarrow> (store \<Rightarrow> bool) \<Rightarrow> 'c step \<Rightarrow> bool" where
  "store_keeps store P f \<longleftrightarrow> (\<forall>c err c'. f c = Some (err, c') \<longrightarrow> P (store c) \<longrightarrow> P (store c'))"

lemma store_keepsD: "store_keeps store P f \<Longrightarrow> f c = Some (err, c') \<Longrightarrow> P (store c) \<Longrightarrow> P (store c')"
  unfolding store_keeps_def by blast

lemma store_keeps_ok [intro, simp]: "store_keeps store P ok" "store_keeps store P (fails e)"
  by (simp_all add: store_keeps_def ok_def fails_def)

lemma store_keeps_then [intro]:
  "store_keeps store P f \<Longrightarrow> store_keeps store P g \<Longrightarrow> store_keeps store P (then_do f g)"
  unfolding store_keeps_def then_do_def by (auto split: option.splits prod.splits)

lemma store_keeps_each [intro]:
  "(\<And>x. x \<in> set xs \<Longrightarrow> store_keeps store P (f x)) \<Longrightarrow> store_keeps store P (each f xs)"
  by (induction xs) auto

lemma store_keeps_frame:
  assumes "only_writes store ks f" "\<And>s s'. (\<And>k. k \<notin> ks \<Longrightarrow> s' k = s k) \<Longrightarrow> P s \<Longrightarrow> P s'"
  shows "store_keeps store P f"
proof (unfold store_keeps_def, intro allI impI)
  fix c err c'
  assume run: "f c = Some (err, c')" and P: "P (store c)"
  show "P (store c')" by (rule assms(2) [OF only_writesD [OF assms(1) run] P])
qed

lemma store_keeps_CreateOrUpdate:
  assumes "documented cli store"
    and "\<And>s obj f new. keyed s \<Longrightarrow> P s \<Longrightarrow> cases_of typed = Some (obj, f) \<Longrightarrow> f (held s obj) = Some new \<Longrightarrow>
      P (s(key_to typed \<mapsto> new))"
  shows "store_keeps store P (CreateOrUpdate cli typed)"
proof (unfold store_keeps_def, intro allI impI)
  fix c err c'
  assume run: "CreateOrUpdate cli typed c = Some (err, c')" and P: "P (store c)"
  show "P (store c')"
  proof (cases err)
    case None
    with run CreateOrUpdate_ok [OF assms(1)] obtain obj f new where "cases_of typed = Some (obj, f)"
      "f (held (store c) obj) = Some new" "store c' = (store c)(key_to typed \<mapsto> new)" by blast
    with assms(2) [OF documentedD(6) [OF assms(1)] P] show ?thesis by simp
  next
    case (Some e)
    with run P CreateOrUpdate_error [OF assms(1)] show ?thesis by simp
  qed
qed

section \<open>The kinds a plan touches\<close>

fun plan_kinds :: "Plan \<Rightarrow> Kind list" where
  "plan_kinds (PlanDeleteApp p) = [KNamespace]"
| "plan_kinds (PlanDeleteCanaryRules p) = [KPrometheusRule]"
| "plan_kinds (PlanDeleteRevision p) = revision_kinds"
| "plan_kinds (PlanDeleteSLORules p) = [KPrometheusRule]"
| "plan_kinds (PlanDeleteServiceLevels p) = [KPrometheusServiceLevel]"
| "plan_kinds (PlanDeleteServiceMonitors p) = [KServiceMonitor]"
| "plan_kinds (PlanDeleteTaggedServiceLevels p) = [KPrometheusServiceLevel]"
| "plan_kinds (PlanEnsureNamespace p) = [KNamespace]"
| "plan_kinds (PlanEnsureServiceAccount p) = [KSecret, KServiceAccount]"
| "plan_kinds (PlanEnsureWaypointOptions p) = [KConfigMap]"
| "plan_kinds (PlanEnsureWaypointHPA p) = [KHPA]"
| "plan_kinds (PlanEnsureWaypointPDB p) = [KPDB]"
| "plan_kinds (PlanEnsureRBAC p) = [KRole, KRoleBinding]"
| "plan_kinds (PlanRetireRevision p) = [KWPA, KScaledObject, KTriggerAuthentication, KReplicaSet]"
| "plan_kinds (PlanScaleRevision p) =
     [KHPA, KWPA, KScaledObject, KTriggerAuthentication, KConfigMap, KDatadogMetric]"
| "plan_kinds (PlanSyncApp p) = [KService, KSidecar, KDestinationRule, KPrometheusRule, KVirtualService]"
| "plan_kinds (PlanSyncCanaryRules p) = [KPrometheusRule]"
| "plan_kinds (PlanSyncRevision p) =
     [KServiceAccount, KPDB, KSecret, KConfigMap, KExternalSecret, KReplicaSet]"
| "plan_kinds (PlanSyncSLORules p) = [KPrometheusRule]"
| "plan_kinds (PlanSyncServiceLevels p) = [KPrometheusServiceLevel]"
| "plan_kinds (PlanSyncServiceMonitors p) = [KServiceMonitor]"
| "plan_kinds (PlanEnsureWaypoint ns) = [KWaypoint]"
| "plan_kinds (PlanDeleteWaypoint ns) = [KWaypoint]"
| "plan_kinds (PlanDeleteWaypointOptions ns) = [KConfigMap]"
| "plan_kinds (PlanDeleteWaypointPDB ns) = [KPDB]"
| "plan_kinds (PlanDeleteWaypointHPA ns) = [KHPA]"
| "plan_kinds (All ps) = List.concat (map plan_kinds ps)"

definition of_kinds :: "Kind list \<Rightarrow> Key set" where
  "of_kinds kinds = {k. key_Kind k \<in> set kinds}"

lemma only_writes_DeleteIfExists:
  assumes "documented cli store" "k \<in> ks"
  shows "only_writes store ks (total (DeleteIfExists cli k))"
proof (unfold only_writes_def, intro allI impI)
  fix c err c' k'
  assume "total (DeleteIfExists cli k) c = Some (err, c')" and "k' \<notin> ks"
  with assms(2) Delete_cases [OF assms(1), where k = k and c = c] show "store c' k' = store c k'"
    by (auto simp: total_def DeleteIfExists_def split: prod.splits option.splits if_splits)
qed

lemma listed_key:
  assumes "documented cli store" "k_List cli kind ns sel c = Inr items" "item \<in> set items"
  shows "\<exists>n. key_of item = \<lparr>key_Kind = kind, key_Namespace = ns, key_Name = n\<rparr>"
proof -
  obtain n where "store c \<lparr>key_Kind = kind, key_Namespace = ns, key_Name = n\<rparr> = Some item"
    using List_cases [OF assms(1), where kind = kind and ns = ns and sel = sel and c = c] assms(2,3) by auto
  then show ?thesis using documentedD(6) [OF assms(1)] by (auto simp: keyed_def)
qed

lemma only_writes_listed:
  assumes "documented cli store" "\<And>n. \<lparr>key_Kind = kind, key_Namespace = ns, key_Name = n\<rparr> \<in> ks"
  shows "only_writes store ks (delete_listed cli kind ns sel)"
proof (unfold only_writes_def, intro allI impI)
  fix c err c' k'
  assume run: "delete_listed cli kind ns sel c = Some (err, c')" and k': "k' \<notin> ks"
  show "store c' k' = store c k'"
  proof (cases "k_List cli kind ns sel c")
    case (Inl e)
    with run show ?thesis by (simp add: delete_listed_def fails_def)
  next
    case (Inr items)
    have "key_of item \<in> ks" if item: "item \<in> set items" for item
      using listed_key [OF assms(1) Inr item] assms(2) by auto
    then have "only_writes store ks (each (\<lambda>item. total (DeleteIfExists cli (key_of item))) items)"
      by (intro only_writes_each only_writes_DeleteIfExists [OF assms(1)])
    with run Inr k' show ?thesis by (auto simp: delete_listed_def dest: only_writesD)
  qed
qed

lemma only_writes_delete:
  assumes "documented cli store" "k \<in> ks"
  shows "only_writes store ks (total (k_Delete cli k))"
proof (unfold only_writes_def, intro allI impI)
  fix c err c' k'
  assume "total (k_Delete cli k) c = Some (err, c')" and "k' \<notin> ks"
  with assms(2) Delete_cases [OF assms(1), where k = k and c = c] show "store c' k' = store c k'"
    by (auto simp: total_def split: option.splits)
qed

lemma only_writes_tolerant:
  assumes "documented cli store" "\<lparr>key_Kind = kind, key_Namespace = ns, key_Name = n\<rparr> \<in> ks"
  shows "only_writes store ks (delete_tolerant cli kind ns n)"
proof (unfold only_writes_def, intro allI impI)
  fix c err c' k'
  assume "delete_tolerant cli kind ns n c = Some (err, c')" and "k' \<notin> ks"
  with assms(2) Delete_cases [OF assms(1), where k = "\<lparr>key_Kind = kind, key_Namespace = ns, key_Name = n\<rparr>" and c = c]
  show "store c' k' = store c k'"
    by (auto simp: delete_tolerant_def ok_def fails_def split: prod.splits option.splits if_splits)
qed

lemma only_writes_kind:
  assumes "documented cli store" "\<And>n. \<lparr>key_Kind = kind, key_Namespace = ns, key_Name = n\<rparr> \<in> ks"
  shows "only_writes store ks (delete_kind cli ns sel kind)"
proof (unfold only_writes_def, intro allI impI)
  fix c err c' k'
  assume run: "delete_kind cli ns sel kind c = Some (err, c')" and k': "k' \<notin> ks"
  show "store c' k' = store c k'"
  proof (cases "k_List cli kind ns sel c")
    case (Inl e)
    with run show ?thesis by (auto simp: delete_kind_def fails_def ok_def split: if_splits)
  next
    case (Inr items)
    have "key_of item \<in> ks" if item: "item \<in> set items" for item
      using listed_key [OF assms(1) Inr item] assms(2) by auto
    then have "only_writes store ks (each (delete_item cli) items)"
      unfolding delete_item_def by (intro only_writes_each only_writes_delete [OF assms(1)])
    with run Inr k' show ?thesis by (auto simp: delete_kind_def dest: only_writesD)
  qed
qed

lemma only_writes_scale_to_zero:
  assumes "documented cli store" "revision_key (rrv_Namespace p) (rrv_Tag p) \<in> ks"
  shows "only_writes store ks (scale_to_zero cli p)"
proof (unfold only_writes_def, intro allI impI)
  fix c err c' k'
  assume run: "scale_to_zero cli p c = Some (err, c')" and k': "k' \<notin> ks"
  show "store c' k' = store c k'"
  proof (cases "k_Get cli (revision_key (rrv_Namespace p) (rrv_Tag p)) c")
    case (Inl e)
    with run show ?thesis by (auto simp: scale_to_zero_def revision_key_def fails_def ok_def split: if_splits)
  next
    case (Inr rs)
    have "key_of (set_body (ReplicaSetBody s) rs) \<in> ks" if "ko_Body rs = ReplicaSetBody t" for s t
      using Get_key(2) [OF assms(1) Inr] assms(2) that by (auto simp: key_of_def)
    from only_writesD [OF only_writes_Update [OF assms(1) this] _ k'] run Inr show ?thesis
      by (auto simp: scale_to_zero_def revision_key_def ok_def split: Body.splits option.splits if_splits)
  qed
qed

lemma EnsureWaypoint_error:
  assumes "documented cli store" "EnsureWaypoint_Apply cli ns c = Some (Some e, c')"
  shows "store c' = store c"
  using assms(2) Create_cases [OF assms(1), where obj = "waypoint_gateway ns" and c = c]
    Update_cases [OF assms(1), where c = c]
  by (fastforce simp: EnsureWaypoint_Apply_def fails_def ok_def total_def split: sum.splits if_splits prod.splits)

lemma only_writes_waypoint:
  assumes "documented cli store"
  shows "only_writes store {waypoint_key ns} (EnsureWaypoint_Apply cli ns)"
proof (unfold only_writes_def, intro allI impI)
  fix c err c' k
  assume run: "EnsureWaypoint_Apply cli ns c = Some (err, c')" and k: "k \<notin> {waypoint_key ns}"
  then show "store c' k = store c k"
    using EnsureWaypoint_success [OF assms] EnsureWaypoint_error [OF assms] by (cases err) (blast, simp)
qed

lemma only_writes_wrapped: "only_writes store ks f \<Longrightarrow> only_writes store ks (wrapped m f)"
  by (fastforce simp: only_writes_def wrapped_def split: option.splits prod.splits)

section \<open>The frame of every plan\<close>

lemma in_of_kinds [simp]: "k \<in> of_kinds kinds \<longleftrightarrow> key_Kind k \<in> set kinds"
  by (simp add: of_kinds_def)

lemma key_to_in_kinds: "kind_of (ko_Body obj) \<in> set kinds \<Longrightarrow> key_to obj \<in> of_kinds kinds"
  by (simp add: kind_key_to)

lemma Scale_frame:
  assumes "documented cli store"
  shows "only_writes store (of_kinds [KHPA, KWPA, KScaledObject, KTriggerAuthentication, KConfigMap, KDatadogMetric])
    (ScaleRevision_Apply cli cluster p)"
proof -
  let ?ks = "of_kinds [KHPA, KWPA, KScaledObject, KTriggerAuthentication, KConfigMap, KDatadogMetric]"
  note cou = only_writes_CreateOrUpdate [OF assms key_to_in_kinds]
  have gone: "only_writes store ?ks (total (DeleteIfExists cli (hpa_key p)))"
    by (rule only_writes_DeleteIfExists [OF assms]) (simp add: hpa_key_def)
  have "only_writes store ?ks (applyKeda cli cluster p k mn mx b)" for k mn mx b
    by (auto simp: applyKeda_def datadogMetric_def keda_of_def intro!: only_writes_then cou
      split: option.splits prod.splits)
  moreover have "only_writes store ?ks (applyKedaTriggerAuth cli p k)" for k
    by (auto simp: applyKedaTriggerAuth_def Let_def datadogConfigMap_def triggerAuth_def intro!: only_writes_then cou)
  moreover have "only_writes store ?ks (applyAmbientKeda cli p r mn mx b)" for r mn mx b
    by (auto simp: applyAmbientKeda_def ambient_keda_def intro!: cou split: prod.splits)
  moreover have "only_writes store ?ks (applyHPA cli p mn mx)" "only_writes store ?ks (deleteHPA cli p)"
    "only_writes store ?ks (applyWPA cli p w mn mx)" for mn mx w
    by (auto simp: applyHPA_def deleteHPA_def applyWPA_def hpa_of_def wpa_of_def intro!: cou gone)
  ultimately show ?thesis using gone
    by (auto simp: ScaleRevision_Apply_def Let_def intro!: only_writes_then split: option.split)
qed

lemma SyncRevision_frame:
  assumes "documented cli store"
  shows "only_writes store (insert (revision_key (srv_Namespace p) (srv_Tag p)) pod_kinds)
    (SyncRevision_Apply cli cluster p)"
proof -
  let ?ks = "insert (revision_key (srv_Namespace p) (srv_Tag p)) pod_kinds"
  note pods = only_writes_mono [OF only_writes_CreateOrUpdate [OF assms key_to_pod_kinds] subset_insertI]
  have "only_writes store ?ks (patchServiceAccount cli p)"
    by (rule only_writes_mono [OF only_writes_patch [OF assms] subset_insertI])
  moreover have "only_writes store ?ks (syncPodDisruptionBudget cli p)"
    unfolding syncPodDisruptionBudget_def by (rule pods) (simp add: podDisruptionBudget_def Let_def)
  moreover have "only_writes store ?ks (CreateOrUpdate cli (object_of_config p config))" for config
    by (rule pods) (use kind_of_config [of p config] in auto)
  moreover have "only_writes store ?ks (CreateOrUpdate cli (object_of_external p xs))" for xs
    by (rule pods) (simp add: object_of_external_def)
  moreover have "only_writes store ?ks (syncReplicaSet cli p f ls es)" for f ls es
    unfolding syncReplicaSet_def by (rule only_writes_CreateOrUpdate [OF assms]) simp
  ultimately show ?thesis
    by (auto simp: SyncRevision_Apply_def intro!: only_writes_then only_writes_each split: option.split)
qed

lemma SyncApp_frame:
  assumes "documented cli store"
  shows "only_writes store (of_kinds [KService, KSidecar, KDestinationRule, KPrometheusRule, KVirtualService])
    (SyncApp_Apply tmpl cli cluster p)"
proof -
  let ?ks = "of_kinds [KService, KSidecar, KDestinationRule, KPrometheusRule, KVirtualService]"
  note cou = only_writes_CreateOrUpdate [OF assms key_to_in_kinds]
  have first: "only_writes store ?ks (CreateOrUpdate cli (service p))"
    "only_writes store ?ks (CreateOrUpdate cli (destinationRule p))"
    "only_writes store ?ks (CreateOrUpdate cli (prometheusRule p))"
    by (auto simp: service_def destinationRule_def prometheusRule_def Let_def intro!: cou)
  have side: "only_writes store ?ks (case sidecarResource p of None \<Rightarrow> ok | Some s \<Rightarrow> CreateOrUpdate cli s)"
    by (auto simp: sidecarResource_def intro!: cou split: option.split)
  let ?vs = "case virtualService tmpl p cluster of None \<Rightarrow> (\<lambda>c. None) | Some None \<Rightarrow> ok
    | Some (Some vs) \<Rightarrow> CreateOrUpdate cli vs"
  have vs: "only_writes store ?ks ?vs"
    by (auto simp: only_writes_def [of _ _ "\<lambda>c. None"] dest!: virtualService_body intro!: cou split: option.split)
  have "only_writes store ?ks (\<lambda>c. case k_Delete cli (key_of (prometheusRule p)) c of (None, c') \<Rightarrow> ?vs c'
    | (Some e, c') \<Rightarrow> if e \<noteq> NotFound then ok c' else ?vs c')"
  proof (unfold only_writes_def, intro allI impI)
    fix c err c' k
    assume run: "(case k_Delete cli (key_of (prometheusRule p)) c of (None, c') \<Rightarrow> ?vs c'
      | (Some e, c') \<Rightarrow> if e \<noteq> NotFound then ok c' else ?vs c') = Some (err, c')" and k: "k \<notin> ?ks"
    obtain e c1 where d: "k_Delete cli (key_of (prometheusRule p)) c = (e, c1)" by fastforce
    have "k \<noteq> key_of (prometheusRule p)" using k by (auto simp: prometheusRule_def)
    then have "store c1 k = store c k"
      using Delete_cases [OF assms, where k = "key_of (prometheusRule p)" and c = c]
      by (cases e) (simp_all add: d)
    with only_writesD [OF vs _ k, of c1 err c'] run show "store c' k = store c k"
      by (auto simp: d ok_def split: option.splits if_splits)
  qed
  with first side vs show ?thesis
    unfolding SyncApp_Apply_def Let_def by (simp only: split: if_split) (blast intro: only_writes_then)
qed

lemma Plan_frame:
  assumes "documented cli store"
  shows "only_writes store (of_kinds (plan_kinds plan)) (Plan_Apply env cli cluster plan)"
proof (induction plan)
  case (All ps)
  show ?case unfolding Plan_Apply.simps
    by (intro only_writes_each only_writes_mono [OF All]) (auto simp: of_kinds_def)
next
  case (PlanSyncRevision p)
  show ?case unfolding Plan_Apply.simps
    by (rule only_writes_mono [OF SyncRevision_frame [OF assms]]) (auto simp: of_kinds_def pod_kinds_def revision_key_def)
next
  case (PlanEnsureServiceAccount p)
  have "only_writes store (of_kinds [KSecret, KServiceAccount])
    (then_do (CreateOrUpdate cli (service_token p)) (CreateOrUpdate cli (service_account p as)))" for as
    by (intro only_writes_then only_writes_CreateOrUpdate [OF assms] key_to_in_kinds)
      (simp_all add: service_token_def service_account_def)
  from only_writesD [OF this] show ?case
    by (auto simp: only_writes_def EnsureServiceAccount_Apply_def Let_def fails_def split: sum.splits if_splits)
qed (use assms in \<open>auto simp: SyncApp_frame Scale_frame
    DeleteApp_Apply_def DeleteCanaryRules_Apply_def DeleteRevision_Apply_def DeleteSLORules_Apply_def
    DeleteServiceLevels_Apply_def DeleteServiceMonitors_Apply_def DeleteTaggedServiceLevels_Apply_def
    EnsureNamespace_Apply_def EnsureWaypointOptions_Apply_def EnsureWaypointHPA_Apply_def
    EnsureWaypointPDB_Apply_def EnsureRBAC_Apply_def RetireRevision_Apply_def deleteWPA_def deleteKEDA_def
    deleteAuthKEDA_def SyncCanaryRules_Apply_def SyncSLORules_Apply_def SyncServiceLevels_Apply_def
    SyncServiceMonitors_Apply_def DeleteWaypoint_Apply_def DeleteWaypointOptions_Apply_def
    DeleteWaypointPDB_Apply_def DeleteWaypointHPA_Apply_def namespace_key_def namespace_of_def waypoint_options_def
    waypoint_hpa_def waypoint_pdb_def role_of_def roleBinding_of_def SLORules_def canary_prometheusRules_def
    serviceLevels_def serviceMonitors_def serviceMonitor_def waypoint_key_def revision_key_def Let_def
    intro!: only_writes_then only_writes_each only_writes_CreateOrUpdate only_writes_DeleteIfExists
      only_writes_listed only_writes_kind only_writes_tolerant only_writes_scale_to_zero only_writes_wrapped
      only_writes_mono [OF only_writes_waypoint] key_to_in_kinds
    split: option.split sum.splits if_splits prod.splits\<close>)

section \<open>The clusters in which a plan cannot panic\<close>

text \<open>
  Two plans can panic: that of an application, on a fault without a port, and the retirement of a revision, on
  a replica set without a size. A replica set has one but for those of workers, whose size is left to the API
  server when they are created.
\<close>

fun leaves :: "Plan \<Rightarrow> Plan list" where
  "leaves (All ps) = List.concat (map leaves ps)"
| "leaves p = [p]"

definition retired_key :: "RetireRevision \<Rightarrow> Key" where
  "retired_key p = revision_key (rrv_Namespace p) (rrv_Tag p)"

fun leaves_size :: "Key \<Rightarrow> Plan \<Rightarrow> bool" where
  "leaves_size k (PlanSyncRevision q) \<longleftrightarrow> k \<noteq> revision_key (srv_Namespace q) (srv_Tag q) \<or> \<not> worker_scaled q"
| "leaves_size k _ \<longleftrightarrow> True"

fun safe_leaf :: "store \<Rightarrow> Plan list \<Rightarrow> Plan \<Rightarrow> bool" where
  "safe_leaf s ps (PlanSyncApp p) \<longleftrightarrow> list_all (\<lambda>f. hf_PortSelector f \<noteq> None) (sap_HTTPPortFaults p)"
| "safe_leaf s ps (PlanRetireRevision p) \<longleftrightarrow> sized_at s (retired_key p) \<and> list_all (leaves_size (retired_key p)) ps"
| "safe_leaf s ps _ \<longleftrightarrow> True"

definition safe_plan :: "store \<Rightarrow> Plan \<Rightarrow> bool" where
  "safe_plan s plan \<longleftrightarrow> list_all (safe_leaf s (leaves plan)) (leaves plan)"

lemma size_replicaSet:
  assumes "documented cli store" "key_Kind k = KReplicaSet" "leaves_size k (PlanSyncRevision q)"
  shows "store_keeps store (\<lambda>s. sized_at s k) (SyncRevision_Apply cli cluster q)"
proof (cases "k = revision_key (srv_Namespace q) (srv_Tag q)")
  case True
  then have k: "k \<notin> pod_kinds" using revision_key_kind by simp
  have pods: "store_keeps store (\<lambda>s. sized_at s k) f" if "only_writes store pod_kinds f" for f
    using that by (rule store_keeps_frame) (use k in \<open>simp add: sized_at_def\<close>)
  note cou = only_writes_CreateOrUpdate [OF assms(1) key_to_pod_kinds]
  have rs: "store_keeps store (\<lambda>s. sized_at s k) (syncReplicaSet cli q f ls es)" for f ls es
    unfolding syncReplicaSet_def
  proof (rule store_keeps_CreateOrUpdate [OF assms(1)])
    fix s obj g new
    assume s: "sized_at s k" and g: "cases_of (replicaSet_of q f ls es) = Some (obj, g)" "g (held s obj) = Some new"
    let ?rs = "replicaSet_of q f ls es"
    obtain t where t: "ko_Body ?rs = ReplicaSetBody t" "rset_Replicas t \<noteq> None" by (simp add: replicaSet_of_def)
    then have obj: "obj = fresh ?rs None (annotations_of ?rs)" "g = unless_ignored (mutate_ReplicaSet t ?rs)"
      using g(1) by (simp_all add: cases_of_def case_ReplicaSet_def)
    have k': "key_of obj = k" using cases_of_key [OF g(1)] True by simp
    have "sized_at (s(k \<mapsto> new)) k"
    proof (cases "isIgnored (ko_Meta (held s obj))")
      case True
      have "\<not> isIgnored (ko_Meta obj)" by (simp add: obj(1) fresh_def isIgnored_def)
      with True k' have "s k = Some (held s obj)" by (auto simp: held_def split: option.splits)
      moreover have "new = held s obj" using g(2) True by (simp add: obj(2) unless_ignored_def)
      ultimately show ?thesis using s by (simp add: sized_at_def)
    next
      case False
      have "mget (annotations_of ?rs) AnnotationAutoscaler \<noteq> AutoscalerTypeWPA"
        using assms(3) True mget_autoscaler [of q f ls es] by simp
      then show ?thesis using g(2) False t(2)
        by (auto simp: obj(2) unless_ignored_def mutate_ReplicaSet_def sync_replicas_def Let_def sized_at_def
          split: Body.splits option.splits)
    qed
    then show "sized_at (s(key_to (replicaSet_of q f ls es) \<mapsto> new)) k" by (simp add: True)
  qed
  have "store_keeps store (\<lambda>s. sized_at s k) (patchServiceAccount cli q)"
    by (rule pods [OF only_writes_patch [OF assms(1)]])
  moreover have "store_keeps store (\<lambda>s. sized_at s k) (syncPodDisruptionBudget cli q)"
    unfolding syncPodDisruptionBudget_def by (rule pods, rule cou) (simp add: podDisruptionBudget_def Let_def)
  moreover have "store_keeps store (\<lambda>s. sized_at s k) (CreateOrUpdate cli (object_of_config q config))" for config
    by (rule pods, rule cou) (use kind_of_config [of q config] in auto)
  moreover have "store_keeps store (\<lambda>s. sized_at s k) (CreateOrUpdate cli (object_of_external q xs))" for xs
    by (rule pods, rule cou) (simp add: object_of_external_def)
  ultimately show ?thesis using rs
    by (auto simp: SyncRevision_Apply_def intro!: store_keeps_then store_keeps_each split: option.split)
next
  case False
  then have "k \<notin> insert (revision_key (srv_Namespace q) (srv_Tag q)) pod_kinds"
    using assms(2) by (auto simp: pod_kinds_def)
  then show ?thesis by (intro store_keeps_frame [OF SyncRevision_frame [OF assms(1)]]) (simp add: sized_at_def)
qed

lemma store_keeps_delete:
  assumes "documented cli store" "\<And>s k. P s \<Longrightarrow> P (s(k := None))"
  shows "store_keeps store P (total (k_Delete cli k))"
proof (unfold store_keeps_def, intro allI impI)
  fix c err c'
  assume "total (k_Delete cli k) c = Some (err, c')" "P (store c)"
  with Delete_cases [OF assms(1), where k = k and c = c] assms(2) show "P (store c')"
    by (auto simp: total_def split: option.splits)
qed

lemma sized_without: "sized_at s k \<Longrightarrow> sized_at (s(k' := None)) k"
  by (simp add: sized_at_def)

lemma size_DeleteRevision:
  assumes "documented cli store"
  shows "store_keeps store (\<lambda>s. sized_at s k) (DeleteRevision_Apply cli p)"
proof -
  have "store_keeps store (\<lambda>s. sized_at s k) (each (delete_item cli) items)" for items
    unfolding delete_item_def
    by (intro store_keeps_each store_keeps_delete [OF assms] sized_without)
  then have "store_keeps store (\<lambda>s. sized_at s k) (delete_kind cli ns sel kind)" for ns sel kind
    by (auto simp: store_keeps_def delete_kind_def ok_def fails_def split: sum.splits if_splits)
  then show ?thesis unfolding DeleteRevision_Apply_def by (intro store_keeps_each)
qed

lemma size_RetireRevision:
  assumes "documented cli store"
  shows "store_keeps store (\<lambda>s. sized_at s k) (RetireRevision_Apply cli p)"
proof -
  have "store_keeps store (\<lambda>s. sized_at s k) (delete_tolerant cli kind ns n)" for kind ns n
    using delete_tolerant_sized [OF assms] by (auto simp: store_keeps_def)
  moreover have "store_keeps store (\<lambda>s. sized_at s k) (scale_to_zero cli p)"
  proof (unfold store_keeps_def, intro allI impI)
    fix c err c'
    assume run: "scale_to_zero cli p c = Some (err, c')" and c: "sized_at (store c) k"
    have "sized_at (store c1) k" if "total (k_Update cli (set_body (ReplicaSetBody (s\<lparr>rset_Replicas := Some 0\<rparr>)) rs)) c = Some (e, c1)"
      for s rs e c1
      using that c Update_cases [OF assms, where obj = "set_body (ReplicaSetBody (s\<lparr>rset_Replicas := Some 0\<rparr>)) rs" and c = c]
      by (auto simp: total_def sized_at_def split: option.splits if_splits)
    with run c show "sized_at (store c') k"
      by (auto simp: scale_to_zero_def ok_def fails_def split: sum.splits Body.splits option.splits if_splits)
  qed
  ultimately show ?thesis unfolding RetireRevision_Apply_def deleteWPA_def deleteKEDA_def deleteAuthKEDA_def
    by (intro store_keeps_then)
qed

lemma Plan_keeps_size:
  assumes "documented cli store" "key_Kind k = KReplicaSet" "list_all (leaves_size k) (leaves plan)"
  shows "store_keeps store (\<lambda>s. sized_at s k) (Plan_Apply env cli cluster plan)"
proof -
  have frame: "store_keeps store (\<lambda>s. sized_at s k) (Plan_Apply env cli cluster p)"
    if "KReplicaSet \<notin> set (plan_kinds p)" for p
    by (rule store_keeps_frame [OF Plan_frame [OF assms(1)]]) (use that assms(2) in \<open>simp add: sized_at_def\<close>)
  show ?thesis using assms(3)
  proof (induction plan)
    case (All ps)
    then show ?case unfolding Plan_Apply.simps by (intro store_keeps_each) (simp add: list_all_iff)
  next
    case (PlanSyncRevision q)
    then show ?case using size_replicaSet [OF assms(1,2), of q] by simp
  next
    case (PlanDeleteRevision p)
    show ?case using size_DeleteRevision [OF assms(1)] by simp
  next
    case (PlanRetireRevision p)
    show ?case using size_RetireRevision [OF assms(1)] by simp
  qed (rule frame, simp)+
qed

lemma each_total:
  assumes "\<And>x c. x \<in> set xs \<Longrightarrow> I c \<Longrightarrow> f x c \<noteq> None" "\<And>x c e c'. x \<in> set xs \<Longrightarrow> I c \<Longrightarrow> f x c = Some (e, c') \<Longrightarrow> I c'"
    and "I c"
  shows "each f xs c \<noteq> None"
  using assms
proof (induction xs arbitrary: c)
  case (Cons x xs)
  obtain e c1 where x: "f x c = Some (e, c1)" using Cons.prems(1) [of x c] Cons.prems(3) by auto
  have "I c1" by (rule Cons.prems(2) [OF _ Cons.prems(3) x]) simp
  moreover have "f y c \<noteq> None" if "y \<in> set xs" "I c" for y c
    using that Cons.prems(1) [of y c] by (simp del: not_None_eq)
  moreover have "I c'" if "y \<in> set xs" "I c" "f y c = Some (e, c')" for y c e c'
    by (rule Cons.prems(2) [OF _ that(2,3)]) (simp add: that(1))
  ultimately have "each f xs c1 \<noteq> None" by (intro Cons.IH)
  then show ?case by (simp add: x then_do_def split: option.split)
qed (simp add: ok_def)

lemma safe_leaves_total:
  assumes "documented cli store" "list_all (safe_leaf s ps) (leaves plan)" "set (leaves plan) \<subseteq> set ps"
    and "\<And>p. PlanRetireRevision p \<in> set (leaves plan) \<Longrightarrow> sized_at (store c) (retired_key p)"
  shows "Plan_Apply env cli cluster plan c \<noteq> None"
proof -
  have always: "Plan_Apply env cli cluster p c \<noteq> None" if "unconditional p" for p c
    using Plan_never_panics [OF assms(1) that] unfolding never_panics_def by blast
  show ?thesis using assms(2-)
  proof (induction plan arbitrary: c)
    case (All qs)
    let ?I = "\<lambda>c. \<forall>p. PlanRetireRevision p \<in> set (leaves (All qs)) \<longrightarrow> sized_at (store c) (retired_key p)"
    have kept: "?I c'" if q: "q \<in> set qs" and c: "?I c" "Plan_Apply env cli cluster q c = Some (e, c')" for q c e c'
    proof (intro allI impI)
      fix p
      assume p: "PlanRetireRevision p \<in> set (leaves (All qs))"
      then have "safe_leaf s ps (PlanRetireRevision p)" using All.prems(1) unfolding list_all_iff by (rule bspec [rotated])
      then have "list_all (leaves_size (retired_key p)) (leaves q)"
        using All.prems(2) q by (auto simp: list_all_iff)
      from Plan_keeps_size [OF assms(1) _ this] c p show "sized_at (store c') (retired_key p)"
        by (auto simp: store_keeps_def retired_key_def revision_key_def)
    qed
    have "Plan_Apply env cli cluster q c \<noteq> None" if q: "q \<in> set qs" and c: "?I c" for q c
      by (rule All.IH [OF q]) (use All.prems(1,2) q c in \<open>auto simp: list_all_iff\<close>)
    from each_total [of qs ?I, OF this kept] All.prems(3) show ?case by auto
  next
    case (PlanRetireRevision p)
    then show ?case using RetireRevision_total [OF assms(1), of c p] by (simp add: retired_key_def)
  next
    case (PlanSyncApp p)
    then show ?case using SyncApp_never_panics [OF assms(1)] by (simp add: never_panics_def del: not_None_eq)
  qed (rule always, simp)+
qed

lemma safe_plan_total:
  assumes "documented cli store" "safe_plan (store c) plan"
  shows "Plan_Apply env cli cluster plan c \<noteq> None"
proof (rule safe_leaves_total [OF assms(1) assms(2) [unfolded safe_plan_def] subset_refl])
  show "sized_at (store c) (retired_key p)" if "PlanRetireRevision p \<in> set (leaves plan)" for p
    using that assms(2) by (force simp: safe_plan_def list_all_iff)
qed

section \<open>The bounds of the autoscalers a plan writes\<close>

definition sound_autoscaler :: "bool \<Rightarrow> KubeObj \<Rightarrow> bool" where
  "sound_autoscaler off obj \<longleftrightarrow>
     (\<exists>mn mx. autoscaler_bounds (ko_Body obj) = Some (mn, mx) \<and> 0 \<le> mn \<and> mn \<le> mx) \<and> (off \<longrightarrow> paused_at_zero obj)"

text \<open>The autoscalers of a store are those of another, or to be ignored, or sound.\<close>

definition only_sound :: "store \<Rightarrow> bool \<Rightarrow> store \<Rightarrow> bool" where
  "only_sound s0 off s \<longleftrightarrow> (\<forall>k obj. s k = Some obj \<longrightarrow> key_Kind k \<in> {KHPA, KWPA, KScaledObject} \<longrightarrow>
     s0 k = Some obj \<or> isIgnored (ko_Meta obj) \<or> sound_autoscaler off obj)"

definition autoscaler :: "KubeObj \<Rightarrow> bool" where
  "autoscaler obj \<longleftrightarrow> (case ko_Body obj of HPABody h \<Rightarrow> annotations_of obj = None
     | WPABody w \<Rightarrow> annotations_of obj = None | ScaledObjectBody k \<Rightarrow> True | _ \<Rightarrow> False)"

lemma sound_assigned:
  assumes "autoscaler typed" "sound_autoscaler off typed" "cases_of typed = Some (obj, f)"
    and "f cur = Some new" "\<not> isIgnored (ko_Meta cur)"
  shows "sound_autoscaler off new"
  using assms
  by (cases "ko_Body typed") (auto simp: autoscaler_def sound_autoscaler_def cases_of_def case_HPA_def case_WPA_def
    case_ScaledObject_def assign_spec_def unless_ignored_def paused_at_zero_def sync_pause_def
    split: option.splits)

lemma only_sound_written:
  assumes "documented cli store" "autoscaler typed" "sound_autoscaler off typed"
  shows "store_keeps store (only_sound s0 off) (CreateOrUpdate cli typed)"
proof (rule store_keeps_CreateOrUpdate [OF assms(1)])
  fix s obj f new
  assume s: "only_sound s0 off s" and f: "cases_of typed = Some (obj, f)" "f (held s obj) = Some new"
  have key: "key_of obj = key_to typed" by (rule cases_of_key [OF f(1)])
  show "only_sound s0 off (s(key_to typed \<mapsto> new))"
  proof (cases "isIgnored (ko_Meta (held s obj))")
    case True
    then have "new = held s obj" using cases_of_ignored [OF f(1)] f(2) by simp
    with s True show ?thesis by (auto simp: only_sound_def)
  next
    case False
    with s sound_assigned [OF assms(2,3) f(1,2)] show ?thesis by (auto simp: only_sound_def)
  qed
qed

lemma only_sound_other:
  assumes "only_writes store {k. key_Kind k \<notin> {KHPA, KWPA, KScaledObject}} f"
  shows "store_keeps store (only_sound s0 off) f"
proof (rule store_keeps_frame [OF assms])
  fix s s' :: store
  assume same: "\<And>k. k \<notin> {k. key_Kind k \<notin> {KHPA, KWPA, KScaledObject}} \<Longrightarrow> s' k = s k" and s: "only_sound s0 off s"
  show "only_sound s0 off s'"
  proof (unfold only_sound_def, intro allI impI)
    fix k obj
    assume "s' k = Some obj" and k: "key_Kind k \<in> {KHPA, KWPA, KScaledObject}"
    then have "s k = Some obj" using same [of k] by simp
    with s k show "s0 k = Some obj \<or> isIgnored (ko_Meta obj) \<or> sound_autoscaler off obj"
      unfolding only_sound_def by blast
  qed
qed

lemma only_sound_deleted:
  assumes "documented cli store"
  shows "store_keeps store (only_sound s0 off) (total (DeleteIfExists cli k))"
proof (unfold store_keeps_def, intro allI impI)
  fix c err c'
  assume "total (DeleteIfExists cli k) c = Some (err, c')" "only_sound s0 off (store c)"
  with Delete_cases [OF assms, where k = k and c = c] show "only_sound s0 off (store c')"
    by (auto simp: total_def DeleteIfExists_def only_sound_def split: prod.splits option.splits if_splits)
qed

lemma ScaleRevision_sound:
  assumes "documented cli store" "scalingFactor_of cluster = Some factor"
    and "0 \<le> scr_Min p" "scr_Max p < 2 ^ 31" "scr_Min p < 2 ^ 31" "0 \<le> factor"
    and "math_Ceil (fmul (float_of_int (max (scr_Min p) (scr_Max p))) factor) < 2 ^ 31"
  shows "store_keeps store (only_sound s0 (cs_DisableEventDriven (cl_Spec cluster) \<and> scr_EventDriven p))
    (ScaleRevision_Apply cli cluster p)"
proof -
  let ?off = "cs_DisableEventDriven (cl_Spec cluster) \<and> scr_EventDriven p"
  let ?mn = "scaled (scr_Min p) factor" and ?mx = "scaled (max (scr_Min p) (scr_Max p)) factor"
  have s: "0 \<le> ?mn \<and> ?mn \<le> ?mx" by (rule scaled_mono) (use assms in simp_all)
  then have mx: "0 \<le> ?mx" by linarith
  have clamp: "(if scr_Min p > scr_Max p then scr_Min p else scr_Max p) = max (scr_Min p) (scr_Max p)"
    by (simp add: max_def)
  note written = only_sound_written [OF assms(1)]
  note gone = only_sound_deleted [OF assms(1)]
  have other: "store_keeps store (only_sound s0 off) (CreateOrUpdate cli obj)"
    if "kind_of (ko_Body obj) \<in> {KConfigMap, KTriggerAuthentication, KDatadogMetric}" for obj off
    by (rule only_sound_other, rule only_writes_CreateOrUpdate [OF assms(1)]) (use that in \<open>auto simp: kind_key_to\<close>)
  have keda: "store_keeps store (only_sound s0 ?off) (applyKeda cli cluster p k ?mn ?mx ?off)" for k
    unfolding applyKeda_def
  proof (intro store_keeps_then written)
    show "store_keeps store (only_sound s0 ?off) (case (scr_RequestsRateTarget p, datadogMetric p cluster) of
        (Some _, Some m) \<Rightarrow> CreateOrUpdate cli m | _ \<Rightarrow> ok)"
      by (auto simp: datadogMetric_def intro!: other split: option.split)
    show "autoscaler (keda_of p k ?mn ?mx ?off)" "sound_autoscaler ?off (keda_of p k ?mn ?mx ?off)"
      using s mx by (auto simp: keda_of_def kedaDisabledSettings_def autoscaler_def sound_autoscaler_def paused_at_zero_def)
  qed
  have auth: "store_keeps store (only_sound s0 off) (applyKedaTriggerAuth cli p k)" for k off
    by (auto simp: applyKedaTriggerAuth_def Let_def datadogConfigMap_def triggerAuth_def
      intro!: store_keeps_then other)
  have ambient: "store_keeps store (only_sound s0 ?off) (applyAmbientKeda cli p r ?mn ?mx ?off)" for r
    using s mx
    by (auto simp: applyAmbientKeda_def ambient_keda_def kedaDisabledSettings_def autoscaler_def
      sound_autoscaler_def paused_at_zero_def intro!: written)
  have wpa: "store_keeps store (only_sound s0 off) (applyWPA cli p w mn mx)"
    if "0 \<le> mn" "mn \<le> mx" "off \<longrightarrow> mn = 0 \<and> mx = 0" for w mn mx off
    using that by (auto simp: applyWPA_def wpa_of_def autoscaler_def sound_autoscaler_def paused_at_zero_def
      named_def zero_ObjectMeta_def intro!: written)
  have hpa: "store_keeps store (only_sound s0 False) (applyHPA cli p ?mn ?mx)"
    using s by (auto simp: applyHPA_def hpa_of_def autoscaler_def sound_autoscaler_def named_def zero_ObjectMeta_def
      intro!: written gone)
  show ?thesis using keda auth ambient wpa hpa gone s
    by (auto simp: ScaleRevision_Apply_def assms(2) clamp Let_def deleteHPA_def intro!: store_keeps_then
      split: option.split)
qed

end
