(* ===== verification/Sync_Invariant.thy ===== *)
theory Sync_Invariant
  imports Reconcile
begin

text \<open>
  The invariants of the collection over a whole reconciliation, each kept by every step of \<^verbatim>\<open>sync\<close>, whether the
  step fails or not: what the division of the traffic asks of it (\<open>sound_collection\<close>), and that all of its
  percentages together are at most all of the traffic (\<open>fair_collection\<close>).
\<close>

section \<open>What a tick keeps\<close>

text \<open>A property of the world that the calls and \<^verbatim>\<open>setState\<close> keep is kept by a tick.\<close>

definition call_keeps :: "('w \<Rightarrow> bool) \<Rightarrow> ('w \<Rightarrow> (goerror option \<times> 'w) option) \<Rightarrow> bool" where
  "call_keeps P f \<longleftrightarrow> (\<forall>w err w'. P w \<longrightarrow> f w = Some (err, w') \<longrightarrow> P w')"

definition outcome_keeps :: "('w \<Rightarrow> bool) \<Rightarrow> 'w outcome \<Rightarrow> bool" where
  "outcome_keeps P r \<longleftrightarrow> (\<forall>s err w'. r = Some (s, err, w') \<longrightarrow> P w')"

lemma outcome_keeps_simps [simp]:
  "outcome_keeps P None" "outcome_keeps P (Some (s, err, w)) = P w"
  by (simp_all add: outcome_keeps_def)

lemma call_keepsD: "call_keeps P f \<Longrightarrow> P w \<Longrightarrow> f w = Some (err, w') \<Longrightarrow> P w'"
  unfolding call_keeps_def by blast

lemma outcome_keeps_call:
  assumes "call_keeps P f" "P w" "\<And>w'. P w' \<Longrightarrow> outcome_keeps P (rest w')"
  shows "outcome_keeps P (call_or f s rest w)"
proof (cases "f w")
  case (Some r)
  obtain err w1 where r: "f w = Some (err, w1)" using Some by (cases r) simp
  have "P w1" using call_keepsD [OF assms(1,2) r] .
  then show ?thesis using assms(3) by (cases err) (simp_all add: call_or_def r)
qed (simp add: call_or_def)

lemma outcome_keeps_return:
  assumes "call_keeps P f" "P w"
  shows "outcome_keeps P (return_call s f w)"
proof (cases "f w")
  case (Some r)
  obtain err w1 where r: "f w = Some (err, w1)" using Some by (cases r) simp
  show ?thesis using call_keepsD [OF assms r] by (simp add: return_call_def r)
qed (simp add: return_call_def)

definition calls_keep :: "('w \<Rightarrow> bool) \<Rightarrow> 'w Deployment \<Rightarrow> bool" where
  "calls_keep P d \<longleftrightarrow> list_all (call_keeps P) [d_sync d, d_retire d, d_del d, d_syncCanaryRules d,
     d_deleteCanaryRules d, d_deleteTaggedServiceLevels d]"

lemma handler_keeps:
  assumes "calls_keep P d" "P w" "handlers s = Some h"
  shows "outcome_keeps P (h d now lu w)"
proof -
  have c: "call_keeps P (d_sync d)" "call_keeps P (d_retire d)" "call_keeps P (d_del d)"
    "call_keeps P (d_syncCanaryRules d)" "call_keeps P (d_deleteCanaryRules d)"
    "call_keeps P (d_deleteTaggedServiceLevels d)"
    using assms(1) by (simp_all add: calls_keep_def)
  show ?thesis using assms(2,3)
    by (cases s) (auto simp: handler_defs Let_def intro!: outcome_keeps_call outcome_keeps_return c
      split: ExternalTestStatus.split Option.bind_split)
qed

lemma tick_keeps:
  assumes "calls_keep P d" "\<And>s w. P w \<Longrightarrow> P (d_setState d s w)" "P w" "tick d now lu w = Some (err, w')"
  shows "P w'"
proof -
  obtain h s e w1 where h: "handlers (current d w) = Some h" "h d now lu w = Some (s, e, w1)"
    and w': "(case e of Some e \<Rightarrow> (Some e, w1) | None \<Rightarrow> (None, d_setState d s w1)) = (err, w')"
    using assms(4) by (auto simp: tick_def split: Option.bind_splits option.splits)
  from handler_keeps [OF assms(1,3) h(1), of now lu] h(2) have "P w1" by (simp add: outcome_keeps_def)
  with w' assms(2) show ?thesis by (auto split: option.splits)
qed

section \<open>Invariants of the collection\<close>

text \<open>
  What a step other than the division makes of an incarnation: it may lose its traffic, and its targets may get
  other utilization goals.
\<close>

definition evolved :: "ReleaseManager \<Rightarrow> Incarnation \<Rightarrow> Incarnation \<Rightarrow> bool" where
  "evolved rm i j \<longleftrightarrow> inc_tag j = inc_tag i \<and> rs_Tag (inc_status j) = rs_Tag (inc_status i) \<and>
     (inc_revision j = None \<longleftrightarrow> inc_revision i = None) \<and>
     map_option (\<lambda>t. (rt_Release t, rt_Ports t)) (target rm j) = map_option (\<lambda>t. (rt_Release t, rt_Ports t)) (target rm i) \<and>
     (currentPercent j = currentPercent i \<or> currentPercent j = 0)"

lemma evolved_refl [simp]: "evolved rm i i"
  by (simp add: evolved_def)

lemma evolved_trans: "evolved rm i j \<Longrightarrow> evolved rm j k \<Longrightarrow> evolved rm i k"
  by (auto simp: evolved_def)

lemma evolved_status:
  "inc_tag j = inc_tag i \<Longrightarrow> rs_Tag (inc_status j) = rs_Tag (inc_status i) \<Longrightarrow> inc_revision j = inc_revision i \<Longrightarrow>
   currentPercent j = currentPercent i \<or> currentPercent j = 0 \<Longrightarrow> evolved rm i j"
  by (simp add: evolved_def target_def)

lemma evolved_utilization: "evolved rm i (upd_target rm (set_utilization cpu mem) i)"
proof -
  have "inc_revision (upd_target rm f i) = None \<longleftrightarrow> inc_revision i = None" for f
    by (cases "inc_revision i") (simp_all add: upd_target_def)
  then show ?thesis
    by (cases "target rm i") (simp_all add: evolved_def target_set_utilization set_utilization_def currentPercent_def)
qed

lemma evolved_tick:
  assumes "inc_tick x now (i, c) = Some (err, i', c')"
  shows "evolved (x_rm x) i i'"
proof -
  let ?P = "\<lambda>ic. evolved (x_rm x) i (fst ic)"
  have same: "call_keeps ?P f" if "\<And>ic err ic'. f ic = Some (err, ic') \<Longrightarrow> fst ic' = fst ic" for f
    using that by (auto simp: call_keeps_def)
  have "?P ic'" if P: "?P ic" and run: "sync x ic = Some (err, ic')" for ic err ic'
  proof -
    obtain j c j' c' where [simp]: "ic = (j, c)" "ic' = (j', c')" by (cases ic; cases ic')
    from run have "sync x (j, c) = Some (err, j', c')" by simp
    then show ?thesis
    proof (cases rule: sync_cases)
      case (2 p q)
      with P evolved_utilization show ?thesis by (auto dest!: genScalePlan_inc intro: evolved_trans)
    qed (use P in simp)
  qed
  then have sync: "call_keeps ?P (sync x)" unfolding call_keeps_def by blast
  have "call_keeps ?P (retire x)" "call_keeps ?P (del x)" "call_keeps ?P (inc_syncCanaryRules x)"
    "call_keeps ?P (inc_deleteCanaryRules x)" "call_keeps ?P (inc_deleteTaggedServiceLevels x)"
    by (rule same; auto simp: retire_def del_def inc_syncCanaryRules_def inc_deleteCanaryRules_def
      inc_deleteTaggedServiceLevels_def dest: applyPlan_inc split: if_splits Option.bind_splits)+
  with sync have calls: "calls_keep ?P (inc_deployment x now)" by (simp add: calls_keep_def inc_calls)
  have set: "?P (d_setState (inc_deployment x now) s ic)" if "?P ic" for s ic
    unfolding inc_calls fst_conv
    by (rule evolved_trans [OF that], rule evolved_status) (simp_all add: currentPercent_def)
  have start: "?P (i, c)" by simp
  from tick_keeps [OF calls set start assms(1) [unfolded inc_tick_def]] show ?thesis by simp
qed

text \<open>
  An invariant of the collection that these steps and the division keep is kept by a reconciliation, whatever
  it returns.
\<close>

definition holds :: "(ReleaseManager \<Rightarrow> Collection \<Rightarrow> bool) \<Rightarrow> 'c Ctx \<Rightarrow> 'c sync_state \<Rightarrow> bool" where
  "holds P x s \<longleftrightarrow> P (x_rm x) (fst s)"

lemma holds_keeps_incs: "keeps_incs f \<Longrightarrow> keeps (holds P x) f"
  unfolding holds_def by (rule keeps_incs_keeps)

lemma holds_several: "list_all (keeps (holds P x)) fs \<Longrightarrow> keeps (holds P x) (steps fs)"
  by (rule keeps_steps) (simp add: list_all_iff)

text \<open>What the division makes of a collection: no more than all of the traffic, and only percentages change.\<close>

definition divided :: "Collection \<Rightarrow> Collection \<Rightarrow> bool" where
  "divided ic ic' \<longleftrightarrow> ic' = ic \<or> wf_collection ic' \<and> all_alike ic' ic \<and>
     (\<exists>revs. sum_list (map (\<lambda>pr. unat (prv_Weight pr)) revs) \<le> 100 \<and> (\<forall>t. weight_to revs t = unat (pct ic' t)))"

lemma prepareRevisions_divides:
  assumes "prepareRevisions x now ic = Some (revs, ic')" "sound_collection (x_rm x) ic"
  shows "divided ic ic'"
proof (cases "deployed_incs ic = []")
  case False
  from prepareRevisions_total [OF assms(2) False, of now] assms(1)
  have "sum_list (map (\<lambda>pr. unat (prv_Weight pr)) revs) \<le> 100 \<and> (\<forall>t. weight_to revs t = unat (pct ic' t))"
    "wf_collection ic'" "all_alike ic' ic" by auto
  then show ?thesis unfolding divided_def by blast
qed (use assms in \<open>simp add: prepareRevisions_def divided_def\<close>)

locale collection_invariant =
  fixes P :: "ReleaseManager \<Rightarrow> Collection \<Rightarrow> bool"
  assumes sound: "P rm ic \<Longrightarrow> sound_collection rm ic"
    and entries: "P rm ic \<Longrightarrow> (\<And>t i. (t, i) \<in> set ic \<Longrightarrow> evolved rm i (f t i)) \<Longrightarrow>
      P rm (map (\<lambda>(t, i). (t, f t i)) ic)"
    and division: "P rm ic \<Longrightarrow> divided ic ic' \<Longrightarrow> P rm ic'"
begin

lemma kept_tick_tag: "keeps (holds P x) (tick_tag x now tag)"
proof (rule keepsI)
  fix s err s'
  assume s: "holds P x s" "tick_tag x now tag s = Some (err, s')"
  from s(2) obtain i i' c' where t: "map_of (fst s) tag = Some i" "inc_tick x now (i, snd s) = Some (err, i', c')"
    "s' = (modify tag (\<lambda>_. i') (fst s), c')" by (rule tick_tag_cases)
  have "distinct (map fst (fst s))"
    using sound s(1) by (simp add: holds_def sound_collection_def wf_collection_def)
  with t(1) have "j = i" if "(tag, j) \<in> set (fst s)" for j using that by simp
  with evolved_tick [OF t(2)]
  have "evolved (x_rm x) j (if t = tag then i' else j)" if "(t, j) \<in> set (fst s)" for t j
    using that by auto
  with s(1) have "P (x_rm x) (map (\<lambda>(t, j). (t, if t = tag then i' else j)) (fst s))"
    by (intro entries) (simp_all add: holds_def)
  then show "holds P x s'" by (simp add: t(3) holds_def modify_def)
qed

lemma kept_tickIncarnations: "keeps (holds P x) (tickIncarnations x now)"
proof (rule keeps_cases)
  fix s :: "'a sync_state"
  show "\<exists>f. tickIncarnations x now s = f s \<and> keeps (holds P x) f"
    unfolding tickIncarnations_def
    by (intro exI [of _ "steps (map (\<lambda>i. tick_tag x now (inc_tag i)) (sorted_incs (fst s)))"] conjI refl holds_several)
      (simp add: list_all_iff kept_tick_tag)
qed

lemma kept_reportMetrics: "keeps (holds P x) (reportMetrics now)"
proof (rule keepsI)
  fix s :: "'a sync_state" and err s'
  assume s: "holds P x s" "reportMetrics now s = Some (err, s')"
  have "evolved (x_rm x) i (inc_reportMetrics now i)" for i
    by (rule evolved_status) (simp_all add: inc_reportMetrics_def currentPercent_def Let_def)
  with s(1) have "P (x_rm x) (map (\<lambda>(t, i). (t, inc_reportMetrics now i)) (fst s))"
    by (intro entries) (simp_all add: holds_def)
  with s(2) show "holds P x s'" by (auto simp: reportMetrics_def holds_def)
qed

lemma kept_sync_observe: "keeps (holds P x) (sync_observe x now)"
proof (rule keepsI)
  fix s :: "'a sync_state" and err s'
  assume s: "holds P x s" "sync_observe x now s = Some (err, s')"
  have "evolved (x_rm x) i (inc_update ci now di i)" for i ci di
    by (rule evolved_status; cases di) (simp_all add: inc_update_def currentPercent_def Let_def)
  with s(1) have "P (x_rm x) (map (\<lambda>(t, i). (t, inc_update ci now (live_info observation (inc_tag i)) i)) (fst s))"
    for ci observation
    by (intro entries) (simp_all add: holds_def)
  with s show "holds P x s'"
    by (auto simp: sync_observe_def holds_def collection_update_def split: sum.splits)
qed

lemma kept_syncApp: "keeps (holds P x) (syncApp x faults now)"
proof (rule keepsI)
  fix s :: "'a sync_state" and err s'
  assume s: "holds P x s" "syncApp x faults now s = Some (err, s')"
  have "P (x_rm x) ic'" if "prepareRevisions x now (fst s) = Some (revs, ic')" for revs ic'
    using s(1) prepareRevisions_divides [OF that] by (auto simp: holds_def intro: division dest: sound)
  with s show "holds P x s'"
    by (auto simp: syncApp_def Let_def holds_def split: if_splits Option.bind_splits dest!: apply_step_fst)
qed

lemma kept_sync_steps: "list_all (keeps (holds P x)) (sync_steps x faults now)"
  by (simp add: sync_steps_def syncServiceAccount_def syncRBAC_def holds_keeps_incs
    keeps_incs_syncNamespace keeps_incs_later kept_reportMetrics kept_tickIncarnations kept_sync_observe
    kept_syncApp)

lemma kept_sync:
  assumes "ResourceSyncer_sync x faults now s = Some (r, s')" "holds P x s"
  shows "holds P x s'"
proof -
  have "keeps (holds P x) (step_then (syncServiceLevels x) (deleteInstance x))"
    by (intro keeps_step_then holds_keeps_incs keeps_incs_later)
  moreover have "keeps (holds P x) (steps (sync_steps x faults now))"
    by (rule holds_several [OF kept_sync_steps])
  ultimately show ?thesis using assms
    by (auto simp: ResourceSyncer_sync_def dest: keepsD split: if_splits Option.bind_splits option.splits)
qed

end

section \<open>The collection stays sound\<close>

text \<open>What the division asks of a collection is such an invariant.\<close>

lemma evolved_sound: "evolved rm i j \<Longrightarrow> sound rm i \<Longrightarrow> sound rm j"
  by (cases "target rm i"; cases "target rm j") (auto simp: evolved_def sound_def)

lemma weight_to_le: "weight_to revs t \<le> sum_list (map (\<lambda>pr. unat (prv_Weight pr)) revs)"
  by (induction revs) (auto simp: weight_to_def)

lemma all_alike_entry:
  assumes "wf_collection ic'" "all_alike ic' ic" "(t, i) \<in> set ic'"
  obtains j where "(t, j) \<in> set ic" "alike i j"
proof -
  have "map_of ic' t = Some i" using assms(1,3) by (simp add: wf_collection_def)
  with assms(2) [unfolded all_alike_def, rule_format, of t] that show ?thesis
    by (auto simp: option_rel_Some1 dest: map_of_SomeD)
qed

lemma sound_divided:
  assumes "divided ic ic'" "sound_collection rm ic"
  shows "sound_collection rm ic'"
proof (cases "ic' = ic")
  case False
  with assms(1) obtain revs where ic': "wf_collection ic'" "all_alike ic' ic"
    and w: "sum_list (map (\<lambda>pr. unat (prv_Weight pr)) revs) \<le> 100" "\<forall>t. weight_to revs t = unat (pct ic' t)"
    unfolding divided_def by blast
  have "sound rm i \<and> unat (currentPercent i) \<le> 100" if i: "(t, i) \<in> set ic'" for t i
  proof -
    obtain j where j: "(t, j) \<in> set ic" "alike i j" using all_alike_entry [OF ic' i] .
    then have "sound rm j" using assms(2) by (auto simp: sound_collection_def)
    then have "sound rm i" using sound_alike [OF j(2)] by simp
    moreover have "map_of ic' t = Some i" using i ic'(1) by (simp add: wf_collection_def)
    then have "unat (currentPercent i) \<le> 100" using weight_to_le [of revs t] w by (simp add: pct_def)
    ultimately show ?thesis by blast
  qed
  with ic'(1) show ?thesis by (auto simp: sound_collection_def)
qed (use assms in simp)

lemma sound_entries:
  assumes "sound_collection rm ic" "\<And>t i. (t, i) \<in> set ic \<Longrightarrow> evolved rm i (f t i)"
  shows "sound_collection rm (map (\<lambda>(t, i). (t, f t i)) ic)"
proof -
  have "inc_tag (f t i) = t \<and> sound rm (f t i) \<and> unat (currentPercent (f t i)) \<le> 100" if "(t, i) \<in> set ic" for t i
    using assms(1) assms(2) [OF that] that evolved_sound [OF assms(2) [OF that]]
    by (fastforce simp: sound_collection_def wf_collection_def evolved_def)
  with assms(1) show ?thesis
    by (auto simp: sound_collection_def wf_collection_def case_prod_unfold o_def)
qed

interpretation sound: collection_invariant sound_collection
  by unfold_locales (auto intro: sound_entries sound_divided)

section \<open>The traffic stays within all of it\<close>

text \<open>
  The statuses are under their own tags, and together they have at most all of the traffic: an invariant too.
\<close>

definition total_percent :: "Collection \<Rightarrow> nat" where
  "total_percent ic = sum_list (map (\<lambda>p. unat (currentPercent (snd p))) ic)"

definition fair_collection :: "ReleaseManager \<Rightarrow> Collection \<Rightarrow> bool" where
  "fair_collection rm ic \<longleftrightarrow> sound_collection rm ic \<and> (\<forall>(t, i) \<in> set ic. rs_Tag (inc_status i) = t) \<and>
     total_percent ic \<le> 100"

lemma weights_of_tags:
  "distinct ts \<Longrightarrow> sum_list (map (weight_to revs) ts) \<le> sum_list (map (\<lambda>pr. unat (prv_Weight pr)) revs)"
proof (induction revs)
  case (Cons pr revs)
  have "sum_list (map (\<lambda>t. (if prv_Tag pr = t then n else 0)) ts) \<le> n" if "distinct ts" for ts and n :: nat
    using that by (induction ts) (auto simp: sum_list_0)
  moreover have "weight_to (pr # revs) t = (if prv_Tag pr = t then unat (prv_Weight pr) else 0) + weight_to revs t" for t
    by (simp add: weight_to_def)
  ultimately show ?case using Cons by (simp add: sum_list_addf add_mono)
qed (simp add: weight_to_def)

lemma total_percent_pct: "wf_collection ic \<Longrightarrow> total_percent ic = sum_list (map (\<lambda>t. unat (pct ic t)) (map fst ic))"
  unfolding total_percent_def
  by (auto simp: wf_collection_def pct_def intro!: arg_cong [where f = sum_list])

lemma fair_divided:
  assumes "divided ic ic'" "fair_collection rm ic"
  shows "fair_collection rm ic'"
proof (cases "ic' = ic")
  case False
  with assms(1) obtain revs where ic': "wf_collection ic'" "all_alike ic' ic"
    and w: "sum_list (map (\<lambda>pr. unat (prv_Weight pr)) revs) \<le> 100" "\<forall>t. weight_to revs t = unat (pct ic' t)"
    unfolding divided_def by blast
  have "distinct (map fst ic')" using ic'(1) by (simp add: wf_collection_def)
  from weights_of_tags [OF this, of revs] w have "total_percent ic' \<le> 100"
    by (simp add: total_percent_pct [OF ic'(1)] o_def)
  moreover have "rs_Tag (inc_status i) = t" if i: "(t, i) \<in> set ic'" for t i
  proof -
    obtain j where "(t, j) \<in> set ic" "alike i j" using all_alike_entry [OF ic' i] .
    with assms(2) show ?thesis by (auto simp: fair_collection_def alike_def)
  qed
  ultimately show ?thesis
    using sound_divided [OF assms(1)] assms(2) by (auto simp: fair_collection_def)
qed (use assms in simp)

lemma fair_entries:
  assumes "fair_collection rm ic" "\<And>t i. (t, i) \<in> set ic \<Longrightarrow> evolved rm i (f t i)"
  shows "fair_collection rm (map (\<lambda>(t, i). (t, f t i)) ic)"
proof -
  have "sum_list (map (\<lambda>p. unat (currentPercent (snd (case p of (t, i) \<Rightarrow> (t, f t i))))) ic) \<le> total_percent ic"
    unfolding total_percent_def using assms(2) by (intro sum_list_mono) (force simp: evolved_def)
  then have "total_percent (map (\<lambda>(t, i). (t, f t i)) ic) \<le> 100"
    using assms(1) by (simp add: fair_collection_def total_percent_def o_def)
  moreover have "\<forall>(t, i) \<in> set (map (\<lambda>(t, i). (t, f t i)) ic). rs_Tag (inc_status i) = t"
    using assms by (fastforce simp: fair_collection_def evolved_def)
  ultimately show ?thesis
    using assms sound_entries [OF _ assms(2)] by (simp add: fair_collection_def)
qed

interpretation fair: collection_invariant fair_collection
proof
  show "fair_collection rm ic \<Longrightarrow> sound_collection rm ic" for rm ic by (simp add: fair_collection_def)
qed (auto intro: fair_entries fair_divided)

section \<open>The ports stay\<close>

text \<open>Every revision has a port.\<close>

definition ported_collection :: "ReleaseManager \<Rightarrow> Collection \<Rightarrow> bool" where
  "ported_collection rm ic \<longleftrightarrow> sound_collection rm ic \<and>
     (\<forall>(t, i) \<in> set ic. inc_revision i \<noteq> None \<longrightarrow> ports rm i \<noteq> [])"

lemma evolved_ports: "evolved rm i j \<Longrightarrow> ports rm j = ports rm i"
  by (cases "target rm i"; cases "target rm j") (auto simp: evolved_def ports_def)

interpretation ported: collection_invariant ported_collection
proof
  show "ported_collection rm ic \<Longrightarrow> sound_collection rm ic" for rm ic by (simp add: ported_collection_def)
next
  fix rm ic f
  assume P: "ported_collection rm ic" and f: "\<And>t i. (t, i) \<in> set ic \<Longrightarrow> evolved rm i (f t i)"
  have "inc_revision (f t i) \<noteq> None \<Longrightarrow> ports rm (f t i) \<noteq> []" if i: "(t, i) \<in> set ic" for t i
    using P f [OF i] evolved_ports [OF f [OF i]] i by (auto simp: ported_collection_def evolved_def)
  with P sound_entries [OF _ f] show "ported_collection rm (map (\<lambda>(t, i). (t, f t i)) ic)"
    by (auto simp: ported_collection_def)
next
  fix rm ic ic'
  assume P: "ported_collection rm ic" and d: "divided ic ic'"
  have "inc_revision i \<noteq> None \<Longrightarrow> ports rm i \<noteq> []" if i: "(t, i) \<in> set ic'" for t i
  proof -
    obtain j where "(t, j) \<in> set ic" "alike i j"
      using d i all_alike_entry [of ic' ic t i] by (auto simp: divided_def)
    with P show "inc_revision i \<noteq> None \<Longrightarrow> ports rm i \<noteq> []"
      by (auto simp: ported_collection_def alike_def ports_def target_def)
  qed
  with P sound_divided [OF d] show "ported_collection rm ic'" by (auto simp: ported_collection_def)
qed

section \<open>The percentages written back\<close>

text \<open>The percentage that the statuses give to a tag.\<close>

definition status_percent :: "ReleaseManagerRevisionStatus list \<Rightarrow> string \<Rightarrow> nat" where
  "status_percent rs t = (case find (\<lambda>s. rs_Tag s = t) rs of
     None \<Rightarrow> 0
   | Some s \<Rightarrow> unat (rs_CurrentPercent s))"

definition shares :: "ReleaseManagerRevisionStatus list \<Rightarrow> (string \<times> u32) list" where
  "shares rs = map (\<lambda>s. (rs_Tag s, rs_CurrentPercent s)) rs"

lemma status_percent_shares:
  "status_percent rs t = (case map_of (shares rs) t of None \<Rightarrow> 0 | Some p \<Rightarrow> unat p)"
  by (induction rs) (auto simp: status_percent_def shares_def)

text \<open>What a status says but for its eligibility and its peak is what its incarnation says.\<close>

lemma final_map:
  assumes "final_statuses ic = Some rs"
    and "\<And>s. g (s\<lparr>rs_ReleaseEligible := True, rs_PeakPercent := 100\<rparr>) = g s"
  shows "map g rs = map (\<lambda>i. g (inc_status i)) (filter kept (List.rev (sorted_incs ic)))"
proof -
  have same: "map g (recommission rs good latest) = map g rs" for rs good latest
    using assms(2) by (auto simp: recommission_def map_update list_update_same_conv split: option.split)
  have "safe_incs ic" using assms(1) final_statuses_safe by blast
  then have "\<forall>i \<in> set (List.rev (sorted_incs ic)). safe i" by (auto simp: safe_incs_def)
  from collect_statuses_eq [OF this] assms(1)
  have "map g rs = map g (statuses (List.rev (sorted_incs ic)))"
    by (auto simp: final_statuses_def same)
  then show ?thesis by (simp add: statuses_def)
qed

lemma final_shares:
  "final_statuses ic = Some rs \<Longrightarrow>
   shares rs = map (\<lambda>i. (rs_Tag (inc_status i), currentPercent i)) (filter kept (List.rev (sorted_incs ic)))"
  unfolding shares_def by (subst final_map) (simp_all add: currentPercent_def)

lemma final_states:
  "final_statuses ic = Some rs \<Longrightarrow>
   map (\<lambda>s. st_Current (rs_State s)) rs = map state_of (filter kept (List.rev (sorted_incs ic)))"
  by (subst final_map) (simp_all add: state_of_def [abs_def])

text \<open>Of a fair collection in which only kept incarnations have traffic, the statuses tell every share.\<close>

lemma final_percents:
  assumes "final_statuses ic = Some rs" "fair_collection rm ic" "\<forall>(t, i) \<in> set ic. currentPercent i \<noteq> 0 \<longrightarrow> kept i"
  shows "status_percent rs t = unat (pct ic t)"
proof -
  let ?is = "filter kept (List.rev (sorted_incs ic))"
  have wf: "wf_collection ic" using assms(2) by (simp add: fair_collection_def sound_collection_def)
  have tag: "rs_Tag (inc_status i) = inc_tag i" if "i \<in> snd ` set ic" for i
    using that wf assms(2) by (force simp: fair_collection_def wf_collection_def)
  have sh: "shares rs = map (\<lambda>i. (inc_tag i, currentPercent i)) ?is"
    unfolding final_shares [OF assms(1)] using tag by simp
  have dist: "distinct (map fst (shares rs))"
    using wf_distinct [OF wf] by (simp add: sh o_def distinct_map_filter rev_map [symmetric])
  show ?thesis
  proof (cases "\<exists>i \<in> set ?is. inc_tag i = t")
    case True
    then obtain i where i: "i \<in> set ?is" "inc_tag i = t" by blast
    then have "(t, currentPercent i) \<in> set (shares rs)" by (force simp: sh)
    then have "map_of (shares rs) t = Some (currentPercent i)" using dist by simp
    moreover have "map_of ic t = Some i" using i wf_mem [OF wf] by simp
    ultimately show ?thesis by (simp add: status_percent_shares pct_def)
  next
    case False
    then have "t \<notin> fst ` set (shares rs)" by (auto simp: sh)
    then have "map_of (shares rs) t = None" by (simp add: map_of_eq_None_iff)
    moreover have "pct ic t = 0"
    proof (cases "map_of ic t")
      case (Some i)
      then have m: "(t, i) \<in> set ic" by (rule map_of_SomeD)
      then have "inc_tag i = t" using wf by (auto simp: wf_collection_def)
      with False m have "\<not> kept i" by force
      with assms(3) m Some show ?thesis by (auto simp: pct_def)
    qed (simp add: pct_def)
    ultimately show ?thesis by (simp add: status_percent_shares)
  qed
qed

text \<open>
  The invariant of the statuses themselves: under distinct tags, with at most all of the traffic together.
\<close>

definition fair_statuses :: "ReleaseManagerRevisionStatus list \<Rightarrow> bool" where
  "fair_statuses rs \<longleftrightarrow> distinct (map rs_Tag rs) \<and> sum_list (map (\<lambda>s. unat (rs_CurrentPercent s)) rs) \<le> 100"

lemma fair_shares: "fair_statuses rs \<longleftrightarrow> distinct (map fst (shares rs)) \<and> sum_list (map (unat \<circ> snd) (shares rs)) \<le> 100"
  by (simp add: fair_statuses_def shares_def o_def)

lemma fair_final:
  assumes "final_statuses ic = Some rs" "fair_collection rm ic"
  shows "fair_statuses rs"
proof -
  have wf: "wf_collection ic" using assms(2) by (simp add: fair_collection_def sound_collection_def)
  have tags: "map (\<lambda>i. rs_Tag (inc_status i)) (sorted_incs ic) = map inc_tag (sorted_incs ic)"
    using wf assms(2) by (force simp: fair_collection_def wf_collection_def)
  have "distinct (map (\<lambda>i. rs_Tag (inc_status i)) (sorted_incs ic))" unfolding tags by (rule wf_distinct [OF wf])
  then have "distinct (map fst (shares rs))"
    by (simp add: final_shares [OF assms(1)] o_def distinct_map_filter rev_map [symmetric])
  moreover have "sum_list (map (\<lambda>i. unat (currentPercent i)) (filter kept is)) \<le> sum_list (map (\<lambda>i. unat (currentPercent i)) is)"
    for "is" by (induction "is") auto
  then have "sum_list (map (unat \<circ> snd) (shares rs)) \<le>
      sum_list (map (\<lambda>i. unat (currentPercent i)) (List.rev (sorted_incs ic)))"
    by (simp add: final_shares [OF assms(1)] o_def)
  moreover have "sum_list (map f xs) = sum_list (map f ys)" if "mset xs = mset ys" for f :: "Incarnation \<Rightarrow> nat" and xs ys
    by (metis mset_map sum_mset_sum_list that)
  then have "sum_list (map (\<lambda>i. unat (currentPercent i)) (List.rev (sorted_incs ic))) =
      sum_list (map (\<lambda>i. unat (currentPercent i)) (map snd ic))"
    by (simp add: sorted_incs_def del: map_map)
  then have "sum_list (map (\<lambda>i. unat (currentPercent i)) (List.rev (sorted_incs ic))) = total_percent ic"
    by (simp add: total_percent_def o_def)
  ultimately show ?thesis using assms(2) by (simp add: fair_shares fair_collection_def)
qed

end
