(* ===== verification/Fleet.thy ===== *)
theory Fleet
  imports Plan_Frames Sync_Invariant
begin

text \<open>
  The appliers of \<^verbatim>\<open>src/plan/applier.go\<close> over the plans themselves: one \<^verbatim>\<open>ClusterApplier\<close> for each cluster of a
  fleet under one \<^verbatim>\<open>ConcurrentApplier\<close>, which is what \<^verbatim>\<open>newPlanApplier\<close> builds; and what the plan of an
  application leaves in every cluster.
\<close>

section \<open>A plan on a fleet\<close>

text \<open>
  The appliers come from the clients and the clusters, each with a state of its own; a panic in one goroutine
  ends the program.
\<close>

definition ClusterApplier_Apply ::
  "PlanEnv \<Rightarrow> 'c Client \<times> Cluster \<Rightarrow> Plan \<Rightarrow> 'c \<Rightarrow> goerror option \<times> 'c" where
  "ClusterApplier_Apply env a p c = (case Plan_Apply env (fst a) (snd a) p c of
     None \<Rightarrow> (None, c)
   | Some r \<Rightarrow> r)"

definition fleet_apply ::
  "PlanEnv \<Rightarrow> nat list \<Rightarrow> ('c Client \<times> Cluster) list \<Rightarrow> Plan \<Rightarrow> 'c list \<Rightarrow>
   (goerror option \<times> 'c list) option" where
  "fleet_apply env finish fleet p cs =
     (if list_all2 (\<lambda>a c. Plan_Apply env (fst a) (snd a) p c \<noteq> None) fleet cs
      then Some (concurrent_apply (map (ClusterApplier_Apply env) fleet) finish p cs)
      else None)"

definition documented_fleet :: "('c Client \<times> Cluster) list \<Rightarrow> ('c \<Rightarrow> store) \<Rightarrow> bool" where
  "documented_fleet fleet store \<longleftrightarrow> (\<forall>a \<in> set fleet. documented (fst a) store)"

text \<open>A plan that cannot panic succeeds on a fleet exactly when it does on every cluster.\<close>

lemma fleet_apply_total:
  assumes "documented_fleet fleet store" "length fleet = length cs" "unconditional p"
  shows "fleet_apply env finish fleet p cs \<noteq> None"
  using assms Plan_never_panics
  by (fastforce simp: fleet_apply_def documented_fleet_def list_all2_conv_all_nth never_panics_def)

lemma fleet_apply_success:
  assumes "fleet_apply env finish fleet p cs = Some (None, cs')" "set finish = {..<length cs}" "i < length fleet"
  shows "Plan_Apply env (fst (fleet ! i)) (snd (fleet ! i)) p (cs ! i) = Some (None, cs' ! i)"
proof -
  let ?as = "map (ClusterApplier_Apply env) fleet"
  from assms(1) have run: "concurrent_apply ?as finish p cs = (None, cs')" and len: "length ?as = length cs"
    and no_panic: "\<forall>i < length fleet. Plan_Apply env (fst (fleet ! i)) (snd (fleet ! i)) p (cs ! i) \<noteq> None"
    by (auto simp: fleet_apply_def list_all2_conv_all_nth split: if_splits)
  from concurrent_apply_ok [OF len assms(2), of p] concurrent_apply_each [OF len, of i finish p] run len assms(3)
  have "(?as ! i) p (cs ! i) = (None, cs' ! i)" by (simp add: prod_eq_iff)
  with no_panic assms(3) show ?thesis by (auto simp: ClusterApplier_Apply_def)
qed

lemma fleet_apply_each:
  assumes "fleet_apply env finish fleet p cs = Some r" "i < length fleet"
  shows "\<exists>err. Plan_Apply env (fst (fleet ! i)) (snd (fleet ! i)) p (cs ! i) = Some (err, snd r ! i)"
proof -
  let ?as = "map (ClusterApplier_Apply env) fleet"
  from assms(1) have r: "r = concurrent_apply ?as finish p cs" and len: "length ?as = length cs"
    and no_panic: "\<forall>i < length fleet. Plan_Apply env (fst (fleet ! i)) (snd (fleet ! i)) p (cs ! i) \<noteq> None"
    by (auto simp: fleet_apply_def list_all2_conv_all_nth split: if_splits)
  from no_panic assms(2) obtain err c'
    where run: "Plan_Apply env (fst (fleet ! i)) (snd (fleet ! i)) p (cs ! i) = Some (err, c')" by fastforce
  with concurrent_apply_each [OF len, of i finish p] len assms(2) show ?thesis
    by (simp add: r ClusterApplier_Apply_def)
qed

text \<open>
  A release manager whose plans go to a fleet: \<open>clusters\<close> gives the states of the clusters in the state of
  the whole, in the order of the appliers, and writing a revision, which is in the delivery cluster, leaves
  them as they are. A panic ends the program, and what the clusters hold stays.
\<close>

definition runs_on_fleet ::
  "'c Ctx \<Rightarrow> ('c \<Rightarrow> 'd list) \<Rightarrow> PlanEnv \<Rightarrow> nat list \<Rightarrow> ('d Client \<times> Cluster) list \<Rightarrow> bool" where
  "runs_on_fleet x clusters env finish fleet \<longleftrightarrow> set finish = {..<length fleet} \<and>
     (\<forall>c. length (clusters c) = length fleet) \<and>
     (\<forall>p c. case fleet_apply env finish fleet p (clusters c) of
        Some (err, cs) \<Rightarrow> fst (x_apply x p c) = err \<and> clusters (snd (x_apply x p c)) = cs
      | None \<Rightarrow> clusters (snd (x_apply x p c)) = clusters c) \<and>
     (\<forall>r c. clusters (snd (x_updateRevision x r c)) = clusters c)"

lemma runs_on_fleet_cases:
  assumes "runs_on_fleet x clusters env finish fleet"
  shows "case fleet_apply env finish fleet p (clusters c) of
      Some (err, cs) \<Rightarrow> fst (x_apply x p c) = err \<and> clusters (snd (x_apply x p c)) = cs
    | None \<Rightarrow> clusters (snd (x_apply x p c)) = clusters c"
  using assms unfolding runs_on_fleet_def by blast

lemma runs_on_fleet_apply:
  assumes "runs_on_fleet x clusters env finish fleet" "documented_fleet fleet store" "unconditional p"
  shows "fleet_apply env finish fleet p (clusters c) = Some (fst (x_apply x p c), clusters (snd (x_apply x p c)))"
proof -
  have "length fleet = length (clusters c)" using assms(1) by (simp add: runs_on_fleet_def)
  from fleet_apply_total [OF assms(2) this assms(3)] obtain err cs
    where "fleet_apply env finish fleet p (clusters c) = Some (err, cs)" by fast
  with runs_on_fleet_cases [OF assms(1), of p c] show ?thesis by simp
qed

text \<open>Whatever a plan keeps of the store of every cluster, it keeps of those of the fleet.\<close>

lemma runs_on_fleet_keeps:
  assumes "runs_on_fleet x clusters env finish fleet" "i < length fleet"
    and "store_keeps store P (Plan_Apply env (fst (fleet ! i)) (snd (fleet ! i)) p)" "P (store (clusters c ! i))"
  shows "P (store (clusters (snd (x_apply x p c)) ! i))"
proof (cases "fleet_apply env finish fleet p (clusters c)")
  case None
  with runs_on_fleet_cases [OF assms(1), of p c] assms(4) show ?thesis by simp
next
  case (Some r)
  from fleet_apply_each [OF this assms(2)] obtain err
    where "Plan_Apply env (fst (fleet ! i)) (snd (fleet ! i)) p (clusters c ! i) = Some (err, snd r ! i)" by blast
  from store_keepsD [OF assms(3) this assms(4)] runs_on_fleet_cases [OF assms(1), of p c] Some show ?thesis
    by (cases r) simp
qed

section \<open>The virtual service of an application\<close>

text \<open>There is a virtual service as soon as one port and one weight are there: it is the service's own host.\<close>

lemma releaseRoute_nonempty:
  "pr \<in> set (sap_DeployedRevisions p) \<Longrightarrow> prv_Weight pr \<noteq> 0 \<Longrightarrow> releaseRoute p port \<noteq> []"
  by (auto simp: releaseRoute_def filter_empty_conv)

lemma virtualService_exists:
  assumes "list_all (\<lambda>f. hf_PortSelector f \<noteq> None) (sap_HTTPPortFaults p)" "port \<in> set (sap_Ports p)"
    and "pr \<in> set (sap_DeployedRevisions p)" "prv_Weight pr \<noteq> 0"
  shows "\<exists>obj. virtualService tmpl p cluster = Some (Some obj)"
proof -
  obtain tagged th where t: "taggedRoutes p cluster = Some (tagged, th)"
    unfolding taggedRoutes_def using taggedRoutes_total [OF assms(1)] by fastforce
  obtain release rh where r: "releaseRoutes p cluster = Some (release, rh)"
    unfolding releaseRoutes_def using releaseRoutes_total [OF assms(1)] by fastforce
  note ne = releaseRoute_nonempty [OF assms(3,4), of port]
  from releaseRoutes_of_each [OF r [unfolded releaseRoutes_def]]
  have each: "list_all2 (is_release_of p cluster) release (filter (\<lambda>port. releaseRoute p port \<noteq> []) (sap_Ports p))"
    and hosts: "set rh = (\<Union>port \<in> {port \<in> set (sap_Ports p). releaseRoute p port \<noteq> []}.
      set (snd (releaseMatches p port cluster)))" by auto
  have "release \<noteq> []" using list_all2_each(2) [OF each, of port] ne assms(2) by auto
  moreover have "serviceHost p \<in> set rh"
    unfolding hosts releaseMatches_def using ne assms(2) hosts_of_matches by fastforce
  then have "set (add_all rh (add_all th [])) \<noteq> {}" by auto
  then have "add_all rh (add_all th []) \<noteq> []" by (metis list.set(1))
  ultimately show ?thesis by (simp add: virtualService_def t r Let_def)
qed

text \<open>What a route sends to a subset: in a release route, the weight of the revisions of that tag.\<close>

definition route_weight :: "HTTPRoute \<Rightarrow> string \<Rightarrow> int" where
  "route_weight r t = sum_list (map hd_Weight (filter (\<lambda>d. hd_Subset d = t) (ht_Route r)))"

lemma releaseRoute_weight_to:
  assumes "\<forall>pr \<in> set (sap_DeployedRevisions p). i32_of_u32 (prv_Weight pr) = int (unat (prv_Weight pr))"
  shows "sum_list (map hd_Weight (filter (\<lambda>d. hd_Subset d = t) (releaseRoute p port))) =
    int (weight_to (sap_DeployedRevisions p) t)"
proof -
  have "sum_list (map hd_Weight (filter (\<lambda>d. hd_Subset d = t) (map (\<lambda>revision. \<lparr>hd_Host = h, hd_Port = n,
      hd_Subset = prv_Tag revision, hd_Weight = i32_of_u32 (prv_Weight revision)\<rparr>)
      (filter (\<lambda>revision. prv_Weight revision \<noteq> 0) prs)))) =
    int (sum_list (map (\<lambda>pr. unat (prv_Weight pr)) (filter (\<lambda>pr. prv_Tag pr = t) prs)))"
    if "\<forall>pr \<in> set prs. i32_of_u32 (prv_Weight pr) = int (unat (prv_Weight pr))" for prs h n
    using that by (induction prs) auto
  from this [OF assms] show ?thesis by (simp add: releaseRoute_def weight_to_def)
qed

lemma release_route_weights:
  assumes "virtualService tmpl p cluster = Some (Some obj)" "ko_Body obj = VirtualServiceBody vs"
    and "\<forall>pr \<in> set (sap_DeployedRevisions p). i32_of_u32 (prv_Weight pr) = int (unat (prv_Weight pr))"
  shows "\<forall>r \<in> set (vs_Http vs). is_release r \<longrightarrow> route_weight r t = int (weight_to (sap_DeployedRevisions p) t)"
proof (intro ballI impI)
  fix r assume r: "r \<in> set (vs_Http vs)" "is_release r"
  from virtualService_routes [OF assms(1)] assms(2) r(1)
  have "r \<in> set (devRoutes tmpl p cluster) \<or>
       (\<exists>(revision, port) \<in> set (tagged_pairs p). is_tagged_of p cluster r revision port) \<or>
       (\<exists>port \<in> set (sap_Ports p). is_release_of p cluster r port)" by auto
  with r(2) dev_name(1) tagged_name obtain port where "is_release_of p cluster r port" by blast
  with releaseRoute_weight_to [OF assms(3)] show "route_weight r t = int (weight_to (sap_DeployedRevisions p) t)"
    by (simp add: route_weight_def is_release_of_def)
qed

lemma release_route_exists:
  assumes "virtualService tmpl p cluster = Some (Some obj)" "ko_Body obj = VirtualServiceBody vs"
    and "port \<in> set (sap_Ports p)" "releaseRoute p port \<noteq> []"
  shows "\<exists>r \<in> set (vs_Http vs). is_release r"
  using virtualService_routes [OF assms(1)] assms(2-4) release_name by fastforce

section \<open>The virtual service is written\<close>

text \<open>
  A deletion of the alert rules that is refused, which \<^verbatim>\<open>SyncApp\<close> takes for a success and ends with.
\<close>

definition rules_key :: "string \<Rightarrow> string \<Rightarrow> Key" where
  "rules_key namespace app = \<lparr>key_Kind = KPrometheusRule, key_Namespace = namespace, key_Name = app\<rparr>"

definition deletion_refused :: "'c Client \<Rightarrow> Key \<Rightarrow> bool" where
  "deletion_refused cli k \<longleftrightarrow> (\<exists>c e c'. k_Delete cli k c = (Some e, c') \<and> e \<noteq> NotFound)"

lemma key_prometheusRule: "key_of (prometheusRule p) = rules_key (sap_Namespace p) (sap_App p)"
  by (simp add: prometheusRule_def rules_key_def)

lemma each_realises_last:
  assumes "documented cli store" "each (CreateOrUpdate cli) (SyncApp_routes tmpl cluster p) c = Some (None, c')"
    and "vs \<in> set (SyncApp_routes tmpl cluster p)"
  shows "stored_body (store c') vs"
proof -
  have kinds: "list_all stable_template (SyncApp_routes tmpl cluster p)" "whole_spec vs"
    using SyncApp_kinds(3,4) [where p = p and tmpl = tmpl and cluster = cluster] assms(3) by (auto simp: list_all_iff)
  from each_realises [OF assms(1) kinds(1) SyncApp_kinds(2) assms(2)] assms(3)
  have "realised (store c') vs" by (simp add: list_all_iff)
  with kinds(2) show ?thesis by (intro realised_body)
qed

lemma SyncApp_writes_service:
  assumes "documented cli store" "sap_Ports p \<noteq> []" "sap_DeployedRevisions p \<noteq> []"
    and "virtualService tmpl p cluster = Some (Some vs)" "SyncApp_Apply tmpl cli cluster p c = Some (None, c')"
  shows "stored_body (store c') vs \<or> sap_AlertRules p = [] \<and>
    deletion_refused cli (rules_key (sap_Namespace p) (sap_App p)) \<and> store c' (key_to vs) = store c (key_to vs)"
proof -
  have vs: "vs \<in> set (SyncApp_routes tmpl cluster p)" using assms(2-4) by (simp add: SyncApp_routes_def)
  from assms(5) show ?thesis
  proof (cases rule: SyncApp_success)
    case writes
    from each_realises_last [OF assms(1) writes(3) vs] show ?thesis by simp
  next
    case deletes
    from each_realises_last [OF assms(1) deletes(5) vs] show ?thesis by simp
  next
    case (stuck c1 e)
    have rules: "sap_AlertRules p = []" using stuck(2) by (auto simp: SyncApp_unwanted_def split: if_splits)
    have "only_writes store {k. key_Kind k \<noteq> KVirtualService} (each (CreateOrUpdate cli) (SyncApp_base p))"
      using SyncApp_kinds(5) by (intro only_writes_each only_writes_CreateOrUpdate [OF assms(1)]) auto
    from only_writesD [OF this stuck(1)] have "store c1 (key_to vs) = store c (key_to vs)"
      by (simp add: SyncApp_kinds(6) [OF vs])
    moreover have "store c' = store c1"
      using Delete_cases [OF assms(1), where k = "key_of (prometheusRule p)" and c = c1] by (simp add: stuck(3))
    ultimately show ?thesis using rules stuck(3,4) by (auto simp: deletion_refused_def key_prometheusRule)
  qed
qed

text \<open>The application has a port as soon as one of its incarnations has.\<close>

lemma update_nonempty [simp]: "AList.update k v m \<noteq> []"
  by (cases m) auto

lemma fold_nonempty: "(\<And>x m. f x m \<noteq> []) \<Longrightarrow> fold f xs m = [] \<longleftrightarrow> m = [] \<and> xs = []"
  by (induction xs arbitrary: m) simp_all

lemma port_map_nonempty: "port_map x incs \<noteq> [] \<longleftrightarrow> (\<exists>i \<in> set incs. ports (x_rm x) i \<noteq> [])"
proof -
  have inner: "fold (\<lambda>p m. if map_of m (pi_Name p) = None then AList.update (pi_Name p) p m else m) ps m = [] \<longleftrightarrow>
      m = [] \<and> ps = []" for ps and m :: "(string \<times> PortInfo) list"
    by (rule fold_nonempty) (auto split: if_split)
  have "fold (\<lambda>i m. fold (\<lambda>p m. if map_of m (pi_Name p) = None then AList.update (pi_Name p) p m else m)
      (ports (x_rm x) i) m) incs m = [] \<longleftrightarrow> m = [] \<and> (\<forall>i \<in> set incs. ports (x_rm x) i = [])" for m
    by (induction incs arbitrary: m) (simp_all add: inner conj_assoc)
  then show ?thesis by (simp add: port_map_def)
qed

section \<open>The rest of the reconciliation leaves the virtual service\<close>

definition not_services :: "Key set" where
  "not_services = {k. key_Kind k \<noteq> KVirtualService}"

text \<open>Only the plan of an application writes virtual services.\<close>

fun routes :: "Plan \<Rightarrow> bool" where
  "routes (PlanSyncApp p) = True"
| "routes (All ps) = list_ex routes ps"
| "routes _ = False"

lemma routes_kinds: "KVirtualService \<in> set (plan_kinds p) \<longleftrightarrow> routes p"
  by (induction p) (auto simp: list_ex_iff revision_kinds_def)

definition services_are :: "('d \<Rightarrow> store) \<Rightarrow> Key \<Rightarrow> (nat \<Rightarrow> KubeObj option) \<Rightarrow> 'd list \<Rightarrow> bool" where
  "services_are store k s cs \<longleftrightarrow> (\<forall>i < length cs. store (cs ! i) k = s i)"

lemma fleet_keeps_services:
  assumes "runs_on_fleet x clusters env finish fleet" "documented_fleet fleet store" "k \<notin> not_services"
  shows "cluster_keeps (\<lambda>c. services_are store k s (clusters c)) x (\<lambda>p. \<not> routes p)"
proof (unfold cluster_keeps_def services_are_def, intro allI impI)
  fix p c i
  assume p: "\<not> routes p" and c: "\<forall>i < length (clusters c). store (clusters c ! i) k = s i"
    and "i < length (clusters (snd (x_apply x p c)))"
  then have i: "i < length fleet" "i < length (clusters c)" using assms(1) by (simp_all add: runs_on_fleet_def)
  have doc: "documented (fst (fleet ! i)) store" using assms(2) i(1) by (simp add: documented_fleet_def)
  have "k \<notin> of_kinds (plan_kinds p)" using p assms(3) routes_kinds by (auto simp: not_services_def)
  then have "store_keeps store (\<lambda>t. t k = s i) (Plan_Apply env (fst (fleet ! i)) (snd (fleet ! i)) p)"
    by (intro store_keeps_frame [OF Plan_frame [OF doc]]) simp
  from runs_on_fleet_keeps [OF assms(1) i(1) this] c i(2)
  show "store (clusters (snd (x_apply x p c)) ! i) k = s i" by simp
qed

lemma markGarbage_clusters:
  assumes "\<And>r c. clusters (snd (x_updateRevision x r c)) = clusters c"
    and "markGarbage x now is c = Some (err, c')"
  shows "clusters c' = clusters c"
proof -
  have one: "clusters c' = clusters c" if "markDeletable x i c = Some (err, c')" for i c err c'
    using that assms(1)
    by (auto simp: markDeletable_def Let_def split: if_splits option.splits sum.splits prod.splits Option.bind_splits)
      (metis snd_conv)+
  have "clusters c' = clusters c" if "mark_all x js c = Some (err, c')" for js c err c'
    using that by (induction js arbitrary: c) (auto dest!: one split: Option.bind_splits option.splits)
  with assms(2) show ?thesis by (auto simp: markGarbage_def split: Option.bind_splits sum.splits)
qed

lemma keeps_then_later:
  assumes "cluster_keeps P x (\<lambda>p. \<not> routes p)"
  shows "keeps (\<lambda>s. P (snd s)) (syncServiceMonitors x)" "keeps (\<lambda>s. P (snd s)) (syncSLORules x)"
    "keeps (\<lambda>s. P (snd s)) (syncServiceLevels x)"
proof -
  have one: "P c'" if "apply_step x p (ic, c) = Some (err, ic', c')" "\<not> routes p" "P c" for p ic c err ic' c'
    using keepsD [OF keeps_cluster [OF assms(1) that(2)] that(1)] that(3) by simp
  have "keeps (\<lambda>s. P (snd s)) (steps [apply_step x p, apply_step x q])" if "\<not> routes p" "\<not> routes q" for p q
    using that by (intro keeps_steps) (auto intro: keeps_cluster [OF assms(1)])
  from keepsD [OF this]
  have two: "P c'" if "steps [apply_step x p, apply_step x q] (ic, c) = Some (err, ic', c')" "\<not> routes p" "\<not> routes q" "P c"
    for p q ic c err ic' c'
    using that by fastforce
  show "keeps (\<lambda>s. P (snd s)) (syncServiceMonitors x)"
    by (rule keepsI) (auto simp: syncServiceMonitors_def Let_def split: if_splits prod.splits dest: one)
  show "keeps (\<lambda>s. P (snd s)) (syncSLORules x)"
    by (rule keepsI) (auto simp: syncSLORules_def Let_def split: if_splits prod.splits dest: one)
  show "keeps (\<lambda>s. P (snd s)) (syncServiceLevels x)"
    by (rule keepsI) (auto simp: syncServiceLevels_def Let_def simp del: steps.simps split: if_splits prod.splits
      dest: one two)
qed

lemma applyPlan_keeps:
  assumes "cluster_keeps P x good" "good p" "applyPlan x p ic = Some (err, ic')" "P (snd ic)"
  shows "P (snd ic')"
proof -
  have "ic' = (fst ic, snd (x_apply x p (snd ic)))" using assms(3) by (auto simp: applyPlan_def split: prod.splits)
  with assms(1,2,4) show ?thesis by (simp add: cluster_keeps_def)
qed

lemma inc_tick_clusters:
  assumes "cluster_keeps P x (\<lambda>p. \<not> routes p)" "inc_tick x now (i, c) = Some (err, i', c')" "P c"
  shows "P c'"
proof -
  let ?P = "\<lambda>ic :: Incarnation \<times> 'a. P (snd ic)"
  have plan: "P c'" if "applyPlan x p (i, c) = Some (err, i', c')" "\<not> routes p" "P c" for p i c err i' c'
    using applyPlan_keeps [OF assms(1) that(2,1)] that(3) by simp
  have "call_keeps ?P (sync x)"
  proof (unfold call_keeps_def, intro allI impI)
    fix w err w'
    assume w: "?P w" "sync x w = Some (err, w')"
    then have "sync x (fst w, snd w) = Some (err, fst w', snd w')" by simp
    then show "?P w'"
    proof (cases rule: sync_cases)
      case (2 p q)
      have "P (snd (x_apply x (All [PlanSyncRevision q, PlanScaleRevision p]) (snd w)))"
        using assms(1) w(1) by (simp add: cluster_keeps_def)
      with 2 show ?thesis by simp
    qed (use w(1) in simp)
  qed
  moreover have "call_keeps ?P (retire x)" "call_keeps ?P (del x)" "call_keeps ?P (inc_syncCanaryRules x)"
    "call_keeps ?P (inc_deleteCanaryRules x)" "call_keeps ?P (inc_deleteTaggedServiceLevels x)"
    by (auto simp: call_keeps_def retire_def del_def inc_syncCanaryRules_def inc_deleteCanaryRules_def
      inc_deleteTaggedServiceLevels_def split: Option.bind_splits if_splits dest: plan)
  ultimately have "calls_keep ?P (inc_deployment x now)" by (simp add: calls_keep_def inc_calls)
  from tick_keeps [OF this _ _ assms(2) [unfolded inc_tick_def]] assms(3) show ?thesis by (simp add: inc_calls)
qed

lemma keeps_before:
  assumes "cluster_keeps P x (\<lambda>p. \<not> routes p)"
  shows "list_all (keeps (\<lambda>s. P (snd s))) [syncNamespace x, syncServiceAccount x, syncRBAC x, reportMetrics now,
    tickIncarnations x now, sync_observe x now]"
proof -
  note plan = keeps_cluster [OF assms]
  have ensure: "keeps (\<lambda>s. P (snd s)) (ensure_waypoint x)"
  proof (rule keeps_cases)
    fix s :: "'a sync_state"
    show "\<exists>f. ensure_waypoint x s = f s \<and> keeps (\<lambda>s. P (snd s)) f"
      by (intro exI [of _ "steps (map (apply_step x) (waypoint_plans x (fst s)))"] conjI ensure_waypoint_steps keeps_steps)
        (auto simp: waypoint_plans_def Let_def intro: plan)
  qed
  have delete: "keeps (\<lambda>s. P (snd s)) (delete_waypoint x)"
    unfolding delete_waypoint_def Let_def by (intro keeps_steps) (auto intro: plan)
  have "keeps (\<lambda>s. P (snd s)) (syncNamespace x)"
  proof (rule keeps_cases)
    fix s :: "'a sync_state"
    obtain a t where m: "mesh_mode x (fst s) = (a, t)" by force
    obtain p where run: "syncNamespace x s = step_then (apply_step x (PlanEnsureNamespace p))
        (if a \<or> t then ensure_waypoint x else delete_waypoint x) s" by (simp add: syncNamespace_def m)
    have "keeps (\<lambda>s. P (snd s)) (step_then (apply_step x (PlanEnsureNamespace p))
        (if a \<or> t then ensure_waypoint x else delete_waypoint x))"
      by (intro keeps_step_then plan) (simp_all add: ensure delete)
    with run show "\<exists>f. syncNamespace x s = f s \<and> keeps (\<lambda>s. P (snd s)) f" by blast
  qed
  moreover have "keeps (\<lambda>s. P (snd s)) (tick_tag x now tag)" for tag
    by (rule keepsI, erule tick_tag_cases) (auto dest: inc_tick_clusters [OF assms])
  then have "keeps (\<lambda>s. P (snd s)) (tickIncarnations x now)"
  proof (intro keeps_cases)
    fix s :: "'a sync_state"
    assume tags: "\<And>tag. keeps (\<lambda>s. P (snd s)) (tick_tag x now tag)"
    show "\<exists>f. tickIncarnations x now s = f s \<and> keeps (\<lambda>s. P (snd s)) f"
      unfolding tickIncarnations_def
      by (intro exI [of _ "steps (map (\<lambda>i. tick_tag x now (inc_tag i)) (sorted_incs (fst s)))"] conjI refl keeps_steps)
        (auto intro: tags)
  qed
  moreover have "keeps (\<lambda>s. P (snd s)) (syncServiceAccount x)" "keeps (\<lambda>s. P (snd s)) (syncRBAC x)"
    by (auto simp: syncServiceAccount_def syncRBAC_def intro!: plan)
  moreover have "keeps (\<lambda>s. P (snd s)) (reportMetrics now)" "keeps (\<lambda>s. P (snd s)) (sync_observe x now)"
    by (rule keepsI, auto simp: reportMetrics_def sync_observe_def split: sum.splits)+
  ultimately show ?thesis by simp
qed

section \<open>Around the application\<close>

text \<open>
  A successful reconciliation with a revision left is a run up to the application, which leaves the virtual
  services, the application, and a run that changes neither the collection nor the virtual services.
\<close>

lemma sync_split:
  assumes "ResourceSyncer_sync x faults now s = Some (Inr rs, s')" "revisioned (fst s) \<noteq> []"
    and "runs_on_fleet x clusters env finish fleet" "documented_fleet fleet store" "k \<notin> not_services"
    and "list_all (keeps (holds P x)) (sync_steps x faults now)"
  obtains s0 s1 where "holds P x s \<Longrightarrow> holds P x s0" "syncApp x faults now s0 = Some (None, s1)"
    "\<And>i. i < length fleet \<Longrightarrow> store (clusters (snd s0) ! i) k = store (clusters (snd s) ! i) k"
    "fst s' = fst s1" "final_statuses (fst s') = Some rs"
    "\<And>i. i < length fleet \<Longrightarrow> store (clusters (snd s') ! i) k = store (clusters (snd s1) ! i) k"
proof -
  let ?before = "[syncNamespace x, syncServiceAccount x, syncRBAC x, reportMetrics now, tickIncarnations x now,
    sync_observe x now]"
  let ?after = "[syncServiceMonitors x, syncSLORules x, syncServiceLevels x, garbageCollection x now]"
  from assms(1,2) have run: "steps (?before @ syncApp x faults now # ?after) s = Some (None, s')"
    and rs: "final_statuses (fst s') = Some rs"
    by (auto simp: ResourceSyncer_sync_def sync_steps_def simp del: steps.simps
      split: Option.bind_splits option.splits)
  then obtain s0 where s0: "steps ?before s = Some (None, s0)"
    and "steps (syncApp x faults now # ?after) s0 = Some (None, s')"
    unfolding steps_append by (auto simp del: steps.simps elim!: step_thenE)
  then obtain s1 where s1: "syncApp x faults now s0 = Some (None, s1)" and after: "steps ?after s1 = Some (None, s')"
    unfolding steps.simps(2) [of "syncApp x faults now"] by (auto simp del: steps.simps elim!: step_thenE)
  have "list_all (keeps (holds P x)) ?before"
    using assms(6) by (simp add: sync_steps_def)
  from keepsD [OF holds_several [OF this] s0] have sound: "holds P x s \<Longrightarrow> holds P x s0" .
  let ?Q = "\<lambda>c. services_are store k (\<lambda>i. store (clusters (snd s) ! i) k) (clusters c)"
  have "keeps (\<lambda>s. ?Q (snd s)) (steps ?before)"
    using keeps_before [OF fleet_keeps_services [OF assms(3-5)]] by (intro keeps_steps) (simp add: list_all_iff)
  from keepsD [OF this s0] have "?Q (snd s0)" by (simp add: services_are_def)
  then have start: "store (clusters (snd s0) ! i) k = store (clusters (snd s) ! i) k" if "i < length fleet" for i
    using assms(3) that by (simp add: services_are_def runs_on_fleet_def)
  have incs: "fst s' = fst s1" by (rule steps_fst [OF after]) (simp add: keeps_incs_later)
  let ?P = "\<lambda>c. services_are store k (\<lambda>i. store (clusters (snd s1) ! i) k) (clusters c)"
  note keep = fleet_keeps_services [OF assms(3-5), of "\<lambda>i. store (clusters (snd s1) ! i) k"]
  have garbage: "keeps (\<lambda>s. ?P (snd s)) (garbageCollection x now)"
  proof (rule keepsI)
    fix t err t'
    assume t: "?P (snd t)" "garbageCollection x now t = Some (err, t')"
    have m: "markGarbage x now (sorted_incs (fst t)) (snd t) = Some (err, snd t')"
      using t(2) by (auto simp: garbageCollection_def split: Option.bind_splits)
    have "clusters (snd (x_updateRevision x r c)) = clusters c" for r c
      using assms(3) by (simp add: runs_on_fleet_def)
    from markGarbage_clusters [of clusters x, OF this m] t(1) show "?P (snd t')" by simp
  qed
  have "keeps (\<lambda>s. ?P (snd s)) (steps ?after)"
    by (rule keeps_steps) (simp add: keeps_then_later [OF keep] garbage)
  from keepsD [OF this after] have "?P (snd s')" by (simp add: services_are_def)
  then have same: "store (clusters (snd s') ! i) k = store (clusters (snd s1) ! i) k" if "i < length fleet" for i
    using assms(3) that by (simp add: services_are_def runs_on_fleet_def)
  show ?thesis by (rule that [OF sound s1 start incs rs same])
qed

section \<open>The waypoint in the clusters\<close>

text \<open>The plans that make a namespace and its waypoint remove nothing.\<close>

lemma ensures_keeps:
  assumes "documented cli store" "ensures p"
  shows "store_keeps store (\<lambda>s. k \<in> dom s) (Plan_Apply env cli cluster p)"
proof -
  have cou: "store_keeps store (\<lambda>s. k \<in> dom s) (CreateOrUpdate cli typed)" for typed
    by (rule store_keeps_CreateOrUpdate [OF assms(1)]) simp
  have "store_keeps store (\<lambda>s. k \<in> dom s) (EnsureWaypoint_Apply cli ns)" for ns
  proof (cases "k = waypoint_key ns")
    case True
    have "k \<in> dom (store c')" if "EnsureWaypoint_Apply cli ns c = Some (err, c')" "k \<in> dom (store c)" for c err c'
      using that EnsureWaypoint_success [OF assms(1)] EnsureWaypoint_error [OF assms(1)] True
      by (cases err) (fastforce, simp)
    then show ?thesis by (auto simp: store_keeps_def)
  next
    case False
    then show ?thesis by (intro store_keeps_frame [OF only_writes_waypoint [OF assms(1)]]) (simp add: dom_def)
  qed
  with assms(2) cou show ?thesis
    by (cases p) (auto simp: EnsureNamespace_Apply_def EnsureWaypointOptions_Apply_def EnsureWaypointPDB_Apply_def
      EnsureWaypointHPA_Apply_def split: option.split)
qed

text \<open>The keys of the waypoint: its gateway, its options, its budget and its autoscaler.\<close>

definition waypoint_keys :: "string \<Rightarrow> Key set" where
  "waypoint_keys ns = {waypoint_key ns,
     \<lparr>key_Kind = KConfigMap, key_Namespace = ns, key_Name = waypointOptionsConfigMap\<rparr>,
     \<lparr>key_Kind = KPDB, key_Namespace = ns, key_Name = waypointPDBName\<rparr>,
     \<lparr>key_Kind = KHPA, key_Namespace = ns, key_Name = waypointHPAName\<rparr>}"

lemma waypoint_made:
  assumes "documented cli store" "k \<in> waypoint_keys (TargetNamespace (x_rm x))"
  obtains q where "q \<in> set (waypoint_plans x ic)"
    "\<And>c c'. Plan_Apply env cli cluster q c = Some (None, c') \<Longrightarrow> k \<in> dom (store c')"
proof -
  let ?ns = "TargetNamespace (x_rm x)"
  have cou: "key_to typed \<in> dom (store c')" if "CreateOrUpdate cli typed c = Some (None, c')" for typed c c'
    using CreateOrUpdate_ok [OF assms(1) that] by auto
  obtain w b h where ps: "waypoint_plans x ic = [PlanEnsureWaypointOptions w, PlanEnsureWaypoint ?ns,
      PlanEnsureWaypointPDB b, PlanEnsureWaypointHPA h]"
    and ns: "ewo_Namespace w = ?ns" "ewp_Namespace b = ?ns" "ewh_Namespace h = ?ns" "ewh_HPA h \<noteq> None"
    by (simp add: waypoint_plans_def Let_def)
  have "key_to (waypoint_options z w) = \<lparr>key_Kind = KConfigMap, key_Namespace = ?ns, key_Name = waypointOptionsConfigMap\<rparr>" for z
    using ns by (simp add: waypoint_options_def key_to_def Let_def)
  moreover have "key_to (waypoint_pdb b) = \<lparr>key_Kind = KPDB, key_Namespace = ?ns, key_Name = waypointPDBName\<rparr>"
    using ns by (simp add: waypoint_pdb_def key_to_def)
  moreover have "key_to (waypoint_hpa ?ns s) = \<lparr>key_Kind = KHPA, key_Namespace = ?ns, key_Name = waypointHPAName\<rparr>" for s
    by (simp add: waypoint_hpa_def key_to_def Let_def split: prod.split)
  ultimately consider "k = waypoint_key ?ns" | "\<And>z. k = key_to (waypoint_options z w)"
    | "k = key_to (waypoint_pdb b)" | "\<And>s. k = key_to (waypoint_hpa ?ns s)"
    using assms(2) by (auto simp: waypoint_keys_def)
  then show thesis
  proof cases
    case 1
    have "waypoint_key ?ns \<in> dom (store c')" if "EnsureWaypoint_Apply cli ?ns c = Some (None, c')" for c c'
      using EnsureWaypoint_success [OF assms(1) that] by blast
    with 1 show thesis by (intro that [of "PlanEnsureWaypoint ?ns"]) (simp_all add: ps)
  next
    case 2
    have "k \<in> dom (store c')" if "CreateOrUpdate cli (waypoint_options z w) c = Some (None, c')" for z c c'
      using cou [OF that] unfolding 2 [of z] .
    then show thesis
      by (intro that [of "PlanEnsureWaypointOptions w"]) (simp_all add: ps EnsureWaypointOptions_Apply_def)
  next
    case 3
    then show thesis using cou
      by (intro that [of "PlanEnsureWaypointPDB b"]) (auto simp: ps EnsureWaypointPDB_Apply_def)
  next
    case 4
    have "k \<in> dom (store c')" if "CreateOrUpdate cli (waypoint_hpa ?ns s) c = Some (None, c')" for s c c'
      using cou [OF that] unfolding 4 [of s] .
    note made = this
    obtain y where y: "ewh_HPA h = Some y" using ns(4) by blast
    have plan: "Plan_Apply env cli cluster (PlanEnsureWaypointHPA h) = CreateOrUpdate cli (waypoint_hpa ?ns y)"
      by (simp add: EnsureWaypointHPA_Apply_def y ns(3))
    show thesis
    proof (rule that)
      show "PlanEnsureWaypointHPA h \<in> set (waypoint_plans x ic)" by (simp add: ps)
      show "k \<in> dom (store c')" if "Plan_Apply env cli cluster (PlanEnsureWaypointHPA h) c = Some (None, c')" for c c'
        using that unfolding plan by (rule made)
    qed
  qed
qed

lemma fleet_ensures:
  assumes "runs_on_fleet x clusters env finish fleet" "documented_fleet fleet store" "i < length fleet"
  shows "cluster_keeps (\<lambda>c. k \<in> dom (store (clusters c ! i))) x ensures"
proof (unfold cluster_keeps_def, intro allI impI)
  fix p c
  assume p: "ensures p" and k: "k \<in> dom (store (clusters c ! i))"
  have "documented (fst (fleet ! i)) store" using assms(2,3) by (simp add: documented_fleet_def)
  from runs_on_fleet_keeps [OF assms(1,3) ensures_keeps [OF this p] k]
  show "k \<in> dom (store (clusters (snd (x_apply x p c)) ! i))" .
qed

lemma ambient_waypoint:
  assumes "runs_on_fleet x clusters env finish fleet" "documented_fleet fleet store" "i < length fleet"
    and "hasAmbientReplicas x ic" "syncNamespace x (ic, c) = Some (None, ic', c')"
  shows "waypoint_keys (TargetNamespace (x_rm x)) \<subseteq> dom (store (clusters c' ! i))"
proof
  fix k
  assume k: "k \<in> waypoint_keys (TargetNamespace (x_rm x))"
  have doc: "documented (fst (fleet ! i)) store" using assms(2,3) by (simp add: documented_fleet_def)
  obtain q where q: "q \<in> set (waypoint_plans x ic)"
    and made: "\<And>c c'. Plan_Apply env (fst (fleet ! i)) (snd (fleet ! i)) q c = Some (None, c') \<Longrightarrow> k \<in> dom (store c')"
    using waypoint_made [OF doc k] by blast
  have fin: "set finish = {..<length (clusters c)}" for c using assms(1) by (simp add: runs_on_fleet_def)
  have "ensures q" using q waypoint_plans_ensure [of x ic] by (simp add: list_all_iff)
  then have "unconditional q" by (cases q) simp_all
  from runs_on_fleet_apply [OF assms(1,2) this]
  have there: "k \<in> dom (store (clusters c2 ! i))" if "x_apply x q c1 = (None, c2)" for c1 c2
    using fleet_apply_success [OF _ fin assms(3)] that made by (metis fst_conv snd_conv)
  have "q \<in> set (waypoint_plans x (fst (ic, c)))" "hasAmbientReplicas x (fst (ic, c))" using q assms(4) by simp_all
  from ambient_achieves [OF fleet_ensures [OF assms(1-3)] this(1) there this(2) assms(5)]
  show "k \<in> dom (store (clusters c' ! i))" by simp
qed

section \<open>What a virtual service serves\<close>

text \<open>All the traffic of every route is divided, and that of the release by the weights of the tags.\<close>

definition divides_by :: "(string \<Rightarrow> nat) \<Rightarrow> VirtualServiceSpec \<Rightarrow> bool" where
  "divides_by w vs \<longleftrightarrow> list_ex is_release (vs_Http vs) \<and> (\<forall>r \<in> set (vs_Http vs). weight_of_route r = 100 \<and>
     (is_release r \<longrightarrow> (\<forall>t. route_weight r t = int (w t))))"

definition service_key :: "ReleaseManager \<Rightarrow> Key" where
  "service_key rm = \<lparr>key_Kind = KVirtualService, key_Namespace = TargetNamespace rm,
     key_Name = rmsp_App (rm_Spec rm)\<rparr>"

definition serves :: "store \<Rightarrow> Key \<Rightarrow> (string \<Rightarrow> nat) \<Rightarrow> bool" where
  "serves s k w \<longleftrightarrow> (\<exists>cur. s k = Some cur \<and>
     (isIgnored (ko_Meta cur) \<or> (\<exists>vs. ko_Body cur = VirtualServiceBody vs \<and> divides_by w vs)))"

end
