(* ===== verification/App_Properties.thy ===== *)
theory App_Properties
  imports Samples Memory_Cluster Fleet
begin

text \<open>
  The properties of an application in the target clusters: its routes, their weights and where they lead,
  and the objects its plan writes. The witnesses run on the cluster in memory.
\<close>

section \<open>Concrete plans\<close>

definition a_cluster :: Cluster where
  "a_cluster = \<lparr>cl_Meta = zero_ObjectMeta\<lparr>om_Name := ''one'', om_Namespace := ''picchu''\<rparr>,
     cl_Spec = \<lparr>cs_Enabled = True, cs_HotStandby = False,
       cs_Config = Some \<lparr>cc_Server = ''https://one'', cc_CertificateAuthorityData = []\<rparr>,
       cs_ScalingFactorString = Some ''1.0'',
       cs_Ingresses = \<lparr>ci_Public = \<lparr>ii_DNSName = ''public.one'', ii_Gateway = ''public-gw'', ii_DefaultDomains = [''com'']\<rparr>,
         ci_Private = \<lparr>ii_DNSName = ''private.one'', ii_Gateway = ''private-gw'', ii_DefaultDomains = [''net'']\<rparr>\<rparr>,
       cs_EnableDevRoutes = False, cs_DevRouteTagTemplate = [], cs_DisableEventDriven = False\<rparr>,
     cl_Status = \<lparr>cst_Kubernetes = \<lparr>cks_Version = [], cks_Ready = False\<rparr>\<rparr>\<rparr>"

definition port_80 :: PortInfo where
  "port_80 = \<lparr>pi_Name = ''http'', pi_Hosts = [], pi_IngressPort = 443, pi_Port = 80, pi_ContainerPort = 80,
     pi_Protocol = ''TCP'', pi_Mode = PortLocal, pi_Default = False, pi_Ingresses = None,
     pi_Istio = \<lparr>ipc_HTTP = \<lparr>ih_Retries = None, ih_Timeout = None\<rparr>\<rparr>\<rparr>"

definition a_rule :: Rule where
  "a_rule = \<lparr>ru_Record = [], ru_Alert = ''Down'', ru_Expr = ''up == 0'', ru_For = [], ru_Labels = [],
     ru_Annotations = []\<rparr>"

text \<open>An application with two revisions that share the traffic.\<close>

definition an_app :: SyncApp where
  "an_app = \<lparr>sap_App = ''app'', sap_Target = ''production'', sap_Fleet = ''fleet'',
     sap_Namespace = ''app-production'', sap_Labels = [(LabelApp, ''app'')],
     sap_DeployedRevisions = [
       \<lparr>prv_Tag = ''v1'', prv_Weight = 90, prv_TagRoutingHeader = [], prv_TrafficPolicy = None\<rparr>,
       \<lparr>prv_Tag = ''v2'', prv_Weight = 10, prv_TagRoutingHeader = ''MEDIUM-TAG'', prv_TrafficPolicy = None\<rparr>],
     sap_AlertRules = [a_rule], sap_Ports = [port_80], sap_HTTPPortFaults = [], sap_IstioSidecarConfig = None,
     sap_DefaultIngressPorts = None, sap_DevRoutesServiceHost = [], sap_DevRoutesServicePort = 0\<rparr>"

definition no_template :: "string \<Rightarrow> SyncApp \<Rightarrow> goerror + string" where
  "no_template tmpl p = Inl (Errorf ''template'')"

lemma an_app_service:
  "case virtualService no_template an_app a_cluster of
     Some (Some obj) \<Rightarrow> (case ko_Body obj of
       VirtualServiceBody vs \<Rightarrow> map ht_Name (vs_Http vs) = [''00_tagged-v2-http'', ''01_release-http''] \<and>
         vs_Hosts vs = [''app.app-production.svc.cluster.local''] \<and>
         map weight_of_route (vs_Http vs) = [100, 100]
     | _ \<Rightarrow> False)
   | _ \<Rightarrow> False"
  by code_simp

section \<open>The traffic of an application\<close>

lemma unat_sum_le: "x \<in> set xs \<Longrightarrow> unat (f x) \<le> sum_list (map (\<lambda>x. unat (f x)) xs)"
  by (induction xs) auto

lemma small_weight:
  assumes "sum_list (map (\<lambda>pr. unat (prv_Weight pr)) prs) = 100" "pr \<in> set prs"
  shows "i32_of_u32 (prv_Weight pr) = int (unat (prv_Weight pr))"
  using unat_sum_le [OF assms(2), of prv_Weight] assms(1) by (intro i32_of_u32_small) simp

lemma small_weights:
  assumes "sum_list (map (\<lambda>pr. unat (prv_Weight pr)) prs) = 100"
  shows "sum_list (map (\<lambda>pr. i32_of_u32 (prv_Weight pr)) prs) = 100"
proof -
  have "map (\<lambda>pr. i32_of_u32 (prv_Weight pr)) prs = map (\<lambda>pr. int (unat (prv_Weight pr))) prs"
    using small_weight [OF assms] by simp
  also have "sum_list \<dots> = int (sum_list (map (\<lambda>pr. unat (prv_Weight pr)) prs))"
    by (induction prs) auto
  finally show ?thesis using assms by simp
qed

lemma syncApp_plan:
  assumes "syncApp x faults now (ic, c) = Some (err, ic', c')" "deployed_incs ic \<noteq> []"
  shows "\<exists>p. prepareRevisions x now ic = Some (sap_DeployedRevisions p, ic') \<and>
    x_apply x (PlanSyncApp p) c = (err, c') \<and> sap_App p = rmsp_App (rm_Spec (x_rm x)) \<and>
    sap_Namespace p = TargetNamespace (x_rm x) \<and> sap_HTTPPortFaults p = faults \<and>
    sap_Ports p = map snd (port_map x (deployed_incs ic @ filter (\<lambda>i. state_of i = deploying) (sorted_incs ic))) \<and>
    sap_AlertRules p = prepareAlertRules x ic'"
  using assms
  by (auto simp: syncApp_def apply_step_def Let_def intro!: exI split: Option.bind_splits prod.splits)

text \<open>
  C4: whatever the syncer makes of a sound collection with traffic, the virtual service of its application
  plan shares the whole traffic: the weights of every route add up to 100, every route but the one for
  developers leads to subsets of deployed revisions, and the routes that need a header come before those of
  the release.
\<close>

theorem routed_traffic:
  assumes "sound_collection (x_rm x) ic" "deployed_incs ic \<noteq> []" "\<exists>i \<in> snd ` set ic. takes_traffic i"
    and "syncApp x faults now (ic, c) = Some (err, ic', c')"
  shows "\<exists>p. c' = snd (x_apply x (PlanSyncApp p) c) \<and>
    (\<forall>tmpl cluster obj. virtualService tmpl p cluster = Some (Some obj) \<longrightarrow>
      (\<exists>vs. ko_Body obj = VirtualServiceBody vs \<and> vs_Http vs \<noteq> [] \<and>
        (\<forall>r \<in> set (vs_Http vs). weight_of_route r = 100 \<and> (to_subset p r \<or> ht_Route r = devRoute p)) \<and>
        (\<exists>early late. vs_Http vs = early @ late \<and> list_all (\<lambda>r. \<not> is_release r) early \<and> list_all is_release late)))"
proof -
  from syncApp_plan [OF assms(4,2)] obtain p
    where prs: "prepareRevisions x now ic = Some (sap_DeployedRevisions p, ic')"
      and "x_apply x (PlanSyncApp p) c = (err, c')" by blast
  then have c': "c' = snd (x_apply x (PlanSyncApp p) c)" by simp
  have "sum_list (map (\<lambda>pr. unat (prv_Weight pr)) (sap_DeployedRevisions p)) = 100"
    using prepareRevisions_total [OF assms(1,2), of now] prs assms(3) by auto
  then have sum: "sum_list (map (\<lambda>pr. i32_of_u32 (prv_Weight pr)) (sap_DeployedRevisions p)) = 100"
    by (rule small_weights)
  show ?thesis
  proof (intro exI [of _ p] conjI c' allI impI)
    fix tmpl cluster obj
    assume vs: "virtualService tmpl p cluster = Some (Some obj)"
    from route_cases [OF vs] obtain v where v: "ko_Body obj = VirtualServiceBody v" "vs_Http v \<noteq> []"
      and r: "\<forall>r \<in> set (vs_Http v). weight_of_route r = 100 \<and> (to_subset p r \<or> ht_Route r = devRoute p)"
      using sum by fastforce
    from non_release_first [OF vs v(1)] v r
    show "\<exists>vs. ko_Body obj = VirtualServiceBody vs \<and> vs_Http vs \<noteq> [] \<and>
        (\<forall>r \<in> set (vs_Http vs). weight_of_route r = 100 \<and> (to_subset p r \<or> ht_Route r = devRoute p)) \<and>
        (\<exists>early late. vs_Http vs = early @ late \<and> list_all (\<lambda>r. \<not> is_release r) early \<and> list_all is_release late)"
      by blast
  qed
qed

text \<open>Two revisions of an application with one port, one of them ready to be released.\<close>

definition ported :: "string \<Rightarrow> State \<Rightarrow> u32 \<Rightarrow> Incarnation" where
  "ported tag state percent = (an_inc tag state percent percent 4)\<lparr>inc_revision :=
     Some (with_target (\<lambda>t. t\<lparr>rt_Ports := [port_80]\<rparr>) a_revision)\<rparr>"

definition two_ported :: Collection where
  "two_ported = [(''v1'', ported ''v1'' released 100), (''v2'', ported ''v2'' releasing 0)]"

lemma sound_two_ported:
  "sound_collection a_rm two_ported" "\<exists>i \<in> snd ` set two_ported. takes_traffic i"
  "deployed_incs two_ported \<noteq> []"
proof -
  show "sound_collection a_rm two_ported"
    by (auto simp: sound_collection_def wf_collection_def two_ported_def ported_def sound_def target_def
      samples currentPercent_def scalable_def ScalingStrategyLinear_def)
  show "\<exists>i \<in> snd ` set two_ported. takes_traffic i"
    by (auto simp: two_ported_def takes_traffic_def ported_def state_of_def an_inc_def)
  show "deployed_incs two_ported \<noteq> []" by code_simp
qed

lemma sync_two_ported:
  "case syncApp a_ctx [] 5 (two_ported, []) of
     Some (None, ic', [PlanSyncApp p]) \<Rightarrow>
       (case virtualService no_template p a_cluster of Some (Some obj) \<Rightarrow> True | _ \<Rightarrow> False)
   | _ \<Rightarrow> False"
  by code_simp

lemma routed_traffic_witness:
  "\<exists>p obj vs. virtualService no_template p a_cluster = Some (Some obj) \<and> ko_Body obj = VirtualServiceBody vs \<and>
     vs_Http vs \<noteq> [] \<and> list_all (\<lambda>r. weight_of_route r = 100) (vs_Http vs)"
proof -
  obtain ic' p obj where s: "syncApp a_ctx [] 5 (two_ported, []) = Some (None, ic', [PlanSyncApp p])"
    and v: "virtualService no_template p a_cluster = Some (Some obj)"
    using sync_two_ported by (auto split: option.splits prod.splits list.splits Plan.splits)
  have sound: "sound_collection (x_rm a_ctx) two_ported" using sound_two_ported(1) by simp
  from routed_traffic [OF sound sound_two_ported(3,2) s] obtain p' where p': "[PlanSyncApp p] = snd (x_apply a_ctx (PlanSyncApp p') [])"
    and *: "\<forall>tmpl cluster obj. virtualService tmpl p' cluster = Some (Some obj) \<longrightarrow>
      (\<exists>vs. ko_Body obj = VirtualServiceBody vs \<and> vs_Http vs \<noteq> [] \<and>
        (\<forall>r \<in> set (vs_Http vs). weight_of_route r = 100 \<and> (to_subset p' r \<or> ht_Route r = devRoute p')) \<and>
        (\<exists>early late. vs_Http vs = early @ late \<and> list_all (\<lambda>r. \<not> is_release r) early \<and> list_all is_release late))"
    by blast
  from p' have "p' = p" by simp
  with * v obtain vs where "ko_Body obj = VirtualServiceBody vs" "vs_Http vs \<noteq> []"
    "\<forall>r \<in> set (vs_Http vs). weight_of_route r = 100" by blast
  with v show ?thesis by (auto simp: list_all_iff)
qed

lemmas label_names = LabelApp_def LabelTag_def LabelTarget_def LabelK8sName_def LabelK8sVersion_def
  LabelIstioApp_def LabelIstioVersion_def labelDestinationTag_def labelPodTTL_def

text \<open>The labels of a selector are those of the pods of a revision's plan.\<close>

definition selects_pods :: "strmap \<Rightarrow> SyncRevision \<Rightarrow> bool" where
  "selects_pods sel q \<longleftrightarrow> list_all (\<lambda>(k, v). map_of (template_labels q (pod_labels q)) k = Some v) sel"

lemma pod_label:
  assumes "gen_syncPlan x i t configs xs = Some q"
  shows "map_of (template_labels q (pod_labels q)) labelDestinationTag = Some (srv_Tag q)"
    and "map_of (template_labels q (pod_labels q)) LabelApp = Some (srv_App q)"
proof -
  have q: "srv_Labels q = defaultLabels (x_rm x) i" "srv_App q = appName (x_rm x)"
    using assms by (auto simp: gen_syncPlan_def split: Option.bind_splits)
  show "map_of (template_labels q (pod_labels q)) labelDestinationTag = Some (srv_Tag q)"
    by (rule destination_tag) (simp_all add: q defaultLabels_def label_names)
  show "map_of (template_labels q (pod_labels q)) LabelApp = Some (srv_App q)"
    by (subst map_of_template_labels [OF distinct_pod_labels])
      (simp_all add: pod_labels_def map_of_copy_into q defaultLabels_def label_names del: map_of_eq_Some_iff)
qed

text \<open>
  C16: a route reaches the pods it means: for every destination of a route that is not the developers', the
  destination rule of the application declares the subset, and the pods of the revision with that tag, made
  by the plan its incarnation generates, carry the labels of the subset and those the service selects.
\<close>

theorem routes_reach_pods:
  assumes "gen_syncPlan x i t configs xs = Some q" "sap_App p = srv_App q"
    and "virtualService tmpl p cluster = Some (Some obj)" "ko_Body obj = VirtualServiceBody vs"
    and "r \<in> set (vs_Http vs)" "ht_Route r \<noteq> devRoute p" "d \<in> set (ht_Route r)" "hd_Subset d = srv_Tag q"
  shows "\<exists>rule su ports. ko_Body (destinationRule p) = DestinationRuleBody rule \<and> su \<in> set (dr_Subsets rule) \<and>
    hd_Host d = dr_Host rule \<and> su_Name su = hd_Subset d \<and>
    selects_pods (su_Labels su) q \<and> ko_Body (service p) = ServiceBody ports [(LabelApp, sap_App p)] \<and>
    selects_pods [(LabelApp, sap_App p)] q"
proof -
  have "to_subset p r" using route_cases [OF assms(3)] assms(4-6) by auto
  then obtain revision where rv: "revision \<in> set (sap_DeployedRevisions p)" "prv_Tag revision = hd_Subset d"
    and host: "hd_Host d = serviceHost p"
    using assms(7) by (auto simp: to_subset_def list_all_iff list_ex_iff)
  note pods = pod_label [OF assms(1)]
  show ?thesis using rv host pods assms(2,8)
    by (fastforce simp: destinationRule_def service_def Let_def selects_pods_def labelDestinationTag_def)
qed

text \<open>The plan its incarnation generates for the second revision.\<close>

definition a_sync :: SyncRevision where
  "a_sync = \<lparr>srv_App = ''app'', srv_Tag = ''v2'', srv_Namespace = ''app-production'',
     srv_Labels = [(LabelApp, ''app''), (LabelTag, ''v2''), (LabelTarget, ''production''),
       (LabelK8sName, ''app''), (LabelK8sVersion, ''v2''), (LabelIstioApp, ''app''), (LabelIstioVersion, ''v2'')],
     srv_Configs = [], srv_Ports = [port_80], srv_Replicas = 1, srv_Image = ''app:v1'',
     srv_Resources = \<lparr>rr_Requests = [], rr_Limits = []\<rparr>, srv_IAMRole = [], srv_PodAnnotations = [],
     srv_KarpenterDoNotDisrupt = [], srv_ServiceAccountName = [], srv_LivenessProbe = None,
     srv_ReadinessProbe = None, srv_MinReadySeconds = 0, srv_Worker = None, srv_KedaWorker = None,
     srv_Lifecycle = None, srv_PriorityClassName = [], srv_Affinity = None, srv_Tolerations = [],
     srv_EnvVars = [], srv_Sidecars = [], srv_VolumeMounts = [], srv_Volumes = [],
     srv_PodDisruptionBudget = None, srv_TopologySpreadConstraint = None, srv_ExternalSecrets = [],
     srv_SchedulerName = [], srv_EventDriven = False\<rparr>"

lemma a_sync_plan:
  "gen_syncPlan a_ctx (ported ''v2'' releasing 0) (a_target\<lparr>rt_Ports := [port_80]\<rparr>) [] [] = Some a_sync"
  by code_simp

lemma an_app_obj:
  "\<exists>obj vs. virtualService no_template an_app a_cluster = Some (Some obj) \<and> ko_Body obj = VirtualServiceBody vs \<and>
     map (\<lambda>r. map hd_Subset (ht_Route r)) (vs_Http vs) = [[''v2''], [''v1'', ''v2'']]"
proof -
  have "case virtualService no_template an_app a_cluster of
     Some (Some obj) \<Rightarrow> (case ko_Body obj of
       VirtualServiceBody vs \<Rightarrow> map (\<lambda>r. map hd_Subset (ht_Route r)) (vs_Http vs) = [[''v2''], [''v1'', ''v2'']]
     | _ \<Rightarrow> False)
   | _ \<Rightarrow> False"
    by code_simp
  then show ?thesis by (auto split: option.splits Body.splits)
qed

lemma routes_reach_pods_witness:
  "\<exists>rule. ko_Body (destinationRule an_app) = DestinationRuleBody rule \<and>
     list_ex (\<lambda>su. su_Name su = ''v2'' \<and> selects_pods (su_Labels su) a_sync) (dr_Subsets rule)"
proof -
  obtain obj vs where v: "virtualService no_template an_app a_cluster = Some (Some obj)"
    "ko_Body obj = VirtualServiceBody vs"
    and r: "map (\<lambda>r. map hd_Subset (ht_Route r)) (vs_Http vs) = [[''v2''], [''v1'', ''v2'']]"
    using an_app_obj by (elim exE conjE)
  then obtain r0 d rs where d: "vs_Http vs = r0 # rs" "ht_Route r0 = [d]" "hd_Subset d = ''v2''" by auto
  then have "ht_Route r0 \<noteq> devRoute an_app" by (auto simp: devRoute_def)
  moreover have "srv_Tag a_sync = ''v2''" "srv_App a_sync = sap_App an_app"
    by (simp_all add: a_sync_def an_app_def)
  ultimately show ?thesis
    using routes_reach_pods [OF a_sync_plan _ v, of r0 d] d by (auto simp: list_ex_iff)
qed

section \<open>Writing an object\<close>

lemma ignored_untouched:
  assumes "documented cli store" "CreateOrUpdate cli typed c = Some (None, c')"
    and "store c (key_to typed) = Some cur" "isIgnored (ko_Meta cur)"
  shows "store c' = store c"
proof -
  obtain obj f new where f: "cases_of typed = Some (obj, f)" "f (held (store c) obj) = Some new"
    and c': "store c' = (store c)(key_to typed \<mapsto> new)"
    using CreateOrUpdate_ok [OF assms(1,2)] by blast
  have "held (store c) obj = cur" using cases_of_key [OF f(1)] assms(3) by (simp add: held_def)
  with f cases_of_ignored [OF f(1) assms(4)] c' assms(3) show ?thesis by auto
qed

text \<open>
  C17: what every write of a plan keeps: only the object itself may change, nothing does when the write fails
  or when the object in the cluster carries the label that says to ignore it, and writing an object a second
  time changes nothing (a pod template that has the annotation against disruption, but empty, excepted: its
  second write removes the annotation).
\<close>

theorem write_contract:
  assumes "documented cli store" "CreateOrUpdate cli typed c = Some (err, c')"
  shows "(\<forall>k. k \<noteq> key_to typed \<longrightarrow> store c' k = store c k) \<and> (err \<noteq> None \<longrightarrow> store c' = store c) \<and>
    (\<forall>cur. store c (key_to typed) = Some cur \<and> isIgnored (ko_Meta cur) \<longrightarrow> store c' = store c) \<and>
    (\<forall>c''. err = None \<and> stable_template typed \<and> CreateOrUpdate cli typed c' = Some (None, c'') \<longrightarrow>
       store c'' = store c')"
proof (cases err)
  case None
  with assms(2) have run: "CreateOrUpdate cli typed c = Some (None, c')" by simp
  show ?thesis
    using CreateOrUpdate_ok [OF assms(1) run] ignored_untouched [OF assms(1) run]
      CreateOrUpdate_again [OF assms(1) _ run] None by auto
next
  case (Some e)
  with assms(2) CreateOrUpdate_error [OF assms(1)] show ?thesis by simp
qed

definition ignored_service :: KubeObj where
  "ignored_service = object (named ''app-production'' ''app'' (Some [(LabelIgnore, [])])) (ServiceBody [] [])"

lemma write_contract_witness:
  "\<exists>c'. CreateOrUpdate mem (service an_app) [ignored_service] = Some (None, c') \<and>
     mem_store c' (key_to (service an_app)) = Some ignored_service"
proof -
  have "case CreateOrUpdate mem (service an_app) [ignored_service] of Some (None, c') \<Rightarrow> True | _ \<Rightarrow> False"
    by code_simp
  then obtain c' where r: "CreateOrUpdate mem (service an_app) [ignored_service] = Some (None, c')"
    by (auto split: option.splits prod.splits)
  have k: "mem_store [ignored_service] (key_to (service an_app)) = Some ignored_service" by code_simp
  moreover have "isIgnored (ko_Meta ignored_service)" by code_simp
  ultimately show ?thesis using write_contract [OF mem_documented r] r by auto
qed

section \<open>What the plan of an application leaves in a cluster\<close>

lemma SyncApp_leaves:
  assumes "documented cli store" "each (CreateOrUpdate cli) (SyncApp_base p) c = Some (None, c1)"
  shows "list_all (stored_body (store c1)) (SyncApp_base p)"
    and "\<And>k. k \<notin> key_to ` set (SyncApp_base p) \<Longrightarrow> store c1 k = store c k"
proof -
  have kinds: "list_all stable_template (SyncApp_base p)" "list_all whole_spec (SyncApp_base p)"
    using SyncApp_kinds(3,4) [where p = p] by (simp_all add: list_all_iff)
  from each_realises [OF assms(1) kinds(1) SyncApp_kinds(1) assms(2)] kinds(2) realised_body
  show "list_all (stored_body (store c1)) (SyncApp_base p)"
    "\<And>k. k \<notin> key_to ` set (SyncApp_base p) \<Longrightarrow> store c1 k = store c k"
    by (auto simp: list_all_iff)
qed

lemma base_no_service: "key_Kind k = KVirtualService \<Longrightarrow> k \<notin> key_to ` set (SyncApp_base p)"
  using SyncApp_kinds(5) by auto

lemma stored_elsewhere:
  assumes "list_all (stored_body s) objs" "\<And>k. k \<in> key_to ` set objs \<Longrightarrow> s' k = s k"
  shows "list_all (stored_body s') objs"
  using assms by (auto simp: list_all_iff stored_body_def)

text \<open>The routes come when nothing is in their way: after the rules that are not wanted are gone.\<close>

lemma SyncApp_finishes:
  assumes "documented cli store" "each (CreateOrUpdate cli) (SyncApp_base p) c = Some (None, c1)"
    and "store c2 = (\<lambda>k. if k \<in> set (SyncApp_unwanted p) then None else store c1 k)"
    and "each (CreateOrUpdate cli) (SyncApp_routes tmpl cluster p) c2 = Some (None, c')"
  shows "list_all (stored_body (store c')) (SyncApp_base p @ SyncApp_routes tmpl cluster p) \<and>
    list_all (\<lambda>k. store c' k = None) (SyncApp_unwanted p) \<and>
    (\<forall>k. k \<notin> key_to ` set (SyncApp_base p @ SyncApp_routes tmpl cluster p) \<union> set (SyncApp_unwanted p) \<longrightarrow>
       store c' k = store c k)"
proof -
  let ?routes = "SyncApp_routes tmpl cluster p"
  note base = SyncApp_leaves [OF assms(1,2)]
  have kinds: "list_all stable_template ?routes" "list_all whole_spec ?routes"
    using SyncApp_kinds(3,4) [where p = p and tmpl = tmpl and cluster = cluster] by (simp_all add: list_all_iff)
  from each_realises [OF assms(1) kinds(1) SyncApp_kinds(2) assms(4)]
  have routes: "list_all (realised (store c')) ?routes" "\<And>k. k \<notin> key_to ` set ?routes \<Longrightarrow> store c' k = store c2 k" by blast+
  have apart: "k \<notin> key_to ` set ?routes" if "key_Kind k \<noteq> KVirtualService" for k
    using that SyncApp_kinds(6) by force
  have gone: "store c' k = None" if "k \<in> set (SyncApp_unwanted p)" for k
  proof -
    have "key_Kind k = KPrometheusRule" using SyncApp_kinds(7) [OF that] by blast
    then have "key_Kind k \<noteq> KVirtualService" by simp
    from routes(2) [OF apart [OF this]] that show ?thesis by (simp add: assms(3))
  qed
  have same: "store c' k = store c1 k" if "k \<in> key_to ` set (SyncApp_base p)" for k
  proof -
    have "key_Kind k \<noteq> KVirtualService" "k \<notin> set (SyncApp_unwanted p)"
      using that SyncApp_kinds(5) SyncApp_kinds(7) by blast+
    then show ?thesis using routes(2) [OF apart, of k] by (simp add: assms(3))
  qed
  from stored_elsewhere [OF base(1) same] routes(1) kinds(2) realised_body
  have "list_all (stored_body (store c')) (SyncApp_base p @ ?routes)" by (auto simp: list_all_iff)
  moreover have "store c' k = store c k"
    if "k \<notin> key_to ` set (SyncApp_base p @ ?routes) \<union> set (SyncApp_unwanted p)" for k
  proof -
    from that have k: "k \<notin> key_to ` set (SyncApp_base p)" "k \<notin> key_to ` set ?routes" "k \<notin> set (SyncApp_unwanted p)"
      by auto
    from routes(2) [OF k(2)] base(2) [OF k(1)] k(3) show ?thesis by (simp add: assms(3))
  qed
  ultimately show ?thesis using gone by (simp add: list_all_iff del: Un_iff)
qed

text \<open>
  C9: the application's plan implements its specification, the list of the objects wanted, on every path
  through it: without ports nothing, without deployed revisions the service and its sidecar
  (\<open>SyncApp_base\<close>), at last the virtual service (\<open>SyncApp_routes\<close>), and the alert rules gone when there are
  none (\<open>SyncApp_unwanted\<close>). When it succeeds, each object wanted is in the cluster with the specification
  wanted, unless the object there is to be ignored, what is not wanted is gone, and nothing else has changed,
  but for one case: when the cluster refused to delete the alert rules, which is not reported, the virtual
  service is as it was before.
\<close>

theorem app_realised:
  assumes "documented cli store" "SyncApp_Apply tmpl cli cluster p c = Some (None, c')"
  shows "list_all (stored_body (store c')) (SyncApp_base p) \<and>
    (\<forall>k. k \<notin> key_to ` set (SyncApp_base p @ SyncApp_routes tmpl cluster p) \<union> set (SyncApp_unwanted p) \<longrightarrow>
       store c' k = store c k) \<and>
    (list_all (stored_body (store c')) (SyncApp_routes tmpl cluster p) \<and>
       list_all (\<lambda>k. store c' k = None) (SyncApp_unwanted p) \<or>
     (\<exists>c1 e. SyncApp_unwanted p = [rules_key (sap_Namespace p) (sap_App p)] \<and>
        k_Delete cli (rules_key (sap_Namespace p) (sap_App p)) c1 = (Some e, c') \<and> e \<noteq> NotFound \<and>
        list_all (\<lambda>obj. store c' (key_to obj) = store c (key_to obj)) (SyncApp_routes tmpl cluster p)))"
  using assms(2)
proof (cases rule: SyncApp_success)
  case (writes c1)
  then have "store c1 = (\<lambda>k. if k \<in> set (SyncApp_unwanted p) then None else store c1 k)" by simp
  from SyncApp_finishes [OF assms(1) writes(1) this writes(3)] show ?thesis by (simp del: Un_iff)
next
  case (deletes c1 err c2)
  from Delete_cases [OF assms(1), where k = "key_of (prometheusRule p)" and c = c1] deletes(2-4)
  have "store c2 = (\<lambda>k. if k \<in> set (SyncApp_unwanted p) then None else store c1 k)"
    by (auto simp: fun_eq_iff)
  from SyncApp_finishes [OF assms(1) deletes(1) this deletes(5)] show ?thesis by (simp del: Un_iff)
next
  case (stuck c1 e)
  note base = SyncApp_leaves [OF assms(1) stuck(1)]
  have "store c' = store c1"
    using Delete_cases [OF assms(1), where k = "key_of (prometheusRule p)" and c = c1] by (simp add: stuck(3))
  moreover have "key_to obj \<notin> key_to ` set (SyncApp_base p)" if "obj \<in> set (SyncApp_routes tmpl cluster p)" for obj
    by (rule base_no_service) (simp add: SyncApp_kinds(6) [OF that])
  ultimately have kept: "list_all (\<lambda>obj. store c' (key_to obj) = store c (key_to obj)) (SyncApp_routes tmpl cluster p)"
    and bodies: "list_all (stored_body (store c')) (SyncApp_base p)"
    and frame: "\<forall>k. k \<notin> key_to ` set (SyncApp_base p @ SyncApp_routes tmpl cluster p) \<union> set (SyncApp_unwanted p) \<longrightarrow>
      store c' k = store c k"
    using base by (simp_all add: list_all_iff image_Un)
  show ?thesis using stuck(2-4) by (intro conjI bodies frame disjI2 exI [of _ c1] exI [of _ e] kept) (simp_all add: key_prometheusRule)
qed

lemma app_realised_witness:
  "\<exists>c'. SyncApp_Apply no_template mem a_cluster an_app [] = Some (None, c') \<and>
     stored_body (mem_store c') (destinationRule an_app) \<and>
     mem_store c' \<lparr>key_Kind = KSecret, key_Namespace = ''app-production'', key_Name = ''app''\<rparr> = None"
proof -
  let ?k = "\<lparr>key_Kind = KSecret, key_Namespace = ''app-production'', key_Name = ''app''\<rparr>"
  obtain vs where v: "virtualService no_template an_app a_cluster = Some vs"
    using an_app_service by (auto split: option.splits)
  then obtain c' where a: "SyncApp_Apply no_template mem a_cluster an_app [] = Some (None, c')"
    using mem_app by (metis option.discI succeedsE)
  note r = app_realised [OF mem_documented a]
  have "?k \<noteq> key_to obj" if "whole_spec obj" for obj
    using that by (auto simp: whole_spec_def dest!: arg_cong [where f = key_Kind] simp: kind_key_to)
  moreover have "?k \<notin> set (SyncApp_unwanted an_app)" by (simp add: SyncApp_unwanted_def an_app_def)
  ultimately have "?k \<notin> key_to ` set (SyncApp_base an_app @ SyncApp_routes no_template a_cluster an_app) \<union>
      set (SyncApp_unwanted an_app)"
    using SyncApp_kinds(3) by blast
  with r have "mem_store c' ?k = mem_store [] ?k" by blast
  moreover have "destinationRule an_app \<in> set (SyncApp_base an_app)" by (simp add: SyncApp_base_def an_app_def)
  with r have "stored_body (mem_store c') (destinationRule an_app)" by (simp add: list_all_iff)
  ultimately show ?thesis using a by (simp add: mem_store_def)
qed

text \<open>
  C24: without alert rules the plan deletes those there are first, and the error of that deletion is lost: when
  the cluster refuses it, the plan ends without an error, although the virtual service, and so the division of
  the traffic, is as it was before.
\<close>

theorem failed_rules_skip_routes:
  assumes "documented cli store" "sap_Ports p \<noteq> []" "sap_DeployedRevisions p \<noteq> []" "sap_AlertRules p = []"
    and "each (CreateOrUpdate cli) (SyncApp_base p) c = Some (None, c1)"
    and "k_Delete cli (rules_key (sap_Namespace p) (sap_App p)) c1 = (Some e, c2)" "e \<noteq> NotFound"
  shows "SyncApp_Apply tmpl cli cluster p c = Some (None, c2) \<and>
    list_all (stored_body (store c2)) (SyncApp_base p) \<and>
    store c2 \<lparr>key_Kind = KVirtualService, key_Namespace = sap_Namespace p, key_Name = sap_App p\<rparr> =
      store c \<lparr>key_Kind = KVirtualService, key_Namespace = sap_Namespace p, key_Name = sap_App p\<rparr>"
proof -
  note base = SyncApp_leaves [OF assms(1,5)]
  have "store c2 = store c1"
    using Delete_cases [OF assms(1), where k = "rules_key (sap_Namespace p) (sap_App p)" and c = c1] by (simp add: assms(6))
  moreover have "\<lparr>key_Kind = KVirtualService, key_Namespace = sap_Namespace p, key_Name = sap_App p\<rparr> \<notin>
      key_to ` set (SyncApp_base p)"
    by (rule base_no_service) simp
  ultimately show ?thesis
    using SyncApp_rules_stuck [OF assms(2-5) _ assms(7)] assms(6) base by (simp add: key_prometheusRule)
qed

text \<open>A cluster in which nothing may be deleted.\<close>

definition mem_guarded :: "KubeObj list Client" where
  "mem_guarded = mem\<lparr>k_Delete := \<lambda>k c. (Some (Errorf ''forbidden''), c)\<rparr>"

lemma mem_guarded_documented: "documented mem_guarded mem_store"
  using mem_documented
  by (simp add: documented_def documented_CreateOrUpdate_def documented_Get_def documented_write_def
    documented_Delete_def documented_List_def mem_guarded_def)

lemma guarded_base:
  "case each (CreateOrUpdate mem_guarded) (SyncApp_base (an_app\<lparr>sap_AlertRules := []\<rparr>)) [] of
     Some (None, c1) \<Rightarrow> length c1 = 2 | _ \<Rightarrow> False"
  by code_simp

lemma failed_rules_skip_routes_witness:
  "\<exists>c'. SyncApp_Apply no_template mem_guarded a_cluster (an_app\<lparr>sap_AlertRules := []\<rparr>) [] = Some (None, c') \<and>
     mem_store c' \<lparr>key_Kind = KVirtualService, key_Namespace = ''app-production'', key_Name = ''app''\<rparr> = None \<and>
     stored_body (mem_store c') (service an_app)"
proof -
  let ?p = "an_app\<lparr>sap_AlertRules := []\<rparr>"
  obtain c1 where base: "each (CreateOrUpdate mem_guarded) (SyncApp_base ?p) [] = Some (None, c1)"
    using guarded_base by (auto split: option.splits prod.splits)
  have p: "sap_Ports ?p \<noteq> []" "sap_DeployedRevisions ?p \<noteq> []" "sap_AlertRules ?p = []"
    and names: "sap_Namespace ?p = ''app-production''" "sap_App ?p = ''app''"
    by (simp_all add: an_app_def)
  have refused: "k_Delete mem_guarded k c1 = (Some (Errorf ''forbidden''), c1)" for k by (simp add: mem_guarded_def)
  from failed_rules_skip_routes [OF mem_guarded_documented p base refused, of no_template a_cluster]
  have r: "SyncApp_Apply no_template mem_guarded a_cluster ?p [] = Some (None, c1)"
    "list_all (stored_body (mem_store c1)) (SyncApp_base ?p)"
    "mem_store c1 \<lparr>key_Kind = KVirtualService, key_Namespace = ''app-production'', key_Name = ''app''\<rparr> =
      mem_store [] \<lparr>key_Kind = KVirtualService, key_Namespace = ''app-production'', key_Name = ''app''\<rparr>"
    unfolding names by simp_all
  have "service ?p \<in> set (SyncApp_base ?p)" using p by (simp add: SyncApp_base_def)
  moreover have "service ?p = service an_app" by (simp add: service_def)
  ultimately show ?thesis using r by (auto simp: list_all_iff mem_store_def)
qed

end
