(* ===== verification/Cluster_Controllers.thy ===== *)
theory Cluster_Controllers
  imports Create_Or_Update Defaults
begin

text \<open>
  The clusters of a fleet: the configuration of their clients (\<^verbatim>\<open>src/api/v1alpha1/cluster_types.go\<close>),
  \<^verbatim>\<open>RemoteClient\<close> of \<^verbatim>\<open>src/controllers/utils/api.go\<close>, the reconciler of a \<^verbatim>\<open>Cluster\<close>
  (\<^verbatim>\<open>cluster_controller.go\<close>) and that of a \<^verbatim>\<open>ClusterSecrets\<close>, which copies secrets to the clusters
  (\<^verbatim>\<open>clustersecrets_controller.go\<close>, \<^verbatim>\<open>reconcilerequest.go\<close>, \<^verbatim>\<open>secretdeployer.go\<close>). Decoding the
  credentials, client-go and the Kubernetes API are parameters.
\<close>

section \<open>The configuration of a client\<close>

text \<open>\<open>ce_clientConfig\<close> takes the server, the certificate and the credentials.\<close>

record ('auth, 'conf) ConfigEnv =
  ce_inCluster :: "goerror + 'conf option"
  ce_unmarshal :: "string \<Rightarrow> goerror + 'auth"
  ce_clientConfig :: "string \<Rightarrow> string \<Rightarrow> 'auth \<Rightarrow> goerror + 'conf option"

text \<open>The secret is a nil pointer or the data of a secret; the configuration returned may be nil.\<close>

definition Cluster_Config ::
  "('auth, 'conf) ConfigEnv \<Rightarrow> Cluster \<Rightarrow> strmap option \<Rightarrow> goerror + 'conf option" where
  "Cluster_Config env c secret =
     (case (secret, cs_Config (cl_Spec c)) of
        (None, None) \<Rightarrow> ce_inCluster env
      | (Some data, Some config) \<Rightarrow>
          (case map_of data ''auth-info'' of
             None \<Rightarrow> Inl (Errorf ''auth-info not found in Secret'')
           | Some authInfoJSON \<Rightarrow>
               (case ce_unmarshal env authInfoJSON of
                  Inl e \<Rightarrow> Inl e
                | Inr authInfo \<Rightarrow>
                    ce_clientConfig env (cc_Server config) (cc_CertificateAuthorityData config) authInfo))
      | _ \<Rightarrow> Inl (Errorf ''Illegal state, Secret and Config must both be specified for remote clusters''))"

section \<open>RemoteClient\<close>

text \<open>
  The clients made are kept in a map. \<^verbatim>\<open>checkCache\<close> ignores its key and looks the empty key up, under
  which nothing is ever kept.
\<close>

type_synonym ObjectKey = "string \<times> string"
type_synonym 'cli client_cache = "ObjectKey \<Rightarrow> 'cli option"

definition checkClientCache :: "'cli client_cache \<Rightarrow> ObjectKey \<Rightarrow> 'cli option" where
  "checkClientCache cache key = cache ([], [])"

record ('auth, 'conf, 'cli) RemoteEnv =
  re_config :: "('auth, 'conf) ConfigEnv"
  re_getSecret :: "ObjectKey \<Rightarrow> goerror + strmap"
  re_newClient :: "'conf \<Rightarrow> goerror + 'cli"

definition cluster_key :: "Cluster \<Rightarrow> ObjectKey" where
  "cluster_key cluster = (om_Namespace (cl_Meta cluster), om_Name (cl_Meta cluster))"

definition RemoteClient ::
  "('auth, 'conf, 'cli) RemoteEnv \<Rightarrow> Cluster \<Rightarrow> 'cli client_cache \<Rightarrow>
   (goerror + 'cli) \<times> 'cli client_cache" where
  "RemoteClient env cluster cache = (let key = cluster_key cluster in
     if key = ([], []) then (Inl (Errorf ''NamespacedName is empty''), cache)
     else case checkClientCache cache key of
       Some cli \<Rightarrow> (Inr cli, cache)
     | None \<Rightarrow>
         (case re_getSecret env key of
            Inl e \<Rightarrow> (Inl e, cache)
          | Inr secret \<Rightarrow>
              (case Cluster_Config (re_config env) cluster (Some secret) of
                 Inl e \<Rightarrow> (Inl e, cache)
               | Inr None \<Rightarrow> (Inl (Errorf ''Failed to create k8s client config''), cache)
               | Inr (Some config) \<Rightarrow>
                   (case re_newClient env config of
                      Inl e \<Rightarrow> (Inl e, cache)
                    | Inr cli \<Rightarrow> (Inr cli, cache(key \<mapsto> cli))))))"

text \<open>The calls of a process, in order, with what the parameters answer at each.\<close>

fun RemoteClients ::
  "(('auth, 'conf, 'cli) RemoteEnv \<times> Cluster) list \<Rightarrow> 'cli client_cache \<Rightarrow> 'cli client_cache" where
  "RemoteClients [] cache = cache"
| "RemoteClients ((env, cluster) # calls) cache = RemoteClients calls (snd (RemoteClient env cluster cache))"

lemma RemoteClient_empty_key:
  "snd (RemoteClient env cluster cache) ([], []) = cache ([], [])"
  by (auto simp: RemoteClient_def Let_def split: option.split sum.split)

lemma RemoteClients_empty_key:
  "RemoteClients calls cache ([], []) = cache ([], [])"
  by (induction calls cache rule: RemoteClients.induct) (simp_all add: RemoteClient_empty_key)

lemma RemoteClient_cache_irrelevant:
  "cache ([], []) = None \<Longrightarrow> fst (RemoteClient env cluster cache) = fst (RemoteClient env cluster Map.empty)"
  by (auto simp: RemoteClient_def Let_def checkClientCache_def split: option.split sum.split)

text \<open>A cluster without a configuration, such as the operator's own, is never reached.\<close>

lemma RemoteClient_needs_config:
  assumes "cs_Config (cl_Spec cluster) = None" "cache ([], []) = None"
  shows "isl (fst (RemoteClient env cluster cache))"
  using assms by (auto simp: RemoteClient_def Let_def checkClientCache_def Cluster_Config_def split: sum.split)

section \<open>The reconciler of a cluster\<close>

datatype Outcome = RequeueNow | RequeueAfter duration | Done | ReturnError goerror

text \<open>\<^verbatim>\<open>return result, err\<close>\<close>

definition return_with :: "Outcome \<Rightarrow> goerror option \<Rightarrow> Outcome" where
  "return_with r err = (case err of None \<Rightarrow> r | Some e \<Rightarrow> ReturnError e)"

type_synonym Version = "string \<times> string"

definition FormatVersion :: "Version option \<Rightarrow> string" where
  "FormatVersion version = (case version of
     Some (major, minor) \<Rightarrow> if major \<noteq> [] \<and> minor \<noteq> [] then major @ ''.'' @ minor else []
   | None \<Rightarrow> [])"

text \<open>\<open>cle_version\<close> is \<^verbatim>\<open>ServerVersion\<close>: discovery's answer, which may be nil, and its error.\<close>

record ('auth, 'conf, 'c) ClusterEnv =
  cle_requeueAfter :: duration
  cle_get :: "ObjectKey \<Rightarrow> 'c \<Rightarrow> goerror + Cluster"
  cle_getSecret :: "ObjectKey \<Rightarrow> 'c \<Rightarrow> goerror + strmap"
  cle_update :: "Cluster \<Rightarrow> 'c \<Rightarrow> goerror option \<times> 'c"
  cle_updateStatus :: "Cluster \<Rightarrow> 'c \<Rightarrow> goerror option \<times> 'c"
  cle_config :: "('auth, 'conf) ConfigEnv"
  cle_version :: "'conf option \<Rightarrow> 'c \<Rightarrow> Version option \<times> goerror option"

definition no_ClusterStatus :: ClusterStatus where
  "no_ClusterStatus = \<lparr>cst_Kubernetes = \<lparr>cks_Version = [], cks_Ready = False\<rparr>\<rparr>"

text \<open>The status of a cluster that is not deleted: an error, or the cluster with its new status.\<close>

definition cluster_status :: "('auth, 'conf, 'c) ClusterEnv \<Rightarrow> Cluster \<Rightarrow> 'c \<Rightarrow> goerror + Cluster" where
  "cluster_status env instance c =
     (if \<not> cs_Enabled (cl_Spec instance) then Inr (instance\<lparr>cl_Status := no_ClusterStatus\<rparr>)
      else case cle_getSecret env (cluster_key instance) c of
        Inl e \<Rightarrow> Inr instance
      | Inr secret \<Rightarrow>
          (case Cluster_Config (cle_config env) instance (Some secret) of
             Inl e \<Rightarrow> Inl e
           | Inr config \<Rightarrow>
               (let (version, err) = cle_version env config c in
                Inr (instance\<lparr>cl_Status := \<lparr>cst_Kubernetes =
                  \<lparr>cks_Version = FormatVersion version, cks_Ready = err = None\<rparr>\<rparr>\<rparr>))))"

definition Cluster_Reconcile :: "('auth, 'conf, 'c) ClusterEnv \<Rightarrow> ObjectKey \<Rightarrow> 'c \<Rightarrow> Outcome \<times> 'c" where
  "Cluster_Reconcile env key c = (case cle_get env key c of
     Inl e \<Rightarrow> (if e = NotFound then Done else ReturnError e, c)
   | Inr instance \<Rightarrow> (let instance = SetObjectDefaults_Cluster instance in
       if \<not> Cluster_IsDeleted instance then
         if Cluster_IsFinalized instance then
           (let (err, c) = cle_update env (Cluster_AddFinalizer instance) c in (return_with RequeueNow err, c))
         else case cluster_status env instance c of
           Inl e \<Rightarrow> (ReturnError e, c)
         | Inr instance \<Rightarrow>
             (let (err, c) = cle_updateStatus env instance c
              in (return_with (RequeueAfter (cle_requeueAfter env)) err, c))
       else if \<not> Cluster_IsFinalized instance then
         (let (err, c) = cle_update env (Cluster_Finalize instance) c in (return_with Done err, c))
       else (Done, c)))"

section \<open>Copying secrets to the clusters\<close>

record ClusterSecretSource =
  css_Namespace :: string
  css_LabelSelector :: string
  css_FieldSelector :: string

record ClusterSecretTarget =
  cstg_Namespace :: string
  cstg_LabelSelector :: string
  cstg_FieldSelector :: string
  cstg_Labels :: "strmap option"
  cstg_Annotations :: "strmap option"

record ClusterSecrets =
  cse_Meta :: ObjectMeta
  cse_Source :: ClusterSecretSource
  cse_Target :: ClusterSecretTarget
  cse_Secrets :: "string list"

definition FinalizerClusterSecrets :: string where
  "FinalizerClusterSecrets = ''picchu.medium.engineering/clustersecrets''"

definition ClusterSecrets_IsDeleted :: "ClusterSecrets \<Rightarrow> bool" where
  "ClusterSecrets_IsDeleted s \<longleftrightarrow> deletion_set (cse_Meta s)"

definition ClusterSecrets_IsFinalized :: "ClusterSecrets \<Rightarrow> bool" where
  "ClusterSecrets_IsFinalized s \<longleftrightarrow>
     \<not> list_ex (\<lambda>item. item = FinalizerClusterSecrets) (om_Finalizers (cse_Meta s))"

definition ClusterSecrets_Finalize :: "ClusterSecrets \<Rightarrow> ClusterSecrets" where
  "ClusterSecrets_Finalize s = s\<lparr>cse_Meta := (cse_Meta s)\<lparr>om_Finalizers :=
     filter (\<lambda>item. item \<noteq> FinalizerClusterSecrets) (om_Finalizers (cse_Meta s))\<rparr>\<rparr>"

definition ClusterSecrets_AddFinalizer :: "ClusterSecrets \<Rightarrow> ClusterSecrets" where
  "ClusterSecrets_AddFinalizer s = s\<lparr>cse_Meta := (cse_Meta s)\<lparr>om_Finalizers :=
     om_Finalizers (cse_Meta s) @ [FinalizerClusterSecrets]\<rparr>\<rparr>"

interpretation csf: finalizer_protocol "\<lambda>s. om_Finalizers (cse_Meta s)" FinalizerClusterSecrets
    ClusterSecrets_IsFinalized ClusterSecrets_Finalize
  by unfold_locales (auto simp: ClusterSecrets_IsFinalized_def ClusterSecrets_Finalize_def list_ex_iff)

text \<open>
  The deployer of one cluster: the namespace, then every secret, going on after an error. The errors are
  collected; a panic of the client is passed on.
\<close>

definition secret_copy :: "ClusterSecretTarget \<Rightarrow> KubeObj \<Rightarrow> KubeObj" where
  "secret_copy t src = object (named (cstg_Namespace t) (om_Name (ko_Meta src)) None) (SecretBody [] (DataMap []))"

definition sync_secret :: "ClusterSecretTarget \<Rightarrow> KubeObj \<Rightarrow> mutate" where
  "sync_secret t src dst = Some (set_body (ko_Body src)
     (set_annotations (cstg_Annotations t) (set_labels (cstg_Labels t) dst)))"

fun deploy_secrets ::
  "'c Client \<Rightarrow> ClusterSecretTarget \<Rightarrow> KubeObj list \<Rightarrow> goerror list \<Rightarrow> 'c \<Rightarrow> (goerror list \<times> 'c) option" where
  "deploy_secrets cli t [] errs c = Some (errs, c)"
| "deploy_secrets cli t (src # srcs) errs c =
     (case k_CreateOrUpdate cli (secret_copy t src) (sync_secret t src) c of
        None \<Rightarrow> None
      | Some (Some e, c) \<Rightarrow> deploy_secrets cli t srcs (errs @ [e]) c
      | Some (None, c) \<Rightarrow> deploy_secrets cli t srcs errs c)"

definition syncSecretNamespace :: "'c Client \<Rightarrow> ClusterSecretTarget \<Rightarrow> 'c step" where
  "syncSecretNamespace cli t =
     k_CreateOrUpdate cli (object (named [] (cstg_Namespace t) None) NamespaceBody) Some"

definition deploy :: "'c Client \<Rightarrow> ClusterSecretTarget \<Rightarrow> KubeObj list \<Rightarrow> 'c step" where
  "deploy cli t secretList c = (case syncSecretNamespace cli t c of
     None \<Rightarrow> None
   | Some (Some e, c) \<Rightarrow> Some (Some e, c)
   | Some (None, c) \<Rightarrow>
       (case deploy_secrets cli t secretList [] c of
          None \<Rightarrow> None
        | Some (errs, c) \<Rightarrow> Some (if errs \<noteq> [] then Some (Errorf ''Failed to sync all secrets'') else None, c)))"

text \<open>
  The lists of the reconciler. \<^verbatim>\<open>client.ListOptions\<close> is made without its \<^verbatim>\<open>Raw\<close> pointer, through which the
  selectors are then written: a selector that is not empty panics.
\<close>

record ('auth, 'conf, 'c) SecretsEnv =
  se_get :: "ObjectKey \<Rightarrow> 'c \<Rightarrow> goerror + ClusterSecrets"
  se_update :: "ClusterSecrets \<Rightarrow> 'c \<Rightarrow> goerror option \<times> 'c"
  se_listSecrets :: "string \<Rightarrow> 'c \<Rightarrow> goerror + KubeObj list"
  se_listClusters :: "string \<Rightarrow> 'c \<Rightarrow> goerror + Cluster list"
  se_remote :: "'c \<Rightarrow> ('auth, 'conf, 'c Client) RemoteEnv"

definition secretList :: "('auth, 'conf, 'c) SecretsEnv \<Rightarrow> ClusterSecrets \<Rightarrow> 'c \<Rightarrow> (goerror + KubeObj list) option" where
  "secretList env s c = (let src = cse_Source s in
     if css_LabelSelector src \<noteq> [] \<or> css_FieldSelector src \<noteq> [] then None
     else Some (se_listSecrets env (css_Namespace src) c))"

definition clusterList :: "('auth, 'conf, 'c) SecretsEnv \<Rightarrow> ClusterSecrets \<Rightarrow> 'c \<Rightarrow> (goerror + Cluster list) option" where
  "clusterList env s c = (let t = cse_Target s in
     if cstg_LabelSelector t \<noteq> [] \<or> cstg_FieldSelector t \<noteq> [] then None
     else Some (map_sum id SetObjectDefaults_ClusterList (se_listClusters env (om_Namespace (cse_Meta s)) c)))"

type_synonym 'c with_cache = "'c Client client_cache \<times> 'c"

fun reconcile_clusters ::
  "('auth, 'conf, 'c) SecretsEnv \<Rightarrow> ClusterSecretTarget \<Rightarrow> KubeObj list \<Rightarrow> Cluster list \<Rightarrow> goerror list \<Rightarrow>
   'c with_cache \<Rightarrow> (goerror list \<times> 'c with_cache) option" where
  "reconcile_clusters env t secrets [] errs s = Some (errs, s)"
| "reconcile_clusters env t secrets (cluster # clusters) errs (cache, c) =
     (if \<not> cs_Enabled (cl_Spec cluster) then reconcile_clusters env t secrets clusters errs (cache, c)
      else case RemoteClient (se_remote env c) cluster cache of
        (Inl e, cache) \<Rightarrow> reconcile_clusters env t secrets clusters (errs @ [e]) (cache, c)
      | (Inr cli, cache) \<Rightarrow>
          (case deploy cli t secrets c of
             None \<Rightarrow> None
           | Some (Some e, c) \<Rightarrow> reconcile_clusters env t secrets clusters (errs @ [e]) (cache, c)
           | Some (None, c) \<Rightarrow> reconcile_clusters env t secrets clusters errs (cache, c)))"

definition reconcile_secrets ::
  "('auth, 'conf, 'c) SecretsEnv \<Rightarrow> ClusterSecrets \<Rightarrow> 'c with_cache \<Rightarrow>
   (goerror option \<times> 'c with_cache) option" where
  "reconcile_secrets env instance s = (case secretList env instance (snd s) of
     None \<Rightarrow> None
   | Some (Inl e) \<Rightarrow> Some (Some e, s)
   | Some (Inr secrets) \<Rightarrow>
       (case clusterList env instance (snd s) of
          None \<Rightarrow> None
        | Some (Inl e) \<Rightarrow> Some (Some e, s)
        | Some (Inr clusters) \<Rightarrow>
            (case reconcile_clusters env (cse_Target instance) secrets clusters [] s of
               None \<Rightarrow> None
             | Some (errs, s) \<Rightarrow>
                 Some (if errs \<noteq> [] then Some (Errorf ''Failed to reconcile all clusters'') else None, s))))"

text \<open>\<^verbatim>\<open>finalize\<close> is not implemented in the source: it returns nil.\<close>

definition finalize_secrets :: "ClusterSecrets \<Rightarrow> goerror option" where
  "finalize_secrets instance = None"

definition ClusterSecrets_Reconcile ::
  "('auth, 'conf, 'c) SecretsEnv \<Rightarrow> ObjectKey \<Rightarrow> 'c with_cache \<Rightarrow> (Outcome \<times> 'c with_cache) option" where
  "ClusterSecrets_Reconcile env key s = (case se_get env key (snd s) of
     Inl e \<Rightarrow> Some (if e = NotFound then Done else ReturnError e, s)
   | Inr instance \<Rightarrow>
       if \<not> ClusterSecrets_IsDeleted instance then
         if ClusterSecrets_IsFinalized instance then
           (let (err, c) = se_update env (ClusterSecrets_AddFinalizer instance) (snd s)
            in Some (return_with RequeueNow err, (fst s, c)))
         else map_option (\<lambda>(err, s). (return_with Done err, s)) (reconcile_secrets env instance s)
       else if \<not> ClusterSecrets_IsFinalized instance then
         Some (return_with Done (finalize_secrets instance), s)
       else Some (Done, s))"

section \<open>Facts\<close>

text \<open>The copy of a secret: its data and type, under the target's labels and annotations.\<close>

definition copied :: "ClusterSecretTarget \<Rightarrow> KubeObj \<Rightarrow> store \<Rightarrow> bool" where
  "copied t src s \<longleftrightarrow> (case s (key_of (secret_copy t src)) of
     None \<Rightarrow> False
   | Some obj \<Rightarrow> ko_Body obj = ko_Body src \<and> labels_of obj = cstg_Labels t \<and>
       annotations_of obj = cstg_Annotations t)"

lemma key_secret_copy:
  "key_of (secret_copy t src) =
     \<lparr>key_Kind = KSecret, key_Namespace = cstg_Namespace t, key_Name = om_Name (ko_Meta src)\<rparr>"
  by (simp add: secret_copy_def)

lemma sync_secret_fields:
  "sync_secret t src cur = Some obj \<Longrightarrow> ko_Body obj = ko_Body src \<and> labels_of obj = cstg_Labels t \<and>
     annotations_of obj = cstg_Annotations t"
  by (auto simp: sync_secret_def set_body_def set_annotations_def set_labels_def)

lemma deploy_one:
  assumes "documented cli store"
    "k_CreateOrUpdate cli (secret_copy t src) (sync_secret t src) c = Some (None, c')"
  shows "copied t src (store c') \<and>
    (\<forall>k. k \<noteq> key_of (secret_copy t src) \<longrightarrow> store c' k = store c k)"
  using CreateOrUpdate_success [OF assms] sync_secret_fields by (fastforce simp: copied_def)

lemma copied_cong:
  "s (key_of (secret_copy t src)) = s' (key_of (secret_copy t src)) \<Longrightarrow> copied t src s = copied t src s'"
  by (simp add: copied_def)

lemma deploy_secrets_step:
  assumes "documented cli store" "deploy_secrets cli t (src # srcs) errs c = Some (errs', c')"
  obtains errs1 c1 where "deploy_secrets cli t srcs errs1 c1 = Some (errs', c')"
    "\<forall>k. k \<noteq> key_of (secret_copy t src) \<longrightarrow> store c1 k = store c k"
    "errs1 = errs \<and> copied t src (store c1) \<or> (\<exists>e. errs1 = errs @ [e] \<and> store c1 = store c)"
proof (cases "k_CreateOrUpdate cli (secret_copy t src) (sync_secret t src) c")
  case None
  with assms(2) show ?thesis by simp
next
  case (Some r)
  obtain err c1 where r: "r = (err, c1)" by fastforce
  show ?thesis
  proof (cases err)
    case None
    with Some r have w: "k_CreateOrUpdate cli (secret_copy t src) (sync_secret t src) c = Some (None, c1)" by simp
    show ?thesis using assms(2) deploy_one [OF assms(1) w] by (intro that [of errs c1]) (simp_all add: w)
  next
    fix e assume "err = Some e"
    with Some r have w: "k_CreateOrUpdate cli (secret_copy t src) (sync_secret t src) c = Some (Some e, c1)" by simp
    show ?thesis using assms(2) CreateOrUpdate_failure [OF assms(1) w]
      by (intro that [of "errs @ [e]" c1]) (simp_all add: w)
  qed
qed

lemma deploy_secrets_frame:
  assumes "documented cli store" "deploy_secrets cli t srcs errs c = Some (errs', c')"
    and "k \<notin> (\<lambda>src. key_of (secret_copy t src)) ` set srcs"
  shows "store c' k = store c k"
  using assms(2,3)
proof (induction srcs arbitrary: errs c)
  case (Cons src srcs)
  from Cons.prems(1) obtain errs1 c1 where rest: "deploy_secrets cli t srcs errs1 c1 = Some (errs', c')"
    and same: "\<forall>k. k \<noteq> key_of (secret_copy t src) \<longrightarrow> store c1 k = store c k"
    by (rule deploy_secrets_step [OF assms(1)])
  have "store c' k = store c1 k" using Cons.IH [OF rest] Cons.prems(2) by auto
  with same Cons.prems(2) show ?case by auto
qed simp

text \<open>Each error is that of one secret; every other secret of the list is copied.\<close>

lemma deploy_secrets_errors:
  assumes "documented cli store" "deploy_secrets cli t srcs errs c = Some (errs', c')"
    and "distinct (map (\<lambda>src. om_Name (ko_Meta src)) srcs)"
  shows "\<exists>failed. length errs' = length errs + length failed \<and> set failed \<subseteq> set srcs \<and>
    (\<forall>src \<in> set srcs. src \<notin> set failed \<longrightarrow> copied t src (store c'))"
  using assms(2,3)
proof (induction srcs arbitrary: errs c)
  case (Cons src srcs)
  from Cons.prems(1) obtain errs1 c1 where rest: "deploy_secrets cli t srcs errs1 c1 = Some (errs', c')"
    and what: "errs1 = errs \<and> copied t src (store c1) \<or> (\<exists>e. errs1 = errs @ [e] \<and> store c1 = store c)"
    by (rule deploy_secrets_step [OF assms(1)])
  obtain failed where f: "length errs' = length errs1 + length failed" "set failed \<subseteq> set srcs"
    "\<forall>src \<in> set srcs. src \<notin> set failed \<longrightarrow> copied t src (store c')"
    using Cons.IH [OF rest] Cons.prems(2) by auto
  have "key_of (secret_copy t src) \<notin> (\<lambda>src. key_of (secret_copy t src)) ` set srcs"
    using Cons.prems(2) by (auto simp: key_secret_copy)
  then have kept: "copied t src (store c') = copied t src (store c1)"
    using deploy_secrets_frame [OF assms(1) rest] by (intro copied_cong) blast
  show ?case
  proof (cases "errs1 = errs \<and> copied t src (store c1)")
    case True
    with f kept show ?thesis by (intro exI [of _ failed]) auto
  next
    case False
    with what obtain e where "errs1 = errs @ [e]" by blast
    with f show ?thesis by (intro exI [of _ "src # failed"]) auto
  qed
qed simp

lemma deploy_secrets_ok:
  assumes "documented cli store" "deploy cli t srcs c = Some (None, c')"
    and "distinct (map (\<lambda>src. om_Name (ko_Meta src)) srcs)"
  shows "list_all (\<lambda>src. copied t src (store c')) srcs"
    and "key_Kind k \<noteq> KNamespace \<Longrightarrow> k \<notin> (\<lambda>src. key_of (secret_copy t src)) ` set srcs \<Longrightarrow> store c' k = store c k"
proof -
  obtain c1 where ns: "syncSecretNamespace cli t c = Some (None, c1)"
    and ds: "deploy_secrets cli t srcs [] c1 = Some ([], c')"
    using assms(2) by (auto simp: deploy_def split: option.splits prod.splits if_splits)
  show "list_all (\<lambda>src. copied t src (store c')) srcs"
    using deploy_secrets_errors [OF assms(1) ds assms(3)] by (auto simp: list_all_iff)
  assume k: "key_Kind k \<noteq> KNamespace" "k \<notin> (\<lambda>src. key_of (secret_copy t src)) ` set srcs"
  have "store c1 k = store c k"
    using CreateOrUpdate_success [OF assms(1) ns [unfolded syncSecretNamespace_def]] k(1) by auto
  with deploy_secrets_frame [OF assms(1) ds k(2)] show "store c' k = store c k" by simp
qed

text \<open>
  A selector is a panic: it is written through \<^verbatim>\<open>opts.Raw\<close>, a pointer that is nil in fresh options. Nothing
  was copied by then.
\<close>

lemma selector_panics:
  assumes "css_LabelSelector (cse_Source instance) \<noteq> [] \<or> css_FieldSelector (cse_Source instance) \<noteq> []"
  shows "reconcile_secrets env instance s = None"
  using assms by (simp add: reconcile_secrets_def secretList_def Let_def)

text \<open>A reconciliation of a deleted object changes nothing: its finalizer stays.\<close>

lemma ClusterSecrets_never_finalized:
  assumes "se_get env key (snd s) = Inr instance" "ClusterSecrets_IsDeleted instance"
  shows "ClusterSecrets_Reconcile env key s = Some (Done, s)"
  using assms by (simp add: ClusterSecrets_Reconcile_def finalize_secrets_def return_with_def)

text \<open>The reconciler of a cluster: no status before the finalizer, and a status that tells what was found.\<close>

lemma Cluster_Reconcile_new:
  assumes "cle_get env key c = Inr instance" "\<not> Cluster_IsDeleted instance" "Cluster_IsFinalized instance"
  shows "snd (Cluster_Reconcile env key c) =
    snd (cle_update env (Cluster_AddFinalizer (SetObjectDefaults_Cluster instance)) c)"
  using assms by (simp add: Cluster_Reconcile_def Let_def Cluster_IsDeleted_def Cluster_IsFinalized_def
    SetObjectDefaults_Cluster_def split: prod.split)

lemma cluster_status_ready:
  assumes "cluster_status env instance c = Inr instance'" "cl_Status instance' \<noteq> cl_Status instance"
    and "cks_Ready (cst_Kubernetes (cl_Status instance'))"
  shows "cs_Enabled (cl_Spec instance) \<and> (\<exists>secret config version.
    cle_getSecret env (cluster_key instance) c = Inr secret \<and>
    Cluster_Config (cle_config env) instance (Some secret) = Inr config \<and>
    cle_version env config c = (version, None) \<and>
    cks_Version (cst_Kubernetes (cl_Status instance')) = FormatVersion version)"
  using assms by (auto simp: cluster_status_def no_ClusterStatus_def split: if_splits sum.splits prod.splits)

end
