(* ===== verification/Manager_Controller.thy ===== *)
theory Manager_Controller
  imports Reconcile Cluster_Controllers Go_Format
begin

text \<open>
  The reconciler of a release manager, \<^verbatim>\<open>src/controllers/releasemanager_controller.go\<close>: it gathers the
  clusters of the fleet, the revisions, the faults and the observation, and runs the syncer on them. The
  tracing and the latency gauges are not modelled.
\<close>

section \<open>Context\<close>

text \<open>
  The calls of the delivery cluster's client; \<open>m_remote\<close> is \<^verbatim>\<open>RemoteClient\<close>. \<open>m_apply\<close> and \<open>m_observe\<close> are
  the concurrent applier and observer over the clients made, \<open>m_base\<close> holds the third-party calls of the
  controllers, and \<open>m_finish\<close> gives the order in which the goroutines that make the clients finish.
\<close>

record FaultInjector =
  fi_HTTPPortFaults :: "HTTPPortFault list"

record ('cli, 'sel, 'c) MCtx =
  m_base :: "'c Ctx"
  m_now :: time
  m_get :: "ObjectKey \<Rightarrow> 'c \<Rightarrow> goerror + ReleaseManager"
  m_update :: "ReleaseManager \<Rightarrow> 'c \<Rightarrow> goerror option \<times> 'c"
  m_updateStatus :: "ReleaseManager \<Rightarrow> 'c \<Rightarrow> goerror option \<times> 'c"
  m_listClusters :: "string \<Rightarrow> strmap \<Rightarrow> 'c \<Rightarrow> goerror + Cluster list"
  m_listRevisions :: "string \<Rightarrow> strmap \<Rightarrow> 'c \<Rightarrow> goerror + Revision list"
  m_parse :: "string \<Rightarrow> goerror + 'sel"
  m_listFaults :: "string \<Rightarrow> 'sel \<Rightarrow> 'c \<Rightarrow> goerror + FaultInjector list"
  m_remote :: "Cluster \<Rightarrow> 'c \<Rightarrow> goerror + 'cli"
  m_finish :: "nat list"
  m_apply :: "('cli \<times> Cluster) list \<Rightarrow> Plan \<Rightarrow> 'c \<Rightarrow> goerror option \<times> 'c"
  m_observe :: "('cli \<times> ObservedCluster) list \<Rightarrow> string \<Rightarrow> 'c \<Rightarrow> goerror + Observation"

section \<open>What is gathered\<close>

definition getClustersByFleet ::
  "('cli, 'sel, 'c) MCtx \<Rightarrow> string \<Rightarrow> string \<Rightarrow> 'c \<Rightarrow> goerror + Cluster list" where
  "getClustersByFleet x namespace fleet c =
     map_sum id (\<lambda>items. filter (\<lambda>cluster. cs_Enabled (cl_Spec cluster)) (SetObjectDefaults_ClusterList items))
       (m_listClusters x namespace [(LabelFleet, fleet)] c)"

text \<open>A scaling factor that is missing or does not parse counts as zero.\<close>

definition cluster_info :: "Cluster \<Rightarrow> ClusterInfo" where
  "cluster_info cluster = \<lparr>inf_Name = om_Name (cl_Meta cluster), inf_Live = \<not> cs_HotStandby (cl_Spec cluster),
     inf_ScalingFactor = (case cs_ScalingFactorString (cl_Spec cluster) of
         None \<Rightarrow> 0
       | Some s \<Rightarrow> (case strconv_ParseFloat s of None \<Rightarrow> 0 | Some f \<Rightarrow> f))\<rparr>"

text \<open>A client for every cluster; the error is that of the first goroutine to fail.\<close>

definition remote_clients :: "('cli, 'sel, 'c) MCtx \<Rightarrow> Cluster list \<Rightarrow> 'c \<Rightarrow> goerror + 'cli list" where
  "remote_clients x clusters c = (let results = map (\<lambda>cluster. m_remote x cluster c) clusters in
     case find (\<lambda>i. i < length results \<and> isl (results ! i)) (m_finish x) of
       Some i \<Rightarrow> Inl (projl (results ! i))
     | None \<Rightarrow> Inr (map projr results))"

definition newPlanApplier ::
  "('cli, 'sel, 'c) MCtx \<Rightarrow> Cluster list \<Rightarrow> 'c \<Rightarrow> goerror + (Plan \<Rightarrow> 'c \<Rightarrow> goerror option \<times> 'c)" where
  "newPlanApplier x clusters c =
     map_sum id (\<lambda>clients. m_apply x (zip clients clusters)) (remote_clients x clusters c)"

definition newObserver ::
  "('cli, 'sel, 'c) MCtx \<Rightarrow> Cluster list \<Rightarrow> 'c \<Rightarrow> goerror + (string \<Rightarrow> 'c \<Rightarrow> goerror + Observation)" where
  "newObserver x clusters c = map_sum id (\<lambda>clients. m_observe x (zip clients (map (\<lambda>cluster.
       \<lparr>oc_Name = om_Name (cl_Meta cluster), oc_Live = \<not> cs_HotStandby (cl_Spec cluster)\<rparr>) clusters)))
     (remote_clients x clusters c)"

text \<open>\<^verbatim>\<open>getRevisions\<close> panics on a target whose defaults were not set.\<close>

definition defaults_set :: "Revision \<Rightarrow> bool" where
  "defaults_set r \<longleftrightarrow> list_all (\<lambda>t. ri_TTL (rt_Release t) \<noteq> 0) (rsp_Targets (rev_Spec r))"

definition getRevisions ::
  "('cli, 'sel, 'c) MCtx \<Rightarrow> string \<Rightarrow> string \<Rightarrow> string \<Rightarrow> string \<Rightarrow> 'c \<Rightarrow> (goerror + Revision list) option" where
  "getRevisions x namespace fleet app tgt c =
     (case m_listRevisions x namespace [(LabelApp, app), (LabelFleetPrefix @ fleet, [])] c of
        Inl e \<Rightarrow> Some (Inl e)
      | Inr items \<Rightarrow> (let items = SetObjectDefaults_RevisionList items in
          if list_all defaults_set items then Some (Inr (filter (\<lambda>r. HasTarget r tgt) items)) else None))"

definition fault_selector :: "string \<Rightarrow> string \<Rightarrow> string" where
  "fault_selector app tgt = LabelApp @ ''='' @ app @ '','' @ LabelTarget @ '' in (,'' @ tgt @ '')''"

definition getFaults ::
  "('cli, 'sel, 'c) MCtx \<Rightarrow> string \<Rightarrow> string \<Rightarrow> string \<Rightarrow> 'c \<Rightarrow> goerror + HTTPPortFault list" where
  "getFaults x namespace app tgt c = (case m_parse x (fault_selector app tgt) of
     Inl e \<Rightarrow> Inl e
   | Inr selector \<Rightarrow>
       map_sum id (\<lambda>items. List.concat (map fi_HTTPPortFaults items)) (m_listFaults x namespace selector c))"

section \<open>The reconciliation\<close>

definition manager_requeue :: "('cli, 'sel, 'c) MCtx \<Rightarrow> goerror option \<Rightarrow> Outcome" where
  "manager_requeue x err =
     return_with (RequeueAfter (conf_RequeueAfter (x_config (m_base x)))) err"

text \<open>The context of the controllers, and the collection with the release manager it writes to.\<close>

definition controller_ctx :: "('cli, 'sel, 'c) MCtx \<Rightarrow> (Plan \<Rightarrow> 'c \<Rightarrow> goerror option \<times> 'c) \<Rightarrow>
    (string \<Rightarrow> 'c \<Rightarrow> goerror + Observation) \<Rightarrow> ClusterInfoList \<Rightarrow> ReleaseManager \<Rightarrow> 'c Ctx" where
  "controller_ctx x applier observer clusterInfo rm = (m_base x)
     \<lparr>x_rm := rm, x_clusterInfo := clusterInfo, x_apply := applier, x_observe := observer\<rparr>"

text \<open>After a sync: the statuses are written on a fresh copy of the release manager.\<close>

definition write_statuses :: "('cli, 'sel, 'c) MCtx \<Rightarrow> ObjectKey \<Rightarrow>
    ReleaseManagerRevisionStatus list \<Rightarrow> 'c \<Rightarrow> Outcome \<times> 'c" where
  "write_statuses x key rs c = (case m_get x key c of
     Inl e \<Rightarrow> (if e = NotFound then Done else manager_requeue x (Some e), c)
   | Inr srm \<Rightarrow>
       (let (err, c) = m_updateStatus x (srm\<lparr>rm_Status := \<lparr>rmst_Revisions = rs,
          rmst_LastUpdated = Some (m_now x)\<rparr>\<rparr>) c in (manager_requeue x err, c)))"

definition sync_or_delete :: "('cli, 'sel, 'c) MCtx \<Rightarrow> ObjectKey \<Rightarrow> 'c Ctx \<Rightarrow> Collection \<Rightarrow>
    HTTPPortFault list \<Rightarrow> 'c \<Rightarrow> (Outcome \<times> 'c) option" where
  "sync_or_delete x key ctx ic faults c = (let rm = x_rm ctx in
     if \<not> IsDeleted rm then
       (case ResourceSyncer_sync ctx faults (m_now x) (ic, c) of
          None \<Rightarrow> None
        | Some (Inl e, s) \<Rightarrow> Some (manager_requeue x (Some e), snd s)
        | Some (Inr rs, s) \<Rightarrow> Some (write_statuses x key rs (snd s)))
     else if \<not> IsFinalized rm then
       (case syncer_del ctx (ic, c) of
          None \<Rightarrow> None
        | Some (Some e, s) \<Rightarrow> Some (manager_requeue x (Some e), snd s)
        | Some (None, s) \<Rightarrow>
            (let (err, c) = m_update x (Finalize rm) (snd s) in Some (manager_requeue x err, c)))
     else Some (Done, c))"

definition ignored :: "ReleaseManager \<Rightarrow> bool" where
  "ignored rm \<longleftrightarrow> isIgnored (rm_Meta rm)"

definition Manager_Reconcile ::
  "('cli, 'sel, 'c) MCtx \<Rightarrow> ObjectKey \<Rightarrow> 'c \<Rightarrow> (Outcome \<times> 'c) option" where
  "Manager_Reconcile x key c = (let stop = (\<lambda>err. Some (manager_requeue x err, c)) in
     case m_get x key c of
       Inl e \<Rightarrow> if e = NotFound then Some (Done, c) else stop (Some e)
     | Inr rm \<Rightarrow>
       if ignored rm then stop None
       else (let spec = rm_Spec rm in
       case getClustersByFleet x (om_Namespace (rm_Meta rm)) (rmsp_Fleet spec) c of
         Inl e \<Rightarrow> stop (Some (Wrapf (''failed to get clusters for fleet '' @ rmsp_Fleet spec @ '': '') e))
       | Inr clusters \<Rightarrow> (let clusterInfo = map cluster_info clusters in
         if ClusterCount clusterInfo True = 0 then stop None
         else case newPlanApplier x clusters c of
           Inl e \<Rightarrow> stop (Some e)
         | Inr applier \<Rightarrow>
         (case newObserver x clusters c of
           Inl e \<Rightarrow> stop (Some e)
         | Inr observer \<Rightarrow>
         (case getRevisions x (fst key) (rmsp_Fleet spec) (rmsp_App spec) (rmsp_Target spec) c of
           None \<Rightarrow> None
         | Some (Inl e) \<Rightarrow> stop (Some e)
         | Some (Inr revisions) \<Rightarrow>
         (case getFaults x (fst key) (rmsp_App spec) (rmsp_Target spec) c of
           Inl e \<Rightarrow> stop (Some e)
         | Inr faults \<Rightarrow>
         (case observer (TargetNamespace rm) c of
           Inl e \<Rightarrow> stop (Some e)
         | Inr observation \<Rightarrow>
         (let (ic, rm) = newIncarnationCollection clusterInfo (m_now x) rm revisions observation
          in sync_or_delete x key (controller_ctx x applier observer clusterInfo rm) ic faults c))))))))"

section \<open>Facts\<close>

lemma SetReleaseDefaults_TTL: "ri_TTL (SetReleaseDefaults r) \<noteq> 0"
  by (simp add: SetReleaseDefaults_def Let_def or_default_def defaultReleaseGcTTLSeconds_def)

lemma defaulted_set: "defaults_set (SetObjectDefaults_Revision r)"
  by (simp add: defaults_set_def SetObjectDefaults_Revision_targets list_all_iff rt_Release_defaulted
    SetReleaseDefaults_TTL)

lemma getRevisions_total: "getRevisions x namespace fleet app tgt c \<noteq> None"
  by (auto simp: getRevisions_def SetObjectDefaults_RevisionList_def list_all_iff defaulted_set
    split: sum.split)

text \<open>Without a live and enabled cluster nothing is done, be it for a release manager that is deleted.\<close>

lemma Manager_no_live:
  assumes "m_get x key c = Inr rm"
    "getClustersByFleet x (om_Namespace (rm_Meta rm)) (rmsp_Fleet (rm_Spec rm)) c = Inr clusters"
    "list_all (\<lambda>cluster. cs_HotStandby (cl_Spec cluster)) clusters"
  shows "Manager_Reconcile x key c = Some (manager_requeue x None, c)"
proof -
  have "fold (\<lambda>i cnt. if inf_Live i = True then cnt + 1 else cnt) (map cluster_info clusters) n = n" for n :: int
    using assms(3) by (induction clusters arbitrary: n) (auto simp: cluster_info_def)
  then have "ClusterCount (map cluster_info clusters) True = 0" by (simp add: ClusterCount_def)
  with assms(1,2) show ?thesis by (simp add: Manager_Reconcile_def Let_def)
qed

text \<open>Building the collection registers statuses; it leaves the identity of the release manager alone.\<close>

lemma add_rm:
  "rm_Meta (snd (add ci now ob tag rv (ic, rm))) = rm_Meta rm \<and>
   rm_Spec (snd (add ci now ob tag rv (ic, rm))) = rm_Spec rm"
  by (auto simp: add_def NewIncarnation_def RevisionStatus_def Let_def split: option.split prod.split)

lemma fold_add_rm:
  "rm_Meta (snd (fold (\<lambda>r. add ci now ob (f r) (g r)) rs acc)) = rm_Meta (snd acc) \<and>
   rm_Spec (snd (fold (\<lambda>r. add ci now ob (f r) (g r)) rs acc)) = rm_Spec (snd acc)"
proof (induction rs arbitrary: acc)
  case (Cons r rs)
  have "rm_Meta (snd (add ci now ob (f r) (g r) acc)) = rm_Meta (snd acc)"
    "rm_Spec (snd (add ci now ob (f r) (g r) acc)) = rm_Spec (snd acc)"
    using add_rm [where ic = "fst acc" and rm = "snd acc"] by simp_all
  with Cons.IH [of "add ci now ob (f r) (g r) acc"] show ?case by simp
qed simp

lemma newIncarnationCollection_rm:
  "rm_Meta (snd (newIncarnationCollection ci now rm rs ob)) = rm_Meta rm \<and>
   rm_Spec (snd (newIncarnationCollection ci now rm rs ob)) = rm_Spec rm"
proof -
  define acc where "acc = fold (\<lambda>r. add ci now ob (ra_Tag (rsp_App (rev_Spec r))) (Some r)) rs ([], rm)"
  have "snd (newIncarnationCollection ci now rm rs ob) = snd (fold (\<lambda>s. add ci now ob (rs_Tag s) None)
      (rmst_Revisions (rm_Status (snd acc))) acc)"
    by (simp add: newIncarnationCollection_def acc_def Let_def split: prod.split)
  moreover have "rm_Meta (snd acc) = rm_Meta rm" "rm_Spec (snd acc) = rm_Spec rm"
    using fold_add_rm [of ci now ob "\<lambda>r. ra_Tag (rsp_App (rev_Spec r))" Some rs "([], rm)"] by (simp_all add: acc_def)
  ultimately show ?thesis using fold_add_rm [where g = "\<lambda>_. None"] by metis
qed

text \<open>
  A release manager that is deleted: the only plan applied deletes its namespace, and the finalizer is
  taken off only after that plan succeeded.
\<close>

lemma sync_or_delete_deleted:
  assumes "sync_or_delete x key ctx ic faults c = Some (r, c')" "IsDeleted (x_rm ctx)"
  shows "c' = c \<or> (let (err, c1) = x_apply ctx (PlanDeleteApp \<lparr>dap_Namespace = TargetNamespace (x_rm ctx)\<rparr>) c in
    case err of Some e \<Rightarrow> r = ReturnError e \<and> c' = c1
    | None \<Rightarrow> c' = snd (m_update x (Finalize (x_rm ctx)) c1))"
  using assms by (auto simp: sync_or_delete_def syncer_del_def apply_step_def manager_requeue_def
      return_with_def Let_def split: if_splits option.splits prod.splits)

text \<open>A reconciliation changes something only through the syncer or the deletion.\<close>

lemma Manager_Reconcile_reaches:
  assumes run: "Manager_Reconcile x key c = Some (r, c')" and get: "m_get x key c = Inr rm" and "c' \<noteq> c"
  shows "\<exists>clients observers ci rm' ic faults. rm_Meta rm' = rm_Meta rm \<and> rm_Spec rm' = rm_Spec rm \<and> \<not> ignored rm \<and>
    sync_or_delete x key (controller_ctx x (m_apply x clients) (m_observe x observers) ci rm') ic faults c = Some (r, c')"
proof -
  let ?s = "rm_Spec rm"
  note run = run [unfolded Manager_Reconcile_def Let_def get sum.case]
  have ig: "\<not> ignored rm" using run assms(3) by auto
  note run = run [unfolded if_not_P [OF ig]]
  obtain clusters where cl: "getClustersByFleet x (om_Namespace (rm_Meta rm)) (rmsp_Fleet ?s) c = Inr clusters"
    using run assms(3) by (auto split: sum.splits)
  note run = run [unfolded cl sum.case]
  let ?ci = "map cluster_info clusters"
  have live: "ClusterCount ?ci True \<noteq> 0" using run assms(3) by auto
  note run = run [unfolded if_not_P [OF live]]
  obtain applier where ap: "newPlanApplier x clusters c = Inr applier"
    using run assms(3) by (cases "newPlanApplier x clusters c") auto
  note run = run [unfolded ap sum.case]
  obtain observer where ob: "newObserver x clusters c = Inr observer"
    using run assms(3) by (cases "newObserver x clusters c") auto
  note run = run [unfolded ob sum.case]
  obtain revisions where rs: "getRevisions x (fst key) (rmsp_Fleet ?s) (rmsp_App ?s) (rmsp_Target ?s) c = Some (Inr revisions)"
    using run assms(3) by (auto split: option.splits sum.splits)
  note run = run [unfolded rs sum.case option.case]
  obtain faults where fs: "getFaults x (fst key) (rmsp_App ?s) (rmsp_Target ?s) c = Inr faults"
    using run assms(3) by (cases "getFaults x (fst key) (rmsp_App ?s) (rmsp_Target ?s) c") auto
  note run = run [unfolded fs sum.case]
  obtain os where os: "observer (TargetNamespace rm) c = Inr os"
    using run assms(3) by (cases "observer (TargetNamespace rm) c") auto
  note run = run [unfolded os sum.case]
  obtain ic rm' where nic: "newIncarnationCollection ?ci (m_now x) rm revisions os = (ic, rm')" by fastforce
  have "rm_Meta rm' = rm_Meta rm" "rm_Spec rm' = rm_Spec rm"
    using newIncarnationCollection_rm [of ?ci "m_now x" rm revisions os] by (simp_all add: nic)
  moreover obtain clients observers where "applier = m_apply x clients" "observer = m_observe x observers"
    using ap ob by (auto simp: newPlanApplier_def newObserver_def remote_clients_def Let_def split: option.splits)
  moreover have "sync_or_delete x key (controller_ctx x applier observer ?ci rm') ic faults c = Some (r, c')"
    using run by (simp add: nic)
  ultimately show ?thesis using ig by blast
qed

lemma Manager_deletion:
  assumes "Manager_Reconcile x key c = Some (r, c')" "m_get x key c = Inr rm" "IsDeleted rm" "c' \<noteq> c"
  shows "\<exists>clients err c1. m_apply x clients (PlanDeleteApp \<lparr>dap_Namespace = TargetNamespace rm\<rparr>) c = (err, c1) \<and>
    (case err of Some e \<Rightarrow> r = ReturnError e \<and> c' = c1
     | None \<Rightarrow> \<exists>rm'. rm_Meta rm' = rm_Meta (Finalize rm) \<and> c' = snd (m_update x rm' c1))"
proof -
  obtain clients observers ci rm' ic faults where rm': "rm_Meta rm' = rm_Meta rm" "rm_Spec rm' = rm_Spec rm"
    and run: "sync_or_delete x key (controller_ctx x (m_apply x clients) (m_observe x observers) ci rm') ic faults c = Some (r, c')"
    using Manager_Reconcile_reaches [OF assms(1,2,4)] by blast
  have same: "x_rm (controller_ctx x (m_apply x clients) (m_observe x observers) ci rm') = rm'"
    "x_apply (controller_ctx x (m_apply x clients) (m_observe x observers) ci rm') = m_apply x clients"
    by (simp_all add: controller_ctx_def)
  have "IsDeleted rm'" "TargetNamespace rm' = TargetNamespace rm" "rm_Meta (Finalize rm') = rm_Meta (Finalize rm)"
    using assms(3) rm' by (simp_all add: IsDeleted_def TargetNamespace_def Finalize_def)
  note facts = this
  obtain err c1 where ap: "m_apply x clients (PlanDeleteApp \<lparr>dap_Namespace = TargetNamespace rm\<rparr>) c = (err, c1)"
    by fastforce
  have "case err of Some e \<Rightarrow> r = ReturnError e \<and> c' = c1 | None \<Rightarrow> c' = snd (m_update x (Finalize rm') c1)"
    using sync_or_delete_deleted [OF run] facts(1) assms(4)
    by (cases err) (simp_all add: same facts(2) ap)
  then have "case err of Some e \<Rightarrow> r = ReturnError e \<and> c' = c1
    | None \<Rightarrow> \<exists>rm'. rm_Meta rm' = rm_Meta (Finalize rm) \<and> c' = snd (m_update x rm' c1)"
    using facts(3) by (cases err) auto
  with ap show ?thesis by blast
qed

end
