(* ===== verification/Manager_Invariant.thy ===== *)
theory Manager_Invariant
  imports Sync_Invariant Manager_Controller Webhook
begin

text \<open>
  The invariant of the statuses of a release manager over its reconciliations: the collection built from fair
  statuses and valid revisions is fair, so the statuses written back are.
\<close>

section \<open>Revisions that passed the webhook\<close>

lemma validated_sound:
  assumes "validate (SetObjectDefaults_Revision r) = []"
    and "inc_revision i = Some (SetObjectDefaults_Revision r)"
    and "HasTarget (SetObjectDefaults_Revision r) (rmsp_Target (rm_Spec rm))"
  shows "sound rm i"
proof -
  let ?d = "SetObjectDefaults_Revision r"
  have "target rm i \<noteq> None" using assms(2,3) by (auto simp: HasTarget_iff target_def find_None_iff)
  then obtain t where t: "target rm i = Some t" by blast
  then have mem: "t \<in> set (rsp_Targets (rev_Spec ?d))"
    by (auto simp: target_def assms(2) find_Some_iff)
  have "release_defaulted (rt_Release t)"
    using mem release_defaulted_set by (auto simp: SetObjectDefaults_Revision_targets rt_Release_defaulted)
  moreover have "valid_strategy t" using assms(1) mem by (simp add: validate_Nil valid_target_def)
  ultimately have "scalable (rt_Release t)"
    by (auto simp: scalable_def valid_strategy_def release_defaulted_def)
  with t show ?thesis by (simp add: sound_def)
qed

text \<open>A revision whose incarnation can be scaled, by the release manager's name of the target.\<close>

definition sound_revision :: "ReleaseManager \<Rightarrow> Revision \<Rightarrow> bool" where
  "sound_revision rm r \<longleftrightarrow> (\<forall>i. inc_revision i = Some r \<longrightarrow> sound rm i)"

lemma sound_same_spec:
  assumes "rm_Spec rm' = rm_Spec rm"
  shows "sound rm' = sound rm"
  unfolding fun_eq_iff sound_def target_def assms by simp

section \<open>The collection that is built\<close>

definition statuses_of :: "ReleaseManager \<Rightarrow> ReleaseManagerRevisionStatus list" where
  "statuses_of rm = rmst_Revisions (rm_Status rm)"

lemma RevisionStatus_percent:
  "unat (rs_CurrentPercent (fst (RevisionStatus now rm tag))) = status_percent (statuses_of rm) tag"
  "status_percent (statuses_of (snd (RevisionStatus now rm tag))) t = status_percent (statuses_of rm) t"
  "rs_Tag (fst (RevisionStatus now rm tag)) = tag"
  "rm_Spec (snd (RevisionStatus now rm tag)) = rm_Spec rm"
proof -
  have new: "status_percent (rs @ [new_RevisionStatus now tag]) t = status_percent rs t"
    if "find (\<lambda>s. rs_Tag s = tag) rs = None" for rs
    using that by (induction rs) (auto simp: status_percent_def new_RevisionStatus_def split: if_splits)
  show "unat (rs_CurrentPercent (fst (RevisionStatus now rm tag))) = status_percent (statuses_of rm) tag"
    by (auto simp: RevisionStatus_def status_percent_def statuses_of_def Let_def new_RevisionStatus_def split: option.split)
  show "status_percent (statuses_of (snd (RevisionStatus now rm tag))) t = status_percent (statuses_of rm) t"
    using new by (auto simp: RevisionStatus_def statuses_of_def Let_def split: option.split)
  show "rs_Tag (fst (RevisionStatus now rm tag)) = tag" by (rule RevisionStatus_tag)
  show "rm_Spec (snd (RevisionStatus now rm tag)) = rm_Spec rm"
    by (simp add: RevisionStatus_def Let_def split: option.split)
qed

lemma init_status_keeps [simp]:
  "rs_Tag (init_status now rm revision s) = rs_Tag s"
  "rs_CurrentPercent (init_status now rm revision s) = rs_CurrentPercent s"
proof -
  have "rs_Tag (fold (init_from_target rm) ts s) = rs_Tag s \<and>
      rs_CurrentPercent (fold (init_from_target rm) ts s) = rs_CurrentPercent s" for ts s
    by (induction ts arbitrary: s) (simp_all add: init_from_target_def)
  then show "rs_Tag (init_status now rm revision s) = rs_Tag s"
    "rs_CurrentPercent (init_status now rm revision s) = rs_CurrentPercent s"
    by (simp_all add: init_status_def Let_def split: option.split)
qed

text \<open>An entry made from the statuses \<open>rs\<close>: under its tag, with at most what its status says.\<close>

definition entry_of :: "ReleaseManagerRevisionStatus list \<Rightarrow> Revision set \<Rightarrow> string \<Rightarrow> Incarnation \<Rightarrow> bool" where
  "entry_of rs revs t i \<longleftrightarrow> inc_tag i = t \<and> rs_Tag (inc_status i) = t \<and>
     unat (currentPercent i) \<le> status_percent rs t \<and> inc_revision i \<in> insert None (Some ` revs)"

lemma NewIncarnation_entry:
  assumes "NewIncarnation ci now rm tag revision di = (i, rm')" "revision \<in> insert None (Some ` revs)"
  shows "entry_of (statuses_of rm) revs tag i" "rm_Spec rm' = rm_Spec rm"
    "status_percent (statuses_of rm') t = status_percent (statuses_of rm) t"
proof -
  have "inc_tag i = tag" "inc_revision i = revision"
    using NewIncarnation_timestamps [OF assms(1)] by simp_all
  moreover have "rs_Tag (inc_status i) = tag"
    "unat (currentPercent i) \<le> status_percent (statuses_of rm) tag"
    using assms(1) RevisionStatus_percent(1,3) [of now rm tag]
    by (auto simp: NewIncarnation_def Let_def currentPercent_def inc_update_def split: prod.splits option.splits)
  ultimately show "entry_of (statuses_of rm) revs tag i" using assms(2) by (simp add: entry_of_def)
  show "rm_Spec rm' = rm_Spec rm" "status_percent (statuses_of rm') t = status_percent (statuses_of rm) t"
    using assms(1) RevisionStatus_percent(2,4) [of now rm tag] by (auto simp: NewIncarnation_def split: prod.splits)
qed

text \<open>The construction so far: its entries are of the statuses at the start, which still say the same.\<close>

definition built_from :: "ReleaseManager \<Rightarrow> Revision set \<Rightarrow> Collection \<times> ReleaseManager \<Rightarrow> bool" where
  "built_from rm0 revs acc \<longleftrightarrow> wf_collection (fst acc) \<and> rm_Spec (snd acc) = rm_Spec rm0 \<and>
     (\<forall>t. status_percent (statuses_of (snd acc)) t = status_percent (statuses_of rm0) t) \<and>
     (\<forall>(t, i) \<in> set (fst acc). entry_of (statuses_of rm0) revs t i)"

lemma built_add:
  assumes "built_from rm0 revs acc" "revision \<in> insert None (Some ` revs)"
  shows "built_from rm0 revs (add ci now ob tag revision acc)"
proof -
  obtain ic rm where acc: "acc = (ic, rm)" by force
  obtain i rm' where n: "NewIncarnation ci now rm tag revision (live_info ob tag) = (i, rm')" by force
  note e = NewIncarnation_entry [OF n assms(2)]
  have "entry_of (statuses_of rm0) revs tag i"
    using e(1) assms(1) by (simp add: acc built_from_def entry_of_def)
  moreover from this have "inc_tag i = tag" by (simp add: entry_of_def)
  ultimately show ?thesis using assms(1) e(2,3)
    by (auto simp: acc built_from_def add_def n split: prod.splits dest!: set_mp [OF update_set_subset] intro: wf_update)
qed

lemma built_fold:
  assumes "built_from rm0 revs acc" "\<forall>y \<in> set ys. revf y \<in> insert None (Some ` revs)"
  shows "built_from rm0 revs (fold (\<lambda>y. add ci now ob (tagf y) (revf y)) ys acc)"
  using assms
proof (induction ys arbitrary: acc)
  case (Cons y ys)
  have "built_from rm0 revs (add ci now ob (tagf y) (revf y) acc)"
    using Cons.prems by (intro built_add) auto
  from Cons.IH [OF this] Cons.prems(2) show ?case by simp
qed simp

lemma percents_of_tags:
  "distinct ts \<Longrightarrow> sum_list (map (status_percent rs) ts) \<le> sum_list (map (\<lambda>s. unat (rs_CurrentPercent s)) rs)"
proof (induction rs)
  case (Cons s rs)
  have "sum_list (map (\<lambda>t. (if rs_Tag s = t then n else 0)) ts) \<le> n" if "distinct ts" for ts and n :: nat
    using that by (induction ts) (auto simp: sum_list_0)
  moreover have "status_percent (s # rs) t \<le> (if rs_Tag s = t then unat (rs_CurrentPercent s) else 0) + status_percent rs t" for t
    by (simp add: status_percent_def)
  then have "sum_list (map (status_percent (s # rs)) ts) \<le>
      sum_list (map (\<lambda>t. (if rs_Tag s = t then unat (rs_CurrentPercent s) else 0) + status_percent rs t) ts)"
    by (intro sum_list_mono) simp
  ultimately show ?case using Cons by (simp add: sum_list_addf) (meson add_mono order_trans)
qed (simp add: status_percent_def)

lemma built_fair:
  assumes "built_from rm0 revs acc" "fair_statuses (statuses_of rm0)" "\<forall>r \<in> revs. sound_revision rm0 r"
  shows "fair_collection (snd acc) (fst acc)"
proof -
  have wf: "wf_collection (fst acc)" and spec: "rm_Spec (snd acc) = rm_Spec rm0"
    and e: "\<And>t i. (t, i) \<in> set (fst acc) \<Longrightarrow> entry_of (statuses_of rm0) revs t i"
    using assms(1) by (auto simp: built_from_def)
  have total: "sum_list (map (\<lambda>s. unat (rs_CurrentPercent s)) (statuses_of rm0)) \<le> 100"
    using assms(2) by (simp add: fair_statuses_def)
  have "total_percent (fst acc) \<le> sum_list (map (status_percent (statuses_of rm0)) (map fst (fst acc)))"
    unfolding total_percent_def map_map o_def using e by (intro sum_list_mono) (force simp: entry_of_def)
  also have "\<dots> \<le> 100"
    using percents_of_tags [of "map fst (fst acc)" "statuses_of rm0"] wf total by (simp add: wf_collection_def)
  finally have sum: "total_percent (fst acc) \<le> 100" .
  have "unat (currentPercent i) \<le> 100 \<and> sound rm0 i" if "(t, i) \<in> set (fst acc)" for t i
    using e [OF that] percents_of_tags [of "[t]" "statuses_of rm0"] total assms(3)
    by (auto simp: entry_of_def sound_revision_def) (simp add: sound_def)
  with wf e sum sound_same_spec [OF spec] show ?thesis
    by (fastforce simp: fair_collection_def sound_collection_def entry_of_def)
qed

lemma collection_built_from:
  assumes "newIncarnationCollection ci now rm revs ob = (ic, rm')"
  obtains jc where "built_from rm (set revs) (jc, rm')" "ic = mark_ramping jc"
proof -
  let ?acc1 = "fold (\<lambda>r. add ci now ob (ra_Tag (rsp_App (rev_Spec r))) (Some r)) revs ([], rm)"
  let ?acc2 = "fold (\<lambda>s. add ci now ob (rs_Tag s) None) (statuses_of (snd ?acc1)) ?acc1"
  have "built_from rm (set revs) ([], rm)" by (simp add: built_from_def wf_collection_def)
  then have "built_from rm (set revs) ?acc2" by (intro built_fold) auto
  moreover have "ic = mark_ramping (fst ?acc2)" "rm' = snd ?acc2"
    using assms by (simp_all add: newIncarnationCollection_def statuses_of_def case_prod_unfold Let_def)
  ultimately show ?thesis using that [of "fst ?acc2"] by simp
qed

lemma mark_ramping_fair:
  assumes "fair_collection rm ic"
  shows "fair_collection rm (mark_ramping ic)"
proof -
  have "modify tag (\<lambda>i. i\<lparr>inc_isRamping := True\<rparr>) ic =
      map (\<lambda>(t, i). (t, if t = tag then i\<lparr>inc_isRamping := True\<rparr> else i)) ic" for tag
    by (simp add: modify_def)
  moreover have "evolved rm i (if b then i\<lparr>inc_isRamping := True\<rparr> else i)" for i b
    by (rule evolved_status) (simp_all add: currentPercent_def)
  ultimately have "fair_collection rm (modify tag (\<lambda>i. i\<lparr>inc_isRamping := True\<rparr>) ic)" for tag
    using fair_entries [OF assms, of "\<lambda>t i. if t = tag then i\<lparr>inc_isRamping := True\<rparr> else i"] by simp
  with assms show ?thesis by (simp add: mark_ramping_def split: option.split)
qed

lemma collection_fair:
  assumes "newIncarnationCollection ci now rm revs ob = (ic, rm')"
    and "fair_statuses (statuses_of rm)" "\<forall>r \<in> set revs. sound_revision rm r"
  shows "fair_collection rm' ic"
proof -
  obtain jc where "built_from rm (set revs) (jc, rm')" "ic = mark_ramping jc"
    by (rule collection_built_from [OF assms(1)])
  with built_fair [OF this(1) assms(2,3)] mark_ramping_fair show ?thesis by simp
qed

lemma collection_revisions:
  assumes "newIncarnationCollection ci now rm revs ob = (ic, rm')" "(t, i) \<in> set ic" "inc_revision i = Some r"
  shows "r \<in> set revs"
proof -
  obtain jc where jc: "built_from rm (set revs) (jc, rm')" "ic = mark_ramping jc"
    by (rule collection_built_from [OF assms(1)])
  from jc(2) assms(2) obtain j where "(t, j) \<in> set jc" "inc_revision j = inc_revision i"
    by (auto simp: mark_ramping_def modify_def split: option.splits if_splits)
  with jc(1) assms(3) show ?thesis by (fastforce simp: built_from_def entry_of_def)
qed

section \<open>The reconciliation up to the syncer\<close>

text \<open>A reconciliation ends early and changes nothing, with a reason, or runs the syncer or the deletion on what it gathered.\<close>

lemma map_sum_Inr: "map_sum f g s = Inr y \<longleftrightarrow> (\<exists>z. s = Inr z \<and> y = g z)"
  by (cases s) auto

lemma Manager_Reconcile_gathers:
  assumes run: "Manager_Reconcile x key c = Some (r, c')" and get: "m_get x key c = Inr rm"
  shows "c' = c \<and> (ignored rm \<or> (\<exists>e. r = ReturnError e) \<or> (\<exists>clusters.
      getClustersByFleet x (om_Namespace (rm_Meta rm)) (rmsp_Fleet (rm_Spec rm)) c = Inr clusters \<and>
      ClusterCount (map cluster_info clusters) True = 0)) \<or>
    (\<exists>clusters clis revisions faults observation ic rm' observer.
    \<not> ignored rm \<and>
    getClustersByFleet x (om_Namespace (rm_Meta rm)) (rmsp_Fleet (rm_Spec rm)) c = Inr clusters \<and>
    remote_clients x clusters c = Inr clis \<and>
    getRevisions x (fst key) (rmsp_Fleet (rm_Spec rm)) (rmsp_App (rm_Spec rm)) (rmsp_Target (rm_Spec rm)) c =
      Some (Inr revisions) \<and>
    getFaults x (fst key) (rmsp_App (rm_Spec rm)) (rmsp_Target (rm_Spec rm)) c = Inr faults \<and>
    newIncarnationCollection (map cluster_info clusters) (m_now x) rm revisions observation = (ic, rm') \<and>
    sync_or_delete x key (controller_ctx x (m_apply x (zip clis clusters)) observer
      (map cluster_info clusters) rm') ic faults c = Some (r, c'))"
  using run unfolding Manager_Reconcile_def Let_def get sum.case newPlanApplier_def newObserver_def
  by (auto simp: map_sum_Inr manager_requeue_def return_with_def split: if_splits sum.splits option.splits prod.splits)

text \<open>The revisions that are listed have passed the webhook.\<close>

definition lists_valid :: "('cli, 'sel, 'c) MCtx \<Rightarrow> 'c \<Rightarrow> bool" where
  "lists_valid x c \<longleftrightarrow> (\<forall>ns labels items. m_listRevisions x ns labels c = Inr items \<longrightarrow>
     (\<forall>r \<in> set items. validate (SetObjectDefaults_Revision r) = []))"

lemma listed_sound:
  assumes "lists_valid x c" "getRevisions x ns fleet app (rmsp_Target (rm_Spec rm)) c = Some (Inr revisions)"
  shows "\<forall>r \<in> set revisions. sound_revision rm r"
proof
  fix r assume r: "r \<in> set revisions"
  from assms(2) obtain items where items: "m_listRevisions x ns [(LabelApp, app), (LabelFleetPrefix @ fleet, [])] c = Inr items"
    and rs: "revisions = filter (\<lambda>r. HasTarget r (rmsp_Target (rm_Spec rm))) (map SetObjectDefaults_Revision items)"
    by (auto simp: getRevisions_def SetObjectDefaults_RevisionList_def Let_def split: sum.splits if_splits)
  from r rs obtain r0 where r0: "r0 \<in> set items" "r = SetObjectDefaults_Revision r0"
    "HasTarget (SetObjectDefaults_Revision r0) (rmsp_Target (rm_Spec rm))" by auto
  with assms(1) items have "validate (SetObjectDefaults_Revision r0) = []" by (simp add: lists_valid_def)
  with r0 show "sound_revision rm r" by (simp add: sound_revision_def validated_sound)
qed

lemma gathered_fair:
  assumes "fair_statuses (statuses_of rm)" "lists_valid x c"
    and "getRevisions x ns fleet app (rmsp_Target (rm_Spec rm)) c = Some (Inr revisions)"
    and "newIncarnationCollection ci now rm revisions observation = (ic, rm')"
  shows "fair_collection rm' ic"
  using collection_fair [OF assms(4,1) listed_sound [OF assms(2,3)]] .

section \<open>The statuses that are written\<close>

text \<open>The same release manager with an API server that refuses every status that is not as said.\<close>

definition guarded :: "(ReleaseManagerRevisionStatus list \<Rightarrow> bool) \<Rightarrow> ('cli, 'sel, 'c) MCtx \<Rightarrow> ('cli, 'sel, 'c) MCtx" where
  "guarded P x = x\<lparr>m_updateStatus := \<lambda>rm c.
     if P (statuses_of rm) then m_updateStatus x rm c else (Some (Errorf ''refused''), c)\<rparr>"

lemma guarded_simps [simp]:
  "m_get (guarded P x) = m_get x" "m_now (guarded P x) = m_now x" "m_update (guarded P x) = m_update x"
  "manager_requeue (guarded P x) = manager_requeue x" "controller_ctx (guarded P x) = controller_ctx x"
  "getClustersByFleet (guarded P x) = getClustersByFleet x" "newPlanApplier (guarded P x) = newPlanApplier x"
  "newObserver (guarded P x) = newObserver x" "getRevisions (guarded P x) = getRevisions x"
  "getFaults (guarded P x) = getFaults x"
  by (simp_all add: guarded_def fun_eq_iff manager_requeue_def controller_ctx_def getClustersByFleet_def
    newPlanApplier_def newObserver_def remote_clients_def getRevisions_def getFaults_def split: sum.split)

lemma write_statuses_guarded: "P rs \<Longrightarrow> write_statuses (guarded P x) key rs c = write_statuses x key rs c"
  by (simp add: write_statuses_def statuses_of_def guarded_def [of P x] split: sum.split)
    (simp add: manager_requeue_def)

lemma sync_fair:
  assumes "ResourceSyncer_sync ctx faults now (ic, c) = Some (Inr rs, s)" "fair_collection (x_rm ctx) ic"
  shows "fair_statuses rs"
proof (cases "revisioned ic = []")
  case True
  then have "rs = []" using assms(1) by (auto simp: ResourceSyncer_sync_def split: Option.bind_splits option.splits)
  then show ?thesis by (simp add: fair_statuses_def)
next
  case False
  then have "final_statuses (fst s) = Some rs"
    using assms(1) by (auto simp: ResourceSyncer_sync_def split: Option.bind_splits option.splits)
  moreover have "fair_collection (x_rm ctx) (fst s)"
    using fair.kept_sync [OF assms(1)] assms(2) by (simp add: holds_def)
  ultimately show ?thesis by (rule fair_final)
qed

lemma sync_or_delete_guarded:
  assumes "fair_collection (x_rm ctx) ic"
  shows "sync_or_delete (guarded fair_statuses x) key ctx ic faults c = sync_or_delete x key ctx ic faults c"
  using sync_fair [OF _ assms]
  by (auto simp: sync_or_delete_def Let_def write_statuses_guarded split: option.split sum.split)

lemma Manager_Reconcile_guarded:
  assumes "\<And>rm. m_get x key c = Inr rm \<Longrightarrow> fair_statuses (statuses_of rm)" "lists_valid x c"
  shows "Manager_Reconcile (guarded fair_statuses x) key c = Manager_Reconcile x key c"
proof (cases "m_get x key c")
  case (Inl e)
  then show ?thesis by (simp add: Manager_Reconcile_def Let_def)
next
  case (Inr rm)
  note fair = gathered_fair [OF assms(1) [OF Inr] assms(2)]
  have leaf: "(case newIncarnationCollection ci (m_now x) rm revisions observation of (ic, rm') \<Rightarrow>
        sync_or_delete (guarded fair_statuses x) key (controller_ctx x applier observer ci rm') ic faults c) =
      (case newIncarnationCollection ci (m_now x) rm revisions observation of (ic, rm') \<Rightarrow>
        sync_or_delete x key (controller_ctx x applier observer ci rm') ic faults c)"
    if "getRevisions x ns fleet app (rmsp_Target (rm_Spec rm)) c = Some (Inr revisions)"
    for ci revisions observation applier observer faults ns fleet app
    using fair [OF that] by (auto simp: sync_or_delete_guarded controller_ctx_def split: prod.split)
  show ?thesis
    unfolding Manager_Reconcile_def Let_def guarded_simps Inr sum.case
    by (auto split: sum.split option.split simp: leaf)
qed

end
