(* ===== verification/Fleet_Properties.thy ===== *)
theory Fleet_Properties
  imports App_Properties Manager_Invariant
begin

text \<open>
  The properties that span a whole reconciliation and the clusters of a fleet: the invariant of the collection
  is kept, and the traffic the statuses report is the traffic the clusters serve. The witnesses reconcile two
  clusters in memory.
\<close>

section \<open>The traffic in the clusters of a fleet\<close>

abbreviation service_at :: "SyncApp \<Rightarrow> Key" where
  "service_at p \<equiv> \<lparr>key_Kind = KVirtualService, key_Namespace = sap_Namespace p, key_Name = sap_App p\<rparr>"

lemma delivered_service:
  assumes "documented cli store" "sap_Ports p \<noteq> []"
    and "list_all (\<lambda>f. hf_PortSelector f \<noteq> None) (sap_HTTPPortFaults p)"
    and "sum_list (map (\<lambda>pr. unat (prv_Weight pr)) (sap_DeployedRevisions p)) = 100"
    and "SyncApp_Apply tmpl cli cluster p c = Some (None, c')"
  shows "serves (store c') (service_at p) (weight_to (sap_DeployedRevisions p)) \<or>
    deletion_refused cli (rules_key (sap_Namespace p) (sap_App p)) \<and> store c' (service_at p) = store c (service_at p)"
proof -
  obtain port where port: "port \<in> set (sap_Ports p)" using assms(2) by (meson last_in_set)
  have "sum_list (map (\<lambda>pr. unat (prv_Weight pr)) (sap_DeployedRevisions p)) \<noteq> 0" using assms(4) by simp
  then obtain pr where pr: "pr \<in> set (sap_DeployedRevisions p)" "prv_Weight pr \<noteq> 0"
    unfolding sum_list_eq_0_iff by (auto simp: unat_gt_0)
  then have some: "sap_DeployedRevisions p \<noteq> []" by auto
  obtain obj where v: "virtualService tmpl p cluster = Some (Some obj)"
    using virtualService_exists [OF assms(3) port pr] by blast
  from virtualService_body [OF v] obtain vs where obj:
    "obj = object (named (sap_Namespace p) (sap_App p) (Some (sap_Labels p))) (VirtualServiceBody vs)" by blast
  then have body: "ko_Body obj = VirtualServiceBody vs" by simp
  have key: "key_to obj = service_at p"
    by (simp add: obj key_to_def)
  from route_cases [OF v] body small_weights [OF assms(4)]
  have "\<forall>r \<in> set (vs_Http vs). weight_of_route r = 100" by auto
  moreover have "list_ex is_release (vs_Http vs)"
    using release_route_exists [OF v body port releaseRoute_nonempty [OF pr]] by (simp add: list_ex_iff)
  moreover have "\<forall>r \<in> set (vs_Http vs). is_release r \<longrightarrow>
      route_weight r t = int (weight_to (sap_DeployedRevisions p) t)" for t
    using release_route_weights [OF v body] small_weight [OF assms(4)] by blast
  ultimately have "divides_by (weight_to (sap_DeployedRevisions p)) vs" by (simp add: divides_by_def)
  then show ?thesis
    using SyncApp_writes_service [OF assms(1,2) some v assms(5)] body unfolding key
    by (auto simp: stored_body_def serves_def key)
qed

text \<open>
  A cluster that refuses the deletion of the alert rules of an app ends its plan there without an error, so its
  virtual service stays as it was.
\<close>

definition lost_deletion ::
  "('c \<Rightarrow> Key \<Rightarrow> KubeObj option) \<Rightarrow> 'c Client \<Rightarrow> ReleaseManager \<Rightarrow> 'c \<Rightarrow> 'c \<Rightarrow> bool" where
  "lost_deletion store cli rm c c' \<longleftrightarrow>
     deletion_refused cli (rules_key (TargetNamespace rm) (rmsp_App (rm_Spec rm))) \<and>
     store c' (service_key rm) = store c (service_key rm)"

lemma delivered_traffic:
  assumes "documented_fleet fleet store" "runs_on_fleet x clusters env finish fleet"
    and "sound_collection (x_rm x) ic" "deployed_incs ic \<noteq> []" "\<exists>i \<in> snd ` set ic. takes_traffic i"
    and "\<exists>i \<in> set (deployed_incs ic). ports (x_rm x) i \<noteq> []"
    and "list_all (\<lambda>f. hf_PortSelector f \<noteq> None) faults"
    and "syncApp x faults now (ic, c) = Some (None, ic', c')" "i < length fleet"
  shows "serves (store (clusters c' ! i)) (service_key (x_rm x)) (\<lambda>t. unat (pct ic' t)) \<or>
    lost_deletion store (fst (fleet ! i)) (x_rm x) (clusters c ! i) (clusters c' ! i)"
proof -
  from syncApp_plan [OF assms(8,4)] obtain p
    where prs: "prepareRevisions x now ic = Some (sap_DeployedRevisions p, ic')"
      and run: "x_apply x (PlanSyncApp p) c = (None, c')"
      and p: "sap_App p = rmsp_App (rm_Spec (x_rm x))" "sap_Namespace p = TargetNamespace (x_rm x)"
        "sap_HTTPPortFaults p = faults" "sap_AlertRules p = prepareAlertRules x ic'"
      and port_list: "sap_Ports p = map snd (port_map x (deployed_incs ic @
        filter (\<lambda>i. state_of i = deploying) (sorted_incs ic)))" by blast
  have some: "sap_Ports p \<noteq> []" unfolding port_list map_is_Nil_conv port_map_nonempty using assms(6) by auto
  have "unconditional (PlanSyncApp p)" using p(3) assms(7) by simp
  from runs_on_fleet_apply [OF assms(2,1) this, of c] run
  have "fleet_apply env finish fleet (PlanSyncApp p) (clusters c) = Some (None, clusters c')" by simp
  moreover have "set finish = {..<length (clusters c)}" using assms(2) by (simp add: runs_on_fleet_def)
  ultimately have a: "SyncApp_Apply (pe_template env) (fst (fleet ! i)) (snd (fleet ! i)) p (clusters c ! i) =
      Some (None, clusters c' ! i)" using fleet_apply_success assms(9) by fastforce
  have doc: "documented (fst (fleet ! i)) store" using assms(1,9) by (simp add: documented_fleet_def)
  have total: "sum_list (map (\<lambda>pr. unat (prv_Weight pr)) (sap_DeployedRevisions p)) = 100"
    "weight_to (sap_DeployedRevisions p) = (\<lambda>t. unat (pct ic' t))"
    using prepareRevisions_total [OF assms(3,4), of now] prs assms(5) by auto
  from delivered_service [OF doc some _ total(1) a] assms(7) p(1-3) total(2)
  show ?thesis by (simp add: service_key_def lost_deletion_def)
qed

text \<open>An incarnation that is live after the division was so before, with the same ports.\<close>

lemma live_before:
  assumes "sound_collection (x_rm x) ic" "syncApp x faults now (ic, c) = Some (None, ic', c')"
    and "i \<in> snd ` set ic'" "state_of i \<in> {canarying, releasing, released}" "ports (x_rm x) i \<noteq> []"
  shows "\<exists>j \<in> set (deployed_incs ic). takes_traffic j \<and> ports (x_rm x) j \<noteq> []"
proof (cases "deployed_incs ic = []")
  case True
  have "ic' = ic"
    using assms(2) by (auto simp: syncApp_def Let_def True prepareRevisions_def
      split: if_splits Option.bind_splits dest!: apply_step_fst)
  with True assms(3,4) show ?thesis by (auto simp: deployed_incs_def filter_empty_conv)
next
  case False
  from syncApp_plan [OF assms(2) False] obtain revs where "prepareRevisions x now ic = Some (revs, ic')" by blast
  with prepareRevisions_total [OF assms(1) False, of now]
  have ic': "wf_collection ic'" "all_alike ic' ic" by auto
  obtain t where "map_of ic' t = Some i" using assms(3) ic'(1) by (auto simp: wf_collection_def)
  with ic'(2) [unfolded all_alike_def, rule_format, of t]
  obtain j where j: "map_of ic t = Some j" "alike i j" by (auto simp: option_rel_Some1)
  then have "j \<in> set (deployed_incs ic)"
    using assms(4) by (force simp: deployed_incs_def alike_def dest: map_of_SomeD)
  moreover have "takes_traffic j" "ports (x_rm x) j \<noteq> []"
    using j(2) assms(4,5) by (auto simp: takes_traffic_def alike_def ports_def target_def)
  ultimately show ?thesis by blast
qed

text \<open>What has a percentage after the division is kept in the statuses.\<close>

lemma given_kept:
  assumes "prepareRevisions x now ic = Some (revs, ic')" "sound_collection (x_rm x) ic" "deployed_incs ic \<noteq> []"
    and "(t, i) \<in> set ic'" "currentPercent i \<noteq> 0"
  shows "kept i"
proof -
  from prepareRevisions_total [OF assms(2,3), of now] assms(1)
  have ic': "wf_collection ic'" "all_alike ic' ic"
    and given: "\<And>t. pct ic' t \<noteq> 0 \<Longrightarrow> \<exists>i. map_of ic t = Some i \<and> takes_traffic i" by auto
  have "map_of ic' t = Some i" using assms(4) ic'(1) by (simp add: wf_collection_def)
  with assms(5) given [of t] obtain j where "map_of ic t = Some j" "takes_traffic j" by (auto simp: pct_def)
  moreover from ic'(2) [unfolded all_alike_def, rule_format, of t] this \<open>map_of ic' t = Some i\<close>
  have "alike i j" by simp
  ultimately show ?thesis by (auto simp: kept_def takes_traffic_def alike_def)
qed

text \<open>
  After a reconciliation that succeeds with a live revision left, every cluster serves the percentages of the
  statuses to write back, or has lost the deletion of its alert rules.
\<close>

lemma sync_serves:
  assumes "documented_fleet fleet store" "runs_on_fleet x clusters env finish fleet"
    and "fair_collection (x_rm x) ic" "list_all (\<lambda>f. hf_PortSelector f \<noteq> None) faults"
    and "ResourceSyncer_sync x faults now (ic, c) = Some (Inr rs, ic', c')"
    and "\<exists>i \<in> snd ` set ic'. state_of i \<in> {canarying, releasing, released} \<and> ports (x_rm x) i \<noteq> []"
    and "i < length fleet"
  shows "serves (store (clusters c' ! i)) (service_key (x_rm x)) (status_percent rs) \<or>
    lost_deletion store (fst (fleet ! i)) (x_rm x) (clusters c ! i) (clusters c' ! i)"
proof -
  obtain j where j: "j \<in> snd ` set ic'" "state_of j \<in> {canarying, releasing, released}" "ports (x_rm x) j \<noteq> []"
    using assms(6) by blast
  then have revision: "inc_revision j \<noteq> None" by (auto simp: ports_def target_def split: option.splits)
  have "revisioned ic \<noteq> []"
  proof
    assume none: "revisioned ic = []"
    have "fst (ic', c') = fst (ic, c)"
      using assms(5) none keeps_incsD [OF keeps_incs_then [OF keeps_incs_later(3,5)]]
      by (auto simp: ResourceSyncer_sync_def split: Option.bind_splits option.splits)
    with j(1) revision none show False by (auto simp: revisioned_def filter_empty_conv)
  qed
  then have some: "revisioned (fst (ic, c)) \<noteq> []" by simp
  have k: "service_key (x_rm x) \<notin> not_services" by (simp add: service_key_def not_services_def)
  obtain s0 s1
    where fair: "holds fair_collection x (ic, c) \<Longrightarrow> holds fair_collection x s0"
      and start: "store (clusters (snd s0) ! i) (service_key (x_rm x)) = store (clusters c ! i) (service_key (x_rm x))"
    and app: "syncApp x faults now s0 = Some (None, s1)" and incs: "ic' = fst s1"
      and rs: "final_statuses ic' = Some rs"
      and same: "store (clusters c' ! i) (service_key (x_rm x)) = store (clusters (snd s1) ! i) (service_key (x_rm x))"
    by (rule sync_split [OF assms(5) some assms(2,1) k fair.kept_sync_steps], rule that) (simp_all add: assms(7))
  have app': "syncApp x faults now (fst s0, snd s0) = Some (None, ic', snd s1)" using app incs by simp
  have s0: "sound_collection (x_rm x) (fst s0)"
    using fair assms(3) by (simp add: holds_def fair_collection_def)
  from live_before [OF s0 app' j] obtain l
    where l: "l \<in> set (deployed_incs (fst s0))" "takes_traffic l" "ports (x_rm x) l \<noteq> []" by blast
  have "l \<in> snd ` set (fst s0)" using l(1) by (simp add: deployed_incs_def)
  with l have live: "deployed_incs (fst s0) \<noteq> []" "\<exists>i \<in> snd ` set (fst s0). takes_traffic i"
    "\<exists>i \<in> set (deployed_incs (fst s0)). ports (x_rm x) i \<noteq> []" by force+
  from syncApp_plan [OF app' live(1)] obtain revs where "prepareRevisions x now (fst s0) = Some (revs, ic')" by blast
  note kept = given_kept [OF this s0 live(1)]
  have "fair_collection (x_rm x) ic'"
    using fair.kept_sync [OF assms(5)] assms(3) by (simp add: holds_def)
  from final_percents [OF rs this] kept have "status_percent rs = (\<lambda>t. unat (pct ic' t))" by (auto simp: fun_eq_iff)
  then show ?thesis
    using delivered_traffic [OF assms(1,2) s0 live assms(4) app' assms(7)] same start
    by (simp add: serves_def lost_deletion_def)
qed

section \<open>A reconciliation of two clusters in memory\<close>

definition a_env :: PlanEnv where
  "a_env = \<lparr>pe_template = no_template, pe_isZero = \<lambda>_. False, pe_parseExpr = \<lambda>_. Inl NotFound\<rparr>"

definition a_fleet :: "(KubeObj list Client \<times> Cluster) list" where
  "a_fleet = [(mem, SetObjectDefaults_Cluster a_cluster), (mem, SetObjectDefaults_Cluster a_cluster)]"

text \<open>The state of the whole: the two clusters, and the statuses written last.\<close>

type_synonym pair_state = "KubeObj list \<times> KubeObj list \<times> ReleaseManagerRevisionStatus list"

definition a_pair :: "pair_state \<Rightarrow> KubeObj list list" where
  "a_pair c = [fst c, fst (snd c)]"

definition apply_pair :: "(KubeObj list Client \<times> Cluster) list \<Rightarrow> Plan \<Rightarrow> pair_state \<Rightarrow> goerror option \<times> pair_state" where
  "apply_pair fleet p c = (case fleet_apply a_env [1, 0] fleet p (a_pair c) of
     None \<Rightarrow> (None, c) | Some (err, cs) \<Rightarrow> (err, cs ! 0, cs ! 1, snd (snd c)))"

text \<open>Both revisions run, with three and five replicas.\<close>

definition a_watch :: Observation where
  "a_watch = map (\<lambda>(tag, n). \<lparr>rep_Desired = n, rep_Current = n, rep_Tag = tag,
     rep_Cluster = \<lparr>oc_Name = ''one'', oc_Live = True\<rparr>\<rparr>) [(''v1'', 3), (''v2'', 5)]"

type_synonym fleet_state = "pair_state sync_state"

text \<open>The release manager with the statuses of two revisions that wait for their release.\<close>

definition a_managed :: ReleaseManager where
  "a_managed = a_rm\<lparr>rm_Status := \<lparr>rmst_Revisions = [inc_status (an_inc ''v1'' pendingrelease 60 60 4),
     inc_status (an_inc ''v2'' pendingrelease 30 30 4)], rmst_LastUpdated = None\<rparr>\<rparr>"

definition a_fleet_ctx :: "pair_state Ctx" where
  "a_fleet_ctx = \<lparr>x_rm = a_managed, x_clusterInfo = map (\<lambda>a. cluster_info (snd a)) a_fleet,
     x_config = a_config, x_off = \<lambda>_. 0, x_local = \<lambda>_. 0,
     x_apply = apply_pair a_fleet,
     x_selector = \<lambda>_. Inr [], x_listSecrets = \<lambda>_ _ _. Inr [],
     x_listExternalSecrets = \<lambda>_ _ _. Inr [], x_listConfigMaps = \<lambda>_ _ _. Inr [],
     x_parseQuantity = \<lambda>_. Inl NotFound, x_observe = \<lambda>_ _. Inr a_watch,
     x_getRevision = \<lambda>_ _ _. Inl NotFound, x_updateRevision = \<lambda>_ c. (None, c),
     x_deleteReleaseManager = \<lambda>_ c. (None, c)\<rparr>"

lemma a_fleet_ctx_simps [simp]:
  "x_rm a_fleet_ctx = a_managed" "x_config a_fleet_ctx = a_config" "x_observe a_fleet_ctx ns c = Inr a_watch"
  "x_apply a_fleet_ctx = apply_pair a_fleet"
  "x_updateRevision a_fleet_ctx r c = (None, c)" "x_getRevision a_fleet_ctx n m c = Inl NotFound"
  by (simp_all add: a_fleet_ctx_def)

lemma a_managed_simps [simp]: "rm_Spec a_managed = rm_Spec a_rm" "TargetNamespace a_managed = ''app-production''"
  by (simp_all add: a_managed_def TargetNamespace_def a_rm_def)

lemma documented_a_fleet: "documented_fleet a_fleet mem_store"
  using mem_documented by (auto simp: documented_fleet_def a_fleet_def less_Suc_eq nth_Cons split: nat.split)

lemma mem_never_refuses: "\<not> deletion_refused mem k"
  by (auto simp: deletion_refused_def mem_def split: option.split)

lemma fleet_apply_length: "fleet_apply env finish fleet p cs = Some (err, cs') \<Longrightarrow> length cs' = length fleet"
  by (auto simp: fleet_apply_def concurrent_apply_def Let_def list_all2_lengthD split: if_splits)

lemma a_fleet_runs: "runs_on_fleet a_fleet_ctx a_pair a_env [1, 0] a_fleet"
proof -
  have "a_pair (cs ! 0, cs ! 1, rs) = cs" if "length cs = 2" for cs rs
    using that by (auto simp: a_pair_def length_Suc_conv numeral_2_eq_2)
  then show ?thesis
    by (auto simp: runs_on_fleet_def apply_pair_def a_fleet_def a_pair_def dest: fleet_apply_length split: option.split)
qed

text \<open>The plans of a reconciliation without ticks that call the clusters.\<close>

fun routine :: "Plan \<Rightarrow> bool" where
  "routine (PlanSyncApp p) = (sap_HTTPPortFaults p = [])"
| "routine (PlanEnsureNamespace p) = True"
| "routine (PlanEnsureServiceAccount p) = True"
| "routine (PlanEnsureRBAC p) = True"
| "routine (PlanEnsureWaypointOptions p) = True"
| "routine (PlanEnsureWaypoint p) = True"
| "routine (PlanEnsureWaypointPDB p) = True"
| "routine (PlanEnsureWaypointHPA p) = True"
| "routine (PlanDeleteWaypoint p) = True"
| "routine (PlanDeleteWaypointOptions p) = True"
| "routine (PlanDeleteWaypointPDB p) = True"
| "routine (PlanDeleteWaypointHPA p) = True"
| "routine (PlanDeleteServiceMonitors p) = True"
| "routine (PlanSyncSLORules p) = True"
| "routine (PlanDeleteSLORules p) = True"
| "routine _ = False"

lemma succeeds_total: "(\<And>c. fst (f c) = None) \<Longrightarrow> succeeds (total f)"
  by (auto simp: succeeds_def total_def) (metis prod.collapse)

lemma succeeds_wrapped: "succeeds f \<Longrightarrow> succeeds (wrapped msg f)"
  by (fastforce simp: succeeds_def wrapped_def)

lemma mem_listed: "succeeds (delete_listed mem kind ns sel)"
proof -
  have "succeeds (each (\<lambda>item. total (DeleteIfExists mem (key_of item))) items)" for items by blast
  then show ?thesis by (simp add: succeeds_def delete_listed_def mem_def)
qed

lemma mem_routine: "routine p \<Longrightarrow> succeeds (Plan_Apply env mem cluster p)"
proof (cases p rule: routine.cases)
  case (1 q)
  assume "routine p"
  then show ?thesis using 1 mem_app [OF virtualService_total] by simp
next
  case (3 q)
  have "succeeds (CreateOrUpdate mem (service_account q as))" for as
    by (rule mem_writes) (simp_all add: cases_of_def service_account_def)
  then have "succeeds (then_do (CreateOrUpdate mem (service_token q)) (CreateOrUpdate mem (service_account q as)))" for as
    by (intro succeeds_then) (auto simp: service_token_def intro: mem_typed)
  then show ?thesis by (auto simp: 3 succeeds_def EnsureServiceAccount_Apply_def mem_def Let_def split: option.split)
next
  case (6 q)
  then show ?thesis
    by (auto simp: succeeds_def EnsureWaypoint_Apply_def mem_def total_def ok_def split: option.split)
qed (auto simp: EnsureNamespace_Apply_def namespace_of_def EnsureRBAC_Apply_def role_of_def roleBinding_of_def
    EnsureWaypointOptions_Apply_def waypoint_options_def EnsureWaypointPDB_Apply_def waypoint_pdb_def
    EnsureWaypointHPA_Apply_def waypoint_hpa_def DeleteWaypoint_Apply_def DeleteWaypointOptions_Apply_def
    DeleteWaypointPDB_Apply_def DeleteWaypointHPA_Apply_def DeleteServiceMonitors_Apply_def mem_listed
    SyncSLORules_Apply_def SLORules_def DeleteSLORules_Apply_def whole_spec_def Let_def
    intro!: succeeds_then succeeds_wrapped mem_typed split: option.split prod.split)

lemma a_fleet_routine:
  assumes "routine p"
  shows "\<exists>c'. x_apply a_fleet_ctx p c = (None, c')"
proof -
  obtain d1 d2 where "Plan_Apply a_env mem (SetObjectDefaults_Cluster a_cluster) p (fst c) = Some (None, d1)"
    "Plan_Apply a_env mem (SetObjectDefaults_Cluster a_cluster) p (fst (snd c)) = Some (None, d2)"
    using mem_routine [OF assms] unfolding succeeds_def by metis
  then show ?thesis
    by (simp add: apply_pair_def fleet_apply_def a_fleet_def a_pair_def concurrent_apply_def ClusterApplier_Apply_def)
qed

text \<open>Total correctness of the steps: from a state with the one property they succeed in one with the other.\<close>

definition reaches :: "('c sync_state \<Rightarrow> bool) \<Rightarrow> 'c sync_step \<Rightarrow> ('c sync_state \<Rightarrow> bool) \<Rightarrow> bool" where
  "reaches P f Q \<longleftrightarrow> (\<forall>s. P s \<longrightarrow> (\<exists>s'. f s = Some (None, s') \<and> Q s'))"

lemma reachesI: "(\<And>s. P s \<Longrightarrow> \<exists>s'. f s = Some (None, s') \<and> Q s') \<Longrightarrow> reaches P f Q"
  by (simp add: reaches_def)

lemma reaches_nil: "reaches P (steps []) P"
  by (simp add: reaches_def)

lemma reaches_cons: "reaches P f Q \<Longrightarrow> reaches Q (steps fs) R \<Longrightarrow> reaches P (steps (f # fs)) R"
  by (fastforce simp: reaches_def step_then_def)

text \<open>A quiet step succeeds and leaves the collection.\<close>

definition quiet :: "'c sync_step \<Rightarrow> bool" where
  "quiet f \<longleftrightarrow> (\<forall>ic c. \<exists>c'. f (ic, c) = Some (None, ic, c'))"

lemma quietI: "(\<And>ic c. \<exists>c'. f (ic, c) = Some (None, ic, c')) \<Longrightarrow> quiet f"
  by (simp add: quiet_def)

lemma quietE: "quiet f \<Longrightarrow> (\<And>c'. f (ic, c) = Some (None, ic, c') \<Longrightarrow> R) \<Longrightarrow> R"
  unfolding quiet_def by blast

lemma quiet_reaches:
  assumes "quiet f"
  shows "reaches (\<lambda>s. P (fst s)) f (\<lambda>s. P (fst s))"
proof (rule reachesI)
  fix s :: "'a sync_state" assume P: "P (fst s)"
  obtain c' where "f (fst s, snd s) = Some (None, fst s, c')" using quietE [OF assms] .
  with P show "\<exists>s'. f s = Some (None, s') \<and> P (fst s')" by simp
qed

lemma quiet_then:
  assumes "quiet f" "quiet g"
  shows "quiet (step_then f g)"
proof (rule quietI)
  fix ic c
  obtain c1 where f: "f (ic, c) = Some (None, ic, c1)" using quietE [OF assms(1)] .
  obtain c2 where "g (ic, c1) = Some (None, ic, c2)" using quietE [OF assms(2)] .
  with f show "\<exists>c'. step_then f g (ic, c) = Some (None, ic, c')" by (simp add: step_then_def)
qed

lemma quiet_steps: "list_all quiet fs \<Longrightarrow> quiet (steps fs)"
proof (induction fs)
  case (Cons f fs)
  then have "quiet (step_then f (steps fs))" by (simp add: quiet_then)
  then show ?case by (simp add: quiet_def)
qed (simp add: quiet_def)

lemma quiet_cases: "(\<And>s. \<exists>g. f s = g s \<and> quiet g) \<Longrightarrow> quiet f"
  unfolding quiet_def by metis

lemma quiet_plan:
  assumes "routine p"
  shows "quiet (apply_step a_fleet_ctx p)"
proof (rule quietI)
  fix ic c
  obtain c' where "x_apply a_fleet_ctx p c = (None, c')" using a_fleet_routine [OF assms] by blast
  then show "\<exists>c'. apply_step a_fleet_ctx p (ic, c) = Some (None, ic, c')"
    by (cases c' rule: prod_cases3) (simp add: apply_step_def del: a_fleet_ctx_simps)
qed

lemma quiet_syncNamespace: "quiet (syncNamespace a_fleet_ctx)"
proof -
  have e: "quiet (ensure_waypoint a_fleet_ctx)"
  proof (rule quiet_cases)
    fix s :: "fleet_state"
    show "\<exists>g. ensure_waypoint a_fleet_ctx s = g s \<and> quiet g"
      unfolding ensure_waypoint_def Let_def
      by (intro exI conjI, rule refl, rule quiet_steps) (simp add: quiet_plan del: a_fleet_ctx_simps)
  qed
  have d: "quiet (delete_waypoint a_fleet_ctx)"
    unfolding delete_waypoint_def Let_def by (rule quiet_steps) (simp add: quiet_plan del: a_fleet_ctx_simps)
  show ?thesis
  proof (rule quiet_cases)
    fix s :: "fleet_state"
    show "\<exists>g. syncNamespace a_fleet_ctx s = g s \<and> quiet g"
      unfolding syncNamespace_def Let_def case_prod_unfold
      by (intro exI conjI, rule refl, rule quiet_then) (simp_all add: quiet_plan e d del: a_fleet_ctx_simps)
  qed
qed

lemma quiet_accounts: "quiet (syncServiceAccount a_fleet_ctx)" "quiet (syncRBAC a_fleet_ctx)"
  by (simp_all add: syncServiceAccount_def syncRBAC_def quiet_plan del: a_fleet_ctx_simps)

text \<open>The incarnations are of revisions with one port and a plain release.\<close>

definition raw_ported :: "string \<Rightarrow> Revision" where
  "raw_ported tag = (with_target (\<lambda>t. t\<lparr>rt_Ports := [port_80]\<rparr>) a_revision)
     \<lparr>rev_Spec := (rev_Spec (with_target (\<lambda>t. t\<lparr>rt_Ports := [port_80]\<rparr>) a_revision))
       \<lparr>rsp_App := \<lparr>ra_Name = ''app'', ra_Ref = tag, ra_Tag = tag, ra_Image = ''app:'' @ tag\<rparr>\<rparr>\<rparr>"

definition a_ported :: "string \<Rightarrow> Revision" where
  "a_ported tag = SetObjectDefaults_Revision (raw_ported tag)"

definition of_ported :: "Incarnation \<Rightarrow> bool" where
  "of_ported i \<longleftrightarrow> (\<exists>tag. inc_revision i = Some (a_ported tag))"

definition waiting :: "Incarnation \<Rightarrow> bool" where
  "waiting i \<longleftrightarrow> of_ported i \<and> state_of i = pendingrelease \<and> isReleaseEligible i \<and> peakPercent i > 10"

definition going :: "Incarnation \<Rightarrow> bool" where
  "going i \<longleftrightarrow> of_ported i \<and> state_of i = releasing"

definition all_incs :: "(Incarnation \<Rightarrow> bool) \<Rightarrow> Collection \<Rightarrow> bool" where
  "all_incs P ic \<longleftrightarrow> ic \<noteq> [] \<and> (\<forall>(t, i) \<in> set ic. P i) \<and> sound_collection a_managed ic"

definition a_ported_target :: RevisionTarget where
  "a_ported_target = SetSidecarDefaults (SetDefaults_Target (a_target\<lparr>rt_Ports := [port_80]\<rparr>))"

lemma a_ported_targets: "rsp_Targets (rev_Spec (a_ported tag)) = [a_ported_target]"
  by (simp add: a_ported_def SetObjectDefaults_Revision_targets raw_ported_def with_target_def a_revision_def
    a_ported_target_def)

lemma a_ported_target_simps:
  "rt_Name a_ported_target = ''production''" "rt_Canary a_ported_target = rt_Canary a_target"
  "rt_Ports a_ported_target \<noteq> []" "rt_ServiceMonitors a_ported_target = []"
  "rt_SlothServiceLevelObjectives a_ported_target = []"
  by (simp_all add: a_ported_target_def SetSidecarDefaults_def SetDefaults_Target_def a_target_def)

lemma target_ported: "of_ported i \<Longrightarrow> target a_managed i = Some a_ported_target"
  by (auto simp: of_ported_def target_def a_ported_targets a_ported_target_simps a_rm_def)

lemma ported_tests:
  assumes "of_ported i"
  shows "hasRevision i" "\<not> markedAsFailed i" "ports a_managed i \<noteq> []"
    "om_Name (rev_Meta (a_ported tag)) = ''app-v1''"
  using assms
  by (simp_all add: target_ported ports_def a_ported_target_simps)
    (auto simp: of_ported_def hasRevision_def markedAsFailed_def a_ported_def raw_ported_def
      SetObjectDefaults_Revision_def SetDefaults_RevisionSpec_def Let_def with_target_def a_revision_def)

text \<open>A tick releases a waiting incarnation, without a call of the clusters.\<close>

lemma tick_waiting:
  assumes "waiting i"
  shows "inc_tick a_fleet_ctx now (i, c) = Some (None, setState now releasing i, c)"
proof -
  have p: "schedulePermitsRelease a_fleet_ctx now i = Some True"
    using assms target_ported [of i] less_trans [of 0 10 "peakPercent i"]
    by (auto simp: waiting_def schedulePermitsRelease_def of_ported_def a_ported_target_simps a_target_def)
  have "current (inc_deployment a_fleet_ctx now) (i, c) = pendingrelease"
    using assms by (simp add: waiting_def current_inc)
  then show ?thesis
    using assms ported_tests [of i] p
    by (simp add: inc_tick_def tick_def PendingRelease_def inc_deployment_def waiting_def)
qed

lemma going_after: "waiting i \<Longrightarrow> going (setState now releasing i)"
  by (simp add: waiting_def going_def of_ported_def state_of_def)

text \<open>Through the steps.\<close>

definition all_in :: "(Incarnation \<Rightarrow> bool) \<Rightarrow> fleet_state \<Rightarrow> bool" where
  "all_in P s \<longleftrightarrow> all_incs P (fst s)"

lemma reaches_quiet: "quiet f \<Longrightarrow> reaches (all_in P) f (all_in P)"
  unfolding all_in_def by (rule quiet_reaches)

text \<open>A step that keeps a sound collection, and makes every incarnation as said.\<close>

lemma reaches_all:
  assumes "keeps (holds sound_collection a_fleet_ctx) f"
    and "\<And>s. all_in P s \<Longrightarrow> \<exists>s'. f s = Some (None, s') \<and> fst s' \<noteq> [] \<and> (\<forall>(t, i) \<in> set (fst s'). Q i)"
  shows "reaches (all_in P) f (all_in Q)"
proof (rule reachesI)
  fix s :: fleet_state assume s: "all_in P s"
  then have "holds sound_collection a_fleet_ctx s" by (simp add: all_in_def all_incs_def holds_def)
  with assms(2) [OF s] keepsD [OF assms(1)]
  show "\<exists>s'. f s = Some (None, s') \<and> all_in Q s'"
    by (fastforce simp: all_in_def all_incs_def holds_def)
qed

lemma reaches_metrics: "reaches (all_in waiting) (reportMetrics now) (all_in waiting)"
proof (rule reaches_all [OF sound.kept_reportMetrics])
  fix s :: "fleet_state" assume s: "all_in waiting s"
  have "waiting i \<Longrightarrow> waiting (inc_reportMetrics now i)" for i
    by (simp add: waiting_def of_ported_def state_of_def isReleaseEligible_def peakPercent_def
      inc_reportMetrics_def Let_def)
  with s show "\<exists>s'. reportMetrics now s = Some (None, s') \<and> fst s' \<noteq> [] \<and> (\<forall>(t, i) \<in> set (fst s'). waiting i)"
    by (auto simp: reportMetrics_def all_in_def all_incs_def)
qed

lemma ticks_waiting:
  assumes "distinct tags" "set tags \<subseteq> fst ` set (fst s)" "distinct (map fst (fst s))"
    and "\<forall>(t, i) \<in> set (fst s). if t \<in> set tags then waiting i else going i"
  shows "\<exists>ic'. steps (map (tick_tag a_fleet_ctx now) tags) s = Some (None, ic', snd s) \<and>
    map fst ic' = map fst (fst s) \<and> (\<forall>(t, i) \<in> set ic'. going i)"
  using assms
proof (induction tags arbitrary: s)
  case (Cons tag tags)
  obtain i where i: "map_of (fst s) tag = Some i" "(tag, i) \<in> set (fst s)"
    using Cons.prems(2,3) by (metis insert_subset list.simps(15) map_of_eq_None_iff map_of_SomeD not_None_eq)
  then have w: "waiting i" using Cons.prems(4) by fastforce
  let ?s = "(modify tag (\<lambda>_. setState now releasing i) (fst s), snd s)"
  have tags: "map fst (modify tag f ic) = map fst ic" for f ic by (simp add: modify_def case_prod_unfold o_def)
  have "tick_tag a_fleet_ctx now tag s = Some (None, ?s)"
    by (simp add: tick_tag_def i(1) tick_waiting [OF w])
  moreover have "\<exists>ic'. steps (map (tick_tag a_fleet_ctx now) tags) ?s = Some (None, ic', snd ?s) \<and>
      map fst ic' = map fst (fst ?s) \<and> (\<forall>(t, i) \<in> set ic'. going i)"
  proof (rule Cons.IH)
    show "distinct tags" using Cons.prems(1) by simp
    show "distinct (map fst (fst ?s))" using Cons.prems(3) by (simp add: tags)
    have "fst ` set (fst ?s) = fst ` set (fst s)" by (metis fst_conv list.set_map tags)
    then show "set tags \<subseteq> fst ` set (fst ?s)" using Cons.prems(2) by simp
    show "\<forall>(t, j) \<in> set (fst ?s). if t \<in> set tags then waiting j else going j"
      using Cons.prems(1,4) going_after [OF w] by (fastforce simp: in_modify)
  qed
  ultimately show ?case by (auto simp: step_then_def tags)
qed auto

lemma reaches_ticks: "reaches (all_in waiting) (tickIncarnations a_fleet_ctx now) (all_in going)"
proof (rule reaches_all [OF sound.kept_tickIncarnations])
  fix s :: "fleet_state" assume s: "all_in waiting s"
  then have wf: "wf_collection (fst s)" by (simp add: all_in_def all_incs_def sound_collection_def)
  let ?tags = "map inc_tag (sorted_incs (fst s))"
  have "\<exists>ic'. steps (map (tick_tag a_fleet_ctx now) ?tags) s = Some (None, ic', snd s) \<and>
      map fst ic' = map fst (fst s) \<and> (\<forall>(t, i) \<in> set ic'. going i)"
  proof (rule ticks_waiting [OF wf_distinct [OF wf]])
    show "distinct (map fst (fst s))" using wf by (simp add: wf_collection_def)
    have "set ?tags = fst ` set (fst s)" using wf by (force simp: wf_collection_def)
    then show "set ?tags \<subseteq> fst ` set (fst s)"
      "\<forall>(t, i) \<in> set (fst s). if t \<in> set ?tags then waiting i else going i"
      using s by (force simp: all_in_def all_incs_def)+
  qed
  then show "\<exists>s'. tickIncarnations a_fleet_ctx now s = Some (None, s') \<and> fst s' \<noteq> [] \<and> (\<forall>(t, i) \<in> set (fst s'). going i)"
    using s by (force simp: tickIncarnations_def o_def all_in_def all_incs_def)
qed

lemma reaches_observe: "reaches (all_in going) (sync_observe a_fleet_ctx now) (all_in going)"
proof (rule reaches_all [OF sound.kept_sync_observe])
  fix s :: "fleet_state" assume s: "all_in going s"
  have "going i \<Longrightarrow> going (inc_update ci now di i)" for i ci di
    by (cases di) (simp_all add: going_def of_ported_def state_of_def inc_update_def Let_def)
  with s show "\<exists>s'. sync_observe a_fleet_ctx now s = Some (None, s') \<and> fst s' \<noteq> [] \<and> (\<forall>(t, i) \<in> set (fst s'). going i)"
    by (auto simp: sync_observe_def collection_update_def all_in_def all_incs_def)
qed

lemma all_deployed:
  assumes "all_incs going ic"
  shows "deployed_incs ic = sorted_incs ic" "filter (\<lambda>i. state_of i = deploying) (sorted_incs ic) = []"
    "sorted_incs ic \<noteq> []" "i \<in> set (sorted_incs ic) \<Longrightarrow> going i"
proof -
  have all: "going i" if "i \<in> set (sorted_incs ic)" for i
    using that assms by (auto simp: all_incs_def)
  then show "i \<in> set (sorted_incs ic) \<Longrightarrow> going i" .
  show "deployed_incs ic = sorted_incs ic" using all by (simp add: deployed_incs_def filter_id_conv going_def)
  show "filter (\<lambda>i. state_of i = deploying) (sorted_incs ic) = []" using all by (simp add: filter_empty_conv going_def)
  have "set (sorted_incs ic) \<noteq> {}" using assms by (simp add: all_incs_def)
  then show "sorted_incs ic \<noteq> []" by auto
qed

lemma reaches_app: "reaches (all_in going) (syncApp a_fleet_ctx [] now) (all_in going)"
proof (rule reaches_all [OF sound.kept_syncApp])
  fix s :: "fleet_state" assume s: "all_in going s"
  then have all: "all_incs going (fst s)" by (simp add: all_in_def)
  note d = all_deployed [OF all]
  have "sound_collection (x_rm a_fleet_ctx) (fst s)" "deployed_incs (fst s) \<noteq> []"
    using all d by (simp_all add: all_incs_def)
  from prepareRevisions_total [OF this, of now] obtain revs ic'
    where p: "prepareRevisions a_fleet_ctx now (fst s) = Some (revs, ic')"
      and ic': "wf_collection ic'" "all_alike ic' (fst s)" by blast
  have t: "target a_managed (last (sorted_incs (fst s))) = Some a_ported_target"
    using d(4) [OF last_in_set [OF d(3)]] by (simp add: going_def target_ported)
  have "going i" if "(t, i) \<in> set ic'" for t i
  proof -
    have "map_of ic' t = Some i" using that ic'(1) by (simp add: wf_collection_def)
    with ic'(2) [unfolded all_alike_def, rule_format, of t]
    obtain j where j: "map_of (fst s) t = Some j" "alike i j" by (auto simp: option_rel_Some1)
    then have "going j" using all by (auto simp: all_incs_def dest: map_of_SomeD)
    with j(2) show ?thesis by (simp add: alike_def going_def of_ported_def)
  qed
  moreover have "ic' \<noteq> []"
  proof
    assume "ic' = []"
    with ic'(2) have none: "map_of (fst s) t = None" for t by (auto simp: all_alike_def)
    from all obtain t i r where "fst s = (t, i) # r" by (auto simp: all_incs_def neq_Nil_conv)
    with none [of t] show False by simp
  qed
  moreover obtain p' where "syncApp a_fleet_ctx [] now s = apply_step a_fleet_ctx (PlanSyncApp p') (ic', snd s)"
    "routine (PlanSyncApp p')"
    using d(3) by (simp add: syncApp_def Let_def d(1,2) p t)
  moreover from quietE [OF quiet_plan [OF this(2)]]
  obtain c' where "apply_step a_fleet_ctx (PlanSyncApp p') (ic', snd s) = Some (None, ic', c')" .
  ultimately show "\<exists>s'. syncApp a_fleet_ctx [] now s = Some (None, s') \<and> fst s' \<noteq> [] \<and> (\<forall>(t, i) \<in> set (fst s'). going i)"
    by auto
qed

text \<open>Neither monitors nor objectives; the revisions are not in the delivery cluster any more.\<close>

lemma first_target_going:
  assumes "\<forall>i \<in> set is. of_ported i"
  shows "first_target a_fleet_ctx is \<in> {None, Some a_ported_target}"
proof (cases "find (\<lambda>i. target a_managed i \<noteq> None) is")
  case (Some i)
  then have "i \<in> set is" by (auto simp: find_Some_iff)
  with assms Some show ?thesis by (simp add: first_target_def target_ported)
qed (simp add: first_target_def)

lemma nothing_to_monitor:
  assumes "all_incs going ic"
  shows "prepareServiceMonitors a_fleet_ctx ic = []" "fst (prepareServiceLevelObjectives a_fleet_ctx ic) = []"
proof -
  have a: "\<forall>i \<in> set (alertable ic). of_ported i" and r: "\<forall>i \<in> set (releasable ic). of_ported i"
    using all_deployed(4) [OF assms] by (auto simp: alertable_def revisioned_def releasable_def going_def)
  show "prepareServiceMonitors a_fleet_ctx ic = []"
    using first_target_going [OF a] by (auto simp: prepareServiceMonitors_def a_ported_target_simps)
  show "fst (prepareServiceLevelObjectives a_fleet_ctx ic) = []"
    using first_target_going [OF r]
    by (auto simp: prepareServiceLevelObjectives_def a_ported_target_simps split: option.split)
qed

lemma reaches_as:
  assumes "\<And>s. all_in P s \<Longrightarrow> \<exists>g. f s = g s \<and> quiet g"
  shows "reaches (all_in P) f (all_in P)"
proof (rule reachesI)
  fix s assume s: "all_in P s"
  from assms [OF s] obtain g where g: "f s = g s" "quiet g" by blast
  obtain c' where "g (fst s, snd s) = Some (None, fst s, c')" using quietE [OF g(2)] .
  with g(1) s show "\<exists>s'. f s = Some (None, s') \<and> all_in P s'" by (simp add: all_in_def)
qed

lemma reaches_monitors: "reaches (all_in going) (syncServiceMonitors a_fleet_ctx) (all_in going)"
proof (rule reaches_as)
  fix s assume "all_in going s"
  then have "prepareServiceMonitors a_fleet_ctx (fst s) = []" by (simp add: all_in_def nothing_to_monitor)
  then show "\<exists>g. syncServiceMonitors a_fleet_ctx s = g s \<and> quiet g"
    unfolding syncServiceMonitors_def Let_def case_prod_unfold by (auto intro!: quiet_plan)
qed

lemma reaches_rules: "reaches (all_in going) (syncSLORules a_fleet_ctx) (all_in going)"
proof (rule reaches_as)
  fix s assume "all_in going s"
  then have "fst (prepareServiceLevelObjectives a_fleet_ctx (fst s)) = []" by (simp add: all_in_def nothing_to_monitor)
  then show "\<exists>g. syncSLORules a_fleet_ctx s = g s \<and> quiet g"
    unfolding syncSLORules_def Let_def case_prod_unfold by (auto intro!: quiet_plan)
qed

lemma reaches_levels: "reaches (all_in going) (syncServiceLevels a_fleet_ctx) (all_in going)"
  by (rule reachesI) (simp add: syncServiceLevels_def Let_def case_prod_unfold a_config_def)

lemma mark_ported: "\<forall>i \<in> set is. of_ported i \<Longrightarrow> mark_all a_fleet_ctx is c = Some (None, c)"
proof (induction "is")
  case (Cons i "is")
  then obtain tag where i: "inc_revision i = Some (a_ported tag)" "of_ported i" by (auto simp: of_ported_def)
  have "markDeletable a_fleet_ctx i c = Some (None, c)"
    using ported_tests(4) [OF i(2), of tag] by (simp add: markDeletable_def i(1) Let_def)
  with Cons show ?case by simp
qed simp

lemma reaches_garbage: "reaches (all_in going) (garbageCollection a_fleet_ctx now) (all_in going)"
proof (rule reachesI)
  fix s assume s: "all_in going s"
  then have all: "all_incs going (fst s)" by (simp add: all_in_def)
  note d = all_deployed [OF all]
  obtain del where f: "FindGarbage incarnation_gc now DefaultStrategy (sorted_incs (fst s)) = Some (Inr del)"
    and del: "defaultStrategy incarnation_gc now (sorted_incs (fst s)) = Some del"
    using d(3) defaultStrategy_None [of incarnation_gc now "sorted_incs (fst s)"] by (auto simp: FindGarbage_def)
  have "set del \<subseteq> set (sorted_incs (fst s))"
    using defaultStrategy_subseq [OF del] select_garbage_set
    by (force simp: sortRevisions_def subseq_conv_nths dest: in_set_nthsD)
  then have "\<forall>i \<in> set del. of_ported i" using d(4) by (auto simp: going_def)
  with s f show "\<exists>s'. garbageCollection a_fleet_ctx now s = Some (None, s') \<and> all_in going s'"
    by (simp add: garbageCollection_def markGarbage_def mark_ported)
qed

lemma reaches_sync: "reaches (all_in waiting) (steps (sync_steps a_fleet_ctx [] now)) (all_in going)"
  unfolding sync_steps_def
  by (rule reaches_cons, rule reaches_quiet [OF quiet_syncNamespace],
      rule reaches_cons, rule reaches_quiet [OF quiet_accounts(1)],
      rule reaches_cons, rule reaches_quiet [OF quiet_accounts(2)],
      rule reaches_cons, rule reaches_metrics, rule reaches_cons, rule reaches_ticks,
      rule reaches_cons, rule reaches_observe, rule reaches_cons, rule reaches_app,
      rule reaches_cons, rule reaches_monitors, rule reaches_cons, rule reaches_rules,
      rule reaches_cons, rule reaches_levels, rule reaches_cons, rule reaches_garbage,
      rule reaches_nil)

end
