(* ===== verification/Manager_Properties.thy ===== *)
theory Manager_Properties
  imports Fleet_Properties
begin

text \<open>
  The properties of the reconciler of a release manager together with the clusters it acts on: the traffic that
  the statuses report is the traffic that is served, and the statuses stay within all of it.
\<close>

section \<open>What a reconciliation that succeeds has done\<close>

text \<open>
  The plans of the reconciler go to the clusters of the fleet, whose states are a part of the whole that
  writing the status leaves alone.
\<close>

definition manages :: "('d Client, 'sel, 'c) MCtx \<Rightarrow> ('c \<Rightarrow> 'd list) \<Rightarrow> PlanEnv \<Rightarrow> nat list \<Rightarrow>
    ('d Client \<times> Cluster) list \<Rightarrow> bool" where
  "manages x states env finish fleet \<longleftrightarrow>
     runs_on_fleet ((m_base x)\<lparr>x_apply := m_apply x fleet\<rparr>) states env finish fleet \<and>
     (\<forall>rm c. states (snd (m_updateStatus x rm c)) = states c)"

definition lists_ported :: "('cli, 'sel, 'c) MCtx \<Rightarrow> 'c \<Rightarrow> bool" where
  "lists_ported x c \<longleftrightarrow> (\<forall>ns labels items. m_listRevisions x ns labels c = Inr items \<longrightarrow>
     (\<forall>r \<in> set items. \<forall>t \<in> set (rsp_Targets (rev_Spec (SetObjectDefaults_Revision r))). rt_Ports t \<noteq> []))"

definition lists_selective :: "('cli, 'sel, 'c) MCtx \<Rightarrow> 'c \<Rightarrow> bool" where
  "lists_selective x c \<longleftrightarrow> (\<forall>ns sel items. m_listFaults x ns sel c = Inr items \<longrightarrow>
     (\<forall>i \<in> set items. list_all (\<lambda>f. hf_PortSelector f \<noteq> None) (fi_HTTPPortFaults i)))"

lemma gathered_ported:
  assumes "lists_ported x c" "fair_collection rm' ic"
    and "getRevisions x ns fleet app (rmsp_Target (rm_Spec rm)) c = Some (Inr revisions)"
    and "newIncarnationCollection ci now rm revisions observation = (ic, rm')"
  shows "ported_collection rm' ic"
proof -
  have sound: "sound_collection rm' ic" using assms(2) by (simp add: fair_collection_def)
  have "ports rm' i \<noteq> []" if i: "(t, i) \<in> set ic" "inc_revision i = Some r" for t i r
  proof -
    have "r \<in> set revisions" by (rule collection_revisions [OF assms(4) i])
    with assms(1,3) have all: "\<forall>t \<in> set (rsp_Targets (rev_Spec r)). rt_Ports t \<noteq> []"
      by (auto simp: getRevisions_def SetObjectDefaults_RevisionList_def lists_ported_def Let_def split: sum.splits if_splits)
    have "sound rm' i" using sound i(1) by (auto simp: sound_collection_def)
    with i(2) obtain tgt where tgt: "target rm' i = Some tgt" by (auto simp: sound_def)
    then have "tgt \<in> set (rsp_Targets (rev_Spec r))" by (auto simp: target_def i(2) find_Some_iff)
    with all tgt show ?thesis by (simp add: ports_def)
  qed
  with sound show ?thesis by (auto simp: ported_collection_def)
qed

lemma gathered_selective:
  assumes "lists_selective x c" "getFaults x ns app tgt c = Inr faults"
  shows "list_all (\<lambda>f. hf_PortSelector f \<noteq> None) faults"
  using assms by (fastforce simp: getFaults_def lists_selective_def map_sum_Inr list_all_iff split: sum.splits)

lemma write_success:
  assumes "write_statuses x key rs c = (r, c')" "r = manager_requeue x None"
  shows "\<exists>srm. m_get x key c = Inr srm \<and>
    m_updateStatus x (srm\<lparr>rm_Status := \<lparr>rmst_Revisions = rs, rmst_LastUpdated = Some (m_now x)\<rparr>\<rparr>) c = (None, c')"
  using assms by (auto simp: write_statuses_def manager_requeue_def return_with_def Let_def
    split: sum.splits if_splits option.splits prod.splits)

text \<open>A status of a release is that of an incarnation in the same state, which has a revision.\<close>

lemma live_status:
  assumes "final_statuses ic = Some rs" "s \<in> set rs" "st_Current (rs_State s) \<in> {releasing, released}"
  shows "\<exists>i \<in> snd ` set ic. state_of i \<in> {releasing, released} \<and> inc_revision i \<noteq> None"
proof -
  have "st_Current (rs_State s) \<in> set (map (\<lambda>s. st_Current (rs_State s)) rs)" using assms(2) by simp
  then obtain i where i: "i \<in> snd ` set ic" "state_of i = st_Current (rs_State s)"
    unfolding final_states [OF assms(1)] by force
  moreover have "safe i" using i(1) assms(1) final_statuses_safe by (force simp: safe_incs_def)
  ultimately show ?thesis using assms(3) by (force simp: safe_def revision_states_def hasRevision_def)
qed

lemma manager_syncs:
  assumes run: "Manager_Reconcile x key c = Some (r, c')" and rm: "m_get x key c = Inr rm" "\<not> IsDeleted rm" "\<not> ignored rm"
    and clusters: "getClustersByFleet x (om_Namespace (rm_Meta rm)) (rmsp_Fleet (rm_Spec rm)) c = Inr clusters"
      "ClusterCount (map cluster_info clusters) True \<noteq> 0" "remote_clients x clusters c = Inr clis"
    and ok: "r = manager_requeue x None"
    and fair: "fair_statuses (statuses_of rm)" "lists_valid x c"
  obtains observer rm' faults ic rs ic' c1 where
    "rm_Spec rm' = rm_Spec rm" "fair_collection rm' ic" "lists_ported x c \<Longrightarrow> ported_collection rm' ic"
    "lists_selective x c \<Longrightarrow> list_all (\<lambda>f. hf_PortSelector f \<noteq> None) faults"
    "ResourceSyncer_sync (controller_ctx x (m_apply x (zip clis clusters)) observer (map cluster_info clusters) rm')
       faults (m_now x) (ic, c) = Some (Inr rs, ic', c1)"
    "write_statuses x key rs c1 = (r, c')"
proof -
  have no_error: "\<forall>e. r \<noteq> ReturnError e" using ok by (simp add: manager_requeue_def return_with_def)
  from Manager_Reconcile_gathers [OF run rm(1)] rm(3) clusters no_error
  obtain revisions faults observation ic rm' observer
    where rs: "getRevisions x (fst key) (rmsp_Fleet (rm_Spec rm)) (rmsp_App (rm_Spec rm)) (rmsp_Target (rm_Spec rm)) c =
        Some (Inr revisions)"
      and fs: "getFaults x (fst key) (rmsp_App (rm_Spec rm)) (rmsp_Target (rm_Spec rm)) c = Inr faults"
      and nic: "newIncarnationCollection (map cluster_info clusters) (m_now x) rm revisions observation = (ic, rm')"
      and sd: "sync_or_delete x key (controller_ctx x (m_apply x (zip clis clusters)) observer
        (map cluster_info clusters) rm') ic faults c = Some (r, c')" by auto
  let ?ctx = "controller_ctx x (m_apply x (zip clis clusters)) observer (map cluster_info clusters) rm'"
  have same: "rm_Meta rm' = rm_Meta rm" "rm_Spec rm' = rm_Spec rm"
    using newIncarnationCollection_rm [of "map cluster_info clusters" "m_now x" rm revisions observation] by (simp_all add: nic)
  have ctx: "x_rm ?ctx = rm'" by (simp add: controller_ctx_def)
  have "\<not> IsDeleted rm'" using rm(2) same(1) by (simp add: IsDeleted_def)
  with sd no_error obtain rs' s where "ResourceSyncer_sync ?ctx faults (m_now x) (ic, c) = Some (Inr rs', s)"
    "write_statuses x key rs' (snd s) = (r, c')"
    by (auto simp: sync_or_delete_def Let_def ctx manager_requeue_def return_with_def split: option.splits sum.splits)
  moreover have "fair_collection rm' ic" by (rule gathered_fair [OF fair rs nic])
  moreover from gathered_ported [OF _ this rs nic] have "lists_ported x c \<Longrightarrow> ported_collection rm' ic" .
  ultimately show ?thesis
    using that [of rm' ic faults observer rs' "fst s" "snd s"] gathered_selective [OF _ fs] same(2) by simp
qed

text \<open>
  C2: what a release manager reports is what its clusters serve: when a reconciliation of it succeeds, the
  statuses written back are, as soon as a release is under way or over, those of the traffic: in every cluster
  of the fleet the virtual service of the application is there (unless the object is to be ignored), each of
  its routes divides all of its traffic, and every route of the release gives each tag the percentage of its
  status. The one exception is a cluster whose API server refuses to delete the alert rules of the app: there
  the error is lost, the reconciliation succeeds all the same and the virtual service is the old one. It holds
  for fair statuses before, revisions that passed the webhook and have ports, faults that select a port, and
  clients that behave as documented.
\<close>

theorem reported_is_served:
  assumes "Manager_Reconcile x key c = Some (manager_requeue x None, c')"
    and "m_get x key c = Inr rm" "\<not> IsDeleted rm" "\<not> ignored rm" "fair_statuses (statuses_of rm)"
    and "getClustersByFleet x (om_Namespace (rm_Meta rm)) (rmsp_Fleet (rm_Spec rm)) c = Inr clusters"
    and "ClusterCount (map cluster_info clusters) True \<noteq> 0" "remote_clients x clusters c = Inr clis"
    and "lists_valid x c" "lists_ported x c" "lists_selective x c"
    and "manages x states env finish (zip clis clusters)" "documented_fleet (zip clis clusters) store"
  shows "\<exists>srm rs c1. m_get x key c1 = Inr srm \<and>
    m_updateStatus x (srm\<lparr>rm_Status := \<lparr>rmst_Revisions = rs, rmst_LastUpdated = Some (m_now x)\<rparr>\<rparr>) c1 = (None, c') \<and>
    ((\<exists>s \<in> set rs. st_Current (rs_State s) \<in> {releasing, released}) \<longrightarrow>
      (\<forall>i < length clusters. serves (store (states c' ! i)) (service_key rm) (status_percent rs) \<or>
        lost_deletion store (clis ! i) rm (states c ! i) (states c' ! i)))"
proof -
  obtain observer rm' faults ic rs ic' c1 where spec: "rm_Spec rm' = rm_Spec rm"
    and fair: "fair_collection rm' ic" and ported: "ported_collection rm' ic"
    and faults: "list_all (\<lambda>f. hf_PortSelector f \<noteq> None) faults"
    and sync: "ResourceSyncer_sync (controller_ctx x (m_apply x (zip clis clusters)) observer
        (map cluster_info clusters) rm') faults (m_now x) (ic, c) = Some (Inr rs, ic', c1)"
    and wr: "write_statuses x key rs c1 = (manager_requeue x None, c')"
    by (rule manager_syncs [OF assms(1-4,6-8) refl assms(5,9)], rule that) (simp_all add: assms(10,11))
  define ctx where "ctx = controller_ctx x (m_apply x (zip clis clusters)) observer (map cluster_info clusters) rm'"
  note sync = sync [folded ctx_def]
  have ctx: "x_rm ctx = rm'" "x_apply ctx = m_apply x (zip clis clusters)"
    "x_updateRevision ctx = x_updateRevision (m_base x)"
    by (simp_all add: ctx_def controller_ctx_def)
  from write_success [OF wr refl] obtain srm where srm: "m_get x key c1 = Inr srm"
    "m_updateStatus x (srm\<lparr>rm_Status := \<lparr>rmst_Revisions = rs, rmst_LastUpdated = Some (m_now x)\<rparr>\<rparr>) c1 = (None, c')"
    by blast
  have states: "states c' = states c1"
    using assms(12) arg_cong [OF srm(2), of "\<lambda>p. states (snd p)"] by (simp add: manages_def)
  have runs: "runs_on_fleet ctx states env finish (zip clis clusters)"
    using assms(12) by (simp add: manages_def runs_on_fleet_def ctx cong: option.case_cong)
  have key: "service_key rm' = service_key rm" by (simp add: service_key_def TargetNamespace_def spec)
  have len: "length clis = length clusters"
    using assms(8) by (auto simp: remote_clients_def Let_def split: option.splits)
  have "serves (store (states c' ! i)) (service_key rm) (status_percent rs) \<or>
      lost_deletion store (clis ! i) rm (states c ! i) (states c' ! i)"
    if s: "s \<in> set rs" "st_Current (rs_State s) \<in> {releasing, released}" and i: "i < length clusters" for s i
  proof -
    have "rs \<noteq> []" using s(1) by auto
    then have "final_statuses ic' = Some rs"
      using sync by (auto simp: ResourceSyncer_sync_def split: if_splits Option.bind_splits option.splits)
    from live_status [OF this s] obtain j where j: "j \<in> snd ` set ic'" "state_of j \<in> {releasing, released}"
      "inc_revision j \<noteq> None" by blast
    have "ported_collection rm' ic'" using ported.kept_sync [OF sync] ported by (simp add: holds_def ctx)
    then have "ports rm' j \<noteq> []" using j(1,3) by (auto simp: ported_collection_def)
    with j(1,2) have "\<exists>i \<in> snd ` set ic'. state_of i \<in> {canarying, releasing, released} \<and> ports (x_rm ctx) i \<noteq> []"
      unfolding ctx by blast
    from sync_serves [OF assms(13) runs _ faults sync this, of i] fair i show ?thesis
      by (simp add: len key states ctx lost_deletion_def TargetNamespace_def spec)
  qed
  with srm show ?thesis by blast
qed

text \<open>A release manager of two clusters in memory, with two revisions that wait for their release.\<close>

definition a_manager :: "(KubeObj list Client, unit, pair_state) MCtx" where
  "a_manager = \<lparr>m_base = a_fleet_ctx, m_now = 5, m_get = \<lambda>_ _. Inr a_managed, m_update = \<lambda>_ c. (None, c),
     m_updateStatus = \<lambda>rm c. (None, fst c, fst (snd c), statuses_of rm),
     m_listClusters = \<lambda>_ _ _. Inr [a_cluster, a_cluster],
     m_listRevisions = \<lambda>_ _ _. Inr [raw_ported ''v1'', raw_ported ''v2''], m_parse = \<lambda>_. Inr (),
     m_listFaults = \<lambda>_ _ _. Inr [], m_remote = \<lambda>_ _. Inr mem, m_finish = [0, 1],
     m_apply = apply_pair, m_observe = \<lambda>_ _ _. Inr a_watch\<rparr>"

definition a_key :: ObjectKey where
  "a_key = (''picchu'', ''app-production'')"

definition a_home :: Cluster where
  "a_home = SetObjectDefaults_Cluster a_cluster"

lemma a_fleet_home: "a_fleet = [(mem, a_home), (mem, a_home)]"
  by (simp add: a_fleet_def a_home_def)

lemma a_manager_simps [simp]:
  "m_get a_manager k c = Inr a_managed" "m_base a_manager = a_fleet_ctx" "m_now a_manager = 5"
  "getFaults a_manager ns app tgt c = Inr []" "m_apply a_manager = apply_pair"
  "m_observe a_manager os = (\<lambda>_ _. Inr a_watch)"
  "m_updateStatus a_manager rm c = (None, fst c, fst (snd c), statuses_of rm)"
  "getClustersByFleet a_manager ns fleet c = Inr [a_home, a_home]"
  "remote_clients a_manager [a_home, a_home] c = Inr [mem, mem]"
  "m_listRevisions a_manager ns ls c = Inr [raw_ported ''v1'', raw_ported ''v2'']"
  by (simp_all add: a_manager_def getFaults_def getClustersByFleet_def SetObjectDefaults_ClusterList_def
    SetObjectDefaults_Cluster_def SetDefaults_ClusterSpec_def a_home_def a_cluster_def remote_clients_def Let_def)

lemma a_managed_tests:
  "\<not> IsDeleted a_managed" "\<not> ignored a_managed" "rm_Meta a_managed = rm_Meta a_rm"
  "fair_statuses (statuses_of a_managed)" "ClusterCount (map cluster_info [a_home, a_home]) True \<noteq> 0"
  by code_simp+

lemma a_ported_valid: "validate (a_ported tag) = []"
proof -
  have "offers a_ported_target g = []" for g
    by (simp add: offers_def a_ported_target_def SetSidecarDefaults_def SetDefaults_Target_def port_80_def
      SetPortDefaults_def port_ingresses_def or_default_def)
  then have "valid_target a_ported_target"
    by (simp add: valid_target_def valid_defaults_def)
      (simp add: a_ported_target_def a_target_def valid_pdb_def valid_karpenter_def valid_strategy_def
        SetSidecarDefaults_def SetDefaults_Target_def SetReleaseDefaults_def a_release_def
        ScalingStrategyLinear_def or_default_def)
  then show ?thesis by (simp add: validate_Nil a_ported_targets)
qed

lemma a_manager_lists: "lists_valid a_manager c" "lists_ported a_manager c" "lists_selective a_manager c"
proof -
  note d = a_ported_def [symmetric]
  show "lists_valid a_manager c" by (auto simp: lists_valid_def d a_ported_valid)
  show "lists_ported a_manager c" by (auto simp: lists_ported_def d a_ported_targets a_ported_target_simps)
  show "lists_selective a_manager c" by (simp add: lists_selective_def a_manager_def)
qed

lemma a_manager_revisions:
  "getRevisions a_manager ns fleet app (rmsp_Target (rm_Spec a_rm)) c =
     Some (Inr [a_ported ''v1'', a_ported ''v2''])"
proof -
  have "defaults_set (a_ported tag)" "HasTarget (a_ported tag) (rmsp_Target (rm_Spec a_rm))" for tag
    by (simp_all add: a_ported_def defaulted_set)
      (simp add: HasTarget_iff a_ported_def [symmetric] a_ported_targets a_ported_target_simps a_rm_def)
  then show ?thesis
    by (simp add: getRevisions_def SetObjectDefaults_RevisionList_def a_ported_def [symmetric])
qed

text \<open>The collection built from them waits, and the context of its syncer is that of the fleet.\<close>

lemma managed_waits:
  assumes "tag = ''v1'' \<or> tag = ''v2''"
  shows "\<exists>i. NewIncarnation ci now a_managed tag (Some (a_ported tag)) di = (i, a_managed) \<and> waiting i"
proof -
  have tag: "rs_Tag (inc_status (an_inc t s p q n)) = t" for t s p q n
    by (simp add: an_inc_def new_RevisionStatus_def)
  obtain p where "RevisionStatus now a_managed tag = (inc_status (an_inc tag pendingrelease p p 4), a_managed)" "10 < p"
  proof (cases "tag = ''v1''")
    case True
    then show ?thesis by (intro that [of 60]) (simp_all add: RevisionStatus_def a_managed_def tag)
  next
    case False
    with assms show ?thesis by (intro that [of 30]) (auto simp: RevisionStatus_def a_managed_def tag)
  qed
  moreover have "st_Current (rs_State (inc_status (an_inc t s p q n))) = s"
    "rs_PeakPercent (inc_status (an_inc t s p q n)) = q" "rs_ReleaseEligible (inc_status (an_inc t s p q n))" for t s p q n
    by (simp_all add: an_inc_def new_RevisionStatus_def)
  ultimately show ?thesis
    by (auto simp: NewIncarnation_def waiting_def of_ported_def state_of_def isReleaseEligible_def peakPercent_def
      init_status_def Let_def)
qed

lemma managed_collection:
  obtains ic where
    "newIncarnationCollection ci now a_managed [a_ported ''v1'', a_ported ''v2''] ob = (ic, a_managed)"
    "all_incs waiting ic"
proof -
  obtain i1 i2 where i: "NewIncarnation ci now a_managed ''v1'' (Some (a_ported ''v1'')) (live_info ob ''v1'') = (i1, a_managed)"
    "NewIncarnation ci now a_managed ''v2'' (Some (a_ported ''v2'')) (live_info ob ''v2'') = (i2, a_managed)"
    "waiting i1" "waiting i2"
    using managed_waits by (metis (full_types))
  have tags: "ra_Tag (rsp_App (rev_Spec (a_ported t))) = t" for t
    by (simp add: a_ported_def SetObjectDefaults_Revision_def SetDefaults_RevisionSpec_def Let_def raw_ported_def)
  let ?jc = "[(''v1'', i1), (''v2'', i2)]"
  have known: "add ci now ob t None (jc, rm) = (jc, rm)" if "map_of jc t \<noteq> None" for t jc rm
    using that by (simp add: add_def)
  have statuses: "rmst_Revisions (rm_Status a_managed) = [inc_status (an_inc ''v1'' pendingrelease 60 60 4),
      inc_status (an_inc ''v2'' pendingrelease 30 30 4)]" by (simp add: a_managed_def)
  have status_tags: "rs_Tag (inc_status (an_inc t s p q n)) = t" for t s p q n
    by (simp add: an_inc_def new_RevisionStatus_def)
  have added: "fold (\<lambda>r. add ci now ob (ra_Tag (rsp_App (rev_Spec r))) (Some r))
      [a_ported ''v1'', a_ported ''v2''] ([], a_managed) = (?jc, a_managed)"
    by (simp add: add_def tags i)
  have "newIncarnationCollection ci now a_managed [a_ported ''v1'', a_ported ''v2''] ob = (mark_ramping ?jc, a_managed)"
    unfolding newIncarnationCollection_def Let_def added prod.case statuses by (simp add: status_tags known)
  note built = this
  have "waiting (i\<lparr>inc_isRamping := True\<rparr>) = waiting i" for i
    by (simp add: waiting_def of_ported_def state_of_def isReleaseEligible_def peakPercent_def)
  then have "\<forall>(t, i) \<in> set (mark_ramping ?jc). waiting i" "mark_ramping ?jc \<noteq> []"
    using i(3,4) by (auto simp: mark_ramping_def modify_def split: option.split)
  moreover have "fair_collection a_managed (mark_ramping ?jc)"
    using gathered_fair [OF a_managed_tests(4) a_manager_lists(1) _ built] a_manager_revisions by simp
  ultimately show ?thesis using built that by (auto simp: all_incs_def fair_collection_def)
qed

lemma managed_ctx:
  "controller_ctx a_manager (apply_pair [(mem, a_home), (mem, a_home)]) (\<lambda>_ _. Inr a_watch)
     [cluster_info a_home, cluster_info a_home] a_managed = a_fleet_ctx"
  by (simp add: controller_ctx_def a_fleet_ctx_def a_fleet_home)

text \<open>The reconciliation releases both revisions in both clusters.\<close>

lemma fleet_run:
  assumes "all_incs waiting ic"
  obtains rs s where "ResourceSyncer_sync a_fleet_ctx [] 5 (ic, c) = Some (Inr rs, s)"
    "rs \<noteq> []" "\<forall>s \<in> set rs. st_Current (rs_State s) = releasing"
proof -
  have start: "all_in waiting (ic, c)" using assms by (simp add: all_in_def)
  from reaches_sync [unfolded reaches_def, rule_format, OF this] obtain s
    where run: "steps (sync_steps a_fleet_ctx [] 5) (ic, c) = Some (None, s)"
      and going: "all_incs going (fst s)" by (force simp: all_in_def)
  have "wf_collection ic" using assms by (simp add: all_incs_def sound_collection_def)
  then have "all_safe s" using sync_steps_safe [OF run] by simp
  then obtain rs where rs: "final_statuses (fst s) = Some rs" using final_statuses_safe by (auto simp: all_safe_incs)
  have all: "going i" if "i \<in> set (sorted_incs (fst s))" for i using all_deployed(4) [OF going that] .
  then have kept: "filter kept (List.rev (sorted_incs (fst s))) = List.rev (sorted_incs (fst s))"
    by (auto simp: filter_id_conv kept_def going_def)
  have states: "map (\<lambda>s. st_Current (rs_State s)) rs = map state_of (List.rev (sorted_incs (fst s)))"
    using final_states [OF rs] by (simp add: kept)
  then have "rs \<noteq> []" using all_deployed(3) [OF going] by auto
  moreover have "set (map (\<lambda>s. st_Current (rs_State s)) rs) \<subseteq> {releasing}"
    unfolding states using all by (auto simp: going_def)
  then have "\<forall>s \<in> set rs. st_Current (rs_State s) = releasing" by auto
  moreover obtain t i jc where "ic = (t, i) # jc" "waiting i" using assms by (cases ic) (auto simp: all_incs_def)
  then have "i \<in> set (sorted_incs ic)" "inc_revision i \<noteq> None" by (auto simp: waiting_def of_ported_def)
  then have "revisioned ic \<noteq> []" by (auto simp: revisioned_def filter_empty_conv)
  then have "ResourceSyncer_sync a_fleet_ctx [] 5 (ic, c) = Some (Inr rs, s)"
    using run rs by (simp add: ResourceSyncer_sync_def del: steps.simps)
  ultimately show ?thesis using that by blast
qed

lemma manager_run:
  obtains rs c1 c2 where "Manager_Reconcile a_manager a_key c = Some (manager_requeue a_manager None, c1, c2, rs)"
    "rs \<noteq> []" "\<forall>s \<in> set rs. st_Current (rs_State s) = releasing"
proof -
  obtain ic where ic: "newIncarnationCollection (map cluster_info [a_home, a_home]) 5 a_managed
      [a_ported ''v1'', a_ported ''v2''] a_watch = (ic, a_managed)" "all_incs waiting ic"
    by (rule managed_collection)
  obtain rs s where s: "ResourceSyncer_sync a_fleet_ctx [] 5 (ic, c) = Some (Inr rs, s)"
    "rs \<noteq> []" "\<forall>s \<in> set rs. st_Current (rs_State s) = releasing" by (rule fleet_run [OF ic(2)])
  have "sync_or_delete a_manager a_key a_fleet_ctx ic [] c =
      Some (manager_requeue a_manager None, fst (snd s), fst (snd (snd s)), rs)"
    using s(1) a_managed_tests(1) by (simp add: sync_or_delete_def Let_def write_statuses_def statuses_of_def)
  moreover have "map_sum id f (Inr y) = Inr (f y)" for f :: "'x \<Rightarrow> 'y" and y by simp
  ultimately have "Manager_Reconcile a_manager a_key c =
      Some (manager_requeue a_manager None, fst (snd s), fst (snd (snd s)), rs)"
    using ic(1) a_managed_tests(2,5) managed_ctx a_manager_revisions
    by (simp add: Manager_Reconcile_def Let_def newPlanApplier_def newObserver_def)
  with s(2,3) that show ?thesis by blast
qed

lemma reported_is_served_witness:
  "\<exists>c1 c2 rs. Manager_Reconcile a_manager a_key ([], [], []) = Some (manager_requeue a_manager None, c1, c2, rs) \<and>
     serves (mem_store c1) (service_key a_managed) (status_percent rs) \<and>
     serves (mem_store c2) (service_key a_managed) (status_percent rs)"
proof -
  obtain c1 c2 rs where run: "Manager_Reconcile a_manager a_key ([], [], []) = Some (manager_requeue a_manager None, c1, c2, rs)"
    and rs: "rs \<noteq> []" "\<forall>s \<in> set rs. st_Current (rs_State s) = releasing" by (rule manager_run)
  have gather: "m_get a_manager a_key ([], [], []) = Inr a_managed"
    "getClustersByFleet a_manager (om_Namespace (rm_Meta a_managed)) (rmsp_Fleet (rm_Spec a_managed)) ([], [], []) = Inr [a_home, a_home]"
    "remote_clients a_manager [a_home, a_home] ([], [], []) = Inr [mem, mem]" by simp_all
  have fleet: "zip [mem, mem] [a_home, a_home] = a_fleet" by (simp add: a_fleet_home)
  have manages: "manages a_manager a_pair a_env [1, 0] (zip [mem, mem] [a_home, a_home])"
    unfolding fleet using a_fleet_runs by (simp add: manages_def runs_on_fleet_def a_pair_def cong: option.case_cong)
  note documented = documented_a_fleet [folded fleet]
  obtain rs' c' where w: "(c1, c2, rs) = (fst c', fst (snd c'), rs')"
    and serves: "(\<exists>s \<in> set rs'. st_Current (rs_State s) \<in> {releasing, released}) \<longrightarrow>
      (\<forall>i < length [a_home, a_home]. serves (mem_store (a_pair (c1, c2, rs) ! i)) (service_key a_managed) (status_percent rs') \<or>
        lost_deletion mem_store ([mem, mem] ! i) a_managed (a_pair ([], [], []) ! i) (a_pair (c1, c2, rs) ! i))"
    using reported_is_served [OF run gather(1) a_managed_tests(1,2,4) gather(2) a_managed_tests(5) gather(3)
      a_manager_lists manages documented]
    by (auto simp: statuses_of_def)
  have "\<exists>s \<in> set rs'. st_Current (rs_State s) \<in> {releasing, released}" using w rs by (cases rs) auto
  with serves have "serves (mem_store (a_pair (c1, c2, rs) ! 0)) (service_key a_managed) (status_percent rs')"
    "serves (mem_store (a_pair (c1, c2, rs) ! 1)) (service_key a_managed) (status_percent rs')"
    by (auto simp: less_Suc_eq lost_deletion_def mem_never_refuses)
  with run w show ?thesis by (auto simp: a_pair_def)
qed

text \<open>
  C3: no reconciliation of a release manager ever writes statuses that are not fair, under distinct tags and
  with at most all of the traffic together: with an API server that refused them it would do the very same. It
  is an invariant: the statuses read are those written by the reconciliation before.
\<close>

theorem only_fair_statuses_written:
  assumes "\<And>rm. m_get x key c = Inr rm \<Longrightarrow> fair_statuses (statuses_of rm)" "lists_valid x c"
  shows "Manager_Reconcile (guarded fair_statuses x) key c = Manager_Reconcile x key c"
  by (rule Manager_Reconcile_guarded [OF assms])

lemma only_fair_statuses_written_witness:
  "\<exists>c1 c2 rs. Manager_Reconcile (guarded fair_statuses a_manager) a_key ([], [], []) =
     Some (manager_requeue a_manager None, c1, c2, rs) \<and> rs \<noteq> []"
proof -
  obtain c1 c2 rs where run: "Manager_Reconcile a_manager a_key ([], [], []) = Some (manager_requeue a_manager None, c1, c2, rs)"
    and rs: "rs \<noteq> []" by (rule manager_run)
  have "Manager_Reconcile (guarded fair_statuses a_manager) a_key ([], [], []) = Manager_Reconcile a_manager a_key ([], [], [])"
    using a_managed_tests(4) a_manager_lists(1) by (intro only_fair_statuses_written) simp_all
  with run rs show ?thesis by simp
qed

end
