(* ===== verification/Revision_Properties.thy ===== *)
theory Revision_Properties
  imports App_Properties
begin

text \<open>
  The properties of a revision in the target clusters: its replica set, its autoscaler, its retirement and
  removal, and the waypoint of its namespace.
\<close>

section \<open>The replica set\<close>

text \<open>
  C18: syncing a revision that runs already leaves its replica set to the autoscaler: the size changes only
  from or to zero, and not at all under the worker autoscaler, and the specification of the running pods
  stays as it is.
\<close>

theorem synced_replicas:
  assumes "documented cli store" "SyncRevision_Apply cli cluster p c = Some (None, c')"
    and "store c (revision_key (srv_Namespace p) (srv_Tag p)) = Some cur" "ko_Body cur = ReplicaSetBody s"
    and "\<not> isIgnored (ko_Meta cur)"
  shows "\<exists>obj t. store c' (revision_key (srv_Namespace p) (srv_Tag p)) = Some obj \<and> ko_Body obj = ReplicaSetBody t \<and>
    (rset_Replicas t = rset_Replicas s \<or>
     srv_Worker p = None \<and> (rset_Replicas t = Some 0 \<or> rset_Replicas s = Some 0 \<or> rset_Replicas s = None)) \<and>
    (pt_Labels (rset_Template s) \<notin> {None, Some []} \<longrightarrow> pt_Spec (rset_Template t) = pt_Spec (rset_Template s))"
proof -
  obtain factor obj t where key: "store c' (revision_key (srv_Namespace p) (srv_Tag p)) = Some obj"
    and t: "ko_Body obj = ReplicaSetBody t"
    and r: "sync_replicas (worker_scaled p) (Some (scaled (srv_Replicas p) (effective_factor cluster p factor)))
      (rset_Replicas s) = Some (rset_Replicas t)"
    and tm: "rset_Template t = sync_template (pod_template p (pod_labels p) (pod_envs p)) (rset_Template s)"
    using existing_replicaSet [OF assms] by blast
  have "rset_Replicas t = rset_Replicas s \<or>
     srv_Worker p = None \<and> (rset_Replicas t = Some 0 \<or> rset_Replicas s = Some 0 \<or> rset_Replicas s = None)"
    using r by (auto simp: sync_replicas_def worker_scaled_def Let_def split: if_splits option.splits)
  moreover have "pt_Labels (rset_Template s) \<notin> {None, Some []} \<longrightarrow> pt_Spec (rset_Template t) = pt_Spec (rset_Template s)"
    by (auto simp: tm sync_template_def split: option.split)
  ultimately show ?thesis using key t by blast
qed

text \<open>A cluster with the account of the application and the replica set of a revision.\<close>

definition an_account :: "KubeObj list" where
  "an_account = [object (named ''app-production'' ''app'' None) ServiceAccountBody]"

definition seven_pods :: KubeObj where
  "seven_pods = object
     ((named ''app-production'' ''v2'' (Some (srv_Labels a_sync)))\<lparr>om_Annotations := Some (rs_annotations a_sync)\<rparr>)
     (ReplicaSetBody \<lparr>rset_Replicas = Some 7, rset_Selector = Some (rs_selector (pod_labels a_sync)),
        rset_Template = pod_template a_sync (pod_labels a_sync) [], rset_MinReadySeconds = 0\<rparr>)"

definition a_namespace :: "KubeObj list" where
  "a_namespace = an_account @ [seven_pods]"

lemma a_factor: "scalingFactor_of a_cluster \<noteq> None"
  by code_simp

lemma a_sync_fields: "srv_Namespace a_sync = ''app-production''" "srv_Tag a_sync = ''v2''" "srv_Worker a_sync = None"
  by (simp_all add: a_sync_def)

lemma account_there:
  "c = an_account @ rest \<Longrightarrow> srv_Namespace p = ''app-production'' \<Longrightarrow> srv_App p = ''app'' \<Longrightarrow>
   mem_store c \<lparr>key_Kind = KServiceAccount, key_Namespace = srv_Namespace p, key_Name = srv_App p\<rparr> \<noteq> None"
  by (simp add: an_account_def mem_store_def)

lemma a_namespace_set:
  "mem_store a_namespace (revision_key ''app-production'' ''v2'') = Some seven_pods"
  "\<not> isIgnored (ko_Meta seven_pods)"
  by (simp_all add: a_namespace_def an_account_def seven_pods_def mem_store_def revision_key_def isIgnored_def
    a_sync_def label_names LabelIgnore_def)

lemma synced_replicas_witness:
  "\<exists>c' obj t. SyncRevision_Apply mem a_cluster a_sync a_namespace = Some (None, c') \<and>
     mem_store c' (revision_key ''app-production'' ''v2'') = Some obj \<and> ko_Body obj = ReplicaSetBody t \<and>
     rset_Replicas t \<in> {Some 7, Some 0}"
proof -
  obtain c' where a: "SyncRevision_Apply mem a_cluster a_sync a_namespace = Some (None, c')"
    using mem_syncs [OF a_factor account_there, of a_namespace "[seven_pods]" a_sync]
    by (auto simp: a_namespace_def a_sync_def)
  from synced_replicas [OF mem_documented a, unfolded a_sync_fields, OF a_namespace_set(1) _ a_namespace_set(2)] a
  show ?thesis by (auto simp: seven_pods_def)
qed

text \<open>
  C19: a revision that is new to the cluster gets the replica set of the plan, the pods with the plan's
  template and the replicas scaled for the cluster (none are asked for under the worker autoscaler). The
  seconds a pod has to be ready before it counts as available are not written: they are 0, whatever the
  plan says.
\<close>

theorem new_revision_set:
  assumes "documented cli store" "SyncRevision_Apply cli cluster p c = Some (None, c')"
    and "store c (revision_key (srv_Namespace p) (srv_Tag p)) = None"
  shows "\<exists>factor obj t. scalingFactor_of cluster = Some factor \<and>
    store c' (revision_key (srv_Namespace p) (srv_Tag p)) = Some obj \<and> ko_Body obj = ReplicaSetBody t \<and>
    rset_Template t = pod_template p (pod_labels p) (pod_envs p) \<and>
    rset_Replicas t = (if srv_Worker p = None
      then Some (scaled (srv_Replicas p) (effective_factor cluster p factor)) else None) \<and>
    rset_MinReadySeconds t = 0"
  using new_replicaSet [OF assms] by (auto simp: worker_scaled_def)

lemma new_revision_set_witness:
  "\<exists>c' obj t. SyncRevision_Apply mem a_cluster (a_sync\<lparr>srv_MinReadySeconds := 30\<rparr>) an_account = Some (None, c') \<and>
     mem_store c' (revision_key ''app-production'' ''v2'') = Some obj \<and> ko_Body obj = ReplicaSetBody t \<and>
     rset_MinReadySeconds t = 0"
proof -
  obtain c' where a: "SyncRevision_Apply mem a_cluster (a_sync\<lparr>srv_MinReadySeconds := 30\<rparr>) an_account = Some (None, c')"
    using mem_syncs [OF a_factor account_there, of an_account "[]" "a_sync\<lparr>srv_MinReadySeconds := 30\<rparr>"]
    by (auto simp: a_sync_def)
  have "mem_store an_account (revision_key ''app-production'' ''v2'') = None"
    by (simp add: an_account_def mem_store_def revision_key_def)
  with new_revision_set [OF mem_documented a] a show ?thesis by (auto simp: a_sync_fields)
qed

section \<open>The autoscaler\<close>

lemma wanted_whole: "wanted_autoscaler p cluster factor = Some obj \<Longrightarrow> whole_spec obj"
  by (auto simp: wanted_autoscaler_def Let_def split: option.splits if_splits)

text \<open>
  C20: scaling a revision implements its specification: one autoscaler is wanted, chosen by the kind of the
  revision and the cluster, and after the plan it is in the cluster with the specification wanted (unless
  the one there is to be ignored); when none is wanted, no horizontal autoscaler is left.
\<close>

theorem scaling_realised:
  assumes "documented cli store" "ScaleRevision_Apply cli cluster p c = Some (None, c')"
  shows "\<exists>factor. scalingFactor_of cluster = Some factor \<and>
    (case wanted_autoscaler p cluster factor of
       Some obj \<Rightarrow> stored_body (store c') obj
     | None \<Rightarrow> store c' (hpa_key p) = None)"
  using ScaleRevision_realises [OF assms] realised_body wanted_whole
  by (fastforce split: option.splits)

definition a_scaling_plan :: ScaleRevision where
  "a_scaling_plan = \<lparr>scr_Tag = ''v2'', scr_Namespace = ''app-production'', scr_Min = 1, scr_Max = 5,
     scr_Labels = [(LabelTag, ''v2'')], scr_CPUTarget = Some 70, scr_MemoryTarget = None,
     scr_RequestsRateMetric = [], scr_RequestsRateTarget = None, scr_Worker = None, scr_KedaWorker = None,
     scr_EventDriven = False, scr_ServiceAccountName = ''app'', scr_AmbientMesh = True,
     scr_PrometheusAddress = []\<rparr>"

lemma a_scaling_fields:
  "scr_Worker a_scaling_plan = None" "scr_KedaWorker a_scaling_plan = None"
  "scr_RequestsRateTarget a_scaling_plan = None" "hpa_metrics a_scaling_plan = [ResourceUtilization ''cpu'' 70]"
  "scr_Min a_scaling_plan = 1" "scr_Max a_scaling_plan = 5" "\<not> scr_EventDriven a_scaling_plan"
  by (simp_all add: a_scaling_plan_def hpa_metrics_def)

lemma scaling_realised_witness:
  "\<exists>c' cur. ScaleRevision_Apply mem a_cluster a_scaling_plan [] = Some (None, c') \<and>
     mem_store c' (hpa_key a_scaling_plan) = Some cur"
proof -
  obtain c' where a: "ScaleRevision_Apply mem a_cluster a_scaling_plan [] = Some (None, c')"
    by (rule succeedsE [OF mem_scales [OF a_factor]])
  have "\<not> cs_DisableEventDriven (cl_Spec a_cluster)" by (simp add: a_cluster_def)
  then have w: "wanted_autoscaler a_scaling_plan a_cluster factor =
      Some (hpa_of a_scaling_plan (scaled 1 factor) (scaled 5 factor))" for factor
    using a_scaling_fields by (simp add: wanted_autoscaler_def)
  have "key_to (hpa_of a_scaling_plan n m) = hpa_key a_scaling_plan" for n m
    by (simp add: key_to_def hpa_of_def hpa_key_def)
  with scaling_realised [OF mem_documented a] w show ?thesis
    using a by (auto simp: stored_body_def)
qed

text \<open>
  C21: the bounds of the autoscalers are sound: whatever autoscaler the plan of a revision writes (a pod
  autoscaler, a worker pod autoscaler or a scaled object, unless the object is to be ignored), neither the
  scaling of the cluster nor its rounding puts its minimum above its maximum, nor a maximum given below the
  minimum; and on a cluster on which event-driven work is disabled that of an event-driven revision is kept at
  zero. It holds of a plan that ends with an error too. The numbers given are not negative, and the replicas
  wanted fit in 32 bits.
\<close>

theorem autoscaler_bounds_sound:
  assumes "documented cli store" "ScaleRevision_Apply cli cluster p c = Some (err, c')"
    and "scalingFactor_of cluster = Some factor" "0 \<le> factor"
    and "0 \<le> scr_Min p" "scr_Max p < 2 ^ 31" "scr_Min p < 2 ^ 31"
    and "math_Ceil (fmul (float_of_int (max (scr_Min p) (scr_Max p))) factor) < 2 ^ 31"
    and "key_Kind k \<in> {KHPA, KWPA, KScaledObject}" "store c' k = Some obj" "store c k \<noteq> Some obj"
    and "\<not> isIgnored (ko_Meta obj)"
  shows "(\<exists>mn mx. autoscaler_bounds (ko_Body obj) = Some (mn, mx) \<and> 0 \<le> mn \<and> mn \<le> mx) \<and>
    (cs_DisableEventDriven (cl_Spec cluster) \<and> scr_EventDriven p \<longrightarrow> paused_at_zero obj)"
proof -
  have "only_sound (store c) off (store c)" for off by (simp add: only_sound_def)
  from store_keepsD [OF ScaleRevision_sound [OF assms(1,3,5-7,4,8)] assms(2) this]
  have "only_sound (store c) (cs_DisableEventDriven (cl_Spec cluster) \<and> scr_EventDriven p) (store c')" .
  with assms(9-12) show ?thesis unfolding only_sound_def sound_autoscaler_def by blast
qed

text \<open>A maximum below the minimum, on the cluster in memory.\<close>

lemma a_factor_1: "scalingFactor_of a_cluster = Some 1"
  by code_simp

lemma autoscaler_bounds_sound_witness:
  "\<exists>c' obj mn mx. ScaleRevision_Apply mem a_cluster (a_scaling_plan\<lparr>scr_Min := 5, scr_Max := 1\<rparr>) [] = Some (None, c') \<and>
     mem_store c' (hpa_key a_scaling_plan) = Some obj \<and> autoscaler_bounds (ko_Body obj) = Some (mn, mx) \<and> mn \<le> mx"
proof -
  let ?p = "a_scaling_plan\<lparr>scr_Min := 5, scr_Max := 1\<rparr>"
  obtain c' where a: "ScaleRevision_Apply mem a_cluster ?p [] = Some (None, c')"
    by (rule succeedsE [OF mem_scales [OF a_factor]])
  have "hpa_metrics ?p = hpa_metrics a_scaling_plan" by (simp add: hpa_metrics_def cong: option.case_cong)
  moreover have "\<not> cs_DisableEventDriven (cl_Spec a_cluster)" by (simp add: a_cluster_def)
  ultimately have w: "CreateOrUpdate mem (hpa_of ?p (scaled 5 1) (scaled 5 1)) [] = Some (None, c')"
    using a a_scaling_fields by (simp add: ScaleRevision_Apply_def a_factor_1 applyHPA_def)
  have key: "key_to (hpa_of ?p n n) = hpa_key a_scaling_plan" for n
    by (simp add: key_to_def hpa_of_def hpa_key_def hpaName_def a_scaling_plan_def)
  have "\<not> isIgnored (ko_Meta (fresh (hpa_of ?p n n) (labels_of (hpa_of ?p n n)) None))" for n
    by (simp add: isIgnored_def fresh_def hpa_of_def named_def a_scaling_plan_def LabelIgnore_def LabelTag_def)
  moreover have body: "ko_Body (hpa_of p n m) = HPABody \<lparr>hpa_ScaleTargetRef = scale_target p, hpa_MinReplicas = Some n,
    hpa_MaxReplicas = m, hpa_Metrics = hpa_metrics p, hpa_Behavior = None\<rparr>" for p n m by (simp add: hpa_of_def)
  moreover have empty: "mem_store [] k = None" for k by (simp add: mem_store_def)
  moreover note CreateOrUpdate_ok [OF mem_documented w, unfolded key]
  ultimately obtain obj where obj: "mem_store c' (hpa_key a_scaling_plan) = Some obj" "\<not> isIgnored (ko_Meta obj)"
    by (auto simp: cases_of_def case_HPA_def body held_def unless_ignored_def assign_spec_def set_body_def)
  have "math_Ceil (fmul (float_of_int 5) 1) < 2 ^ 31"
    using fl_of_int [of 5] by (simp add: fmul_def math_Ceil_def)
  then have "\<exists>mn mx. autoscaler_bounds (ko_Body obj) = Some (mn, mx) \<and> 0 \<le> mn \<and> mn \<le> mx"
    using autoscaler_bounds_sound [OF mem_documented a a_factor_1, of "hpa_key a_scaling_plan" obj] obj
    by (simp add: hpa_key_def mem_store_def)
  with a obj show ?thesis by blast
qed

section \<open>Retirement and removal\<close>

text \<open>
  C22: a retired revision runs nothing: after the plan its replica set is gone or asks for no replicas, and
  so are the worker autoscaler, the scaled object and the trigger authentication named by its tag; nothing
  else in the cluster has changed (in particular not the scaled object of a tag of more than 54 characters,
  whose name is a cut of the tag).
\<close>

theorem retired_runs_nothing:
  assumes "documented cli store" "RetireRevision_Apply cli p c = Some (None, c')"
  shows "replicas_at (store c') (revision_key (rrv_Namespace p) (rrv_Tag p)) \<in> {None, Some 0} \<and>
    list_all (\<lambda>kind. store c' \<lparr>key_Kind = kind, key_Namespace = rrv_Namespace p, key_Name = rrv_Tag p\<rparr> = None)
      [KWPA, KScaledObject, KTriggerAuthentication] \<and>
    (\<forall>k. key_Namespace k \<noteq> rrv_Namespace p \<or> key_Name k \<noteq> rrv_Tag p \<or>
       key_Kind k \<notin> {KWPA, KScaledObject, KTriggerAuthentication, KReplicaSet} \<longrightarrow> store c' k = store c k)"
  by (rule RetireRevision_success [OF assms])

definition a_retirement :: RetireRevision where
  "a_retirement = \<lparr>rrv_Tag = ''v2'', rrv_Namespace = ''app-production''\<rparr>"

lemma retired_runs_nothing_witness:
  "\<exists>c'. RetireRevision_Apply mem a_retirement a_namespace = Some (None, c') \<and>
     replicas_at (mem_store c') (revision_key ''app-production'' ''v2'') \<in> {None, Some 0}"
proof -
  have "sized_at (mem_store a_namespace) (revision_key (rrv_Namespace a_retirement) (rrv_Tag a_retirement))"
    by (auto simp: sized_at_def a_namespace_def an_account_def seven_pods_def mem_store_def split: if_splits)
  from mem_retires [OF this] obtain c' where a: "RetireRevision_Apply mem a_retirement a_namespace = Some (None, c')"
    by blast
  from retired_runs_nothing [OF mem_documented a] a show ?thesis by (auto simp: a_retirement_def)
qed

text \<open>
  C23: deleting a revision removes exactly the objects of its kinds, in its namespace, with its labels: no
  such object is left, and every other object is as it was.
\<close>

theorem revision_removed:
  assumes "documented cli store" "DeleteRevision_Apply cli p c = Some (None, c')"
  shows "store c' k = (case store c k of
     None \<Rightarrow> None
   | Some obj \<Rightarrow> if key_Kind k \<in> set revision_kinds \<and> key_Namespace k = drv_Namespace p \<and>
       selects (drv_Labels p) obj then None else Some obj)"
proof -
  have "store c' = without (\<lambda>k obj. \<exists>kind \<in> set revision_kinds. doomed kind (drv_Namespace p) (drv_Labels p) k obj) (store c)"
    by (rule delete_kinds_success [OF assms(1) assms(2) [unfolded DeleteRevision_Apply_def]])
  then show ?thesis by (auto simp: without_def doomed_def split: option.split)
qed

definition a_deletion :: DeleteRevision where
  "a_deletion = \<lparr>drv_Labels = [(LabelTag, ''v2'')], drv_Namespace = ''app-production''\<rparr>"

lemma revision_removed_witness:
  "\<exists>c'. DeleteRevision_Apply mem a_deletion a_namespace = Some (None, c') \<and>
     mem_store c' (revision_key ''app-production'' ''v2'') = None \<and>
     mem_store c' \<lparr>key_Kind = KServiceAccount, key_Namespace = ''app-production'', key_Name = ''app''\<rparr> \<noteq> None"
proof -
  have "case DeleteRevision_Apply mem a_deletion a_namespace of Some (None, c') \<Rightarrow> True | _ \<Rightarrow> False"
    by code_simp
  then obtain c' where a: "DeleteRevision_Apply mem a_deletion a_namespace = Some (None, c')"
    by (auto split: option.splits prod.splits)
  have "case mem_store a_namespace (revision_key ''app-production'' ''v2'') of None \<Rightarrow> False
    | Some obj \<Rightarrow> selects (drv_Labels a_deletion) obj" by code_simp
  then obtain obj where obj: "mem_store a_namespace (revision_key ''app-production'' ''v2'') = Some obj"
    "selects (drv_Labels a_deletion) obj" by (auto split: option.splits)
  have "mem_store a_namespace \<lparr>key_Kind = KServiceAccount, key_Namespace = ''app-production'', key_Name = ''app''\<rparr> \<noteq> None"
    by code_simp
  with revision_removed [OF mem_documented a] obj a show ?thesis
    by (auto simp: revision_kinds_def revision_key_def a_deletion_def)
qed

section \<open>The waypoint\<close>

text \<open>
  C30: the disruption budget of a waypoint leaves room for one pod to go exactly when the minimum of its
  autoscaler is not above the maximum; otherwise the autoscaler runs fewer pods than the budget wants
  available, and no pod can be evicted.
\<close>

theorem waypoint_disruptable:
  assumes "effectiveWaypointHPA x ic = Some h" "wh_MinReplicas h < 2 ^ 31"
  shows "waypoint_minAvailable (wh_MinReplicas h) < fst (waypoint_bounds h) \<longleftrightarrow>
    wh_MinReplicas h \<le> wh_MaxReplicas h"
proof -
  have h: "2 \<le> wh_MinReplicas h" "1 \<le> wh_MaxReplicas h"
    using assms(1) by (auto simp: effectiveWaypointHPA_def default_WaypointHPA_def Let_def
      split: option.splits if_splits)
  have "wrap32 (wh_MinReplicas h - 1) = wh_MinReplicas h - 1"
    using h(1) assms(2) by (intro wrap32_id) auto
  with h show ?thesis
    by (auto simp: waypoint_minAvailable_def waypoint_bounds_def waypointDefaultMin_def Let_def)
qed

lemma waypoint_disruptable_witness: "waypoint_minAvailable 2 < fst (waypoint_bounds default_WaypointHPA)"
proof -
  have "effectiveWaypointHPA a_ctx two_ported = Some default_WaypointHPA" by code_simp
  from waypoint_disruptable [OF this] show ?thesis by (simp add: default_WaypointHPA_def)
qed

end
