(* ===== verification/Alerts.thy ===== *)
theory Alerts
  imports SLO_Plans
begin

text \<open>
  The alerts a revision has, \<^verbatim>\<open>src/prometheus/api.go\<close>: the query sent to Prometheus, the cache of answers,
  and the reading of an answer. Prometheus is the parameter \<open>query\<close>: the answer to a query at a time, in the
  state \<open>'c\<close> of the world; the clock's readings are arguments.
\<close>

section \<open>Queries and answers\<close>

text \<open>\<^verbatim>\<open>model.Value\<close>: a vector of samples, each with its labels, or one of the other kinds.\<close>

datatype Value = Vector "strmap list" | OtherValue string

record AlertQuery =
  aq_App :: string
  aq_AlertState :: string
  aq_TagLabel :: string
  aq_Tag :: string

definition NewAlertQuery :: "string \<Rightarrow> string \<Rightarrow> AlertQuery" where
  "NewAlertQuery app tag = \<lparr>aq_App = app, aq_AlertState = ''firing'', aq_TagLabel = TagLabel, aq_Tag = tag\<rparr>"

definition quoted :: "string \<Rightarrow> string" where
  "quoted s = [CHR 0x22] @ s @ [CHR 0x22]"

definition CanaryFiringTemplate :: "AlertQuery \<Rightarrow> string" where
  "CanaryFiringTemplate q = ''sum by('' @ aq_TagLabel q @ '',app,alertname)(ALERTS{ '' @ aq_TagLabel q @ ''='' @
     quoted (aq_Tag q) @ '',canary='' @ quoted ''true'' @ '',alertstate='' @ quoted (aq_AlertState q) @ ''})''"

definition SLOFiringTemplate :: "AlertQuery \<Rightarrow> string" where
  "SLOFiringTemplate q = ''sum by('' @ aq_TagLabel q @ '',app,alertname)(ALERTS{slo='' @ quoted ''true'' @
     '',alertstate='' @ quoted (aq_AlertState q) @ ''})''"

section \<open>The cache\<close>

record cachedValue =
  cv_value :: Value
  cv_lastUpdated :: time

type_synonym cache = "(string \<times> cachedValue) list"

definition checkCache :: "duration \<Rightarrow> cache \<Rightarrow> time \<Rightarrow> string \<Rightarrow> Value option" where
  "checkCache ttl m now query = (case map_of m query of
     None \<Rightarrow> None
   | Some v \<Rightarrow> if cv_lastUpdated v + ttl > now then Some (cv_value v) else None)"

type_synonym prom_query = "string \<Rightarrow> time \<Rightarrow> goerror + Value"

text \<open>\<open>now\<close> is the clock when the cache is read, \<open>later\<close> when the answer is stored.\<close>

definition queryWithCache ::
  "prom_query \<Rightarrow> duration \<Rightarrow> string \<Rightarrow> time \<Rightarrow> time \<Rightarrow> time \<Rightarrow> cache \<Rightarrow> (goerror + Value) \<times> cache" where
  "queryWithCache query ttl q t now later m = (case checkCache ttl m now q of
     Some v \<Rightarrow> (Inr v, m)
   | None \<Rightarrow> (case query q t of
       Inl e \<Rightarrow> (Inl e, m)
     | Inr v \<Rightarrow> (Inr v, AList.update q \<lparr>cv_value = v, cv_lastUpdated = later\<rparr> m)))"

section \<open>Reading an answer\<close>

definition metric :: "strmap \<Rightarrow> string \<Rightarrow> string" where
  "metric sample k = mget (Some sample) k"

definition tag_sample :: "string \<Rightarrow> strmap \<Rightarrow> (string \<times> string list) list \<Rightarrow> (string \<times> string list) list" where
  "tag_sample app sample tagset = (let metricTag = metric sample ''tag'' in
     if metric sample ''app'' = app \<and> metricTag \<noteq> []
     then AList.update metricTag
       ((case map_of tagset metricTag of None \<Rightarrow> [] | Some as \<Rightarrow> as) @ [metric sample ''alertname'']) tagset
     else tagset)"

definition TaggedAlerts ::
  "prom_query \<Rightarrow> duration \<Rightarrow> AlertQuery \<Rightarrow> time \<Rightarrow> bool \<Rightarrow> time \<Rightarrow> time \<Rightarrow> cache \<Rightarrow>
   (goerror + (string \<times> string list) list) \<times> cache" where
  "TaggedAlerts query ttl q t canariesOnly now later m = (let
       (val, m) = queryWithCache query ttl (if canariesOnly then CanaryFiringTemplate q else SLOFiringTemplate q)
         t now later m
     in (case val of
           Inl e \<Rightarrow> Inl e
         | Inr (Vector v) \<Rightarrow> Inr (fold (tag_sample (aq_App q)) v [])
         | Inr (OtherValue s) \<Rightarrow> Inl (Errorf (''Unexpected prom response: '' @ s)), m))"

definition IsRevisionTriggered ::
  "prom_query \<Rightarrow> duration \<Rightarrow> string \<Rightarrow> string \<Rightarrow> bool \<Rightarrow> time \<Rightarrow> time \<Rightarrow> time \<Rightarrow> cache \<Rightarrow>
   (goerror + (bool \<times> string list)) \<times> cache" where
  "IsRevisionTriggered query ttl app tag canariesOnly t now later m = (let
       (tags, m) = TaggedAlerts query ttl (NewAlertQuery app tag) t canariesOnly now later m
     in (case tags of
           Inl e \<Rightarrow> Inl e
         | Inr tags \<Rightarrow> (case map_of tags tag of
             Some alerts \<Rightarrow> if alerts \<noteq> [] then Inr (True, alerts) else Inr (False, [])
           | None \<Rightarrow> Inr (False, [])), m))"

section \<open>The alerts of a tag\<close>

definition alerts_of :: "string \<Rightarrow> string \<Rightarrow> strmap list \<Rightarrow> string list" where
  "alerts_of app tag v = map (\<lambda>sample. metric sample ''alertname'')
     (filter (\<lambda>sample. metric sample ''app'' = app \<and> metric sample ''tag'' = tag) v)"

lemma map_of_tag_fold:
  assumes "tag \<noteq> []"
  shows "(case map_of (fold (tag_sample app) v tagset) tag of None \<Rightarrow> [] | Some as \<Rightarrow> as) =
    (case map_of tagset tag of None \<Rightarrow> [] | Some as \<Rightarrow> as) @ alerts_of app tag v"
proof (induction v arbitrary: tagset)
  case Nil
  then show ?case by (simp add: alerts_of_def)
next
  case (Cons sample v)
  show ?case using assms
    by (simp add: Cons.IH) (auto simp: tag_sample_def alerts_of_def Let_def split: option.splits)
qed

lemma map_of_tag_empty: "map_of tagset [] = None \<Longrightarrow> map_of (fold (tag_sample app) v tagset) [] = None"
  by (induction v arbitrary: tagset) (auto simp: tag_sample_def Let_def)

text \<open>What the answer to the query says of a tag.\<close>

lemma IsRevisionTriggered_vector:
  assumes "fst (queryWithCache query ttl
      (if canary then CanaryFiringTemplate (NewAlertQuery app tag) else SLOFiringTemplate (NewAlertQuery app tag))
      t now later m) = Inr (Vector v)"
    and "tag \<noteq> []"
  shows "fst (IsRevisionTriggered query ttl app tag canary t now later m) =
    Inr (alerts_of app tag v \<noteq> [], alerts_of app tag v)"
proof -
  from map_of_tag_fold [OF assms(2), of app v "[]"]
  have a: "(case map_of (fold (tag_sample app) v []) tag of None \<Rightarrow> [] | Some as \<Rightarrow> as) = alerts_of app tag v"
    by simp
  show ?thesis using assms(1) a
    by (auto simp: IsRevisionTriggered_def TaggedAlerts_def Let_def split_beta NewAlertQuery_def
      split: option.splits)
qed

section \<open>The age of an answer\<close>

text \<open>
  The invariant of the cache: every answer in it is the one Prometheus gave to that query, at a time no later
  than the one recorded. \<open>history\<close> are the answers given so far.
\<close>

definition cache_inv :: "(string \<times> time \<times> Value) list \<Rightarrow> cache \<Rightarrow> bool" where
  "cache_inv history m \<longleftrightarrow> (\<forall>q v. map_of m q = Some v \<longrightarrow> (q, cv_lastUpdated v, cv_value v) \<in> set history)"

text \<open>The calls of \<^verbatim>\<open>queryWithCache\<close> one after another, with the history they make.\<close>

inductive cache_run :: "prom_query \<Rightarrow> duration \<Rightarrow> (string \<times> time \<times> Value) list \<Rightarrow> cache \<Rightarrow> bool"
  for query :: prom_query and ttl :: duration where
  start: "cache_run query ttl [] []"
| hit: "cache_run query ttl h m \<Longrightarrow> checkCache ttl m now q = Some v \<Longrightarrow>
    cache_run query ttl h (snd (queryWithCache query ttl q t now later m))"
| miss: "cache_run query ttl h m \<Longrightarrow> checkCache ttl m now q = None \<Longrightarrow> query q t = Inr v \<Longrightarrow>
    cache_run query ttl ((q, later, v) # h) (snd (queryWithCache query ttl q t now later m))"
| failed: "cache_run query ttl h m \<Longrightarrow> checkCache ttl m now q = None \<Longrightarrow> query q t = Inl e \<Longrightarrow>
    cache_run query ttl h (snd (queryWithCache query ttl q t now later m))"

lemma cache_run_inv: "cache_run query ttl h m \<Longrightarrow> cache_inv h m"
  by (induction rule: cache_run.induct) (auto simp: cache_inv_def queryWithCache_def split: if_splits)

lemma cached_answer_fresh:
  assumes "cache_run query ttl h m" "checkCache ttl m now q = Some v"
  shows "\<exists>stored. (q, stored, v) \<in> set h \<and> now < stored + ttl"
  using cache_run_inv [OF assms(1)] assms(2)
  by (auto simp: cache_inv_def checkCache_def split: option.splits if_splits)

section \<open>Canary alerts reach the revision\<close>

text \<open>The labels the canary's alert carries, unless the revision's own alert labels take their names.\<close>

lemma canary_labels_keep:
  assumes "map_of (sl_AlertLabels (cfgs_Labels s)) k = None"
    and "map_of (sl_AlertLabels (slo_ServiceLevelObjectiveLabels (cfgs_SLO s))) k = None" "k \<noteq> ''channel''"
    and "distinct (map fst (sl_AlertLabels (cfgs_Labels s)))"
    and "distinct (map fst (sl_AlertLabels (slo_ServiceLevelObjectiveLabels (cfgs_SLO s))))"
  shows "map_of (canary_labels s) k = map_of (canaryRuleLabels s) k"
  using assms by (simp add: canary_labels_def Let_def map_of_copy_into)

text \<open>The names the rules record are the ones the queries read.\<close>

lemma replace_runs_word: "list_all (\<lambda>c. alphanumeric c \<or> c = CHR ''_'') (replace_runs b s)"
  by (induction b s rule: replace_runs.induct) auto

end
