(* ===== verification/Revision_Controller.thy ===== *)
theory Revision_Controller
  imports Create_Or_Update Defaults
begin

text \<open>
  The controller of the revisions, \<^verbatim>\<open>src/controllers/revision_controller.go\<close>: it labels a revision, deletes it
  when every target may, makes the release managers of its targets, gathers their status, mirrors it, and
  marks it as failed when its tests time out or its alerts fire early in a release.

  The delivery cluster is the state \<open>'c\<close>; the calls of its client, the alerts (\<^verbatim>\<open>PromAPI\<close>), the remote client
  of a mirror and the clock are the context \<open>'c RCtx\<close>. The gauges, counters and log lines are left out.
\<close>

section \<open>Mirrors\<close>

record ConfigSelector =
  csel_Namespace :: string
  csel_MatchLabels :: strmap
  csel_MatchExpressions :: "opaque list"
  csel_AppLabelName :: string
  csel_TagLabelName :: string

record Mirror =
  mi_Meta :: ObjectMeta
  mi_ClusterName :: string
  mi_AdditionalConfigSelectors :: "ConfigSelector list"

section \<open>Context\<close>

text \<open>
  \<open>v_list\<close> lists the config maps, secrets and external secrets of a namespace under a selector, which is
  either the target's own (\<open>Inl\<close>, as an opaque value) or the labels and expressions of an additional one.
  \<open>v_createOrUpdateRevision\<close> is \<^verbatim>\<open>controllerutil.CreateOrUpdate\<close> on a revision; like \<^verbatim>\<open>Get\<close>, it leaves in the
  object it was given what is then in the cluster, and returns it.
\<close>

datatype CopiedKind = CopiedConfigMap | CopiedSecret | CopiedExternalSecret

record 'c RCtx =
  v_requeueAfter :: duration
  v_now :: time
  v_format :: "time \<Rightarrow> string"
  v_getRevision :: "string \<Rightarrow> string \<Rightarrow> 'c \<Rightarrow> goerror + Revision"
  v_listMirrors :: "'c \<Rightarrow> goerror + Mirror list"
  v_update :: "Revision \<Rightarrow> 'c \<Rightarrow> goerror option \<times> 'c"
  v_delete :: "Revision \<Rightarrow> 'c \<Rightarrow> goerror option \<times> 'c"
  v_listReleaseManagers :: "string \<Rightarrow> strmap \<Rightarrow> 'c \<Rightarrow> ReleaseManager list"
  v_createReleaseManager :: "ReleaseManager \<Rightarrow> 'c \<Rightarrow> goerror option \<times> 'c"
  v_updateReleaseManagerStatus :: "ReleaseManager \<Rightarrow> 'c \<Rightarrow> goerror option \<times> 'c"
  v_createOrUpdateRevision :: "Revision \<Rightarrow> (Revision \<Rightarrow> Revision) \<Rightarrow> 'c \<Rightarrow> (goerror + Revision) \<times> 'c"
  v_updateStatus :: "Revision \<Rightarrow> 'c \<Rightarrow> goerror option \<times> 'c"
  v_triggered :: "string \<Rightarrow> string \<Rightarrow> bool \<Rightarrow> 'c \<Rightarrow> goerror + (bool \<times> string list)"
  v_getCluster :: "string \<Rightarrow> string \<Rightarrow> 'c \<Rightarrow> goerror + Cluster"
  v_remote :: "Cluster \<Rightarrow> 'c \<Rightarrow> goerror + 'c Client"
  v_selector :: "opaque option \<Rightarrow> goerror + opaque"
  v_list :: "CopiedKind \<Rightarrow> string \<Rightarrow> opaque + ConfigSelector \<Rightarrow> 'c \<Rightarrow> goerror + KubeObj list"
  v_mirror_revision :: "'c Client \<Rightarrow> Revision \<Rightarrow> (Revision \<Rightarrow> Revision) \<Rightarrow> 'c \<Rightarrow> goerror option \<times> 'c"

section \<open>Labels\<close>

text \<open>Writing a nil map panics; revisions have labels in practice.\<close>

definition fleet_label :: "RevisionTarget \<Rightarrow> string" where
  "fleet_label t = LabelFleetPrefix @ rt_Fleet t"

fun add_fleets :: "RevisionTarget list \<Rightarrow> strmap option \<Rightarrow> bool \<Rightarrow> (strmap option \<times> bool) option" where
  "add_fleets [] labels updated = Some (labels, updated)"
| "add_fleets (t # ts) labels updated =
     (if mlookup labels (fleet_label t) = None
      then (case mwrite labels (fleet_label t) [] of
              None \<Rightarrow> None | Some labels \<Rightarrow> add_fleets ts labels True)
      else add_fleets ts labels updated)"

definition stale_fleet :: "RevisionTarget list \<Rightarrow> string \<Rightarrow> bool" where
  "stale_fleet ts name \<longleftrightarrow>
     strings_HasPrefix name LabelFleetPrefix \<and> \<not> list_ex (\<lambda>t. name = fleet_label t) ts"

definition label_revision :: "Revision \<Rightarrow> (Revision \<times> bool) option" where
  "label_revision r = do {
     let ts = rsp_Targets (rev_Spec r);
     (labels, updated) \<leftarrow> add_fleets ts (om_Labels (rev_Meta r)) False;
     let stale = (case labels of None \<Rightarrow> False | Some m \<Rightarrow> list_ex (\<lambda>(k, _). stale_fleet ts k) m);
     let labels = map_option (filter (\<lambda>(k, _). \<not> stale_fleet ts k)) labels;
     let updated = (updated \<or> stale);
     (labels, updated) \<leftarrow>
       (if mlookup labels LabelApp = None
        then map_option (\<lambda>m. (m, True)) (mwrite labels LabelApp (ra_Name (rsp_App (rev_Spec r))))
        else Some (labels, updated));
     Some (r\<lparr>rev_Meta := (rev_Meta r)\<lparr>om_Labels := labels\<rparr>\<rparr>, updated)
   }"

definition LabelWithAppAndFleets ::
  "'c RCtx \<Rightarrow> Revision \<Rightarrow> 'c \<Rightarrow> (goerror option \<times> Revision \<times> 'c) option" where
  "LabelWithAppAndFleets x r c = (case label_revision r of
     None \<Rightarrow> None
   | Some (r, updated) \<Rightarrow>
       if updated then (let (err, c) = v_update x r c in Some (err, r, c)) else Some (None, r, c))"

section \<open>Release managers\<close>

definition manager_labels :: "RevisionTarget \<Rightarrow> Revision \<Rightarrow> strmap" where
  "manager_labels t r = [(LabelTarget, rt_Name t), (LabelFleet, rt_Fleet t),
     (LabelApp, ra_Name (rsp_App (rev_Spec r)))]"

text \<open>An error of the list is dropped, its items are then none; two matches are a panic.\<close>

definition getReleaseManager ::
  "'c RCtx \<Rightarrow> RevisionTarget \<Rightarrow> Revision \<Rightarrow> 'c \<Rightarrow> ReleaseManager option option" where
  "getReleaseManager x t r c =
     (case v_listReleaseManagers x (om_Namespace (rev_Meta r)) (manager_labels t r) c of
        [] \<Rightarrow> Some None
      | [rm] \<Rightarrow> Some (Some rm)
      | _ \<Rightarrow> None)"

definition new_ReleaseManager :: "RevisionTarget \<Rightarrow> Revision \<Rightarrow> ReleaseManager" where
  "new_ReleaseManager t r =
     \<lparr>rm_Meta = (named (om_Namespace (rev_Meta r)) (ra_Name (rsp_App (rev_Spec r)) @ ''-'' @ rt_Name t)
        (Some (manager_labels t r)))\<lparr>om_Finalizers := [FinalizerReleaseManager]\<rparr>,
      rm_Spec = \<lparr>rmsp_Fleet = rt_Fleet t, rmsp_App = ra_Name (rsp_App (rev_Spec r)), rmsp_Target = rt_Name t,
        rmsp_Variants = []\<rparr>,
      rm_Status = \<lparr>rmst_Revisions = [], rmst_LastUpdated = None\<rparr>\<rparr>"

definition getOrCreateReleaseManager ::
  "'c RCtx \<Rightarrow> RevisionTarget \<Rightarrow> Revision \<Rightarrow> 'c \<Rightarrow> ((goerror + ReleaseManager) \<times> 'c) option" where
  "getOrCreateReleaseManager x t r c = (case getReleaseManager x t r c of
     None \<Rightarrow> None
   | Some (Some rm) \<Rightarrow> Some (Inr rm, c)
   | Some None \<Rightarrow>
       (case v_createReleaseManager x (new_ReleaseManager t r) c of
          (Some e, c) \<Rightarrow> Some (Inl e, c)
        | (None, c) \<Rightarrow> Some (Inr (new_ReleaseManager t r), c)))"

definition zero_TargetStatus :: "string \<Rightarrow> RevisionTargetStatus" where
  "zero_TargetStatus n = \<lparr>rts_Name = n, rts_Scale = \<lparr>rss_Current = 0, rss_Desired = 0, rss_Peak = 0\<rparr>,
     rts_Release = \<lparr>rrs_CurrentPercent = 0, rrs_PeakPercent = 0\<rparr>, rts_State = OtherState []\<rparr>"

fun syncReleaseManager_of ::
  "'c RCtx \<Rightarrow> Revision \<Rightarrow> RevisionTarget list \<Rightarrow> RevisionStatus \<Rightarrow> 'c \<Rightarrow>
   (goerror option \<times> RevisionStatus \<times> 'c) option" where
  "syncReleaseManager_of x r [] rstatus c = Some (None, rstatus, c)"
| "syncReleaseManager_of x r (t # ts) rstatus c = (case getOrCreateReleaseManager x t r c of
     None \<Rightarrow> None
   | Some (Inl e, c) \<Rightarrow> Some (Some e, rstatus, c)
   | Some (Inr rm, c) \<Rightarrow> syncReleaseManager_of x r ts
       (AddTarget rstatus (AddReleaseManagerStatus (zero_TargetStatus (rt_Name t))
         (fst (RevisionStatus (v_now x) rm (ra_Tag (rsp_App (rev_Spec r))))))) c)"

definition syncReleaseManager ::
  "'c RCtx \<Rightarrow> Revision \<Rightarrow> 'c \<Rightarrow> (goerror option \<times> RevisionStatus \<times> 'c) option" where
  "syncReleaseManager x r c = syncReleaseManager_of x r (rsp_Targets (rev_Spec r))
     \<lparr>rst_Sentry = \<lparr>se_Release = False\<rparr>, rst_Targets = []\<rparr> c"

section \<open>Deletion\<close>

text \<open>The test keeps a revision only for a label that is not there at all.\<close>

definition marked_in :: "Revision \<Rightarrow> RevisionTarget \<Rightarrow> bool" where
  "marked_in r t \<longleftrightarrow> (let label = LabelTargetDeletablePrefix @ rt_Name t;
       ok = mlookup (om_Labels (rev_Meta r)) label \<noteq> None;
       val = mget (om_Labels (rev_Meta r)) label
     in \<not> (\<not> ok \<and> val \<noteq> ''true''))"

definition deleteIfMarked :: "'c RCtx \<Rightarrow> Revision \<Rightarrow> 'c \<Rightarrow> goerror option \<times> bool \<times> 'c" where
  "deleteIfMarked x r c =
     (if list_all (marked_in r) (rsp_Targets (rev_Spec r))
      then (case v_delete x r c of
              (Some e, c) \<Rightarrow> (if e \<noteq> NotFound then Some e else None, True, c)
            | (None, c) \<Rightarrow> (None, True, c))
      else (None, False, c))"

section \<open>Mirroring\<close>

text \<open>
  A copy of a config map, a secret or an external secret: the object with the original's names, labels and
  annotations; what is there already gets the original's data (or specification) and nothing else.
\<close>

definition copy_object :: "KubeObj \<Rightarrow> KubeObj" where
  "copy_object orig = object ((named (om_Namespace (ko_Meta orig)) (om_Name (ko_Meta orig)) (labels_of orig))
     \<lparr>om_Annotations := annotations_of orig\<rparr>) (ko_Body orig)"

definition copy_data :: "KubeObj \<Rightarrow> mutate" where
  "copy_data orig cur = Some (case (ko_Body orig, ko_Body cur) of
     (SecretBody _ data, SecretBody ty _) \<Rightarrow> set_body (SecretBody ty data) cur
   | _ \<Rightarrow> set_body (ko_Body orig) cur)"

definition copy_list :: "'c Client \<Rightarrow> KubeObj list \<Rightarrow> 'c step" where
  "copy_list remote = each (\<lambda>orig. k_CreateOrUpdate remote (copy_object orig) (copy_data orig))"

definition copy_kinds ::
  "'c RCtx \<Rightarrow> 'c Client \<Rightarrow> string \<Rightarrow> opaque + ConfigSelector \<Rightarrow> CopiedKind list \<Rightarrow> 'c step" where
  "copy_kinds x remote ns sel = each (\<lambda>kind c. case v_list x kind ns sel c of
     Inl e \<Rightarrow> fails e c
   | Inr items \<Rightarrow> copy_list remote items c)"

definition mirror_target :: "'c RCtx \<Rightarrow> 'c Client \<Rightarrow> Revision \<Rightarrow> RevisionTarget \<Rightarrow> 'c step" where
  "mirror_target x remote r t c = (case v_selector x (rt_ConfigSelector t) of
     Inl e \<Rightarrow> fails e c
   | Inr sel \<Rightarrow> copy_kinds x remote (om_Namespace (rev_Meta r)) (Inl sel)
       [CopiedConfigMap, CopiedSecret, CopiedExternalSecret] c)"

definition additional_selector :: "Revision \<Rightarrow> ConfigSelector \<Rightarrow> ConfigSelector" where
  "additional_selector r s = s\<lparr>csel_MatchLabels :=
     AList.update (csel_TagLabelName s) (ra_Tag (rsp_App (rev_Spec r)))
       (AList.update (csel_AppLabelName s) (ra_Name (rsp_App (rev_Spec r))) (csel_MatchLabels s))\<rparr>"

definition mirror_additional :: "'c RCtx \<Rightarrow> 'c Client \<Rightarrow> Revision \<Rightarrow> ConfigSelector \<Rightarrow> 'c step" where
  "mirror_additional x remote r s = copy_kinds x remote (csel_Namespace s) (Inr (additional_selector r s))
     [CopiedConfigMap, CopiedSecret]"

text \<open>The copy has its external tests disabled, and then gets the original's specification.\<close>

definition revision_copy :: "Revision \<Rightarrow> Revision" where
  "revision_copy r = r\<lparr>rev_Meta := (named (om_Namespace (rev_Meta r)) (om_Name (rev_Meta r))
       (om_Labels (rev_Meta r)))\<lparr>om_Annotations := om_Annotations (rev_Meta r)\<rparr>,
     rev_Spec := (rev_Spec r)\<lparr>rsp_Targets := map (\<lambda>t. t\<lparr>rt_ExternalTest :=
       (rt_ExternalTest t)\<lparr>et_Enabled := False\<rparr>\<rparr>) (rsp_Targets (rev_Spec r))\<rparr>,
     rev_Status := \<lparr>rst_Sentry = \<lparr>se_Release = False\<rparr>, rst_Targets = []\<rparr>\<rparr>"

definition mirrored :: "Revision \<Rightarrow> Revision \<Rightarrow> Revision" where
  "mirrored r cur = cur\<lparr>rev_Spec := rev_Spec r\<rparr>"

definition mirrorRevision :: "'c RCtx \<Rightarrow> Mirror \<Rightarrow> Revision \<Rightarrow> 'c step" where
  "mirrorRevision x mirror r c = (case v_getCluster x (om_Namespace (rev_Meta r)) (mi_ClusterName mirror) c of
     Inl e \<Rightarrow> fails e c
   | Inr cluster \<Rightarrow>
       (case v_remote x cluster c of
          Inl e \<Rightarrow> fails e c
        | Inr remote \<Rightarrow>
            then_do (each (mirror_target x remote r) (rsp_Targets (rev_Spec r)))
            (then_do (each (mirror_additional x remote r) (mi_AdditionalConfigSelectors mirror))
              (total (v_mirror_revision x remote (revision_copy r) (mirrored r)))) c))"

text \<open>A mirror that fails is logged and counted, and the next one is tried.\<close>

fun mirror_all :: "'c RCtx \<Rightarrow> Mirror list \<Rightarrow> Revision \<Rightarrow> 'c \<Rightarrow> 'c option" where
  "mirror_all x [] r c = Some c"
| "mirror_all x (m # ms) r c = (case mirrorRevision x m r c of
     None \<Rightarrow> None | Some (_, c) \<Rightarrow> mirror_all x ms r c)"

section \<open>Failing a revision\<close>

definition AcceptancePercentage :: u32 where "AcceptancePercentage = 50"

definition is_deployed :: "RevisionStatus \<Rightarrow> bool" where
  "is_deployed status \<longleftrightarrow>
     list_ex (\<lambda>t. rss_Current (rts_Scale t) + rss_Desired (rts_Scale t) > 0) (rst_Targets status)"

definition timing_out :: "RevisionStatus \<Rightarrow> bool" where
  "timing_out status \<longleftrightarrow> list_ex (\<lambda>t. rts_State t = timingout) (rst_Targets status)"

definition production :: "RevisionTarget \<Rightarrow> bool" where
  "production t \<longleftrightarrow> rt_AcceptanceTarget t \<or> strings_Contains (rt_Name t) ''production''"

text \<open>The map of the statuses by name: the last of a name.\<close>

definition target_status :: "RevisionStatus \<Rightarrow> string \<Rightarrow> RevisionTargetStatus option" where
  "target_status status n = find (\<lambda>t. rts_Name t = n) (List.rev (rst_Targets status))"

text \<open>The release manager of the target learns the alarms; what fails here is only logged.\<close>

definition save_alarms ::
  "'c RCtx \<Rightarrow> RevisionTarget \<Rightarrow> Revision \<Rightarrow> string list \<Rightarrow> 'c \<Rightarrow> 'c option" where
  "save_alarms x t r alarms c = (case getReleaseManager x t r c of
     None \<Rightarrow> None
   | Some None \<Rightarrow> Some c
   | Some (Some rm) \<Rightarrow>
       (let (s, rm) = RevisionStatus (v_now x) rm (ra_Tag (rsp_App (rev_Spec r)));
            rm = UpdateRevisionStatus rm (s\<lparr>rs_TriggeredAlarms := alarms\<rparr>)
        in Some (snd (v_updateReleaseManagerStatus x rm c))))"

text \<open>The first production target with a status decides.\<close>

fun slo_violation ::
  "'c RCtx \<Rightarrow> Revision \<Rightarrow> RevisionStatus \<Rightarrow> string list \<Rightarrow> RevisionTarget list \<Rightarrow> 'c \<Rightarrow> (bool \<times> 'c) option" where
  "slo_violation x r status alarms [] c = Some (False, c)"
| "slo_violation x r status alarms (t # ts) c =
     (if production t
      then (case target_status status (rt_Name t) of
              None \<Rightarrow> slo_violation x r status alarms ts c
            | Some s \<Rightarrow>
                if rrs_PeakPercent (rts_Release s) < AcceptancePercentage
                then map_option (\<lambda>c. (True, c)) (save_alarms x t r alarms c)
                else Some (False, c))
      else slo_violation x r status alarms ts c)"

datatype Result = Requeue duration | NoRequeue | Failed goerror

definition requeue :: "'c RCtx \<Rightarrow> goerror option \<Rightarrow> Result" where
  "requeue x err = (case err of Some e \<Rightarrow> Failed e | None \<Rightarrow> Requeue (v_requeueAfter x))"

text \<open>From the alerts on: whether the revision fails, and its status.\<close>

definition judge ::
  "'c RCtx \<Rightarrow> Revision \<Rightarrow> RevisionStatus \<Rightarrow> 'c \<Rightarrow> (Result \<times> 'c) option" where
  "judge x r status c = (case v_triggered x (ra_Name (rsp_App (rev_Spec r))) (ra_Tag (rsp_App (rev_Spec r)))
       (rsp_CanaryWithSLIRules (rev_Spec r)) c of
     Inl e \<Rightarrow> Some (requeue x (Some e), c)
   | Inr (triggered, alarms) \<Rightarrow> do {
       (failing, c) \<leftarrow>
         (if timing_out status then Some (True, c)
          else if triggered \<and> \<not> rsp_IgnoreSLOs (rev_Spec r)
          then slo_violation x r status alarms (rsp_Targets (rev_Spec r)) c
          else Some (False, c));
       let (failed_or, c) = (if failing then v_createOrUpdateRevision x r (Fail (v_format x) (v_now x)) c
                             else (Inr r, c));
       Some (case failed_or of
           Inl e \<Rightarrow> (requeue x (Some e), c)
         | Inr r \<Rightarrow> (let (err, c) = v_updateStatus x (r\<lparr>rev_Status := status\<rparr>) c in (requeue x err, c)))
     })"

definition Revision_Reconcile :: "'c RCtx \<Rightarrow> string \<Rightarrow> string \<Rightarrow> 'c \<Rightarrow> (Result \<times> 'c) option" where
  "Revision_Reconcile x ns n c = (case v_getRevision x ns n c of
     Inl e \<Rightarrow> Some (if e = NotFound then NoRequeue else requeue x (Some e), c)
   | Inr r \<Rightarrow>
       (case v_listMirrors x c of
          Inl e \<Rightarrow> Some (requeue x None, c)
        | Inr mirrors \<Rightarrow> do {
            (err, r, c) \<leftarrow> LabelWithAppAndFleets x (SetObjectDefaults_Revision r) c;
            if err \<noteq> None then Some (requeue x err, c)
            else let (err, del, c) = deleteIfMarked x r c in
            if err \<noteq> None then Some (requeue x err, c)
            else if del then Some (requeue x None, c)
            else do {
              (err, status, c) \<leftarrow> syncReleaseManager x r c;
              if err \<noteq> None then Some (requeue x err, c)
              else do {
                c \<leftarrow> (if is_deployed status \<and> \<not> rsp_DisableMirroring (rev_Spec r)
                      then mirror_all x mirrors r c else Some c);
                judge x r status c
              }
            }
          }))"

section \<open>Facts\<close>

text \<open>Which revisions fail: the test of the loop over the targets, as a condition.\<close>

definition deciding_target :: "Revision \<Rightarrow> RevisionStatus \<Rightarrow> RevisionTargetStatus option" where
  "deciding_target r status = (case filter (\<lambda>t. production t \<and> target_status status (rt_Name t) \<noteq> None)
       (rsp_Targets (rev_Spec r)) of
     [] \<Rightarrow> None | t # _ \<Rightarrow> target_status status (rt_Name t))"

lemma slo_violation_first:
  assumes "slo_violation x r status alarms ts c = Some (b, c')"
  shows "b \<longleftrightarrow> (case filter (\<lambda>t. production t \<and> target_status status (rt_Name t) \<noteq> None) ts of
     [] \<Rightarrow> False
   | t # _ \<Rightarrow> (case target_status status (rt_Name t) of
       None \<Rightarrow> False | Some s \<Rightarrow> rrs_PeakPercent (rts_Release s) < AcceptancePercentage))"
  using assms
  by (induction ts) (auto split: if_splits option.splits)

definition must_fail :: "Revision \<Rightarrow> RevisionStatus \<Rightarrow> bool \<Rightarrow> bool" where
  "must_fail r status triggered \<longleftrightarrow> timing_out status \<or>
     triggered \<and> \<not> rsp_IgnoreSLOs (rev_Spec r) \<and>
     (case deciding_target r status of
        None \<Rightarrow> False | Some s \<Rightarrow> rrs_PeakPercent (rts_Release s) < AcceptancePercentage)"

lemma slo_violation_decides:
  assumes "slo_violation x r status alarms (rsp_Targets (rev_Spec r)) c = Some (b, c')"
  shows "b \<longleftrightarrow> (case deciding_target r status of
     None \<Rightarrow> False | Some s \<Rightarrow> rrs_PeakPercent (rts_Release s) < AcceptancePercentage)"
  using slo_violation_first [OF assms] by (auto simp: deciding_target_def split: list.splits)

text \<open>The labels of the fleets after \<^verbatim>\<open>LabelWithAppAndFleets\<close> are those of the targets.\<close>

lemma add_fleets_labels:
  "add_fleets ts labels u = Some (labels', u') \<Longrightarrow>
   (\<forall>k. mlookup labels' k = (case mlookup labels k of
      Some v \<Rightarrow> Some v | None \<Rightarrow> if list_ex (\<lambda>t. k = fleet_label t) ts then Some [] else None))"
proof (induction ts labels u rule: add_fleets.induct)
  case (1 labels updated)
  then show ?case by (auto split: option.splits)
next
  case (2 t ts labels updated)
  show ?case
  proof (cases "mlookup labels (fleet_label t) = None")
    case True
    with 2(3) obtain m where m: "mwrite labels (fleet_label t) [] = Some m" "add_fleets ts m True = Some (labels', u')"
      by (auto split: option.splits)
    then have lk: "mlookup m k = (if k = fleet_label t then Some [] else mlookup labels k)" for k
      by (cases labels) auto
    show ?thesis
    proof (intro allI)
      fix k
      from 2(1) [OF True m] have "mlookup labels' k = (case mlookup m k of
          Some v \<Rightarrow> Some v | None \<Rightarrow> if list_ex (\<lambda>t. k = fleet_label t) ts then Some [] else None)" by blast
      then show "mlookup labels' k = (case mlookup labels k of
          Some v \<Rightarrow> Some v | None \<Rightarrow> if list_ex (\<lambda>t. k = fleet_label t) (t # ts) then Some [] else None)"
        using True by (cases "k = fleet_label t") (simp_all add: lk)
    qed
  next
    case False
    with 2(2) [OF False] 2(3) show ?thesis by (auto split: option.splits)
  qed
qed

lemma map_of_filter_key: "map_of (filter (\<lambda>(k, _). P k) m) k = (if P k then map_of m k else None)"
  by (induction m) auto

lemma label_revision_fleets:
  assumes "label_revision r = Some (r', u)" "strings_HasPrefix k LabelFleetPrefix"
  shows "mlookup (om_Labels (rev_Meta r')) k \<noteq> None \<longleftrightarrow>
    list_ex (\<lambda>t. k = fleet_label t) (rsp_Targets (rev_Spec r))"
proof -
  let ?ts = "rsp_Targets (rev_Spec r)"
  from assms(1) obtain ls u1 where ls: "add_fleets ?ts (om_Labels (rev_Meta r)) False = Some (ls, u1)"
    by (auto simp: label_revision_def Let_def bind_eq_Some_conv)
  let ?kept = "map_option (filter (\<lambda>(k, _). \<not> stale_fleet ?ts k)) ls"
  have app: "k \<noteq> LabelApp" using assms(2) by (auto simp: LabelFleetPrefix_def LabelApp_def)
  have "mlookup (om_Labels (rev_Meta r')) k = mlookup ?kept k"
    using assms(1) app
    by (cases ls) (auto simp: label_revision_def Let_def bind_eq_Some_conv ls split: if_splits)
  moreover have "mlookup ?kept k = (if stale_fleet ?ts k then None else mlookup ls k)"
    by (cases ls) (auto simp: map_of_filter_key)
  ultimately show ?thesis
    using add_fleets_labels [OF ls] assms(2)
    by (auto simp: stale_fleet_def list_ex_iff split: option.splits)
qed

text \<open>What the judgement does with a revision that must fail, and with one that must not.\<close>

lemma slo_violation_saves:
  "slo_violation x r status alarms ts c = Some (True, c') \<Longrightarrow>
   \<exists>t \<in> set ts. save_alarms x t r alarms c = Some c'"
  by (induction ts) (auto split: if_splits option.splits)

lemma judge_outcome:
  assumes "v_triggered x (ra_Name (rsp_App (rev_Spec r))) (ra_Tag (rsp_App (rev_Spec r)))
      (rsp_CanaryWithSLIRules (rev_Spec r)) c = Inr (triggered, alarms)"
    and "judge x r status c = Some (res, c')"
  shows "if must_fail r status triggered
    then \<exists>c1. (c1 = c \<or> (\<exists>t \<in> set (rsp_Targets (rev_Spec r)). save_alarms x t r alarms c = Some c1)) \<and>
      (case v_createOrUpdateRevision x r (Fail (v_format x) (v_now x)) c1 of
        (Inl e, c2) \<Rightarrow> res = Failed e \<and> c' = c2
      | (Inr r2, c2) \<Rightarrow> c' = snd (v_updateStatus x (r2\<lparr>rev_Status := status\<rparr>) c2))
    else c' = snd (v_updateStatus x (r\<lparr>rev_Status := status\<rparr>) c)"
proof -
  let ?failing = "if timing_out status then Some (True, c)
          else if triggered \<and> \<not> rsp_IgnoreSLOs (rev_Spec r)
          then slo_violation x r status alarms (rsp_Targets (rev_Spec r)) c
          else Some (False, c)"
  from assms obtain failing c1 where f: "?failing = Some (failing, c1)"
    by (auto simp: judge_def bind_eq_Some_conv split: if_splits)
  have failing: "failing = must_fail r status triggered"
    using f slo_violation_decides [of x r status alarms c failing c1]
    by (auto simp: must_fail_def split: if_splits)
  have same: "c1 = c" if "\<not> failing"
  proof -
    have "slo_violation x r status alarms ts c = Some (False, c1) \<Longrightarrow> c1 = c" for ts
      by (induction ts) (auto split: if_splits option.splits)
    with f that show ?thesis by (auto split: if_splits)
  qed
  have alarms: "c1 = c \<or> (\<exists>t \<in> set (rsp_Targets (rev_Spec r)). save_alarms x t r alarms c = Some c1)" if failing
    using f that slo_violation_saves [of x r status alarms _ c c1] by (auto split: if_splits)
  have "judge x r status c = (let (failed_or, c) =
        (if failing then v_createOrUpdateRevision x r (Fail (v_format x) (v_now x)) c1 else (Inr r, c1)) in
     Some (case failed_or of
         Inl e \<Rightarrow> (requeue x (Some e), c)
       | Inr r \<Rightarrow> (let (err, c) = v_updateStatus x (r\<lparr>rev_Status := status\<rparr>) c in (requeue x err, c))))"
    unfolding judge_def assms(1) sum.case prod.case f Option.bind.bind_lunit ..
  with assms(2) same alarms show ?thesis unfolding failing [symmetric]
    by (cases failing) (auto simp: Let_def requeue_def split_beta intro!: exI [of _ c1] split: sum.splits)
qed

text \<open>A revision with no targets counts as marked in all of them.\<close>

lemma marked_in_iff:
  "marked_in r t \<longleftrightarrow> mlookup (om_Labels (rev_Meta r)) (LabelTargetDeletablePrefix @ rt_Name t) \<noteq> None"
  by (auto simp: marked_in_def Let_def mget_def split: option.splits)

end
