(* ===== verification/Controller_Properties.thy ===== *)
theory Controller_Properties
  imports App_Properties Alerts Revision_Controller Manager_Controller
begin

text \<open>
  The properties of the reconcilers and of what they decide on: the alerts of a revision, the failing of a
  revision, the plans as a whole, the deletion of a release manager and the copies of secrets.
\<close>

section \<open>Alerts\<close>

text \<open>
  C35: a revision is triggered exactly when the answer of Prometheus, given now or kept from before, has a
  sample of the application with the tag of the revision, and its alarms are the names in those samples, in
  order.
\<close>

theorem alert_verdict:
  assumes "fst (queryWithCache query ttl
      (if canary then CanaryFiringTemplate (NewAlertQuery app tag) else SLOFiringTemplate (NewAlertQuery app tag))
      t now aft m) = Inr (Vector v)"
    and "tag \<noteq> []"
  shows "\<exists>alarms m'. IsRevisionTriggered query ttl app tag canary t now aft m =
      (Inr (alarms \<noteq> [], alarms), m') \<and>
    (alarms \<noteq> [] \<longleftrightarrow> (\<exists>sample \<in> set v. metric sample ''app'' = app \<and> metric sample ''tag'' = tag)) \<and>
    alarms = map (\<lambda>sample. metric sample ''alertname'')
      (filter (\<lambda>sample. metric sample ''app'' = app \<and> metric sample ''tag'' = tag) v)"
proof -
  let ?r = "IsRevisionTriggered query ttl app tag canary t now aft m"
  have "?r = (Inr (alerts_of app tag v \<noteq> [], alerts_of app tag v), snd ?r)"
    using IsRevisionTriggered_vector [OF assms] by (metis prod.collapse)
  moreover have "alerts_of app tag v \<noteq> [] \<longleftrightarrow>
      (\<exists>sample \<in> set v. metric sample ''app'' = app \<and> metric sample ''tag'' = tag)"
    by (auto simp: alerts_of_def filter_empty_conv)
  ultimately show ?thesis unfolding alerts_of_def by blast
qed

definition an_answer :: Value where
  "an_answer = Vector [[(''app'', ''other''), (''tag'', ''v1''), (''alertname'', ''Slow'')],
     [(''app'', ''app''), (''tag'', ''v1''), (''alertname'', ''Down'')]]"

lemma alert_verdict_witness:
  "\<exists>m'. IsRevisionTriggered (\<lambda>_ _. Inr an_answer) 60 ''app'' ''v1'' False 0 0 1 [] = (Inr (True, [''Down'']), m')"
proof -
  have "fst (queryWithCache (\<lambda>_ _. Inr an_answer) 60
      (if False then CanaryFiringTemplate (NewAlertQuery ''app'' ''v1'') else SLOFiringTemplate (NewAlertQuery ''app'' ''v1''))
      0 0 1 []) = Inr (Vector [[(''app'', ''other''), (''tag'', ''v1''), (''alertname'', ''Slow'')],
     [(''app'', ''app''), (''tag'', ''v1''), (''alertname'', ''Down'')]])"
    by (simp add: queryWithCache_def checkCache_def an_answer_def)
  from alert_verdict [OF this] show ?thesis by (simp add: metric_def mget_def)
qed

text \<open>
  An answer taken from the cache is one Prometheus gave to the same query, and it is younger than the
  time to live, over every sequence of calls.
\<close>

theorem alert_cache_fresh:
  assumes "cache_run query ttl h m" "checkCache ttl m now q = Some v"
  shows "\<exists>stored. (q, stored, v) \<in> set h \<and> now < stored + ttl"
  by (rule cached_answer_fresh [OF assms])

lemma alert_cache_fresh_witness:
  "\<exists>stored :: time. (''up'', stored, an_answer) \<in> set [(''up'', 7, an_answer)] \<and> 30 < stored + 60"
proof -
  have run: "cache_run (\<lambda>_ _. Inr an_answer) 60 [(''up'', 7, an_answer)]
      (snd (queryWithCache (\<lambda>_ _. Inr an_answer) 60 ''up'' 5 5 7 []))"
    by (rule cache_run.miss [OF cache_run.start]) (simp_all add: checkCache_def)
  have hit: "checkCache 60 (snd (queryWithCache (\<lambda>_ _. Inr an_answer) 60 ''up'' 5 5 7 [])) 30 ''up'' = Some an_answer"
    by (simp add: queryWithCache_def checkCache_def)
  from alert_cache_fresh [OF run hit] show ?thesis .
qed

section \<open>Plans\<close>

text \<open>
  C25: no plan panics on a cluster that behaves as documented, in whatever order the plans of a composite
  come: only a fault without a port, and the retirement of a replica set without a size, are excepted: one
  that the cluster holds, or that an earlier plan of the same composite may make for workers (the size it
  then has comes from the API server). A replica set that is not there, or that has a size, is retired.
\<close>

theorem plans_never_panic:
  assumes "documented cli store" "safe_plan (store c) plan"
  shows "\<exists>err c'. Plan_Apply env cli cluster plan c = Some (err, c')"
  using safe_plan_total [OF assms, of env cluster] by auto

text \<open>The revision that is retired is not there at first, and the other one made by the same composite.\<close>

lemma plans_never_panic_witness:
  "\<exists>err c'. Plan_Apply \<lparr>pe_template = no_template, pe_isZero = \<lambda>_. False, pe_parseExpr = \<lambda>_. Inr NumberLiteral\<rparr>
     mem a_cluster (All [PlanRetireRevision \<lparr>rrv_Tag = ''v1'', rrv_Namespace = ''app-production''\<rparr>, PlanSyncApp an_app, PlanSyncRevision a_sync,
       PlanEnsureWaypoint ''app-production'']) [] = Some (err, c')"
  by (rule plans_never_panic [OF mem_documented])
    (auto simp: safe_plan_def an_app_def a_sync_def retired_key_def sized_at_def mem_store_def worker_scaled_def)

section \<open>Failing a revision\<close>

text \<open>
  C12: a revision is failed exactly when one of its targets is timing out, or its alerts fire, it does not
  ignore them, and the first production target with a status never had half of the traffic: then the revision
  is marked as failed, after at most its alarms were saved, and its status is written to what the cluster
  then holds; otherwise only the status is written.
\<close>

theorem revision_verdict:
  assumes "v_triggered x (ra_Name (rsp_App (rev_Spec r))) (ra_Tag (rsp_App (rev_Spec r)))
      (rsp_CanaryWithSLIRules (rev_Spec r)) c = Inr (triggered, alarms)"
    and "judge x r status c = Some (res, c')"
  shows "if timing_out status \<or> triggered \<and> \<not> rsp_IgnoreSLOs (rev_Spec r) \<and>
      (\<exists>s. deciding_target r status = Some s \<and> rrs_PeakPercent (rts_Release s) < 50)
    then \<exists>c1. (c1 = c \<or> (\<exists>t \<in> set (rsp_Targets (rev_Spec r)). save_alarms x t r alarms c = Some c1)) \<and>
      (case v_createOrUpdateRevision x r (Fail (v_format x) (v_now x)) c1 of
        (Inl e, c2) \<Rightarrow> res = Failed e \<and> c' = c2
      | (Inr r2, c2) \<Rightarrow> c' = snd (v_updateStatus x (r2\<lparr>rev_Status := status\<rparr>) c2))
    else c' = snd (v_updateStatus x (r\<lparr>rev_Status := status\<rparr>) c)"
proof -
  have "must_fail r status triggered \<longleftrightarrow> timing_out status \<or> triggered \<and> \<not> rsp_IgnoreSLOs (rev_Spec r) \<and>
      (\<exists>s. deciding_target r status = Some s \<and> rrs_PeakPercent (rts_Release s) < 50)"
    by (auto simp: must_fail_def AcceptancePercentage_def split: option.splits)
  with judge_outcome [OF assms] show ?thesis by simp
qed

text \<open>A context whose alerts fire and whose writes are kept in a list of revisions.\<close>

definition firing_ctx :: "Revision list RCtx" where
  "firing_ctx = \<lparr>v_requeueAfter = 30, v_now = 9, v_format = \<lambda>_. ''now'',
     v_getRevision = \<lambda>_ _ _. Inr a_revision, v_listMirrors = \<lambda>_. Inr [], v_update = \<lambda>_ c. (None, c),
     v_delete = \<lambda>_ c. (None, c), v_listReleaseManagers = \<lambda>_ _ _. [],
     v_createReleaseManager = \<lambda>_ c. (None, c), v_updateReleaseManagerStatus = \<lambda>_ c. (None, c),
     v_createOrUpdateRevision = \<lambda>r f c. (Inr (f r), c), v_updateStatus = \<lambda>r c. (None, c @ [r]),
     v_triggered = \<lambda>_ _ _ _. Inr (True, [''Down'']), v_getCluster = \<lambda>_ _ _. Inl NotFound,
     v_remote = \<lambda>_ _. Inl NotFound, v_selector = \<lambda>_. Inl NotFound, v_list = \<lambda>_ _ _ _. Inr [],
     v_mirror_revision = \<lambda>_ _ _ c. (None, c)\<rparr>"

definition young_status :: RevisionStatus where
  "young_status = \<lparr>rst_Sentry = \<lparr>se_Release = False\<rparr>, rst_Targets =
     [\<lparr>rts_Name = ''production'', rts_Scale = \<lparr>rss_Current = 2, rss_Desired = 2, rss_Peak = 2\<rparr>,
       rts_Release = \<lparr>rrs_CurrentPercent = 10, rrs_PeakPercent = 10\<rparr>, rts_State = releasing\<rparr>]\<rparr>"

lemma revision_verdict_witness:
  "\<exists>res c'. judge firing_ctx a_revision young_status [] = Some (res, c') \<and> list_all (\<lambda>r. rsp_Failed (rev_Spec r)) c' \<and>
     c' \<noteq> []"
proof -
  have "judge firing_ctx a_revision young_status [] \<noteq> None" by code_simp
  then obtain res c' where j: "judge firing_ctx a_revision young_status [] = Some (res, c')" by auto
  have "deciding_target a_revision young_status = Some (hd (rst_Targets young_status))" by code_simp
  moreover have "rrs_PeakPercent (rts_Release (hd (rst_Targets young_status))) < 50"
    by (simp add: young_status_def)
  moreover have "\<not> rsp_IgnoreSLOs (rev_Spec a_revision)" "\<not> rsp_Failed (rev_Spec a_revision)"
    by (simp_all add: a_revision_def)
  moreover have "v_triggered firing_ctx n tag b c = Inr (True, [''Down''])" for n tag b c
    by (simp add: firing_ctx_def)
  moreover have "save_alarms firing_ctx t a_revision al [] = Some c1 \<Longrightarrow> c1 = []" for t al c1
    by (simp add: save_alarms_def getReleaseManager_def firing_ctx_def)
  ultimately have "c' = snd (v_updateStatus firing_ctx
      ((Fail (v_format firing_ctx) (v_now firing_ctx) a_revision)\<lparr>rev_Status := young_status\<rparr>) [])"
    using revision_verdict [OF _ j, of True "[''Down'']"] by (auto simp: firing_ctx_def)
  with j show ?thesis by (auto simp: firing_ctx_def Fail_def a_revision_def)
qed

section \<open>The reconciler of a release manager\<close>

text \<open>
  C26: reconciling a release manager that is deleted changes at most this: the plan that deletes its
  namespace is applied to the clusters, and only after that plan succeeded is its finalizer taken off. When
  none of its clusters is live, nothing at all is done, so the finalizer stays.
\<close>

theorem manager_deletion:
  assumes "Manager_Reconcile x key c = Some (r, c')" "m_get x key c = Inr rm" "IsDeleted rm" "c' \<noteq> c"
  shows "(\<exists>clients err c1. m_apply x clients (PlanDeleteApp \<lparr>dap_Namespace = TargetNamespace rm\<rparr>) c = (err, c1) \<and>
      (case err of Some e \<Rightarrow> r = ReturnError e \<and> c' = c1
       | None \<Rightarrow> \<exists>rm'. rm_Meta rm' = rm_Meta (Finalize rm) \<and> c' = snd (m_update x rm' c1))) \<and>
    (\<forall>clusters. getClustersByFleet x (om_Namespace (rm_Meta rm)) (rmsp_Fleet (rm_Spec rm)) c = Inr clusters \<longrightarrow>
      list_ex (\<lambda>cluster. \<not> cs_HotStandby (cl_Spec cluster)) clusters)"
  using Manager_deletion [OF assms] Manager_no_live [OF assms(2)] assms(1,4)
  by (fastforce simp: list_all_iff list_ex_iff)

text \<open>A release manager that is deleted, over a log of plans and of writes.\<close>

definition gone_rm :: ReleaseManager where
  "gone_rm = a_rm\<lparr>rm_Meta := (rm_Meta a_rm)
     \<lparr>om_DeletionTimestamp := Some 5, om_Finalizers := [FinalizerReleaseManager]\<rparr>\<rparr>"

definition a_logging_ctx :: "(Plan + ReleaseManager) list Ctx" where
  "a_logging_ctx = \<lparr>x_rm = a_rm, x_clusterInfo = [], x_config = a_config, x_off = \<lambda>_. 0, x_local = \<lambda>_. 0,
     x_apply = \<lambda>p c. (None, c), x_selector = \<lambda>_. Inl NotFound, x_listSecrets = \<lambda>_ _ _. Inr [],
     x_listExternalSecrets = \<lambda>_ _ _. Inr [], x_listConfigMaps = \<lambda>_ _ _. Inr [],
     x_parseQuantity = \<lambda>_. Inl NotFound, x_observe = \<lambda>_ _. Inr [],
     x_getRevision = \<lambda>_ _ _. Inl NotFound, x_updateRevision = \<lambda>_ c. (None, c),
     x_deleteReleaseManager = \<lambda>_ c. (None, c)\<rparr>"

definition a_manager_ctx :: "(unit, string, (Plan + ReleaseManager) list) MCtx" where
  "a_manager_ctx = \<lparr>m_base = a_logging_ctx, m_now = 9, m_get = \<lambda>_ _. Inr gone_rm,
     m_update = \<lambda>rm c. (None, c @ [Inr rm]), m_updateStatus = \<lambda>rm c. (None, c @ [Inr rm]),
     m_listClusters = \<lambda>_ _ _. Inr [a_cluster], m_listRevisions = \<lambda>_ _ _. Inr [],
     m_parse = \<lambda>s. Inr s, m_listFaults = \<lambda>_ _ _. Inr [], m_remote = \<lambda>_ _. Inr (), m_finish = [0],
     m_apply = \<lambda>_ p c. (None, c @ [Inl p]), m_observe = \<lambda>_ _ _. Inr []\<rparr>"

lemma a_manager_run:
  "case Manager_Reconcile a_manager_ctx (''picchu'', ''app-production'') [] of Some (r, c') \<Rightarrow> length c' = 2 | None \<Rightarrow> False"
  by code_simp

lemma manager_deletion_witness:
  "\<exists>r rm'. Manager_Reconcile a_manager_ctx (''picchu'', ''app-production'') [] =
     Some (r, [Inl (PlanDeleteApp \<lparr>dap_Namespace = ''app-production''\<rparr>), Inr rm']) \<and> om_Finalizers (rm_Meta rm') = []"
proof -
  obtain r c' where run: "Manager_Reconcile a_manager_ctx (''picchu'', ''app-production'') [] = Some (r, c')"
    and n: "length c' = 2"
    using a_manager_run by (auto split: option.splits)
  have "m_get a_manager_ctx k c = Inr gone_rm" for k c by (simp add: a_manager_ctx_def)
  moreover have "IsDeleted gone_rm" by code_simp
  moreover have "c' \<noteq> []" using n by auto
  moreover have "TargetNamespace gone_rm = ''app-production''" by code_simp
  moreover have "om_Finalizers (rm_Meta (Finalize gone_rm)) = []" by code_simp
  ultimately show ?thesis using manager_deletion [OF run] run by (fastforce simp: a_manager_ctx_def)
qed

section \<open>Copies of secrets\<close>

text \<open>
  C36: a deployment of secrets to a cluster that reports success has copied every secret of the list: each is
  in the target namespace with its own data and type and with the labels and annotations wanted; and no
  object but these and the namespaces has changed.
\<close>

theorem secrets_copied:
  assumes "documented cli store" "deploy cli t srcs c = Some (None, c')"
    and "distinct (map (\<lambda>src. om_Name (ko_Meta src)) srcs)"
  shows "list_all (\<lambda>src. copied t src (store c')) srcs \<and>
    (\<forall>k. key_Kind k \<noteq> KNamespace \<and> k \<notin> (\<lambda>src. key_of (secret_copy t src)) ` set srcs \<longrightarrow> store c' k = store c k)"
  using deploy_secrets_ok [OF assms] by blast

definition a_secret_target :: ClusterSecretTarget where
  "a_secret_target = \<lparr>cstg_Namespace = ''app'', cstg_LabelSelector = [], cstg_FieldSelector = [],
     cstg_Labels = Some [(''copied'', ''true'')], cstg_Annotations = None\<rparr>"

definition a_secret :: KubeObj where
  "a_secret = object (named ''picchu'' ''token'' None) (SecretBody ''Opaque'' (DataMap [(''key'', ''value'')]))"

lemma secrets_copied_witness:
  "\<exists>c'. deploy mem a_secret_target [a_secret] [] = Some (None, c') \<and> copied a_secret_target a_secret (mem_store c')"
proof -
  have "case deploy mem a_secret_target [a_secret] [] of Some (None, c') \<Rightarrow> True | _ \<Rightarrow> False" by code_simp
  then obtain c' where d: "deploy mem a_secret_target [a_secret] [] = Some (None, c')"
    by (auto split: option.splits prod.splits)
  from secrets_copied [OF mem_documented d] d show ?thesis by simp
qed

end
