(* ===== verification/Spec2Isabelle.thy ===== *)
theory Spec2Isabelle
  imports Samples Webhook Manager_Properties Revision_Properties Controller_Properties
begin

text \<open>
  \<^bold>\<open>picchu\<close>, a Kubernetes operator that releases revisions of an application progressively: it creates
  the objects of a revision in the clusters of a fleet, tests it, gives it a growing share of the traffic, and
  retires, fails or deletes it. The theories model the Go code under \<^verbatim>\<open>src/\<close>. The properties C1 to C40
  are theorems of this theory, of \<open>App_Properties\<close> (routes, writes, the plan of an application),
  \<open>Manager_Properties\<close> (the reconciler of a release manager with the clusters it acts on),
  \<open>Revision_Properties\<close> (replica sets, autoscalers, retirement, removal) and \<open>Controller_Properties\<close> (alerts,
  the reconcilers, secrets).

  \<^bold>\<open>Parts and how they interact.\<close> A revision names its targets; the revision controller keeps a release
  manager for each of them, marks the revision as failed when its alerts fire, and copies it to mirrors. A
  release manager stands for one application and one target. At every reconciliation the operator connects to
  the clusters of its fleet, observes their replica sets, builds a collection of incarnations (one per revision
  or remembered status), and runs the syncer: it ensures the namespace and accounts, ticks the state machine of
  every incarnation, divides the traffic, syncs the objects of the application, collects garbage, and writes
  the statuses back. What has to change in a cluster is a plan, applied to all clusters concurrently; a plan
  builds the objects it wants and writes each of them with \<^verbatim>\<open>CreateOrUpdate\<close>.

  \<^item> \<open>Prelude\<close>, \<open>Float64\<close>, \<open>Go_Std\<close>, \<open>Go_Text\<close>, \<open>Go_Format\<close>: machine integers with their wrap-around,
    \<^verbatim>\<open>sort.Slice\<close>, nil maps, errors, rounding of \<^verbatim>\<open>float64\<close> to 53 bits, calendar dates, parsing of times,
    durations and numbers, strings, and the printing of floats.
  \<^item> \<open>Api_Types\<close>, \<open>Api_Methods\<close>: the structs of \<^verbatim>\<open>api/v1alpha1\<close> as records and their methods.
  \<^item> \<open>Defaults\<close>, \<open>Webhook\<close>: defaulting, mutation and validation of revisions
    (\<^verbatim>\<open>source\_defaults.go\<close>, \<^verbatim>\<open>zz\_generated.defaults.go\<close>, \<^verbatim>\<open>revision\_webhook.go\<close>).
  \<^item> \<open>Scaling\<close>, \<open>Schedule\<close>, \<open>Observe\<close>, \<open>Garbage\<close>: the packages \<^verbatim>\<open>scaling\<close>, \<^verbatim>\<open>schedule\<close>,
    \<^verbatim>\<open>observe\<close> and \<^verbatim>\<open>garbagecollector\<close> of \<^verbatim>\<open>controllers\<close>.
  \<^item> \<open>State_Machine\<close>: the handlers of \<^verbatim>\<open>controllers/state.go\<close> over the interface \<^verbatim>\<open>Deployment\<close>, a
    record of operations on a world \<open>'w\<close>.
  \<^item> \<open>Cluster_Info\<close>, \<open>Plan_Types\<close>: the replica arithmetic of \<^verbatim>\<open>incarnation\_controller.go\<close>; the plans as
    data, composite and concurrent application (\<^verbatim>\<open>plan/composite.go\<close>, \<^verbatim>\<open>plan/applier.go\<close>).
  \<^item> \<open>Incarnation\<close>, \<open>Ramp\<close>, \<open>Incarnation_Sync\<close>, \<open>Collection\<close>: \<^verbatim>\<open>controllers/incarnation.go\<close> and
    \<^verbatim>\<open>controllers/scaling.go\<close>; an incarnation with the clusters is a deployment of the state machine.
  \<^item> \<open>Traffic\<close>, \<open>Syncer\<close>, \<open>Reconcile\<close>: \<^verbatim>\<open>controllers/syncer.go\<close>, and facts on whole reconciliations.
  \<^item> \<open>Kube_Objects\<close>, \<open>Create_Or_Update\<close>: the objects of a cluster, its client, and \<^verbatim>\<open>plan/common.go\<close>, one
    definition \<open>case_X\<close> per case of the switch.
  \<^item> \<open>Sync_App\<close>, \<open>Revision_Plans\<close>, \<open>Ensure_Plans\<close>, \<open>SLO_Plans\<close>, \<open>Apply_Plan\<close>: the plans of
    \<^verbatim>\<open>controllers/plan\<close>; \<open>X_Apply\<close> is the method \<^verbatim>\<open>Apply\<close> of the plan \<open>X\<close>, and \<open>Plan_Apply\<close> that of any plan.
  \<^item> \<open>Plan_Frames\<close>: the objects that each plan may touch and what it keeps of them (\<open>Plan_frame\<close>), the
    clusters in which a plan cannot panic (\<open>safe_plan\<close>), and the bounds of the autoscalers a plan writes.
  \<^item> \<open>Fleet\<close>, \<open>Sync_Invariant\<close>: the appliers of a fleet, a \<^verbatim>\<open>ClusterApplier\<close> per cluster under one
    \<^verbatim>\<open>ConcurrentApplier\<close>, and what its virtual services hold after a reconciliation; the invariants of the
    collection, step by step, to the statuses that \<^verbatim>\<open>sync\<close> returns. \<open>Fleet_Properties\<close>: the two together
    (\<open>sync_serves\<close>), and runs of the syncer on two clusters in memory.
  \<^item> \<open>Manager_Invariant\<close>: the same from the release manager and the revisions the reconciler reads to the
    statuses it writes.
  \<^item> \<open>Alerts\<close>: \<^verbatim>\<open>prometheus/api.go\<close>, queries for alerts and their cache.
  \<^item> \<open>Revision_Controller\<close>, \<open>Manager_Controller\<close>, \<open>Cluster_Controllers\<close>: the reconcilers of revisions
    (\<^verbatim>\<open>revision\_controller.go\<close>), release managers (\<^verbatim>\<open>releasemanager\_controller.go\<close>), clusters and cluster
    secrets (\<^verbatim>\<open>cluster\_controller.go\<close>, \<^verbatim>\<open>clustersecrets\_controller.go\<close>, \<^verbatim>\<open>reconcilerequest.go\<close>,
    \<^verbatim>\<open>secretdeployer.go\<close>), and the client cache of \<^verbatim>\<open>utils/api.go\<close>.
  \<^item> \<open>Samples\<close>, \<open>Memory_Cluster\<close>: concrete objects for the witnesses, and a cluster in memory.

  \<^bold>\<open>Conventions.\<close> A definition has the name of the function it models. \<open>None\<close> as the result of an operation
  is a panic (a nil dereference, a write to a nil map, a failed assertion), an error is a value of
  \<open>goerror option\<close> or the left of a sum. \<^verbatim>\<open>time.Now()\<close> is an argument. A pointer to an incarnation is its
  tag, and the map of incarnations an association list whose order is the order Go iterates it in; the
  theorems hold for every order. Calls that leave the program (the clients of the clusters, parsing of
  selectors and queries, the template engine, the zero test of a quantity, the time zone database) are fields
  of a context or arguments, over the state \<open>'c\<close> of the clusters, and nothing is assumed of them but what a
  theorem states. The hypothesis \<open>documented cli store\<close> says that a client behaves as controller-runtime
  documents: its operations read and write one object of a store of objects, and a failed one changes
  nothing; \<open>Memory_Cluster\<close> gives a client for which it holds. It idealises an API server: what is stored is
  what was written, without defaults or admission, and a deletion takes the object away at once, whatever its
  finalizers. A deletion may fail for any reason. The unbounded loop of
  \<^verbatim>\<open>GeometricExpectedReleaseLatency\<close> is a partial function, \<open>None\<close> when it does not return; there is no fuel
  anywhere.

  \<^bold>\<open>Interfaces.\<close> The locale \<open>deployment_contract\<close> states what the handlers rely on (the calls change nothing
  they ask for, \<^verbatim>\<open>setState\<close> sets the state alone) and holds the facts on ticks; it is interpreted on
  incarnations (\<open>inc\<close>). \<open>scaling_strategy\<close> and its extension \<open>ramping_strategy\<close> are the contract of the two
  strategies, \<open>defaulter\<close> that of the defaulting functions, \<open>finalizer_protocol\<close> that of finalizers (of
  release managers, clusters and cluster secrets), \<open>strict_weak_order\<close> that of the comparisons given to
  \<^verbatim>\<open>sort.Slice\<close>. \<open>collection_invariant\<close> holds the facts on predicates of incarnations that every step of
  \<^verbatim>\<open>sync\<close> keeps; it is interpreted for having a target and a known state (\<open>sound\<close>), for percentages that share
  all of the traffic under distinct tags (\<open>fair\<close>) and for having ports (\<open>ported\<close>).

  \<^bold>\<open>What the groups of lemmas show.\<close> Of the release: traffic is divided without loss, drained before an end
  state, raised only with replicas to carry it, and given to nobody untested, and no reconciliation writes
  statuses that share more than all of it (C1, C3, C5 to C8, C10, C11, C13 to C15, C27 to C34). Of the clusters: a write is
  idempotent and touches one object, the plan of an application and the choice of an autoscaler implement
  their abstract specifications (\<open>SyncApp_base\<close> and \<open>SyncApp_routes\<close>, \<open>wanted_autoscaler\<close>), running pods are never rewritten, and
  removal is exact (C4, C9, C16 to C25). Of the two together: the traffic that the statuses written by a
  reconciliation report is the traffic that every cluster of the fleet serves, but for a cluster that refuses
  to delete the alert rules, an error the plan of an application loses (C2, C24). Of the reconcilers: when a revision fails, what deletion
  does, and that the copies of secrets are complete (C12, C26, C35, C36). Of the API:
  defaulting, validation and statuses (C37 to C40). What the code does not do as meant is stated as it is
  (\<open>new_revision_set\<close>, \<open>failed_rules_skip_routes\<close>, \<open>selector_panics\<close>, \<open>RemoteClients_empty_key\<close>,
  \<open>ClusterSecrets_never_finalized\<close>, \<open>Manager_no_live\<close>).

  \<^bold>\<open>Not modelled.\<close> Metrics gauges, logs and events; the HTTP clients for Slack and Sentry, which no
  controller calls, \<^verbatim>\<open>main.go\<close> and the
  registration of controllers, generated code and mocks, the kind lookups by reflection and the list wrappers.
  \<^verbatim>\<open>Incarnation.taggedRoutes\<close> is never called. The defaults an API server adds to an object, which make it
  differ from what was written, are outside the store. Hexadecimal, infinite and not-a-number floats do not
  parse in the model. The objectives of \<^verbatim>\<open>SlothServiceLevelObjectives\<close> are values where the code has
  pointers: an API server rejects nil ones. The operations \<open>m_apply\<close> and \<open>m_observe\<close> of the reconciler are fields of
  its context; \<open>runs_on_fleet\<close> says that the former is \<open>fleet_apply\<close>, the plans of \<open>Plan_Apply\<close> on every
  cluster, and that a plan that panics, which ends the program, leaves their states. The witness of C2 runs \<open>Manager_Reconcile\<close> so, on two clusters in memory.
\<close>

section \<open>Traffic\<close>

text \<open>
  C1: dividing the traffic (\<^verbatim>\<open>prepareRevisions\<close>) never panics on a sound collection with a deployed
  revision. The weights add up to 100 as soon as some incarnation takes traffic and to 0 otherwise, every
  revision gets exactly the weight its status records, no state, revision or tag changes, only what takes
  traffic has a percentage afterwards, and only a drained incarnation loses its eligibility.
\<close>

theorem traffic_division:
  assumes "sound_collection (x_rm x) ic" "deployed_incs ic \<noteq> []"
  shows "\<exists>revs ic'. prepareRevisions x now ic = Some (revs, ic') \<and>
    wf_collection ic' \<and> all_alike ic' ic \<and>
    sum_list (map (\<lambda>pr. unat (prv_Weight pr)) revs) =
      (if \<exists>i \<in> snd ` set ic. takes_traffic i then 100 else 0) \<and>
    (\<forall>t. weight_to revs t = unat (pct ic' t)) \<and>
    (\<forall>t. elig ic' t \<noteq> elig ic t \<longrightarrow> pct ic' t = 0 \<and> \<not> elig ic' t) \<and>
    (\<forall>t. pct ic' t \<noteq> 0 \<longrightarrow> (\<exists>i. map_of ic t = Some i \<and> takes_traffic i))"
  by (rule prepareRevisions_total [OF assms])

text \<open>An old release with all the traffic and a new one that may start.\<close>

definition two_releases :: Collection where
  "two_releases = [(''v1'', an_inc ''v1'' released 100 100 4), (''v2'', an_inc ''v2'' releasing 0 0 4)]"

lemma sorted_two: "set (sorted_incs two_releases) = {an_inc ''v1'' released 100 100 4, an_inc ''v2'' releasing 0 0 4}"
  by (auto simp: two_releases_def)

lemma traffic_division_witness:
  "\<exists>revs ic'. prepareRevisions a_ctx 5 two_releases = Some (revs, ic') \<and>
     sum_list (map (\<lambda>pr. unat (prv_Weight pr)) revs) = 100"
proof -
  have s: "sound_collection (x_rm a_ctx) two_releases"
    by (auto simp: sound_collection_def wf_collection_def two_releases_def)
  have d: "deployed_incs two_releases \<noteq> []"
    using sorted_two by (force simp: deployed_incs_def filter_empty_conv)
  have t: "\<exists>i \<in> snd ` set two_releases. takes_traffic i"
    by (auto simp: two_releases_def takes_traffic_def)
  from traffic_division [OF s d, of 5] t show ?thesis by auto
qed

section \<open>The release state machine\<close>

text \<open>
  C5: a tick never makes an incarnation retired, failed or deleted while it has traffic: at every tick that
  enters one of these states its percentage is 0 before and after.
\<close>

theorem drained_before_end:
  assumes "inc_tick x now (i, c) = Some (None, i', c')"
    "state_of i' \<in> {retired, failed, deleted}" "state_of i' \<noteq> state_of i"
  shows "currentPercent i' = 0 \<and> currentPercent i = 0"
proof -
  have "current (inc_deployment x now) (i', c') \<in> {retired, failed, deleted}"
    "current (inc_deployment x now) (i', c') \<noteq> current (inc_deployment x now) (i, c)"
    using assms(2,3) unfolding current_inc by simp_all
  from inc.drained_entry [OF assms(1) [unfolded inc_tick_def] this] show ?thesis
    by (simp add: inc_deployment_def)
qed

lemma orphan_deleting:
  "inc_tick a_ctx 5 (orphan ''v1'' deleting, []) =
     Some (None, setState 5 deleted (orphan ''v1'' deleting),
       [PlanDeleteCanaryRules \<lparr>dcr_App = ''app'', dcr_Namespace = ''app-production'', dcr_Tag = ''v1''\<rparr>,
        PlanDeleteRevision \<lparr>drv_Labels = defaultLabels a_rm (orphan ''v1'' deleting),
          drv_Namespace = ''app-production''\<rparr>])"
  by (simp add: inc_tick_def tick_def current_inc Deleting_def call_defs inc_deployment_def
      inc_deleteCanaryRules_def inc_deleteTaggedServiceLevels_def del_def applyPlan_def
      current_def state_of_inc)

lemma drained_before_end_witness:
  "state_of (setState 5 deleted (orphan ''v1'' deleting)) = deleted \<and>
   currentPercent (setState 5 deleted (orphan ''v1'' deleting)) = 0"
  using drained_before_end [OF orphan_deleting] by (simp add: state_of_def orphan_def an_inc_def)

text \<open>
  C6: ticks follow the transition graph \<open>successors\<close>: a tick without an error leads from a state to one of
  its successors, and a tick whose calls fail leaves the state as it is.
\<close>

theorem tick_follows_graph:
  assumes "inc_tick x now (i, c) = Some (err, i', c')"
  shows "case err of None \<Rightarrow> state_of i' \<in> set (successors (state_of i)) | Some e \<Rightarrow> state_of i' = state_of i"
proof (cases err)
  case None
  with inc.tick_successor [OF assms [unfolded inc_tick_def None]] show ?thesis by (simp add: current_inc)
next
  case (Some e)
  with inc.tick_error [OF assms [unfolded inc_tick_def Some]] show ?thesis by (simp add: current_inc)
qed

lemma tick_follows_graph_witness:
  "state_of (setState 5 deleted (orphan ''v1'' deleting)) \<in> set (successors deleting)"
  using tick_follows_graph [OF orphan_deleting] by simp

text \<open>
  The transition graph is exact: every edge of it is taken by some tick of the handlers, so none of the
  transitions that the graph allows is dead.
\<close>

theorem graph_is_exact:
  assumes "s \<in> set AllStates" "s' \<in> set (successors s)"
  shows "\<exists>w w' now. current flags_deployment w = s \<and> current flags_deployment w' = s' \<and>
    tick flags_deployment now (Some 0) w = Some (None, w')"
  by (rule graph_complete [OF assms])

lemma graph_is_exact_witness:
  "\<exists>w w' now. current flags_deployment w = releasing \<and> current flags_deployment w' = released \<and>
    tick flags_deployment now (Some 0) w = Some (None, w')"
  by (rule graph_is_exact) (simp_all add: AllStates_def state_names_def)

text \<open>
  C7: an incarnation counts as released only when its revision is there and not marked as failed, it is
  eligible for release, and it has had all of the traffic.
\<close>

theorem released_had_all_traffic:
  assumes "inc_tick x now (i, c) = Some (None, i', c')" "state_of i' = released"
  shows "peakPercent i' \<ge> 100 \<and> hasRevision i' \<and> \<not> markedAsFailed i' \<and> isReleaseEligible i'"
proof -
  have "current (inc_deployment x now) (i', c') = released"
    using assms(2) unfolding current_inc by simp
  from inc.released_entry [OF assms(1) [unfolded inc_tick_def] this] show ?thesis
    by (simp add: inc_deployment_def)
qed

lemma stray_releasing:
  "inc_tick a_ctx 5 (stray ''v1'' releasing 100 100, []) =
     Some (None, setState 5 released (stray ''v1'' releasing 100 100), [])"
  by (simp add: inc_tick_def tick_def current_inc Releasing_def HasFailed_def call_defs inc_deployment_def
      sync_def inc_deleteTaggedServiceLevels_def getExternalTestStatus_def current_def state_of_inc)

lemma released_had_all_traffic_witness:
  "peakPercent (setState 5 released (stray ''v1'' releasing 100 100)) \<ge> 100"
  using released_had_all_traffic [OF stray_releasing] by (simp add: state_of_def)

text \<open>
  C8: while its external test is pending or started, an incarnation that gets no live traffic never comes
  into a state in which it does, over every history of ticks and of changes between them.
\<close>

theorem untested_never_live:
  assumes "untested_history ic ic'" "state_of (fst ic) \<notin> live_states"
  shows "state_of (fst ic') \<notin> live_states"
  by (rule untested_history_not_live [OF assms])

text \<open>An incarnation whose external test has started, ticked from \<^verbatim>\<open>pendingtest\<close> to \<^verbatim>\<open>testing\<close>.\<close>

definition under_test :: "State \<Rightarrow> Incarnation" where
  "under_test s = (an_inc ''v1'' s 0 0 2)\<lparr>inc_revision := Some (with_target
     (\<lambda>t. t\<lparr>rt_ExternalTest := (rt_ExternalTest t)\<lparr>et_Enabled := True, et_Started := True\<rparr>\<rparr>) a_revision)\<rparr>"

lemma under_test_simps [simp]:
  "state_of (under_test s) = s" "hasRevision (under_test s)" "\<not> markedAsFailed (under_test s)"
  "getExternalTestStatus a_rm (under_test s) = ExternalTestStarted"
  "\<not> isTimingOut a_rm now (under_test s)"
  by (simp_all add: under_test_def state_of_def hasRevision_def markedAsFailed_def getExternalTestStatus_def
      target_def TargetExternalTestStatus_def isTimingOut_def samples)

lemma under_test_tick:
  "inc_tick a_ctx 5 (under_test pendingtest, c) = Some (None, setState 5 testing (under_test pendingtest), c)"
  by (simp add: inc_tick_def tick_def current_inc PendingTest_def HasFailed_def inc_deployment_def
      current_def state_of_inc)

lemma untested_never_live_witness:
  "state_of (setState 5 testing (under_test pendingtest)) \<notin> live_states"
proof -
  have "untested_history (under_test pendingtest, [] :: Plan list)
      (setState 5 testing (under_test pendingtest), [])"
    by (rule untested_history.ticked [OF untested_history.start _ under_test_tick]) simp
  from untested_never_live [OF this] show ?thesis by (simp add: live_states_def)
qed

text \<open>
  C10: an incarnation whose revision is gone and that has no traffic is deleted by its next two ticks, from
  every state, as long as the clusters accept the plans.
\<close>

theorem gone_is_deleted:
  assumes "\<forall>p c. fst (x_apply x p c) = None" "\<not> hasRevision i" "currentPercent i = 0"
    "state_of i \<in> set AllStates"
  shows "\<exists>i' c'. inc_ticks x [t1, t2] (i, c) = Some (i', c') \<and> state_of i' = deleted"
  using gone_deleted [of x "(i, c)" t1 t2] assms by simp

lemma gone_is_deleted_witness:
  "\<exists>i' c'. inc_ticks a_ctx [5, 6] (orphan ''v1'' released, []) = Some (i', c') \<and> state_of i' = deleted"
  by (rule gone_is_deleted) (simp_all add: AllStates_def state_names_def)

text \<open>
  C11: a revision marked as failed goes to \<^verbatim>\<open>failing\<close> at its next tick, from every state past
  \<^verbatim>\<open>created\<close> that is not already on its way out, unless it is under test.
\<close>

theorem failed_revision_fails:
  assumes "hasRevision i" "markedAsFailed i"
    "state_of i \<in> {deploying, deployed, pendingtest, tested, pendingrelease, releasing, released,
      retired, canarying, canaried, timingout}"
  shows "\<exists>i' c'. inc_tick x now (i, c) = Some (None, i', c') \<and> state_of i' = failing"
proof -
  have "d_hasRevision (inc_deployment x now) (i, c)" "d_markedAsFailed (inc_deployment x now) (i, c)"
    using assms(1,2) by (simp_all add: inc_deployment_def)
  from inc.marked_failing [OF this, unfolded current_inc] assms(3) show ?thesis
    by (simp add: inc_tick_def)
qed

lemma failed_revision_fails_witness:
  "\<exists>i' c'. inc_tick a_ctx 5 ((an_inc ''v1'' released 100 100 2)\<lparr>inc_revision :=
     Some (a_revision\<lparr>rev_Spec := (rev_Spec a_revision)\<lparr>rsp_Failed := True\<rparr>\<rparr>)\<rparr>, []) = Some (None, i', c') \<and>
     state_of i' = failing"
  by (rule failed_revision_fails) (simp_all add: hasRevision_def markedAsFailed_def state_of_def an_inc_def)

text \<open>
  C13: what a tick asks of the clusters, in order, is a prefix of the calls of the state it starts in. It
  deletes the objects of an incarnation only when the revision is gone and gets no traffic, retires it only
  when it gets none or is retired or failed already, and syncs it only when it has a revision.
\<close>

theorem tick_calls_guarded:
  assumes "tick (traced (inc_deployment x now)) now lu ((i, c), []) = Some (err, ic', l)"
  shows "prefix l (calls_of (state_of i)) \<and>
    (CDel \<in> set l \<longrightarrow> \<not> hasRevision i \<and> currentPercent i = 0) \<and>
    (CRetire \<in> set l \<longrightarrow> hasRevision i \<and> (state_of i \<in> {retired, failed} \<or> currentPercent i = 0)) \<and>
    (CSync \<in> set l \<longrightarrow> hasRevision i)"
  using inc.tick_calls [OF assms] unfolding current_inc by (simp add: inc_deployment_def)

lemma tick_calls_guarded_witness:
  "\<exists>ic' l. tick (traced (inc_deployment a_ctx 5)) 5 None ((orphan ''v1'' deleting, []), []) =
     Some (None, ic', l) \<and> CDel \<in> set l \<and> \<not> hasRevision (orphan ''v1'' deleting)"
proof -
  have t: "\<exists>ic'. tick (traced (inc_deployment a_ctx 5)) 5 None ((orphan ''v1'' deleting, []), []) =
     Some (None, ic', [CDeleteCanaryRules, CDeleteTaggedServiceLevels, CDel])"
    by (simp add: tick_def current_def Deleting_def call_defs traced_def logged_def inc_deployment_def
        inc_deleteCanaryRules_def inc_deleteTaggedServiceLevels_def del_def applyPlan_def state_of_inc)
  then obtain ic' where e: "tick (traced (inc_deployment a_ctx 5)) 5 None ((orphan ''v1'' deleting, []), []) =
     Some (None, ic', [CDeleteCanaryRules, CDeleteTaggedServiceLevels, CDel])" by blast
  from tick_calls_guarded [OF e] e show ?thesis by auto
qed

section \<open>Ramping\<close>

text \<open>
  C14: an incarnation's percentage is raised only when the fleet has the replicas for it: whenever the
  scaling strategy answers with more than the current percentage, the computation of the replicas the ramp
  needs succeeded and the incarnation has at least that many.
\<close>

theorem raise_has_replicas:
  assumes "target (x_rm x) i = Some t" "scalable (rt_Release t)" "Scale x i mx now = Some p"
    "currentPercent i < p"
  shows "\<exists>c. computeFleetReplicasRequiredForRamp x i p = Some c \<and>
    rc_expectedReplicas c \<le> rsc_Current (rs_Scale (inc_status i))"
  using Scale_raise [OF assms] unfolding CanRampTo_replicas .

lemma raise_has_replicas_witness:
  "Scale a_ctx (an_inc ''v1'' releasing 10 10 100) 100 5 = Some 15 \<and>
   (\<exists>c. computeFleetReplicasRequiredForRamp a_ctx (an_inc ''v1'' releasing 10 10 100) 15 = Some c \<and>
     rc_expectedReplicas c \<le> 100)"
proof -
  have s: "Scale a_ctx (an_inc ''v1'' releasing 10 10 100) 100 5 = Some 15" by code_simp
  from raise_has_replicas [of a_ctx "an_inc ''v1'' releasing 10 10 100" a_target, OF _ _ this] s
  show ?thesis by simp
qed

text \<open>
  C15: the percentage an incarnation is to have always exists for a sound incarnation and never exceeds
  what is left for it, so the assertion in the division of the traffic cannot fail.
\<close>

theorem percent_target_within:
  assumes "sound (x_rm x) i"
  shows "\<exists>p. currentPercentTarget x now i mx = Some p \<and> p \<le> mx"
  using currentPercentTarget_total [OF assms] currentPercentTarget_le [OF assms] by blast

lemma percent_target_within_witness:
  "\<exists>p. currentPercentTarget a_ctx 5 (an_inc ''v1'' releasing 10 10 4) 30 = Some p \<and> p \<le> 30"
  by (rule percent_target_within) simp

text \<open>A canary never gets more than the percentage its target allows to canaries.\<close>

theorem canary_within_share:
  assumes "sound (x_rm x) i" "state_of i = canarying" "target (x_rm x) i = Some t"
    "currentPercentTarget x now i mx = Some p"
  shows "p \<le> ca_Percent (rt_Canary t)"
  by (rule canary_share [OF assms])

lemma canary_within_share_witness:
  "\<exists>p. currentPercentTarget a_ctx 5 (an_inc ''v1'' canarying 0 0 4) 100 = Some p \<and> p \<le> 10"
proof -
  have "sound (x_rm a_ctx) (an_inc ''v1'' canarying 0 0 4)" by simp
  moreover from currentPercentTarget_total [OF this]
  obtain p where p: "currentPercentTarget a_ctx 5 (an_inc ''v1'' canarying 0 0 4) 100 = Some p" by blast
  ultimately have "p \<le> ca_Percent (rt_Canary a_target)"
    by (intro canary_within_share [where i = "an_inc ''v1'' canarying 0 0 4" and x = a_ctx]) simp_all
  with p show ?thesis by (simp add: a_target_def)
qed

text \<open>
  C31: a linear ramp ends: when the replicas always suffice, repeating the scaling every delay brings the
  percentage to its cap, the smaller of the release's maximum and the limit given, in at most as many steps
  as the cap has points.
\<close>

theorem linear_ramp_completes:
  assumes "linear_sane (t_ReleaseInfo st)" "ls_Delay (ri_LinearScaling (t_ReleaseInfo st)) = Some d"
    "\<And>p. t_CanRampTo st p" "unat (cap (t_ReleaseInfo st) mx) \<le> n" "0 < n"
  shows "\<exists>st'. ramp LinearScale mx d n st = Some st' \<and> t_CurrentPercent st' = cap (t_ReleaseInfo st) mx"
  by (rule linear_ramp.ramp_reaches [OF assms])

definition a_scaling :: ScalableTarget where
  "a_scaling = \<lparr>t_CanRampTo = \<lambda>_. True, t_CurrentPercent = 0, t_PeakPercent = 0, t_LastUpdated = 0,
     t_ReleaseInfo = a_release\<rparr>"

lemma linear_ramp_completes_witness:
  "\<exists>st'. ramp LinearScale 100 0 100 a_scaling = Some st' \<and> t_CurrentPercent st' = 100"
proof -
  have c: "cap (t_ReleaseInfo a_scaling) 100 = 100" by (simp add: cap_def a_scaling_def a_release_def)
  have "\<exists>st'. ramp LinearScale 100 0 100 a_scaling = Some st' \<and>
      t_CurrentPercent st' = cap (t_ReleaseInfo a_scaling) 100"
    by (rule linear_ramp_completes)
      (simp_all add: c, simp_all add: a_scaling_def a_release_def linear_sane_def)
  then show ?thesis by (simp add: c)
qed

text \<open>A geometric ramp ends in the same way.\<close>

theorem geometric_ramp_completes:
  assumes "geometric_sane (t_ReleaseInfo st)" "gs_Delay (ri_GeometricScaling (t_ReleaseInfo st)) = Some d"
    "\<And>p. t_CanRampTo st p" "unat (cap (t_ReleaseInfo st) mx) \<le> n" "0 < n"
  shows "\<exists>st'. ramp GeometricScale mx d n st = Some st' \<and> t_CurrentPercent st' = cap (t_ReleaseInfo st) mx"
  by (rule geometric_ramp.ramp_reaches [OF assms])

lemma geometric_ramp_completes_witness:
  "\<exists>st'. ramp GeometricScale 100 0 100 a_scaling = Some st' \<and> t_CurrentPercent st' = 100"
proof -
  have c: "cap (t_ReleaseInfo a_scaling) 100 = 100" by (simp add: cap_def a_scaling_def a_release_def)
  have "\<exists>st'. ramp GeometricScale 100 0 100 a_scaling = Some st' \<and>
      t_CurrentPercent st' = cap (t_ReleaseInfo a_scaling) 100"
    by (rule geometric_ramp_completes)
      (simp_all add: c, simp_all add: a_scaling_def a_release_def geometric_sane_def)
  then show ?thesis by (simp add: c)
qed

text \<open>
  C32: the loop that estimates the latency of a geometric release ends after at most 32 turns when the
  factor is at least 2, the start is not 0 and the maximum times the factor fits in 32 bits; with the
  factor 1 below the maximum it never ends.
\<close>

theorem geometric_latency_loop:
  assumes "c < mx" "0 < c"
  shows "geometric_iterations 1 mx c i = None \<and>
    (2 \<le> unat factor \<longrightarrow> unat mx * unat factor < 2 ^ 32 \<longrightarrow>
      (\<exists>n. 0 < n \<and> n \<le> 32 \<and> geometric_iterations factor mx c i = Some (i + int n)))"
  using geometric_iterations_diverges [OF assms(1)]
    geometric_iterations_terminates [of mx factor c i] assms by (simp add: less_imp_le)

lemma geometric_latency_loop_witness:
  "geometric_iterations 1 100 10 0 = None \<and>
   (\<exists>n. 0 < n \<and> n \<le> 32 \<and> geometric_iterations 2 100 10 0 = Some (int n))"
  using geometric_latency_loop [of 10 100 0 2] by simp

section \<open>Replicas\<close>

text \<open>
  C33: dividing replicas at 100 percent gives every live cluster the exact quotient rounded up, at least
  one, with the floating-point operations of the code and no rounding error for any \<^verbatim>\<open>int32\<close> count.
\<close>

theorem divideReplicas_exact:
  assumes "0 \<le> n" "n < 2 ^ 31" "100 \<le> p" "p < 2 ^ 31" "live_clusters c < 2 ^ 31"
  shows "divideReplicas c n p = max 1 \<lceil>(of_int n :: rat) / of_int (max 1 (int (live_clusters c)))\<rceil>"
  by (rule divideReplicas_full [OF assms])

definition three_clusters :: ClusterInfoList where
  "three_clusters = map (\<lambda>n. \<lparr>inf_Name = n, inf_Live = True, inf_ScalingFactor = 1\<rparr>) [''a'', ''b'', ''c'']"

lemma divideReplicas_exact_witness: "divideReplicas three_clusters 10 100 = 4"
proof -
  have l: "live_clusters three_clusters = 3" by (simp add: live_clusters_def three_clusters_def)
  have "\<lceil>(10 :: rat) / 3\<rceil> = 4" by (simp add: ceiling_eq_iff)
  then show ?thesis using divideReplicas_exact [of 10 100 three_clusters] by (simp add: l)
qed

text \<open>
  The division is monotone in the count and in the percentage, the rounded intermediate results
  included: asking for more replicas or a larger share never gives a cluster fewer.
\<close>

theorem divideReplicas_monotone:
  assumes "0 \<le> n" "n \<le> n'" "n' < 2 ^ 31" "0 \<le> p" "p \<le> p'" "p' < 2 ^ 31" "live_clusters c < 2 ^ 31"
  shows "divideReplicas c n p \<le> divideReplicas c n' p'"
  by (rule divideReplicas_mono [OF assms])

lemma divideReplicas_monotone_witness: "divideReplicas three_clusters 10 7 \<le> divideReplicas three_clusters 11 30"
  by (rule divideReplicas_monotone) (simp_all add: live_clusters_def three_clusters_def)

section \<open>Garbage and observation\<close>

text \<open>
  C34: garbage collection selects only revisions that are expired and in a state that may be deleted, spares
  the three newest retired ones, and never selects all of its input.
\<close>

theorem garbage_selection:
  assumes "FindGarbage I now DefaultStrategy revisions = Some (Inr out)"
  shows "(\<forall>r \<in> set out. r \<in> set revisions \<and> expired I now r \<and> deletable_state (g_State I r)) \<and>
    subseq (filter (\<lambda>r. g_State I r = retired) out)
      (drop MinimumRetired (filter (\<lambda>r. g_State I r = retired) (sortRevisions I revisions))) \<and>
    length out < length revisions"
proof -
  have d: "defaultStrategy I now revisions = Some out"
    using assms by (auto simp: FindGarbage_def)
  have "set out \<subseteq> set (select_garbage I now MinimumRetired (sortRevisions I revisions))"
    using defaultStrategy_subseq [OF d] by (auto elim: list_emb_set)
  then have "\<forall>r \<in> set out. r \<in> set revisions \<and> expired I now r \<and> deletable_state (g_State I r)"
    by (auto dest!: select_garbage_set subsetD simp: sortRevisions_def)
  then show ?thesis using defaultStrategy_keeps [OF d] defaultStrategy_less [OF d] by blast
qed

text \<open>Revisions that are their age, all retired, with no time to live.\<close>

definition by_age :: "int RevisionI" where
  "by_age = \<lparr>g_State = \<lambda>_. retired, g_TTL = \<lambda>_. 0, g_CreatedOn = \<lambda>n. n\<rparr>"

lemma garbage_selection_witness:
  "FindGarbage by_age 10 DefaultStrategy [1, 2, 3, 4, 5] = Some (Inr [2, 1]) \<and>
   expired by_age 10 2 \<and> expired by_age 10 1"
proof -
  have f: "FindGarbage by_age 10 DefaultStrategy [1, 2, 3, 4, 5] = Some (Inr [2, 1])"
    by code_simp
  from garbage_selection [OF f] f show ?thesis by simp
qed

text \<open>
  The default strategy panics on an empty list of revisions, and only then: its guard slices one
  element off an empty selection.
\<close>

theorem garbage_panics_on_empty: "FindGarbage I now DefaultStrategy revisions = None \<longleftrightarrow> revisions = []"
  by (simp add: FindGarbage_def defaultStrategy_None)

text \<open>
  What the operator reads of a tag in an observation: there is information exactly when some replica
  set has the tag, and for the live and the standby clusters each it is the minimum, the maximum, the sum
  and the number of the available replicas of the tag's replica sets there.
\<close>

theorem observed_statistics:
  assumes "tag_live tag live os \<noteq> []" "\<forall>rs \<in> set os. 0 \<le> rep_Current rs"
    "sum_list (map rep_Current (tag_live tag live os)) < 2 ^ 31" "length os < 2 ^ 31"
  shows "\<exists>dis. InfoForTag os tag = Some dis \<and>
    di_Current (GetInfo dis live) =
      \<lparr>i_Min = Min (rep_Current ` set (tag_live tag live os)),
       i_Max = Max (rep_Current ` set (tag_live tag live os)),
       i_Sum = sum_list (map rep_Current (tag_live tag live os)),
       i_Count = int (length (tag_live tag live os))\<rparr>"
proof -
  have mem: "set (tag_live tag live os) \<subseteq> set os" by (auto simp: tag_live_def)
  have "tag \<in> rep_Tag ` set os"
    using assms(1) by (force simp: tag_live_def filter_empty_conv)
  then obtain dis where d: "InfoForTag os tag = Some dis" using InfoForTag_None by fastforce
  have "length (tag_live tag live os) \<le> length os" by (simp add: tag_live_def)
  then have "fold Record (map rep_Current (tag_live tag live os)) zero_IntStat =
      \<lparr>i_Min = Min (set (map rep_Current (tag_live tag live os))),
       i_Max = Max (set (map rep_Current (tag_live tag live os))),
       i_Sum = sum_list (map rep_Current (tag_live tag live os)),
       i_Count = int (length (map rep_Current (tag_live tag live os)))\<rparr>"
    using assms mem by (intro Record_all) auto
  then show ?thesis using d InfoForTag_Some [OF d, of live] by simp
qed

definition two_sets :: Observation where
  "two_sets = map (\<lambda>(n, c). \<lparr>rep_Desired = n, rep_Current = c, rep_Tag = ''v1'',
     rep_Cluster = \<lparr>oc_Name = ''a'', oc_Live = True\<rparr>\<rparr>) [(3, 3), (5, 2)]"

lemma observed_statistics_witness:
  "\<exists>dis. InfoForTag two_sets ''v1'' = Some dis \<and> i_Min (di_Current (GetInfo dis True)) = 2 \<and>
     i_Sum (di_Current (GetInfo dis True)) = 5"
proof -
  have t: "tag_live ''v1'' True two_sets = two_sets" by (simp add: tag_live_def two_sets_def)
  from observed_statistics [of "''v1''" True two_sets, unfolded t] show ?thesis
    by (auto simp: two_sets_def)
qed

text \<open>
  An incarnation counts as deployed after an observation exactly when it has as many available
  replicas as wanted, is seen in at least as many live replica sets as there are live clusters, and none of
  them is without an available replica.
\<close>

theorem deployed_when:
  "isDeployed (inc_update ci now (Some di) i) \<longleftrightarrow>
     i_Sum (di_Current di) \<ge> i_Sum (di_Desired di) \<and>
     i_Count (di_Current di) \<ge> int (live_clusters ci) \<and> i_Min (di_Current di) > 0"
  by (rule isDeployed_update)

section \<open>Collections\<close>

text \<open>
  The collection built for a reconciliation is well formed (one incarnation per tag), has an
  incarnation for every revision, at most one ramping incarnation, and leaves the release manager's
  specification as it is.
\<close>

theorem collection_built:
  assumes "newIncarnationCollection ci now rm revs ob = (ic, rm')"
  shows "wf_collection ic \<and> (\<lambda>r. ra_Tag (rsp_App (rev_Spec r))) ` set revs \<subseteq> fst ` set ic \<and>
    length (filter inc_isRamping (map snd ic)) \<le> 1 \<and> rm_Spec rm' = rm_Spec rm"
  using newIncarnationCollection_facts [OF assms] by simp

lemma collection_built_witness:
  "\<exists>ic rm'. newIncarnationCollection (x_clusterInfo a_ctx) 5 a_rm [a_revision] two_sets = (ic, rm') \<and>
     ''v1'' \<in> fst ` set ic"
proof -
  obtain ic rm' where n:
    "newIncarnationCollection (x_clusterInfo a_ctx) 5 a_rm [a_revision] two_sets = (ic, rm')" by force
  from collection_built [OF n] n show ?thesis by (auto simp: a_revision_def)
qed

text \<open>Every incarnation is listed once, either among the releasable ones or among the others.\<close>

theorem traffic_partition:
  assumes "wf_collection ic"
  shows "mset (releasable ic @ unreleasable ic) = mset (map snd ic) \<and>
    (\<forall>i \<in> snd ` set ic. i \<in> set (releasable ic) \<longleftrightarrow> takes_traffic i)"
  using releasable_partition [OF assms] by (simp add: set_releasable)

lemma traffic_partition_witness: "mset (releasable two_releases @ unreleasable two_releases) = mset (map snd two_releases)"
proof -
  have "wf_collection two_releases" by (simp add: wf_collection_def two_releases_def)
  from traffic_partition [OF this] show ?thesis by blast
qed

section \<open>The reconciliation\<close>

text \<open>
  C28: the last loop of \<^verbatim>\<open>sync\<close>, which calls a method of the revision without testing it, never meets
  a missing one: when all the steps before it succeed, the statuses to write back exist, although
  incarnations without a revision may be in the collection in any state.
\<close>

theorem sync_never_misses_revision:
  assumes "steps (sync_steps x faults now) (ic, c) = Some (None, ic', c')" "wf_collection ic"
  shows "\<exists>rs. final_statuses ic' = Some rs"
proof -
  have "all_safe (ic', c')" by (rule sync_steps_safe [OF assms(1)]) (simp add: assms(2))
  then show ?thesis using final_statuses_safe [of ic'] by (simp add: all_safe_incs)
qed

text \<open>An incarnation without a revision in the state \<^verbatim>\<open>deploying\<close>.\<close>

lemma orphan_steps:
  "(case steps (sync_steps a_ctx [] 5) ([(''v1'', orphan ''v1'' deploying)], []) of
      Some (None, s') \<Rightarrow> True | _ \<Rightarrow> False)"
  by code_simp

lemma sync_never_misses_revision_witness:
  "\<exists>ic' c' rs. steps (sync_steps a_ctx [] 5) ([(''v1'', orphan ''v1'' deploying)], []) = Some (None, ic', c') \<and>
     final_statuses ic' = Some rs"
proof -
  obtain ic' c' where s:
    "steps (sync_steps a_ctx [] 5) ([(''v1'', orphan ''v1'' deploying)], []) = Some (None, ic', c')"
    using orphan_steps by (auto split: option.splits)
  have "wf_collection [(''v1'', orphan ''v1'' deploying)]" by (simp add: wf_collection_def)
  from sync_never_misses_revision [OF s this] s show ?thesis by blast
qed

text \<open>
  As long as there is a good release (one on its way or released, not failed, that has had traffic), the
  statuses written back are those of the incarnations, from the oldest to the newest, without the deleted
  ones that have no revision.
\<close>

theorem good_release_keeps_statuses:
  assumes "\<forall>p \<in> set ic. safe (snd p)" "\<exists>i \<in> snd ` set ic. good_release i"
  shows "final_statuses ic = Some (statuses (List.rev (sorted_incs ic)))"
  using final_statuses_good [OF _ assms(2)] assms(1) by (simp add: safe_incs_def)

lemma good_release_keeps_statuses_witness:
  "final_statuses two_releases = Some (statuses (List.rev (sorted_incs two_releases)))"
proof -
  have "good_release (an_inc ''v1'' released 100 100 4)"
    by (simp add: good_release_def revision_states_def Revision_Failed_def mget_def a_revision_def
        zero_ObjectMeta_def)
  then show ?thesis
    by (intro good_release_keeps_statuses) (auto simp: two_releases_def safe_def)
qed

text \<open>
  C27: without a good release, the newest retired or retiring incarnation is recommissioned: its status is
  written back as eligible and with a peak of 100 percent, and every other status is written back unchanged.
\<close>

theorem recommissioning:
  assumes "\<forall>p \<in> set ic. safe (snd p)" "\<not> (\<exists>i \<in> snd ` set ic. good_release i)"
    "sorted_incs ic = newer_incs @ i # older_incs" "parked i" "\<forall>j \<in> set newer_incs. \<not> parked j"
  shows "final_statuses ic = Some (statuses (List.rev older_incs) @
    (inc_status i)\<lparr>rs_ReleaseEligible := True, rs_PeakPercent := 100\<rparr> # statuses (List.rev newer_incs))"
  using final_statuses_recommission [OF _ assms(2-5)] assms(1) by (simp add: safe_incs_def)

lemma recommissioning_witness:
  "final_statuses [(''v1'', an_inc ''v1'' retired 0 100 0)] =
     Some [(inc_status (an_inc ''v1'' retired 0 100 0))\<lparr>rs_ReleaseEligible := True, rs_PeakPercent := 100\<rparr>]"
  using recommissioning [of "[(''v1'', an_inc ''v1'' retired 0 100 0)]" "[]" "an_inc ''v1'' retired 0 100 0" "[]"]
  by (simp add: safe_def good_release_def revision_states_def parked_def sorted_incs_def statuses_def)

text \<open>
  A recommissioned revision is deployed again: the incarnation the next reconciliation makes of its
  status leaves \<^verbatim>\<open>retired\<close> for \<^verbatim>\<open>deploying\<close> at its first tick, and keeps its peak of 100.
\<close>

theorem recommissioned_is_deployed:
  assumes "NewIncarnation ci t rm tag (Some r) di = (i, rm')" "\<not> rsp_Failed (rev_Spec r)"
    "find (\<lambda>s. rs_Tag s = tag) (rmst_Revisions (rm_Status rm)) = Some s"
    "st_Current (rs_State s) = retired" "rs_ReleaseEligible s" "rs_PeakPercent s = 100"
  shows "\<exists>i' c'. inc_tick x now (i, c) = Some (None, i', c') \<and> state_of i' = deploying \<and>
    peakPercent i' = 100"
  by (rule recommissioned_redeploys [OF assms])

lemma recommissioned_is_deployed_witness:
  "\<exists>i' c'. inc_tick a_ctx 7 (fst (NewIncarnation (x_clusterInfo a_ctx) 6 (a_rm\<lparr>rm_Status :=
      \<lparr>rmst_Revisions = [inc_status (an_inc ''v1'' retired 0 100 0)], rmst_LastUpdated = None\<rparr>\<rparr>)
      ''v1'' (Some a_revision) None), []) = Some (None, i', c') \<and> state_of i' = deploying"
proof -
  let ?rm = "a_rm\<lparr>rm_Status :=
      \<lparr>rmst_Revisions = [inc_status (an_inc ''v1'' retired 0 100 0)], rmst_LastUpdated = None\<rparr>\<rparr>"
  obtain i rm' where n: "NewIncarnation (x_clusterInfo a_ctx) 6 ?rm ''v1'' (Some a_revision) None = (i, rm')"
    by force
  have "\<exists>i' c'. inc_tick a_ctx 7 (i, []) = Some (None, i', c') \<and> state_of i' = deploying \<and> peakPercent i' = 100"
    by (rule recommissioned_is_deployed [OF n, where s = "inc_status (an_inc ''v1'' retired 0 100 0)"])
      (simp_all add: a_revision_def an_inc_def new_RevisionStatus_def)
  then show ?thesis by (auto simp: n)
qed

text \<open>
  C29: while a revision that uses the ambient mesh has replicas, \<^verbatim>\<open>syncNamespace\<close> removes no object of any
  cluster of the fleet, the waypoint of the namespace included, also when it ends with an error; and when it
  succeeds the waypoint is there in every cluster, with its options, its budget and its autoscaler.
\<close>

theorem waypoint_stays:
  assumes "runs_on_fleet x clusters env finish fleet" "documented_fleet fleet store" "i < length fleet"
    and "hasAmbientReplicas x ic" "syncNamespace x (ic, c) = Some (err, ic', c')"
  shows "dom (store (clusters c ! i)) \<subseteq> dom (store (clusters c' ! i)) \<and>
    (err = None \<longrightarrow> waypoint_keys (TargetNamespace (x_rm x)) \<subseteq> dom (store (clusters c' ! i)))"
proof -
  have "k \<in> dom (store (clusters c' ! i))" if k: "k \<in> dom (store (clusters c ! i))" for k
    using ambient_keeps [OF fleet_ensures [OF assms(1-3)] _ _ assms(5)] assms(4) k by simp
  with ambient_waypoint [OF assms(1-4)] assms(5) show ?thesis by blast
qed

text \<open>Two clusters in memory, without anything at first.\<close>

lemma waypoint_stays_witness:
  "\<exists>c'. syncNamespace a_fleet_ctx (two_releases, ([], [], [])) = Some (None, two_releases, c') \<and>
     waypoint_keys ''app-production'' \<subseteq> dom (mem_store (fst c'))"
proof -
  have "target a_managed i = target a_rm i" for i by (simp add: target_def cong: option.case_cong)
  then have h: "hasAmbientReplicas a_fleet_ctx two_releases"
    using sorted_two
    by (auto simp: hasAmbientReplicas_def hasReplicas_def list_ex_iff a_target_def)
  obtain c' where s: "syncNamespace a_fleet_ctx (two_releases, ([], [], [])) = Some (None, two_releases, c')"
    using quietE [OF quiet_syncNamespace] .
  have "waypoint_keys (TargetNamespace (x_rm a_fleet_ctx)) \<subseteq> dom (mem_store (a_pair c' ! 0))"
    using waypoint_stays [OF a_fleet_runs documented_a_fleet _ h s, of 0] by (simp add: a_fleet_def)
  with s show ?thesis by (simp add: a_pair_def)
qed

section \<open>Revisions: defaults and validation\<close>

text \<open>
  C37: defaulting a revision twice is defaulting it once, and afterwards the release of every target has a
  cap, a schedule, a strategy, positive increments, start and factor, and the delays of both strategies.
\<close>

theorem defaulting_stable:
  "SetObjectDefaults_Revision (SetObjectDefaults_Revision r) = SetObjectDefaults_Revision r \<and>
   list_all (\<lambda>t. release_defaulted (rt_Release t)) (rsp_Targets (rev_Spec (SetObjectDefaults_Revision r)))"
  using revision_defaults.idem [of r] release_defaulted_set
  by (auto simp: SetObjectDefaults_Revision_targets rt_Release_defaulted list_all_iff)

text \<open>
  C38: validation accepts exactly the valid revisions: no target has both bounds of a disruption budget,
  the Karpenter setting is \<^verbatim>\<open>true\<close> or a duration and is not given twice, the strategy is known, and the
  default ingress ports name ports their ingress is offered by, for every ingress offered and no other.
\<close>

theorem validation_exact: "validate r = [] \<longleftrightarrow> list_all valid_target (rsp_Targets (rev_Spec r))"
  by (simp add: validate_Nil list_all_iff)

text \<open>
  The mutating webhook is idempotent, and when each ingress is offered by a single port or by one
  called \<^verbatim>\<open>http\<close> with no explicit default, it gives a target without default ingress ports ones that
  validation accepts.
\<close>

theorem webhook_defaults_valid:
  assumes "rt_DefaultIngressPorts t = None"
    "\<And>g. offers (mutate_target t) g \<noteq> [] \<Longrightarrow>
      (\<exists>p. bucket (bucketIngressPorts (mutate_target t)) g = [p]) \<or>
      (\<exists>p \<in> set (offers (mutate_target t) g). pi_Name p = ''http'') \<and>
      (\<forall>p \<in> set (offers (mutate_target t) g). \<not> pi_Default p)"
    "rsp_Targets (rev_Spec r) = [t]"
  shows "snd (Default (snd (Default r))) = snd (Default r) \<and>
    (\<forall>t' \<in> set (rsp_Targets (rev_Spec (snd (Default r)))). valid_defaults t')"
proof -
  have "valid_defaults (mutate_target t)" by (rule mutate_valid_defaults [OF _ assms(2)]) (simp_all add: assms(1))
  then show ?thesis by (simp add: Default_idem mutated_targets assms(3))
qed

definition a_port :: PortInfo where
  "a_port = \<lparr>pi_Name = ''http'', pi_Hosts = [], pi_IngressPort = 443, pi_Port = 80, pi_ContainerPort = 80,
     pi_Protocol = ''TCP'', pi_Mode = PortPublic, pi_Default = False, pi_Ingresses = None,
     pi_Istio = \<lparr>ipc_HTTP = \<lparr>ih_Retries = None, ih_Timeout = None\<rparr>\<rparr>\<rparr>"

lemma webhook_defaults_valid_witness:
  "list_all valid_defaults (rsp_Targets (rev_Spec (snd (Default
     (with_target (\<lambda>t. t\<lparr>rt_Ports := [a_port]\<rparr>) a_revision)))))"
proof -
  let ?t = "a_target\<lparr>rt_Ports := [a_port]\<rparr>"
  have o: "set (offers (mutate_target ?t) g) \<subseteq> {getIngressesPatch a_port}" for g
    by (auto simp: offers_def mutate_target_def)
  have "(\<exists>p. bucket (bucketIngressPorts (mutate_target ?t)) g = [p]) \<or>
      (\<exists>p \<in> set (offers (mutate_target ?t) g). pi_Name p = ''http'') \<and>
      (\<forall>p \<in> set (offers (mutate_target ?t) g). \<not> pi_Default p)"
    if "offers (mutate_target ?t) g \<noteq> []" for g
  proof -
    have "set (offers (mutate_target ?t) g) = {getIngressesPatch a_port}"
      using o [of g] that by (cases "offers (mutate_target ?t) g") auto
    then show ?thesis by (simp add: getIngressesPatch_def a_port_def Let_def)
  qed
  then show ?thesis
    using webhook_defaults_valid [of ?t "with_target (\<lambda>t. t\<lparr>rt_Ports := [a_port]\<rparr>) a_revision"]
    by (simp add: a_revision_def with_target_def a_target_def list_all_iff)
qed

text \<open>
  C39: an incarnation of a revision that was defaulted and passed validation can be scaled: the strategy of
  its target is one the scaling knows and its delay is there, so its percentage can be computed.
\<close>

theorem validated_is_sound:
  assumes "validate (SetObjectDefaults_Revision r) = []"
    "inc_revision i = Some (SetObjectDefaults_Revision r)" "HasTarget r (rmsp_Target (rm_Spec rm))"
  shows "sound rm i"
proof -
  let ?d = "SetObjectDefaults_Revision r"
  have "\<exists>t \<in> set (rsp_Targets (rev_Spec ?d)). rt_Name t = rmsp_Target (rm_Spec rm)"
    using assms(3) unfolding HasTarget_iff
    by (force simp: SetObjectDefaults_Revision_targets SetSidecarDefaults_def SetDefaults_Target_def)
  then have "target rm i \<noteq> None" by (auto simp: target_def assms(2) find_None_iff)
  then obtain t where t: "target rm i = Some t" by blast
  then have mem: "t \<in> set (rsp_Targets (rev_Spec ?d))"
    by (auto simp: target_def assms(2) find_Some_iff)
  have "release_defaulted (rt_Release t)"
    using mem release_defaulted_set by (auto simp: SetObjectDefaults_Revision_targets rt_Release_defaulted)
  moreover have "valid_strategy t" using assms(1) mem by (simp add: validate_Nil valid_target_def)
  ultimately have "scalable (rt_Release t)"
    by (auto simp: scalable_def valid_strategy_def release_defaulted_def)
  with t show ?thesis by (simp add: sound_def)
qed

lemma validated_is_sound_witness:
  "sound a_rm ((an_inc ''v1'' releasing 0 0 1)\<lparr>inc_revision := Some (SetObjectDefaults_Revision a_revision)\<rparr>)"
proof (rule validated_is_sound [where r = a_revision])
  have "offers t g = []" if "rt_Ports t = []" for t g using that by (simp add: offers_def)
  then show "validate (SetObjectDefaults_Revision a_revision) = []"
    by (simp add: validate_Nil SetObjectDefaults_Revision_targets valid_target_def)
      (simp add: a_revision_def a_target_def valid_defaults_def valid_pdb_def valid_karpenter_def
        valid_strategy_def SetSidecarDefaults_def SetDefaults_Target_def SetReleaseDefaults_def
        a_release_def ScalingStrategyLinear_def or_default_def)
qed (simp_all add: HasTarget_iff a_revision_def a_rm_def)

section \<open>Statuses, schedules and plans\<close>

text \<open>
  C40: a status written back is the status read: after \<^verbatim>\<open>UpdateRevisionStatus\<close> of a known tag,
  \<^verbatim>\<open>RevisionStatus\<close> of it returns what was written, and reading twice registers the tag once.
\<close>

theorem status_roundtrip:
  assumes "rs_Tag u \<in> rs_Tag ` set (rmst_Revisions (rm_Status r))"
  shows "fst (RevisionStatus now (UpdateRevisionStatus r u) (rs_Tag u)) = u \<and>
    RevisionStatus now' (snd (RevisionStatus now r tag)) tag = RevisionStatus now r tag"
  using RevisionStatus_Update [OF assms] by (simp add: RevisionStatus_stable)

lemma status_roundtrip_witness:
  "fst (RevisionStatus 0 (UpdateRevisionStatus (snd (RevisionStatus 0 a_rm ''v1''))
     (inc_status (an_inc ''v1'' released 100 100 4))) ''v1'') = inc_status (an_inc ''v1'' released 100 100 4)"
  using status_roundtrip [of "inc_status (an_inc ''v1'' released 100 100 4)" "snd (RevisionStatus 0 a_rm ''v1'')"]
  by (simp add: an_inc_def new_RevisionStatus_def RevisionStatus_def a_rm_def Let_def)

text \<open>
  The humane schedule permits a release exactly on working days that are no holidays, from 7 to 16
  o'clock, to 14 o'clock on Fridays and before holidays; and whatever it permits, the inhumane one does.
\<close>

theorem humane_schedule:
  assumes "pacific off"
  shows "(humanePermitsRelease off t \<longleftrightarrow>
      date_of_day off (day_of t) \<notin> set (holidays off) \<and> Weekday t \<notin> {Saturday, Sunday} \<and>
      7 \<le> hour_in off (z_Instant t) \<and>
      hour_in off (z_Instant t) < (if Weekday t = Friday \<or>
          date_of_day off (day_of t) + 24 * hour \<in> set (holidays off) then 14 else 16)) \<and>
    (humanePermitsRelease off t \<longrightarrow> inhumanePermitsRelease off t)"
  using humane_iff [OF assms] humane_imp_inhumane [OF assms] by blast

text \<open>Noon on Saturday, 1 June 2024.\<close>

definition a_saturday :: ZonedTime where
  "a_saturday = \<lparr>z_Instant = civil_day 2024 6 1 * day_ns + 19 * hour, z_Offset = - 7 * hour\<rparr>"

lemma humane_schedule_witness: "\<not> humanePermitsRelease (\<lambda>_. - 7 * hour) a_saturday"
proof -
  have "Weekday a_saturday = Saturday" by code_simp
  then show ?thesis using humane_schedule [of "\<lambda>_. - 7 * hour" a_saturday] by (simp add: pacific_def)
qed

text \<open>
  The time stamp of the start of \<^verbatim>\<open>pendingrelease\<close> is never set: no transition of the state
  machine touches it, since the code compares the state with a name no state has.
\<close>

theorem pendingrelease_never_stamped:
  assumes "s \<in> set AllStates"
  shows "rs_PendingReleaseStartTimestamp (inc_status (setState now s i)) =
    rs_PendingReleaseStartTimestamp (inc_status i)"
  by (rule setState_pendingrelease_stamp [OF assms])

lemma pendingrelease_never_stamped_witness:
  "rs_PendingReleaseStartTimestamp (inc_status (setState 5 pendingrelease (an_inc ''v1'' canaried 10 10 2))) = None"
  using pendingrelease_never_stamped [of pendingrelease 5 "an_inc ''v1'' canaried 10 10 2"]
  by (simp add: AllStates_def state_names_def an_inc_def new_RevisionStatus_def)

text \<open>
  Applying a plan to all clusters succeeds exactly when it succeeds on each, and every cluster ends in
  the state its own applier leaves it in, whatever happens to the others and in whichever order they finish.
\<close>

theorem concurrent_plans:
  assumes "length appliers = length cs" "set finish = {..<length cs}"
  shows "(fst (concurrent_apply appliers finish p cs) = None \<longleftrightarrow>
      (\<forall>i < length cs. fst ((appliers ! i) p (cs ! i)) = None)) \<and>
    (\<forall>i < length cs. snd (concurrent_apply appliers finish p cs) ! i = snd ((appliers ! i) p (cs ! i)))"
  using concurrent_apply_ok [OF assms] concurrent_apply_each [OF assms(1)] by blast

lemma concurrent_plans_witness:
  "fst (concurrent_apply [\<lambda>p c. (None, p + c), \<lambda>p c. (Some NotFound, c)] [1, 0] (1::nat) [2, 3]) \<noteq> None \<and>
   snd (concurrent_apply [\<lambda>p c. (None, p + c), \<lambda>p c. (Some NotFound, c)] [1, 0] (1::nat) [2, 3]) ! 0 = 3"
proof -
  have "set [1, 0] = {..<length [2::nat, 3]}" by auto
  from concurrent_plans [of "[\<lambda>p c. (None, p + c), \<lambda>p c. (Some NotFound, c)]" "[2::nat, 3]", OF _ this, of 1]
  show ?thesis by (auto dest: spec [of _ 0] spec [of _ 1])
qed

text \<open>
  The observation of all clusters is the concatenation of theirs, in the order of the observers, when
  each could be observed; otherwise the error is that of one that could not.
\<close>

theorem concurrent_observation:
  assumes "those (map (\<lambda>ob. ob ns) observers) = Some results" "set finish = {..<length results}"
  shows "\<exists>res. ConcurrentObserver_Observe observers finish ns = Some res \<and>
    (case res of
       Inr os \<Rightarrow> (\<forall>r \<in> set results. \<not> isl r) \<and> os = List.concat (map projr results)
     | Inl e \<Rightarrow> Inl e \<in> set results)"
proof (cases "find (\<lambda>i. isl (results ! i)) finish")
  case None
  then have "\<forall>r \<in> set results. \<not> isl r"
    using assms(2) by (auto simp: find_None_iff in_set_conv_nth)
  then show ?thesis
    using None assms(1) by (simp add: ConcurrentObserver_Observe_def fold_Combine)
next
  case (Some i)
  then have "i < length results" "isl (results ! i)"
    using assms(2) by (auto simp: find_Some_iff dest!: nth_mem)
  then obtain e where e: "results ! i = Inl e" "Inl e \<in> set results"
    using nth_mem [of i results] by (cases "results ! i") auto
  have "ConcurrentObserver_Observe observers finish ns = Some (Inl e)"
    using Some assms(1) e(1) by (simp add: ConcurrentObserver_Observe_def)
  then show ?thesis using e(2) by simp
qed

lemma concurrent_observation_witness:
  "\<exists>e. ConcurrentObserver_Observe [\<lambda>_. Some (Inl NotFound)] [0] ''ns'' = Some (Inl e) \<and>
     Inl e \<in> set [Inl NotFound :: goerror + Observation]"
proof -
  have "those (map (\<lambda>ob. ob ''ns'') [\<lambda>_. Some (Inl NotFound)]) = Some [Inl NotFound :: goerror + Observation]"
    by simp
  moreover have "set [0] = {..<length [Inl NotFound :: goerror + Observation]}" by auto
  ultimately obtain res where r: "ConcurrentObserver_Observe [\<lambda>_. Some (Inl NotFound)] [0] ''ns'' = Some res"
    "case res of Inr os \<Rightarrow> (\<forall>r \<in> set [Inl NotFound :: goerror + Observation]. \<not> isl r) \<and>
        os = List.concat (map projr [Inl NotFound]) | Inl e \<Rightarrow> Inl e \<in> set [Inl NotFound :: goerror + Observation]"
    using concurrent_observation [of "''ns''" "[\<lambda>_. Some (Inl NotFound)]"] by blast
  then show ?thesis by (cases res) simp_all
qed

end
